(* ===== verification/Prelude.thy ===== *)
theory Prelude
  imports Main "HOL-Library.AList" "HOL-Library.Monad_Syntax"
begin

text \<open>
  Shared vocabulary of the development: JavaScript objects as insertion-ordered
  association lists, loops that may throw (\<open>foldM\<close>), strings with the operations the
  source uses (\<open>startsWith\<close>, \<open>str_includes\<close>, \<open>split\<close>, \<open>join\<close>), decimal printing, stable sorting
  with a comparator, and the interfaces (locales) that several components share:
  counters, comparators and first-in-first-out worklists over a graph.

  A thrown exception is the value \<^term>\<open>None\<close> of an option; \<^term>\<open>Some\<close> is a normal return.
\<close>

named_theorems obj_simps \<open>laws of objects (lookup after update, delete, spread)\<close>
named_theorems js_eval \<open>evaluation rules for closed JavaScript expressions\<close>

section \<open>Objects\<close>

text \<open>
  An object is the list of its own properties in insertion order. Writing a present key
  keeps its place and writing a new key appends it, which is the order in which
  \<^verbatim>\<open>for (k in o)\<close> visits keys that are not array indices. The resource keys
  \<^verbatim>\<open>kind/namespace/name\<close> contain a slash, so they are never array indices.
\<close>

type_synonym 'v obj = "(string \<times> 'v) list"

abbreviation oget :: "'v obj \<Rightarrow> string \<Rightarrow> 'v option" where
  "oget \<equiv> map_of"

definition oset :: "string \<Rightarrow> 'v \<Rightarrow> 'v obj \<Rightarrow> 'v obj" where
  "oset k v o1 = AList.update k v o1"

definition odel :: "string \<Rightarrow> 'v obj \<Rightarrow> 'v obj" where
  "odel k o1 = AList.delete k o1"

definition ohas :: "string \<Rightarrow> 'v obj \<Rightarrow> bool" where
  "ohas k o1 \<longleftrightarrow> oget o1 k \<noteq> None"

abbreviation okeys :: "'v obj \<Rightarrow> string list" where
  "okeys o1 \<equiv> map fst o1"

text \<open>\<open>ospread a b\<close> is \<^verbatim>\<open>{...a, ...b}\<close>: the keys of \<open>a\<close> first, overridden by \<open>b\<close>.\<close>

definition ospread :: "'v obj \<Rightarrow> 'v obj \<Rightarrow> 'v obj" where
  "ospread a b = map (\<lambda>(k, v). (k, case oget b k of None \<Rightarrow> v | Some w \<Rightarrow> w)) a
                 @ filter (\<lambda>(k, v). oget a k = None) b"

definition wf_obj :: "'v obj \<Rightarrow> bool" where
  "wf_obj o1 \<longleftrightarrow> distinct (okeys o1)"

lemma oget_oset [obj_simps, simp]: "oget (oset k v o1) = (oget o1)(k \<mapsto> v)"
  by (simp add: oset_def update_conv')

lemma oget_odel [obj_simps, simp]: "oget (odel k o1) = (oget o1)(k := None)"
  by (simp add: odel_def delete_conv')

lemma ohas_oset [obj_simps, simp]: "ohas k (oset k' v o1) \<longleftrightarrow> k = k' \<or> ohas k o1"
  by (simp add: ohas_def)

lemma ohas_odel [obj_simps, simp]: "ohas k (odel k' o1) \<longleftrightarrow> k \<noteq> k' \<and> ohas k o1"
  by (simp add: ohas_def)

lemma ohas_Nil [simp]: "\<not> ohas k []"
  by (simp add: ohas_def)

lemma ohas_okeys: "ohas k o1 \<longleftrightarrow> k \<in> set (okeys o1)"
  by (auto simp: ohas_def map_of_eq_None_iff image_iff)

lemma oget_map_values:
  "oget (map (\<lambda>(k, v). (k, f k v)) a) k = map_option (f k) (oget a k)"
  by (induction a) auto

lemma oget_filter_key:
  "oget (filter (\<lambda>(k, v). P k) b) k = (if P k then oget b k else None)"
  by (induction b) auto

lemma oget_ospread [obj_simps, simp]:
  "oget (ospread a b) k = (case oget b k of None \<Rightarrow> oget a k | Some w \<Rightarrow> Some w)"
  by (auto simp: ospread_def map_add_def oget_map_values oget_filter_key split: option.splits)

lemma ohas_ospread [obj_simps, simp]: "ohas k (ospread a b) \<longleftrightarrow> ohas k a \<or> ohas k b"
  by (auto simp: ohas_def split: option.splits)

lemma wf_obj_Nil [simp]: "wf_obj []"
  by (simp add: wf_obj_def)

lemma wf_obj_oset [intro, simp]: "wf_obj o1 \<Longrightarrow> wf_obj (oset k v o1)"
  by (simp add: wf_obj_def oset_def distinct_update)

lemma wf_obj_odel [intro, simp]: "wf_obj o1 \<Longrightarrow> wf_obj (odel k o1)"
  by (simp add: wf_obj_def odel_def distinct_delete)

lemma okeys_map_values: "okeys (map (\<lambda>(k, v). (k, f k v)) a) = okeys a"
  by (induction a) auto

lemma wf_obj_ospread [intro, simp]: "wf_obj a \<Longrightarrow> wf_obj b \<Longrightarrow> wf_obj (ospread a b)"
  unfolding wf_obj_def ospread_def map_append okeys_map_values
  by (auto simp: distinct_map_filter map_of_eq_None_iff image_iff split_beta)

lemma okeys_oset: "okeys (oset k v o1) = (if ohas k o1 then okeys o1 else okeys o1 @ [k])"
  by (auto simp: oset_def update_keys ohas_okeys)

lemma oget_in_set: "oget o1 k = Some v \<Longrightarrow> (k, v) \<in> set o1"
  by (rule map_of_SomeD)

lemma wf_obj_in_set: "wf_obj o1 \<Longrightarrow> (k, v) \<in> set o1 \<longleftrightarrow> oget o1 k = Some v"
  by (auto simp: wf_obj_def dest: map_of_SomeD)

lemma ohas_conv: "ohas k o1 \<longleftrightarrow> (\<exists>v. oget o1 k = Some v)"
  by (auto simp: ohas_def)

lemma set_oset_subset: "snd ` set (oset k v o1) \<subseteq> insert v (snd ` set o1)"
  by (induction o1) (auto simp: oset_def)

lemma set_odel_subset: "set (odel k o1) \<subseteq> set o1"
  by (auto simp: odel_def AList.delete_eq)

lemma oset_fresh: "k \<notin> fst ` set o1 \<Longrightarrow> oset k v o1 = o1 @ [(k, v)]"
  by (induction o1) (auto simp: oset_def)

section \<open>Loops that may throw\<close>

primrec foldM :: "('a \<Rightarrow> 's \<Rightarrow> 's option) \<Rightarrow> 'a list \<Rightarrow> 's \<Rightarrow> 's option" where
  "foldM f [] s = Some s"
| "foldM f (x # xs) s = (case f x s of None \<Rightarrow> None | Some s' \<Rightarrow> foldM f xs s')"

lemma foldM_ConsE:
  assumes "foldM f (x # xs) s = Some t"
  obtains u where "f x s = Some u" "foldM f xs u = Some t"
  using assms by (auto split: option.splits)

lemma foldM_append: "foldM f (xs @ ys) s = Option.bind (foldM f xs s) (foldM f ys)"
  by (induction xs arbitrary: s) (auto split: option.splits)

lemma foldM_inv:
  assumes "\<And>x s s'. x \<in> set xs \<Longrightarrow> P s \<Longrightarrow> f x s = Some s' \<Longrightarrow> P s'"
    and "P s" and "foldM f xs s = Some s'"
  shows "P s'"
  using assms
proof (induction xs arbitrary: s)
  case Nil
  then show ?case by simp
next
  case (Cons x xs)
  from Cons.prems(3) obtain t where t: "f x s = Some t" "foldM f xs t = Some s'"
    by (auto split: option.splits)
  have "P t" using Cons.prems(1,2) t(1) by (meson list.set_intros(1))
  with Cons.IH [of t] Cons.prems(1) t(2) show ?case by (meson list.set_intros(2))
qed

text \<open>\<^verbatim>\<open>xs.filter(p)\<close> where \<^verbatim>\<open>p\<close> may throw.\<close>

primrec filterM :: "('a \<Rightarrow> bool option) \<Rightarrow> 'a list \<Rightarrow> 'a list option" where
  "filterM p [] = Some []"
| "filterM p (x # xs) = do { b \<leftarrow> p x; ys \<leftarrow> filterM p xs; Some (if b then x # ys else ys) }"

lemma filterM_eq:
  "filterM p xs = (if \<forall>x \<in> set xs. p x \<noteq> None then Some (filter (\<lambda>x. p x = Some True) xs) else None)"
  by (induction xs) (auto split: Option.bind_split)

lemma filterM_SomeD: "filterM p xs = Some ys \<Longrightarrow> ys = filter (\<lambda>x. p x = Some True) xs"
  by (simp add: filterM_eq split: if_splits)

text \<open>A relation between the start and the end of a loop, such as \<open>nothing else changed\<close>.\<close>

lemma foldM_rel:
  assumes "foldM f xs s = Some s'"
    and "\<And>s. R s s" and "\<And>a b c. R a b \<Longrightarrow> R b c \<Longrightarrow> R a c"
    and "\<And>x s s'. x \<in> set xs \<Longrightarrow> f x s = Some s' \<Longrightarrow> R s s'"
  shows "R s s'"
  using assms(1,4)
proof (induction xs arbitrary: s)
  case Nil
  then show ?case by (simp add: assms(2))
next
  case (Cons x xs)
  from Cons.prems(1) obtain t where t: "f x s = Some t" "foldM f xs t = Some s'"
    by (auto split: option.splits)
  have "R s t" using Cons.prems(2) t(1) by (meson list.set_intros(1))
  moreover have "R t s'" using Cons.IH [of t] Cons.prems(2) t(2) by (meson list.set_intros(2))
  ultimately show ?case by (rule assms(3))
qed

lemma foldM_total:
  assumes "\<And>x s. x \<in> set xs \<Longrightarrow> f x s = Some (g x s)"
  shows "foldM f xs s = Some (fold g xs s)"
  using assms by (induction xs arbitrary: s) auto

lemma foldM_cong [fundef_cong]:
  "xs = ys \<Longrightarrow> s = t \<Longrightarrow> (\<And>x u. x \<in> set ys \<Longrightarrow> f x u = g x u) \<Longrightarrow> foldM f xs s = foldM g ys t"
  by (induction xs arbitrary: s t ys) (auto split: option.splits)

lemma bind_Some_iff: "Option.bind m f = Some y \<longleftrightarrow> (\<exists>x. m = Some x \<and> f x = Some y)"
  by (cases m) auto

section \<open>Strings\<close>

definition starts_with :: "string \<Rightarrow> string \<Rightarrow> bool" where
  "starts_with p s \<longleftrightarrow> take (length p) s = p"

definition ends_with :: "string \<Rightarrow> string \<Rightarrow> bool" where
  "ends_with p s \<longleftrightarrow> starts_with (rev p) (rev s)"

text \<open>\<open>str_includes s t\<close> is \<^verbatim>\<open>s.includes(t)\<close>.\<close>

fun str_includes :: "string \<Rightarrow> string \<Rightarrow> bool" where
  "str_includes [] t = (t = [])"
| "str_includes (c # s) t = (starts_with t (c # s) \<or> str_includes s t)"

text \<open>\<open>split_on c s\<close> is \<^verbatim>\<open>s.split(c)\<close> for a one-character separator; it is never empty.\<close>

fun split_on :: "char \<Rightarrow> string \<Rightarrow> string list" where
  "split_on c [] = [[]]"
| "split_on c (x # s) =
     (if x = c then [] # split_on c s
      else (case split_on c s of [] \<Rightarrow> [[x]] | w # ws \<Rightarrow> (x # w) # ws))"

fun join :: "string \<Rightarrow> string list \<Rightarrow> string" where
  "join sep [] = []"
| "join sep [w] = w"
| "join sep (w # ws) = w @ sep @ join sep ws"

lemma starts_with_conv: "starts_with p s \<longleftrightarrow> (\<exists>t. s = p @ t)"
  unfolding starts_with_def by (metis append_eq_conv_conj append_take_drop_id)

lemma starts_with_append [simp]: "starts_with p (p @ s)"
  by (simp add: starts_with_def)

lemma includes_conv: "str_includes s t \<longleftrightarrow> (\<exists>a b. s = a @ t @ b)"
proof (induction s t rule: str_includes.induct)
  case (1 t)
  then show ?case by simp
next
  case (2 c s t)
  have "(\<exists>a b. c # s = a @ t @ b) \<longleftrightarrow> starts_with t (c # s) \<or> (\<exists>a b. s = a @ t @ b)"
    by (auto simp: starts_with_conv Cons_eq_append_conv)
  with 2 show ?case by simp
qed

lemma split_on_not_Nil [simp]: "split_on c s \<noteq> []"
  by (induction s) (auto split: list.splits)

lemma split_on_no_sep [simp]: "c \<notin> set s \<Longrightarrow> split_on c s = [s]"
  by (induction s) auto

lemma split_on_append: "c \<notin> set a \<Longrightarrow> split_on c (a @ c # s) = a # split_on c s"
  by (induction a) auto

lemma split_on_pieces: "w \<in> set (split_on c s) \<Longrightarrow> c \<notin> set w"
  by (induction s arbitrary: w) (fastforce split: if_splits list.splits)+

lemma join_split_on [simp]: "join [c] (split_on c s) = s"
proof (induction s)
  case Nil
  then show ?case by simp
next
  case (Cons x s)
  then show ?case
    by (cases "split_on c s"; cases "tl (split_on c s)") auto
qed

lemma split_on_join:
  "ws \<noteq> [] \<Longrightarrow> \<forall>w \<in> set ws. c \<notin> set w \<Longrightarrow> split_on c (join [c] ws) = ws"
proof (induction ws)
  case Nil
  then show ?case by simp
next
  case (Cons w ws)
  then show ?case by (cases ws) (auto simp: split_on_append)
qed

section \<open>Decimal numbers\<close>

definition digit_char :: "nat \<Rightarrow> char" where
  "digit_char d = char_of (48 + d)"

function nat_str :: "nat \<Rightarrow> string" where
  "nat_str n = (if n < 10 then [digit_char n] else nat_str (n div 10) @ [digit_char (n mod 10)])"
  by pat_completeness auto
termination
  by (relation "measure id") auto

declare nat_str.simps [simp del]

definition int_str :: "int \<Rightarrow> string" where
  "int_str i = (if i < 0 then CHR ''-'' # nat_str (nat (- i)) else nat_str (nat i))"

definition is_digit :: "char \<Rightarrow> bool" where
  "is_digit c \<longleftrightarrow> 48 \<le> (of_char c :: nat) \<and> (of_char c :: nat) \<le> 57"

text \<open>The digits at the front of a string, and the number they denote.\<close>

definition digits_val :: "string \<Rightarrow> int" where
  "digits_val s = foldl (\<lambda>n c. 10 * n + (of_char c - 48)) 0 s"

text \<open>\<^verbatim>\<open>parseInt(s, 10)\<close> without leading white space; \<^term>\<open>None\<close> is \<^verbatim>\<open>NaN\<close>.\<close>

definition parse_int :: "string \<Rightarrow> int option" where
  "parse_int s =
     (let neg = (case s of c # _ \<Rightarrow> c = CHR ''-'' | [] \<Rightarrow> False);
          ds = takeWhile is_digit (if neg then tl s else s)
      in if ds = [] then None else Some (if neg then - digits_val ds else digits_val ds))"

text \<open>\<^verbatim>\<open>Number(s)\<close> on decimal integers: the empty string is 0, trailing text gives \<^verbatim>\<open>NaN\<close>.\<close>

definition str_num :: "string \<Rightarrow> int option" where
  "str_num s =
     (if s = [] then Some 0
      else if list_all is_digit (case s of c # t \<Rightarrow> if c = CHR ''-'' then t else s | [] \<Rightarrow> s)
      then parse_int s else None)"

lemma digit_char_is_digit [simp]: "d < 10 \<Longrightarrow> is_digit (digit_char d)"
  by (simp add: is_digit_def digit_char_def of_char_of take_bit_eq_mod)

lemma digit_char_val [simp]: "d < 10 \<Longrightarrow> (of_char (digit_char d) :: int) = 48 + int d"
proof -
  assume "d < 10"
  have "(of_char (digit_char d) :: int) = of_char (char_of (int (48 + d)))"
    unfolding digit_char_def by (simp only: char_of_nat)
  also have "\<dots> = 48 + int d"
    using \<open>d < 10\<close> unfolding of_char_of by (simp add: take_bit_eq_mod)
  finally show ?thesis .
qed

lemma nat_str_digits: "list_all is_digit (nat_str n)"
proof (induction n rule: nat_str.induct)
  case (1 n)
  then show ?case by (subst nat_str.simps) auto
qed

lemma nat_str_not_Nil [simp]: "nat_str n \<noteq> []"
  by (subst nat_str.simps) simp

lemma digits_val_snoc: "digits_val (s @ [c]) = 10 * digits_val s + (of_char c - 48)"
  by (simp add: digits_val_def)

lemma digits_val_nat_str: "digits_val (nat_str n) = int n"
proof (induction n rule: nat_str.induct)
  case (1 n)
  show ?case
  proof (cases "n < 10")
    case True
    then show ?thesis by (subst nat_str.simps) (simp add: digits_val_def)
  next
    case False
    with 1 have "digits_val (nat_str (n div 10)) = int (n div 10)" by simp
    with False show ?thesis
      by (subst nat_str.simps) (simp add: digits_val_snoc zmod_int zdiv_int)
  qed
qed

lemma not_digit_minus [simp]: "\<not> is_digit (CHR ''-'')"
  by (simp add: is_digit_def)

lemma takeWhile_nat_str [simp]: "takeWhile is_digit (nat_str n) = nat_str n"
  using nat_str_digits by (simp add: takeWhile_eq_all_conv list_all_iff)

lemma hd_nat_str: "nat_str n = c # s \<Longrightarrow> c \<noteq> CHR ''-''"
  using nat_str_digits [of n] by auto

text \<open>Printing and parsing a number is the identity.\<close>

lemma parse_int_int_str: "parse_int (int_str i) = Some i"
proof (cases "i < 0")
  case True
  then show ?thesis
    by (simp add: parse_int_def int_str_def Let_def digits_val_nat_str)
next
  case False
  obtain c s where cs: "nat_str (nat i) = c # s"
    by (meson list.exhaust nat_str_not_Nil)
  with False hd_nat_str [OF cs] show ?thesis
    unfolding parse_int_def int_str_def Let_def
    by (simp add: cs [symmetric] digits_val_nat_str del: takeWhile.simps) (simp add: cs)
qed

end
