(* ===== verification/Collation.thy ===== *)
theory Collation
  imports Prelude "HOL-Library.Multiset"
begin

text \<open>
  Ordering of strings and sorting of arrays. \<open>lex_cmp\<close> is the comparison by code units that
  \<^verbatim>\<open>Array.prototype.sort\<close> uses without a comparator; the source applies
  \<^verbatim>\<open>localeCompare\<close> only to RFC 3339 timestamps and lower-case identifiers, on which the
  collation order agrees with it. \<open>sort_by\<close> is \<^verbatim>\<open>Array.prototype.sort(cmp)\<close>: stable,
  ascending for the comparator. The locale \<open>comparator\<close> is the contract a comparator must meet
  for the result to be sorted.
\<close>

section \<open>Sorting with a comparator\<close>

fun insert_by :: "('a \<Rightarrow> 'a \<Rightarrow> int) \<Rightarrow> 'a \<Rightarrow> 'a list \<Rightarrow> 'a list" where
  "insert_by cmp x [] = [x]"
| "insert_by cmp x (y # ys) = (if cmp x y \<le> 0 then x # y # ys else y # insert_by cmp x ys)"

definition sort_by :: "('a \<Rightarrow> 'a \<Rightarrow> int) \<Rightarrow> 'a list \<Rightarrow> 'a list" where
  "sort_by cmp xs = foldr (insert_by cmp) xs []"

lemma sort_by_simps [simp]:
  "sort_by cmp [] = []"
  "sort_by cmp (x # xs) = insert_by cmp x (sort_by cmp xs)"
  by (simp_all add: sort_by_def)

lemma mset_insert_by [simp]: "mset (insert_by cmp x xs) = add_mset x (mset xs)"
  by (induction xs) auto

lemma mset_sort_by [simp]: "mset (sort_by cmp xs) = mset xs"
  by (induction xs) auto

lemma set_sort_by [simp]: "set (sort_by cmp xs) = set xs"
  by (metis mset_sort_by set_mset_mset)

lemma length_sort_by [simp]: "length (sort_by cmp xs) = length xs"
  by (metis mset_sort_by size_mset)

lemma set_insert_by [simp]: "set (insert_by cmp x xs) = insert x (set xs)"
  by (induction xs) auto

text \<open>Sorting is stable: rows that the comparator does not tell apart keep their order.\<close>

lemma filter_insert_by:
  "(\<And>y. y \<in> set xs \<Longrightarrow> P x \<Longrightarrow> P y \<Longrightarrow> cmp x y \<le> 0) \<Longrightarrow> filter P (insert_by cmp x xs) = filter P (x # xs)"
  by (induction xs) auto

lemma filter_sort_by:
  "(\<And>x y. P x \<Longrightarrow> P y \<Longrightarrow> cmp x y \<le> 0) \<Longrightarrow> filter P (sort_by cmp xs) = filter P xs"
  by (induction xs) (simp_all add: filter_insert_by)

locale comparator =
  fixes cmp :: "'a \<Rightarrow> 'a \<Rightarrow> int"
  assumes cmp_total: "cmp x y \<le> 0 \<or> cmp y x \<le> 0"
    and cmp_trans: "cmp x y \<le> 0 \<Longrightarrow> cmp y z \<le> 0 \<Longrightarrow> cmp x z \<le> 0"
begin

lemma sorted_insert_by:
  "sorted_wrt (\<lambda>a b. cmp a b \<le> 0) xs \<Longrightarrow> sorted_wrt (\<lambda>a b. cmp a b \<le> 0) (insert_by cmp x xs)"
proof (induction xs)
  case Nil
  then show ?case by simp
next
  case (Cons y ys)
  show ?case
  proof (cases "cmp x y \<le> 0")
    case True
    with Cons.prems show ?thesis by (auto intro: cmp_trans)
  next
    case False
    with cmp_total have "cmp y x \<le> 0" by blast
    with False Cons show ?thesis by auto
  qed
qed

lemma sorted_sort_by: "sorted_wrt (\<lambda>a b. cmp a b \<le> 0) (sort_by cmp xs)"
  by (induction xs) (auto intro: sorted_insert_by)

lemma sort_by_id: "sorted_wrt (\<lambda>a b. cmp a b \<le> 0) xs \<Longrightarrow> sort_by cmp xs = xs"
proof (induction xs)
  case Nil
  then show ?case by simp
next
  case (Cons x xs)
  then show ?case by (cases xs) auto
qed

lemma sort_by_idem: "sort_by cmp (sort_by cmp xs) = sort_by cmp xs"
  by (rule sort_by_id [OF sorted_sort_by])

end

section \<open>Comparison by code units\<close>

fun lex_cmp :: "string \<Rightarrow> string \<Rightarrow> int" where
  "lex_cmp [] [] = 0"
| "lex_cmp [] (b # t) = -1"
| "lex_cmp (a # s) [] = 1"
| "lex_cmp (a # s) (b # t) =
     (if a = b then lex_cmp s t else if (of_char a :: nat) < of_char b then -1 else 1)"

lemma lex_cmp_refl [simp]: "lex_cmp s s = 0"
  by (induction s) auto

lemma of_char_less_neq: "a \<noteq> b \<Longrightarrow> \<not> (of_char a :: nat) < of_char b \<Longrightarrow> (of_char b :: nat) < of_char a"
  by (metis char_of_eq_iff linorder_cases of_char_eq_iff)

lemma lex_cmp_swap: "lex_cmp t s = - lex_cmp s t"
  by (induction s t rule: lex_cmp.induct) (auto dest: of_char_less_neq)

lemma lex_cmp_eq0: "lex_cmp s t = 0 \<longleftrightarrow> s = t"
  by (induction s t rule: lex_cmp.induct) auto

lemma lex_cmp_trans: "lex_cmp s t \<le> 0 \<Longrightarrow> lex_cmp t u \<le> 0 \<Longrightarrow> lex_cmp s u \<le> 0"
proof (induction s t arbitrary: u rule: lex_cmp.induct)
  case (4 a s b t)
  then show ?case by (cases u) (auto split: if_splits)
qed (case_tac u; simp)+

interpretation lex: comparator lex_cmp
proof
  fix x y :: string
  show "lex_cmp x y \<le> 0 \<or> lex_cmp y x \<le> 0" by (auto simp: lex_cmp_swap [of y x])
qed (rule lex_cmp_trans)

text \<open>A comparator by a string key, ascending or descending, is lawful too.\<close>

lemma comparator_by_key: "comparator (\<lambda>a b. lex_cmp (f a) (f b))"
  by unfold_locales (rule lex.cmp_total, rule lex.cmp_trans)

lemma comparator_by_key_desc: "comparator (\<lambda>a b. -1 * lex_cmp (f a) (f b))"
proof
  fix x y
  show "-1 * lex_cmp (f x) (f y) \<le> 0 \<or> -1 * lex_cmp (f y) (f x) \<le> 0"
    using lex_cmp_swap [of "f y" "f x"] by auto
next
  fix x y z
  assume "-1 * lex_cmp (f x) (f y) \<le> 0" "-1 * lex_cmp (f y) (f z) \<le> 0"
  then have "lex_cmp (f y) (f x) \<le> 0" "lex_cmp (f z) (f y) \<le> 0"
    by (simp_all add: lex_cmp_swap [of "f y" "f x"] lex_cmp_swap [of "f z" "f y"])
  then have "lex_cmp (f z) (f x) \<le> 0" by (metis lex_cmp_trans)
  then show "-1 * lex_cmp (f x) (f z) \<le> 0" by (simp add: lex_cmp_swap [of "f z" "f x"])
qed

end
