(* ===== verification/Worklist.thy ===== *)
theory Worklist
  imports Prelude
begin

text \<open>
  Breadth-first traversal with a queue and no visited set, the loop
  \<^verbatim>\<open>while (owners.length) { x = owners.shift(); ...; owners.push(children...) }\<close> that several
  functions of the source share. \<open>walk fuel ch q\<close> is the sequence of nodes the loop
  shifts, or \<^term>\<open>None\<close> when the fuel runs out. The locale \<open>owner_graph\<close> is the contract under
  which the loop ends: the child relation of the graph is well founded.
\<close>

fun walk :: "nat \<Rightarrow> ('a \<Rightarrow> 'a list) \<Rightarrow> 'a list \<Rightarrow> 'a list option" where
  "walk n ch [] = Some []"
| "walk 0 ch (x # q) = None"
| "walk (Suc n) ch (x # q) = map_option (Cons x) (walk n ch (q @ ch x))"

abbreviation edges :: "('a \<Rightarrow> 'a list) \<Rightarrow> ('a \<times> 'a) set" where
  "edges ch \<equiv> {(x, y). y \<in> set (ch x)}"

lemma walk_mono: "walk n ch q = Some vs \<Longrightarrow> n \<le> m \<Longrightarrow> walk m ch q = Some vs"
proof (induction n ch q arbitrary: m vs rule: walk.induct)
  case (3 n ch x q)
  obtain m' where m: "m = Suc m'" "n \<le> m'" using "3.prems"(2) by (cases m) auto
  obtain ws where ws: "walk n ch (q @ ch x) = Some ws" "vs = x # ws" using "3.prems"(1) by auto
  from "3.IH" [OF ws(1) m(2)] ws(2) m(1) show ?case by simp
qed auto

lemma walk_set:
  "walk n ch q = Some vs \<Longrightarrow> set vs = (edges ch)\<^sup>* `` set q"
proof (induction n ch q arbitrary: vs rule: walk.induct)
  case (3 n ch x q)
  then obtain ws where ws: "walk n ch (q @ ch x) = Some ws" "vs = x # ws" by auto
  with 3 have "set ws = (edges ch)\<^sup>* `` (set q \<union> set (ch x))" by auto
  moreover have "(edges ch)\<^sup>* `` {x} = insert x ((edges ch)\<^sup>* `` set (ch x))"
  proof -
    have "(edges ch)\<^sup>* `` {x} = (Id \<union> edges ch O (edges ch)\<^sup>*) `` {x}"
      using rtrancl_unfold [of "edges ch"] by (simp only: r_comp_rtrancl_eq)
    also have "\<dots> = insert x ((edges ch)\<^sup>* `` set (ch x))" by auto
    finally show ?thesis .
  qed
  ultimately show ?case using ws(2) by (auto simp: Image_def)
qed auto

lemma walk_length: "walk n ch q = Some vs \<Longrightarrow> length vs \<le> n"
  by (induction n ch q arbitrary: vs rule: walk.induct) auto

locale owner_graph =
  fixes ch :: "'h \<Rightarrow> 'a \<Rightarrow> 'a list" and ok :: "'h \<Rightarrow> bool"
  assumes ok_wf: "ok h \<Longrightarrow> wf ((edges (ch h))\<inverse>)"
begin

text \<open>The weight of a node is the number of shifts it causes: itself and all its descendants.\<close>

lemma weights_exist:
  assumes "ok h"
  shows "\<exists>w :: 'a \<Rightarrow> nat. \<forall>x. w x = Suc (sum_list (map w (ch h x)))"
proof -
  let ?R = "(edges (ch h))\<inverse>"
  let ?F = "\<lambda>f x. Suc (sum_list (map f (ch h x)))"
  have eq: "wfrec ?R ?F x = ?F (wfrec ?R ?F) x" for x
  proof -
    have "wfrec ?R ?F x = ?F (cut (wfrec ?R ?F) ?R x) x"
      by (rule wfrec [OF ok_wf [OF assms]])
    also have "map (cut (wfrec ?R ?F) ?R x) (ch h x) = map (wfrec ?R ?F) (ch h x)"
      by (auto intro: cut_apply)
    finally show ?thesis by simp
  qed
  then show ?thesis by blast
qed

lemma walk_terminates:
  assumes "ok h"
  shows "\<exists>n. \<forall>m \<ge> n. \<exists>vs. walk m (ch h) q = Some vs"
proof -
  obtain w where w: "\<And>x. w x = Suc (sum_list (map w (ch h x)))"
    using weights_exist [OF assms] by blast
  have "sum_list (map w q) \<le> n \<Longrightarrow> \<exists>vs. walk n (ch h) q = Some vs" for n q
  proof (induction n arbitrary: q)
    case 0
    then show ?case using w by (cases q) (auto simp: w)
  next
    case (Suc n)
    show ?case
    proof (cases q)
      case (Cons x q')
      with Suc.prems w [of x] have "sum_list (map w (q' @ ch h x)) \<le> n" by simp
      with Suc.IH [of "q' @ ch h x"] Cons show ?thesis by auto
    qed simp
  qed
  then have "\<forall>m \<ge> sum_list (map w q). \<exists>vs. walk m (ch h) q = Some vs" by simp
  then show ?thesis by blast
qed

end

text \<open>A node that is its own descendant keeps the queue non-empty for ever.\<close>

lemma walk_cycle_None:
  assumes "x \<in> (edges ch)\<^sup>* `` set q" and "(x, x) \<in> (edges ch)\<^sup>+"
  shows "walk n ch q = None"
  using assms
proof (induction n arbitrary: q x)
  case 0
  then show ?case by (cases q) auto
next
  case (Suc n)
  show ?case
  proof (cases q)
    case Nil
    with Suc.prems show ?thesis by simp
  next
    case (Cons y q')
    have "x \<in> (edges ch)\<^sup>* `` set (q' @ ch y)"
    proof (cases "x \<in> (edges ch)\<^sup>* `` set q'")
      case True
      then show ?thesis by auto
    next
      case False
      with Suc.prems(1) Cons have "(y, x) \<in> (edges ch)\<^sup>*" by auto
      with Suc.prems(2) have "(y, x) \<in> (edges ch)\<^sup>+" by (meson rtrancl_trancl_trancl)
      then obtain z where "(y, z) \<in> edges ch" "(z, x) \<in> (edges ch)\<^sup>*" by (meson tranclD)
      then show ?thesis by auto
    qed
    with Suc.IH [OF _ Suc.prems(2)] Cons show ?thesis by auto
  qed
qed

end
