(* ===== verification/JsValue.thy ===== *)
theory JsValue
  imports Prelude
begin

text \<open>
  JavaScript values as the source meets them in Kubernetes objects: what
  \<^verbatim>\<open>JSON.parse\<close> returns, and \<^verbatim>\<open>undefined\<close>. Property access on
  \<^verbatim>\<open>undefined\<close> and \<^verbatim>\<open>null\<close> throws (\<^term>\<open>None\<close>), a missing property reads
  \<^verbatim>\<open>undefined\<close>; truthiness, \<^verbatim>\<open>||\<close>, \<^verbatim>\<open>===\<close>, \<^verbatim>\<open><\<close>, \<^verbatim>\<open>in\<close> and conversion to a
  string or number follow ECMAScript. Numbers of these objects (replica counts, versions,
  milliseconds) are integers; \<^verbatim>\<open>NaN\<close> is the \<^term>\<open>None\<close> of an \<^typ>\<open>int option\<close>.
  Properties inherited from \<^verbatim>\<open>Object.prototype\<close> are left out.
\<close>

datatype json =
    JUndef
  | JNull
  | JBool bool
  | JNum int
  | JStr string
  | JArr "json list"
  | JObj "(string \<times> json) list"

abbreviation lookup_prop :: "json obj \<Rightarrow> string \<Rightarrow> json" where
  "lookup_prop fs k \<equiv> (case oget fs k of None \<Rightarrow> JUndef | Some v \<Rightarrow> v)"

text \<open>\<open>jget v k\<close> is \<^verbatim>\<open>v[k]\<close>.\<close>

fun jget :: "json \<Rightarrow> string \<Rightarrow> json option" where
  "jget JUndef k = None"
| "jget JNull k = None"
| "jget (JObj fs) k = Some (lookup_prop fs k)"
| "jget _ k = Some JUndef"

text \<open>\<open>jhas k v\<close> is \<^verbatim>\<open>k in v\<close>: it throws unless \<open>v\<close> is an object.\<close>

fun jhas :: "string \<Rightarrow> json \<Rightarrow> bool option" where
  "jhas k (JObj fs) = Some (ohas k fs)"
| "jhas k (JArr xs) = Some (\<exists>i < length xs. k = nat_str i)"
| "jhas k _ = None"

fun truthy :: "json \<Rightarrow> bool" where
  "truthy JUndef = False"
| "truthy JNull = False"
| "truthy (JBool b) = b"
| "truthy (JNum n) = (n \<noteq> 0)"
| "truthy (JStr s) = (s \<noteq> [])"
| "truthy (JArr xs) = True"
| "truthy (JObj fs) = True"

text \<open>\<^verbatim>\<open>a || b\<close> and \<^verbatim>\<open>a && b\<close> on values.\<close>

definition js_or :: "json \<Rightarrow> json \<Rightarrow> json" where
  "js_or a b = (if truthy a then a else b)"

definition js_and :: "json \<Rightarrow> json \<Rightarrow> json" where
  "js_and a b = (if truthy a then b else a)"

text \<open>\<^verbatim>\<open>===\<close> on primitive values; the source never compares objects of two parses.\<close>

fun strict_eq :: "json \<Rightarrow> json \<Rightarrow> bool" where
  "strict_eq (JArr xs) b = False"
| "strict_eq (JObj fs) b = False"
| "strict_eq a b = (a = b)"

fun to_num :: "json \<Rightarrow> int option" where
  "to_num JUndef = None"
| "to_num JNull = Some 0"
| "to_num (JBool b) = Some (if b then 1 else 0)"
| "to_num (JNum n) = Some n"
| "to_num (JStr s) = str_num s"
| "to_num (JArr xs) = None"
| "to_num (JObj fs) = None"

text \<open>Relational operators on numbers that may be \<^verbatim>\<open>NaN\<close>: any comparison with it is false.\<close>

definition num_less :: "int option \<Rightarrow> int option \<Rightarrow> bool" where
  "num_less a b = (case (a, b) of (Some x, Some y) \<Rightarrow> x < y | _ \<Rightarrow> False)"

definition js_less :: "json \<Rightarrow> json \<Rightarrow> bool" where
  "js_less a b = num_less (to_num a) (to_num b)"

text \<open>\<^verbatim>\<open>Math.max\<close>: \<^verbatim>\<open>NaN\<close> if an argument is.\<close>

definition num_max :: "int option \<Rightarrow> int option \<Rightarrow> int option" where
  "num_max a b = (case (a, b) of (Some x, Some y) \<Rightarrow> Some (max x y) | _ \<Rightarrow> None)"

text \<open>\<^verbatim>\<open>String(v)\<close>, what a template literal, a property name and \<^verbatim>\<open>"" + v\<close> use.\<close>

fun to_str :: "json \<Rightarrow> string" where
  "to_str JUndef = ''undefined''"
| "to_str JNull = ''null''"
| "to_str (JBool b) = (if b then ''true'' else ''false'')"
| "to_str (JNum n) = int_str n"
| "to_str (JStr s) = s"
| "to_str (JArr xs) =
     join '','' (map (\<lambda>v. case v of JUndef \<Rightarrow> [] | JNull \<Rightarrow> [] | _ \<Rightarrow> to_str v) xs)"
| "to_str (JObj fs) = ''[object Object]''"

text \<open>\<^verbatim>\<open>for (x of v)\<close> over a JSON value: arrays are iterable, so are strings (by character).\<close>

fun iter_of :: "json \<Rightarrow> json list option" where
  "iter_of (JArr xs) = Some xs"
| "iter_of (JStr s) = Some (map (\<lambda>c. JStr [c]) s)"
| "iter_of _ = None"

text \<open>\<^verbatim>\<open>for (k in v)\<close>: the keys of an object; nothing for \<^verbatim>\<open>undefined\<close>, \<^verbatim>\<open>null\<close>, numbers.\<close>

fun keys_in :: "json \<Rightarrow> string list" where
  "keys_in (JObj fs) = okeys fs"
| "keys_in (JArr xs) = map nat_str [0..<length xs]"
| "keys_in (JStr s) = map nat_str [0..<length s]"
| "keys_in _ = []"

text \<open>Assignment \<^verbatim>\<open>v[k] = x\<close> and \<^verbatim>\<open>delete v[k]\<close> on plain objects.\<close>

fun jset :: "string \<Rightarrow> json \<Rightarrow> json \<Rightarrow> json option" where
  "jset k x JUndef = None"
| "jset k x JNull = None"
| "jset k x (JObj fs) = Some (JObj (oset k x fs))"
| "jset k x v = Some v"

fun jdel :: "string \<Rightarrow> json \<Rightarrow> json option" where
  "jdel k JUndef = None"
| "jdel k JNull = None"
| "jdel k (JObj fs) = Some (JObj (odel k fs))"
| "jdel k v = Some v"

fun is_obj :: "json \<Rightarrow> bool" where
  "is_obj (JObj fs) = True"
| "is_obj _ = False"

text \<open>The fields of an object; used where the source has just built it or checked it.\<close>

fun obj_fields :: "json \<Rightarrow> json obj" where
  "obj_fields (JObj fs) = fs"
| "obj_fields _ = []"

lemma js_or_undef [simp]: "js_or JUndef b = b"
  by (simp add: js_or_def)

lemma js_or_JStr [simp]: "js_or (JStr (c # s)) b = JStr (c # s)"
  by (simp add: js_or_def)

lemma js_or_truthy: "truthy a \<Longrightarrow> js_or a b = a"
  by (simp add: js_or_def)

lemma js_or_falsy: "\<not> truthy a \<Longrightarrow> js_or a b = b"
  by (simp add: js_or_def)

lemma jget_eq_None_iff: "jget v k = None \<longleftrightarrow> v = JUndef \<or> v = JNull"
  by (cases v) auto

lemma truthy_jget: "truthy v \<Longrightarrow> \<exists>w. jget v k = Some w"
  by (cases v) auto

lemma strict_eq_JStr [simp]: "strict_eq v (JStr s) \<longleftrightarrow> v = JStr s"
  by (cases v) auto

lemma strict_eq_JNum [simp]: "strict_eq v (JNum n) \<longleftrightarrow> v = JNum n"
  by (cases v) auto

lemma strict_eq_imp_eq: "strict_eq a b \<Longrightarrow> a = b"
  by (cases a) auto

lemma num_less_irrefl [simp]: "\<not> num_less a a"
  by (auto simp: num_less_def split: option.splits)

lemma num_less_Some [simp]: "num_less (Some x) (Some y) \<longleftrightarrow> x < y"
  by (simp add: num_less_def)

lemma num_less_None [simp]: "\<not> num_less None b" "\<not> num_less a None"
  by (auto simp: num_less_def split: option.splits)

lemma num_max_simps [simp]:
  "num_max (Some x) (Some y) = Some (max x y)" "num_max None b = None" "num_max a None = None"
  by (auto simp: num_max_def split: option.splits)

lemma str_num_nat_str [simp]: "str_num (nat_str n) = Some (int n)"
proof -
  obtain c s where cs: "nat_str n = c # s" by (meson list.exhaust nat_str_not_Nil)
  have "parse_int (nat_str n) = Some (int n)"
    using parse_int_int_str [of "int n"] by (simp add: int_str_def)
  with cs hd_nat_str [OF cs] nat_str_digits [of n] show ?thesis
    by (simp add: str_num_def)
qed

end
