(* ===== verification/Comparators.thy ===== *)
theory Comparators
  imports JsValue
begin

text \<open>Model of \<^verbatim>\<open>src/comparators.js\<close>: equality of arrays and emptiness of objects.\<close>

fun is_array :: "json \<Rightarrow> bool" where
  "is_array (JArr xs) = True"
| "is_array _ = False"

fun arr_elems :: "json \<Rightarrow> json list" where
  "arr_elems (JArr xs) = xs"
| "arr_elems _ = []"

text \<open>\<^verbatim>\<open>array1.every((element, i) => array2[i] === element)\<close>, from index \<open>i\<close> on.\<close>

fun every_at :: "json list \<Rightarrow> json list \<Rightarrow> bool" where
  "every_at [] ys = True"
| "every_at (x # xs) [] = (strict_eq JUndef x \<and> every_at xs [])"
| "every_at (x # xs) (y # ys) = (strict_eq y x \<and> every_at xs ys)"

definition arraysEqual :: "json \<Rightarrow> json \<Rightarrow> bool" where
  "arraysEqual array1 array2 =
     (let isArray1 = truthy array1 \<and> is_array array1;
          isArray2 = truthy array2 \<and> is_array array2
      in isArray1 = isArray2
         \<and> (\<not> isArray1
            \<or> (length (arr_elems array1) = length (arr_elems array2)
               \<and> every_at (arr_elems array1) (arr_elems array2))))"

definition objectEmpty :: "json \<Rightarrow> bool" where
  "objectEmpty v = (\<not> truthy v \<or> keys_in v = [])"

definition strs :: "string list \<Rightarrow> json" where
  "strs xs = JArr (map JStr xs)"

lemma every_at_strs:
  "every_at (map JStr xs) (map JStr ys) \<longleftrightarrow> prefix_upto (length xs) xs ys"
  if "prefix_upto = (\<lambda>n xs ys. length ys \<ge> n \<and> take n ys = xs)"
  unfolding that
proof (induction xs arbitrary: ys)
  case Nil
  then show ?case by simp
next
  case (Cons x xs)
  then show ?case by (cases ys) (auto simp: eq_commute)
qed

lemma arraysEqual_strs: "arraysEqual (strs xs) (strs ys) \<longleftrightarrow> xs = ys"
  by (auto simp: arraysEqual_def strs_def Let_def every_at_strs [OF refl])

lemma arraysEqual_strs_undef: "\<not> arraysEqual (strs xs) JUndef"
  by (simp add: arraysEqual_def strs_def Let_def)

end
