(* ===== verification/Resource.thy ===== *)
theory Resource
  imports JsValue Comparators Worklist Collation
begin

text \<open>
  Resources as the UI keeps them, and the functions of
  \<^verbatim>\<open>src/utils/resource-utils.js\<close> that identify, compare and relate them
  (\<^verbatim>\<open>statusForResource\<close> is in StatusSummary, \<^verbatim>\<open>eventsForResource\<close> in Events).

  A resource object is the Kubernetes object received from the server (\<open>r_body\<close>) with the
  fields the UI adds to it. Resource objects are mutable and shared (the resources map, the
  selection, the owners' \<^verbatim>\<open>owned\<close> maps and the problem map hold the same object), so they
  live in a heap and are held by reference.
\<close>

type_synonym ref = nat

record resource =
  r_body :: json
  r_key :: "string option"
  r_statusSummary :: json
  r_isFiltered :: bool
  r_isDeleted :: bool
  r_notFound :: bool
  r_owned :: "ref obj option"
  r_related :: "bool obj option"

type_synonym heap = "ref \<Rightarrow> resource option"

text \<open>A resource object just parsed from a response, before the UI adds anything.\<close>

definition fresh_resource :: "json \<Rightarrow> resource" where
  "fresh_resource b =
     \<lparr>r_body = b, r_key = None, r_statusSummary = JUndef, r_isFiltered = False,
      r_isDeleted = False, r_notFound = False, r_owned = None, r_related = None\<rparr>"

definition rget :: "resource \<Rightarrow> string \<Rightarrow> json option" where
  "rget r k = jget (r_body r) k"

definition kind_of :: "resource \<Rightarrow> json option" where
  "kind_of r = rget r ''kind''"

definition metadata_of :: "resource \<Rightarrow> string \<Rightarrow> json option" where
  "metadata_of r k = do { md \<leftarrow> rget r ''metadata''; jget md k }"

text \<open>\<^verbatim>\<open>resource.key\<close> used as a property name.\<close>

definition key_name :: "resource \<Rightarrow> string" where
  "key_name r = (case r_key r of Some k \<Rightarrow> k | None \<Rightarrow> ''undefined'')"

section \<open>Keys\<close>

definition keyForResource :: "json \<Rightarrow> json \<Rightarrow> json option" where
  "keyForResource resource namespace =
     (if truthy resource then do {
        ns0 \<leftarrow> jget resource ''namespace'';
        md \<leftarrow> jget resource ''metadata'';
        mdns \<leftarrow> (if truthy md then jget md ''namespace'' else Some md);
        let ns = js_or (js_or (js_or ns0 mdns) namespace) (JStr ''~'');
        name0 \<leftarrow> jget resource ''name'';
        name \<leftarrow> (if truthy name0 then Some name0 else jget md ''name'');
        kind \<leftarrow> jget resource ''kind'';
        Some (JStr (to_str kind @ ''/'' @ to_str ns @ ''/'' @ to_str name))
      } else Some JUndef)"

text \<open>
  The shape of a Kubernetes object: a kind, and metadata with a name and, for namespaced
  kinds, a namespace; none of them holds a slash, and there is no top-level name.
\<close>

definition k8s_meta :: "string \<Rightarrow> string option \<Rightarrow> json obj \<Rightarrow> bool" where
  "k8s_meta name ns md \<longleftrightarrow> oget md ''name'' = Some (JStr name) \<and> name \<noteq> []
     \<and> oget md ''namespace'' = map_option JStr ns \<and> ns \<noteq> Some []"

definition k8s_object :: "string \<Rightarrow> string \<Rightarrow> string option \<Rightarrow> json \<Rightarrow> bool" where
  "k8s_object kind name ns v \<longleftrightarrow>
     (\<exists>fs md. v = JObj fs \<and> oget fs ''kind'' = Some (JStr kind) \<and> oget fs ''name'' = None
        \<and> oget fs ''namespace'' = None \<and> oget fs ''metadata'' = Some (JObj md)
        \<and> k8s_meta name ns md)"

definition key_str :: "string \<Rightarrow> string option \<Rightarrow> string \<Rightarrow> string" where
  "key_str kind ns name = kind @ ''/'' @ (case ns of Some s \<Rightarrow> s | None \<Rightarrow> ''~'') @ ''/'' @ name"

lemma keyForResource_k8s:
  assumes "k8s_object kind name ns v"
  shows "keyForResource v JUndef = Some (JStr (key_str kind ns name))"
  using assms
  by (cases ns) (auto simp: k8s_object_def k8s_meta_def keyForResource_def key_str_def js_or_def)

lemma split_key_str:
  assumes "CHR ''/'' \<notin> set kind" "CHR ''/'' \<notin> set name" "\<forall>s. ns = Some s \<longrightarrow> CHR ''/'' \<notin> set s"
  shows "split_on (CHR ''/'') (key_str kind ns name) =
           [kind, case ns of Some s \<Rightarrow> s | None \<Rightarrow> ''~'', name]"
  using assms by (cases ns) (simp_all add: key_str_def split_on_append)

section \<open>Identity of resources\<close>

text \<open>\<^verbatim>\<open>a.metadata.namespace || '~'\<close>\<close>

definition ns_or_tilde :: "json \<Rightarrow> json" where
  "ns_or_tilde v = js_or v (JStr ''~'')"

definition has_key :: "resource \<Rightarrow> bool" where
  "has_key r \<longleftrightarrow> (case r_key r of Some k \<Rightarrow> k \<noteq> [] | None \<Rightarrow> False)"

definition sameResource :: "resource option \<Rightarrow> resource option \<Rightarrow> bool option" where
  "sameResource res1 res2 =
     (case (res1, res2) of
        (None, None) \<Rightarrow> Some True
      | (Some r1, Some r2) \<Rightarrow>
          if has_key r1 \<and> has_key r2 then Some (r_key r1 = r_key r2)
          else do {
            k1 \<leftarrow> kind_of r1;
            k2 \<leftarrow> kind_of r2;
            if \<not> strict_eq k1 k2 then Some False
            else do {
              ns1 \<leftarrow> metadata_of r1 ''namespace'';
              ns2 \<leftarrow> metadata_of r2 ''namespace'';
              if \<not> strict_eq (ns_or_tilde ns1) (ns_or_tilde ns2) then Some False
              else do {
                n1 \<leftarrow> metadata_of r1 ''name'';
                n2 \<leftarrow> metadata_of r2 ''name'';
                Some (strict_eq n1 n2 \<and> r_notFound r1 = r_notFound r2)
              }
            }
          }
      | _ \<Rightarrow> Some False)"

definition validResource :: "resource option \<Rightarrow> bool" where
  "validResource res = (case res of None \<Rightarrow> False | Some r \<Rightarrow> \<not> r_notFound r \<and> \<not> r_isDeleted r)"

text \<open>\<open>params\<close> is the query object \<^verbatim>\<open>{kind, namespace, name}\<close>, or undefined.\<close>

definition resourceMatchesParams :: "resource option \<Rightarrow> json \<Rightarrow> bool \<Rightarrow> bool option" where
  "resourceMatchesParams resource params ignoreNotFound =
     (case resource of
        None \<Rightarrow> Some (\<not> truthy params)
      | Some r \<Rightarrow>
          if \<not> truthy params then Some False
          else do {
            k1 \<leftarrow> kind_of r;
            k2 \<leftarrow> jget params ''kind'';
            if \<not> strict_eq k1 k2 then Some False
            else do {
              ns1 \<leftarrow> metadata_of r ''namespace'';
              ns2 \<leftarrow> jget params ''namespace'';
              if \<not> strict_eq (ns_or_tilde ns1) (ns_or_tilde ns2) then Some False
              else do {
                n1 \<leftarrow> metadata_of r ''name'';
                n2 \<leftarrow> jget params ''name'';
                Some (strict_eq n1 n2 \<and> (ignoreNotFound \<or> \<not> r_notFound r))
              }
            }
          })"

definition sameResourceVersion :: "resource option \<Rightarrow> resource option \<Rightarrow> bool option" where
  "sameResourceVersion res1 res2 = do {
     same \<leftarrow> sameResource res1 res2;
     if \<not> same then Some False
     else (case (res1, res2) of
             (Some r1, Some r2) \<Rightarrow> do {
               v1 \<leftarrow> metadata_of r1 ''resourceVersion'';
               v2 \<leftarrow> metadata_of r2 ''resourceVersion'';
               Some (strict_eq v1 v2) }
           | _ \<Rightarrow> Some False)
   }"

section \<open>Transitive ownership\<close>

definition owned_of :: "heap \<Rightarrow> ref \<Rightarrow> ref obj option" where
  "owned_of h r = (case h r of Some x \<Rightarrow> r_owned x | None \<Rightarrow> None)"

definition owned_refs :: "heap \<Rightarrow> ref \<Rightarrow> ref list" where
  "owned_refs h r = (case owned_of h r of Some o1 \<Rightarrow> map snd o1 | None \<Rightarrow> [])"

text \<open>
  The loop of \<^verbatim>\<open>isResourceOwnedBy\<close>: shift an owner; stop at the first whose
  \<^verbatim>\<open>owned\<close> map holds the key, else queue what it owns. There is no visited set, so the
  loop takes fuel; \<^term>\<open>None\<close> is a loop still running.
\<close>

fun isResourceOwnedBy_loop :: "nat \<Rightarrow> heap \<Rightarrow> string \<Rightarrow> ref list \<Rightarrow> bool option" where
  "isResourceOwnedBy_loop n h k [] = Some False"
| "isResourceOwnedBy_loop 0 h k (t # q) = None"
| "isResourceOwnedBy_loop (Suc n) h k (t # q) =
     (case owned_of h t of
        None \<Rightarrow> isResourceOwnedBy_loop n h k q
      | Some o1 \<Rightarrow> if ohas k o1 then Some True
                  else isResourceOwnedBy_loop n h k (q @ map snd o1))"

definition isResourceOwnedBy ::
  "nat \<Rightarrow> heap \<Rightarrow> resource option \<Rightarrow> ref option \<Rightarrow> bool option" where
  "isResourceOwnedBy n h resource owner =
     (case (resource, owner) of
        (Some r, Some ow) \<Rightarrow> isResourceOwnedBy_loop n h (key_name r) [ow]
      | _ \<Rightarrow> Some False)"

text \<open>The abstract meaning: the owner, or something it owns transitively, owns the key.\<close>

definition owns_key :: "heap \<Rightarrow> string \<Rightarrow> ref \<Rightarrow> bool" where
  "owns_key h k t \<longleftrightarrow> (case owned_of h t of Some o1 \<Rightarrow> ohas k o1 | None \<Rightarrow> False)"

definition transitively_owns :: "heap \<Rightarrow> ref \<Rightarrow> string \<Rightarrow> bool" where
  "transitively_owns h ow k \<longleftrightarrow> (\<exists>t. (ow, t) \<in> (edges (owned_refs h))\<^sup>* \<and> owns_key h k t)"

definition acyclic_owned :: "heap \<Rightarrow> bool" where
  "acyclic_owned h \<longleftrightarrow> finite (dom h) \<and> acyclic (edges (owned_refs h))"

lemma owned_refs_dom: "y \<in> set (owned_refs h x) \<Longrightarrow> x \<in> dom h"
  by (cases "h x") (simp_all add: owned_refs_def owned_of_def domIff)

interpretation owned: owner_graph owned_refs acyclic_owned
proof
  fix h :: heap
  assume ok: "acyclic_owned h"
  let ?E = "edges (owned_refs h)"
  have "?E \<subseteq> (SIGMA x : dom h. set (owned_refs h x))"
    by (auto dest: owned_refs_dom)
  moreover have "finite (SIGMA x : dom h. set (owned_refs h x))"
    using ok by (auto simp: acyclic_owned_def)
  ultimately have "finite ?E" by (rule finite_subset)
  moreover have "acyclic ?E" using ok by (simp only: acyclic_owned_def)
  ultimately show "wf (?E\<inverse>)" by (rule finite_acyclic_wf_converse)
qed

lemma isResourceOwnedBy_loop_walk:
  "walk n (owned_refs h) q = Some vs \<Longrightarrow>
   isResourceOwnedBy_loop n h k q = Some (\<exists>t \<in> set vs. owns_key h k t)"
proof (induction n h k q arbitrary: vs rule: isResourceOwnedBy_loop.induct)
  case (3 n h k t q)
  then obtain ws where ws: "walk n (owned_refs h) (q @ owned_refs h t) = Some ws" "vs = t # ws"
    by auto
  show ?case
  proof (cases "owned_of h t")
    case None
    with ws 3 show ?thesis by (simp add: owned_refs_def owns_key_def)
  next
    case (Some o1)
    with ws 3 show ?thesis by (simp add: owned_refs_def owns_key_def)
  qed
qed auto

lemma isResourceOwnedBy_loop_sound:
  "isResourceOwnedBy_loop n h k q = Some b \<Longrightarrow>
   b \<longleftrightarrow> (\<exists>x \<in> set q. transitively_owns h x k)"
proof (induction n h k q rule: isResourceOwnedBy_loop.induct)
  case (3 n h k t q)
  let ?R = "edges (owned_refs h)"
  have step: "transitively_owns h t k \<longleftrightarrow>
      owns_key h k t \<or> (\<exists>y \<in> set (owned_refs h t). transitively_owns h y k)"
  proof
    assume "transitively_owns h t k"
    then obtain u where "(t, u) \<in> ?R\<^sup>*" "owns_key h k u" by (auto simp: transitively_owns_def)
    then show "owns_key h k t \<or> (\<exists>y \<in> set (owned_refs h t). transitively_owns h y k)"
      by (cases rule: converse_rtranclE) (auto simp: transitively_owns_def)
  next
    assume "owns_key h k t \<or> (\<exists>y \<in> set (owned_refs h t). transitively_owns h y k)"
    then show "transitively_owns h t k"
      by (auto simp: transitively_owns_def intro: converse_rtrancl_into_rtrancl)
  qed
  show ?case
  proof (cases "owned_of h t")
    case None
    with 3 show ?thesis by (simp add: step) (simp add: owns_key_def owned_refs_def)
  next
    case (Some o1)
    show ?thesis
    proof (cases "ohas k o1")
      case True
      with Some "3.prems" show ?thesis by (simp add: step) (simp add: owns_key_def)
    next
      case False
      with Some 3 have "b \<longleftrightarrow> (\<exists>x \<in> set (q @ map snd o1). transitively_owns h x k)" by simp
      with Some False show ?thesis by (auto simp: step owns_key_def owned_refs_def)
    qed
  qed
qed auto

end
