(* ===== verification/DateTime.thy ===== *)
theory DateTime
  imports JsValue
begin

text \<open>
  \<^verbatim>\<open>Date.parse\<close> on the timestamps of Kubernetes objects, which are RFC 3339 in UTC with
  whole seconds (\<^verbatim>\<open>2017-09-01T10:00:00Z\<close>): milliseconds since 1970, \<^term>\<open>None\<close> for
  \<^verbatim>\<open>NaN\<close> on anything else. \<^verbatim>\<open>Date.now()\<close> is an argument of the definitions
  that read the clock.
\<close>

text \<open>Days since 1970-01-01 of a date of the proleptic Gregorian calendar.\<close>

definition days_from_civil :: "int \<Rightarrow> int \<Rightarrow> int \<Rightarrow> int" where
  "days_from_civil y m d =
     (let y' = (if m \<le> 2 then y - 1 else y);
          m' = (if m > 2 then m - 3 else m + 9);
          doy = (153 * m' + 2) div 5 + d - 1
      in 365 * y' + y' div 4 - y' div 100 + y' div 400 + doy - 719468)"

definition num_field :: "string \<Rightarrow> nat \<Rightarrow> nat \<Rightarrow> int option" where
  "num_field s i n = (let t = take n (drop i s) in
     if length t = n \<and> list_all is_digit t then Some (digits_val t) else None)"

definition sep_at :: "string \<Rightarrow> nat \<Rightarrow> char \<Rightarrow> unit option" where
  "sep_at s i c = (if take 1 (drop i s) = [c] then Some () else None)"

definition date_parse_str :: "string \<Rightarrow> int option" where
  "date_parse_str s = (if length s \<noteq> 20 then None else do {
     y \<leftarrow> num_field s 0 4; _ \<leftarrow> sep_at s 4 (CHR ''-'');
     mo \<leftarrow> num_field s 5 2; _ \<leftarrow> sep_at s 7 (CHR ''-'');
     d \<leftarrow> num_field s 8 2; _ \<leftarrow> sep_at s 10 (CHR ''T'');
     h \<leftarrow> num_field s 11 2; _ \<leftarrow> sep_at s 13 (CHR '':'');
     mi \<leftarrow> num_field s 14 2; _ \<leftarrow> sep_at s 16 (CHR '':'');
     sec \<leftarrow> num_field s 17 2; _ \<leftarrow> sep_at s 19 (CHR ''Z'');
     if 1 \<le> mo \<and> mo \<le> 12 \<and> 1 \<le> d \<and> d \<le> 31 \<and> h \<le> 23 \<and> mi \<le> 59 \<and> sec \<le> 59
     then Some (1000 * (86400 * days_from_civil y mo d + 3600 * h + 60 * mi + sec))
     else None
   })"

fun date_parse :: "json \<Rightarrow> int option" where
  "date_parse (JStr s) = date_parse_str s"
| "date_parse _ = None"

text \<open>Subtraction of numbers that may be \<^verbatim>\<open>NaN\<close>.\<close>

definition num_minus :: "int option \<Rightarrow> int option \<Rightarrow> int option" where
  "num_minus a b = (case (a, b) of (Some x, Some y) \<Rightarrow> Some (x - y) | _ \<Rightarrow> None)"

lemma num_minus_simps [simp]:
  "num_minus (Some x) (Some y) = Some (x - y)" "num_minus None b = None" "num_minus a None = None"
  by (auto simp: num_minus_def split: option.splits)

lemma date_parse_epoch: "date_parse (JStr ''1970-01-01T00:00:00Z'') = Some 0"
  by code_simp

lemma date_parse_2017: "date_parse (JStr ''2017-09-01T10:00:00Z'') = Some 1504260000000"
  by code_simp

end
