(* ===== verification/StatusSummary.thy ===== *)
theory StatusSummary
  imports Resource DateTime
begin

text \<open>
  \<^verbatim>\<open>statusForResource\<close> and \<^verbatim>\<open>statusForContainer\<close> of
  \<^verbatim>\<open>src/utils/resource-utils.js\<close>: one status summary per resource, by kind. A branch
  that falls out of the switch returns \<^verbatim>\<open>undefined\<close>; a missing
  \<^verbatim>\<open>status\<close> or \<^verbatim>\<open>spec\<close> throws.
\<close>

section \<open>Replicated workloads\<close>

definition replicaset_status :: "json \<Rightarrow> json option" where
  "replicaset_status b = do {
     st \<leftarrow> jget b ''status''; sp \<leftarrow> jget b ''spec'';
     ready \<leftarrow> jget st ''readyReplicas''; want \<leftarrow> jget sp ''replicas'';
     Some (if strict_eq ready want then JStr ''ok''
           else if \<not> truthy ready \<and> strict_eq want (JNum 0) then JStr ''disabled''
           else if js_less (js_or ready (JNum 0)) want then JStr ''scaling up''
           else if js_less want ready then JStr ''scaling down''
           else JUndef)
   }"

text \<open>The first condition of type \<^verbatim>\<open>Progressing\<close> decides; the loop returns inside.\<close>

fun progressing_status :: "json list \<Rightarrow> json option option" where
  "progressing_status [] = Some None"
| "progressing_status (c # cs) = do {
     ty \<leftarrow> jget c ''type'';
     if strict_eq ty (JStr ''Progressing'') then do {
       s \<leftarrow> jget c ''status'';
       Some (Some (if strict_eq s (JStr ''False'') then JStr ''timed out'' else JStr ''scaling up''))
     } else progressing_status cs
   }"

definition unavailable_status :: "json \<Rightarrow> json option" where
  "unavailable_status st = do {
     un \<leftarrow> jget st ''unavailableReplicas'';
     rep \<leftarrow> jget st ''replicas'';
     Some (if truthy un then (if strict_eq un rep then JStr ''error'' else JStr ''warning'')
           else JStr ''scaling up'')
   }"

text \<open>Fewer replicas are ready than wanted: the conditions decide, else the unavailable replicas.\<close>

definition rollout_status :: "json \<Rightarrow> json option" where
  "rollout_status st = do {
     conds \<leftarrow> jget st ''conditions'';
     early \<leftarrow> (if truthy conds then do { cs \<leftarrow> iter_of conds; progressing_status cs }
              else Some None);
     (case early of Some s \<Rightarrow> Some s | None \<Rightarrow> unavailable_status st)
   }"

definition deployment_status :: "json \<Rightarrow> json option" where
  "deployment_status b = do {
     st \<leftarrow> jget b ''status''; sp \<leftarrow> jget b ''spec'';
     ready \<leftarrow> jget st ''readyReplicas''; want \<leftarrow> jget sp ''replicas'';
     if strict_eq ready want then Some (JStr ''ok'')
     else if \<not> truthy ready \<and> strict_eq want (JNum 0) then Some (JStr ''disabled'')
     else if js_less (js_or ready (JNum 0)) want then rollout_status st
     else Some (if js_less want ready then JStr ''scaling down'' else JUndef)
   }"

definition replicationcontroller_status :: "json \<Rightarrow> json option" where
  "replicationcontroller_status b = do {
     st \<leftarrow> jget b ''status''; sp \<leftarrow> jget b ''spec'';
     ready \<leftarrow> jget st ''readyReplicas''; want \<leftarrow> jget sp ''replicas'';
     Some (if strict_eq ready want then JStr ''ok''
           else if \<not> truthy ready \<and> strict_eq want (JNum 0) then JStr ''disabled''
           else if js_less ready want then JStr ''scaling up''
           else if js_less want ready then JStr ''scaling down''
           else JUndef)
   }"

definition daemonset_status :: "json \<Rightarrow> json option" where
  "daemonset_status b = do {
     st \<leftarrow> jget b ''status'';
     cur \<leftarrow> jget st ''currentNumberScheduled''; want \<leftarrow> jget st ''desiredNumberScheduled'';
     Some (if strict_eq cur want then JStr ''ok''
           else if js_less want cur then JStr ''scaling up''
           else if js_less cur want then JStr ''scaling down''
           else JUndef)
   }"

text \<open>The summaries of the owned objects, in the order of the \<^verbatim>\<open>owned\<close> map.\<close>

definition status_at :: "heap \<Rightarrow> ref \<Rightarrow> json option" where
  "status_at h p = map_option r_statusSummary (h p)"

fun pods_in_error :: "heap \<Rightarrow> ref list \<Rightarrow> int option" where
  "pods_in_error h [] = Some 0"
| "pods_in_error h (p # ps) = do {
     s \<leftarrow> status_at h p;
     n \<leftarrow> pods_in_error h ps;
     Some (if strict_eq s (JStr ''error'') \<or> strict_eq s (JStr ''warning'') then 1 + n else n)
   }"

definition statefulset_status :: "heap \<Rightarrow> resource \<Rightarrow> json option" where
  "statefulset_status h r = do {
     st \<leftarrow> rget r ''status''; sp \<leftarrow> rget r ''spec'';
     rep \<leftarrow> jget st ''replicas''; want \<leftarrow> jget sp ''replicas'';
     if strict_eq rep want then Some (JStr ''ok'')
     else if \<not> truthy rep \<and> strict_eq want (JNum 0) then Some (JStr ''disabled'')
     else if js_less rep want then do {
       n \<leftarrow> (case r_owned r of None \<Rightarrow> Some 0 | Some o1 \<Rightarrow> pods_in_error h (map snd o1));
       Some (if n > 0 then (if strict_eq (JNum n) rep then JStr ''error'' else JStr ''warning'')
             else JStr ''scaling up'')
     }
     else Some (if js_less want rep then JStr ''scaling down'' else JUndef)
   }"

section \<open>Pods\<close>

record pod_flags =
  p_ready :: bool
  p_scheduled :: bool
  p_initialized :: bool
  p_completed :: bool

definition no_flags :: pod_flags where
  "no_flags = \<lparr>p_ready = False, p_scheduled = False, p_initialized = False, p_completed = False\<rparr>"

definition pod_condition :: "json \<Rightarrow> pod_flags \<Rightarrow> pod_flags option" where
  "pod_condition c f = do {
     ty \<leftarrow> jget c ''type''; s \<leftarrow> jget c ''status''; reason \<leftarrow> jget c ''reason'';
     Some (if strict_eq ty (JStr ''Initialized'')
           then f\<lparr>p_initialized := strict_eq s (JStr ''True'')\<rparr>
           else if strict_eq ty (JStr ''PodScheduled'')
           then f\<lparr>p_scheduled := strict_eq s (JStr ''True'')\<rparr>
           else if strict_eq ty (JStr ''Ready'')
           then f\<lparr>p_ready := strict_eq s (JStr ''True''),
                  p_completed := (strict_eq s (JStr ''False'')
                                  \<and> strict_eq reason (JStr ''PodCompleted''))\<rparr>
           else f)
   }"

definition fifteenMinutes :: int where
  "fifteenMinutes = 1000 * 60 * 15"

text \<open>
  One container: \<^term>\<open>Some True\<close> when it is flapping. \<^verbatim>\<open>podDuration / restartCount <
  fifteenMinutes\<close> is only reached for a restart count above 1 and is written as a product.
\<close>

definition container_flapping :: "int \<Rightarrow> int option \<Rightarrow> json \<Rightarrow> bool option" where
  "container_flapping now podDuration cs = do {
     ls \<leftarrow> jget cs ''lastState'';
     lastRun \<leftarrow> jget ls ''terminated'';
     if \<not> truthy lastRun then Some False
     else do {
       fin \<leftarrow> jget lastRun ''finishedAt''; sta \<leftarrow> jget lastRun ''startedAt'';
       reason \<leftarrow> jget lastRun ''reason'';
       state \<leftarrow> jget cs ''state''; running \<leftarrow> jget state ''running'';
       started \<leftarrow> jget running ''startedAt'';
       restarts \<leftarrow> jget cs ''restartCount'';
       let lastDuration = num_minus (date_parse fin) (date_parse sta);
       let currentDuration = num_minus (Some now) (date_parse started);
       Some ((num_less currentDuration (Some fifteenMinutes)
                \<and> (num_less lastDuration (Some fifteenMinutes)
                   \<or> \<not> strict_eq reason (JStr ''Completed'')))
             \<or> (num_less (Some 1) (to_num restarts)
                \<and> num_less podDuration (map_option (\<lambda>n. n * fifteenMinutes) (to_num restarts))))
     }
   }"

fun any_flapping :: "int \<Rightarrow> int option \<Rightarrow> json list \<Rightarrow> bool option" where
  "any_flapping now d [] = Some False"
| "any_flapping now d (c # cs) = do {
     b \<leftarrow> container_flapping now d c;
     if b then Some True else any_flapping now d cs
   }"

definition pod_status :: "int \<Rightarrow> json \<Rightarrow> json option" where
  "pod_status now b = do {
     st \<leftarrow> jget b ''status'';
     conds \<leftarrow> jget st ''conditions'';
     if \<not> truthy conds then Some (JStr ''scaling up'')
     else do {
       cs \<leftarrow> iter_of conds;
       f \<leftarrow> foldM pod_condition cs no_flags;
       if p_ready f \<and> p_scheduled f \<and> p_initialized f then do {
         start \<leftarrow> jget st ''startTime'';
         css \<leftarrow> jget st ''containerStatuses'';
         containers \<leftarrow> iter_of css;
         flap \<leftarrow> any_flapping now (num_minus (Some now) (date_parse start)) containers;
         Some (if flap then JStr ''warning'' else JStr ''ok'')
       }
       else Some (if p_completed f then JStr ''complete''
                  else if p_ready f \<or> p_scheduled f then JStr ''scaling up''
                  else JUndef)
     }
   }"

section \<open>Volumes, nodes and jobs\<close>

definition volume_status :: "json \<Rightarrow> json option" where
  "volume_status b = do {
     st \<leftarrow> jget b ''status''; phase \<leftarrow> jget st ''phase'';
     Some (if strict_eq phase (JStr ''Bound'') then JStr ''ok''
           else if strict_eq phase (JStr ''Lost'') then JStr ''error''
           else JStr ''scaling up'')
   }"

text \<open>\<open>prev\<close> is the summary the node had before; the loop returns at \<^verbatim>\<open>OutOfDisk\<close>.\<close>

fun node_conditions :: "json \<Rightarrow> json list \<Rightarrow> string \<Rightarrow> string option" where
  "node_conditions prev [] status = Some status"
| "node_conditions prev (c # cs) status = do {
     ty \<leftarrow> jget c ''type''; s \<leftarrow> jget c ''status'';
     if strict_eq ty (JStr ''DiskPressure'') \<or> strict_eq ty (JStr ''MemoryPressure'')
     then node_conditions prev cs (if strict_eq s (JStr ''True'') then ''warning'' else status)
     else if strict_eq ty (JStr ''OutOfDisk'')
     then (if strict_eq s (JStr ''True'') then Some ''error'' else node_conditions prev cs status)
     else if strict_eq ty (JStr ''Ready'')
     then node_conditions prev cs
            (if strict_eq s (JStr ''True'') \<and> status = ''scaling up'' then ''ok''
             else if strict_eq s (JStr ''False'') \<and> \<not> strict_eq prev (JStr ''scaling up'')
             then ''error''
             else if strict_eq s (JStr ''Unknown'') then ''error''
             else status)
     else node_conditions prev cs status
   }"

definition node_status :: "resource \<Rightarrow> json option" where
  "node_status r = do {
     st \<leftarrow> rget r ''status'';
     conds \<leftarrow> jget st ''conditions'';
     cs \<leftarrow> iter_of conds;
     s \<leftarrow> node_conditions (r_statusSummary r) cs ''scaling up'';
     Some (JStr s)
   }"

definition job_condition :: "json \<Rightarrow> string \<Rightarrow> string option" where
  "job_condition c status = do {
     ty \<leftarrow> jget c ''type''; s \<leftarrow> jget c ''status''; reason \<leftarrow> jget c ''reason'';
     Some (if strict_eq ty (JStr ''Complete'') \<and> strict_eq s (JStr ''True'') then ''complete''
           else if strict_eq ty (JStr ''Failed'') \<and> strict_eq s (JStr ''True'')
           then (if strict_eq reason (JStr ''DeadlineExceeded'') then ''timed out'' else ''error'')
           else status)
   }"

definition job_status :: "json \<Rightarrow> json option" where
  "job_status b = do {
     st \<leftarrow> jget b ''status'';
     conds \<leftarrow> jget st ''conditions'';
     s \<leftarrow> (if truthy conds then do { cs \<leftarrow> iter_of conds; foldM job_condition cs ''scaling up'' }
          else Some ''scaling up'');
     Some (JStr s)
   }"

definition is_done :: "json \<Rightarrow> bool" where
  "is_done s \<longleftrightarrow> strict_eq s (JStr ''complete'') \<or> strict_eq s (JStr ''ok'')"

text \<open>The second and third most recent jobs, once the most recent one has failed.\<close>

fun older_jobs :: "heap \<Rightarrow> ref list \<Rightarrow> string \<Rightarrow> string option" where
  "older_jobs h [] status = Some status"
| "older_jobs h (j # js) status = do {
     s \<leftarrow> status_at h j;
     if is_done s then Some ''warning''
     else older_jobs h js (if strict_eq s (JStr ''scaling up'') then ''scaling up'' else status)
   }"

definition job_refs :: "ref obj \<Rightarrow> ref option list" where
  "job_refs o1 = map (oget o1) (rev (sort_by lex_cmp (okeys o1)))"

definition cronjob_status :: "heap \<Rightarrow> resource \<Rightarrow> json option" where
  "cronjob_status h r =
     (case r_owned r of
        None \<Rightarrow> Some (JStr ''ok'')
      | Some o1 \<Rightarrow>
          (case List.map_filter id (job_refs o1) of
             [] \<Rightarrow> None
           | j # js \<Rightarrow> do {
               s \<leftarrow> status_at h j;
               if is_done s then Some (JStr ''ok'')
               else if strict_eq s (JStr ''scaling up'') then
                 (case js of
                    [] \<Rightarrow> Some (JStr ''scaling up'')
                  | j2 # _ \<Rightarrow> do {
                      s2 \<leftarrow> status_at h j2;
                      Some (if is_done s2 then JStr ''ok'' else JStr ''warning'') })
               else do {
                 x \<leftarrow> older_jobs h (take 2 js) ''error'';
                 Some (JStr x)
               } }))"

section \<open>The switch on the kind\<close>

definition statusForResource :: "int \<Rightarrow> heap \<Rightarrow> resource \<Rightarrow> json option" where
  "statusForResource now h r = do {
     k \<leftarrow> kind_of r;
     (case k of
        JStr kind \<Rightarrow>
          if kind = ''ReplicaSet'' then replicaset_status (r_body r)
          else if kind = ''Deployment'' then deployment_status (r_body r)
          else if kind = ''Pod'' then pod_status now (r_body r)
          else if kind = ''DaemonSet'' then daemonset_status (r_body r)
          else if kind = ''ReplicationController'' then replicationcontroller_status (r_body r)
          else if kind = ''StatefulSet'' then statefulset_status h r
          else if kind = ''PersistentVolumeClaim'' \<or> kind = ''PersistentVolume''
          then volume_status (r_body r)
          else if kind = ''Node'' then node_status r
          else if kind = ''Job'' then job_status (r_body r)
          else if kind = ''CronJob'' then cronjob_status h r
          else Some (JStr '''')
      | _ \<Rightarrow> Some (JStr ''''))
   }"

definition statusForContainer :: "json \<Rightarrow> json option" where
  "statusForContainer cs = do {
     ready \<leftarrow> jget cs ''ready'';
     if truthy ready then Some (JStr ''ok'')
     else do {
       state \<leftarrow> jget cs ''state'';
       waiting \<leftarrow> jget state ''waiting'';
       if truthy waiting then do {
         reason \<leftarrow> jget waiting ''reason'';
         Some (if strict_eq reason (JStr ''ContainerCreating'') then JStr ''scaling up'' else JUndef)
       } else Some JUndef
     }
   }"

section \<open>The summaries that exist\<close>

definition summaries :: "string list" where
  "summaries = [''ok'', ''warning'', ''error'', ''scaling up'', ''scaling down'', ''timed out'',
                ''disabled'', ''complete'', '''']"

definition is_summary :: "json \<Rightarrow> bool" where
  "is_summary v \<longleftrightarrow> v = JUndef \<or> v \<in> JStr ` set summaries"

lemma is_summary_str [simp]: "is_summary (JStr s) \<longleftrightarrow> s \<in> set summaries"
  by (auto simp: is_summary_def)

lemma is_summary_undef [simp]: "is_summary JUndef"
  by (simp add: is_summary_def)

lemma in_summaries [simp]:
  "''ok'' \<in> set summaries" "''warning'' \<in> set summaries" "''error'' \<in> set summaries"
  "''scaling up'' \<in> set summaries" "''scaling down'' \<in> set summaries" "''timed out'' \<in> set summaries"
  "''disabled'' \<in> set summaries" "''complete'' \<in> set summaries" "[] \<in> set summaries"
  by (simp_all add: summaries_def)

lemma if_summary: "is_summary a \<Longrightarrow> is_summary b \<Longrightarrow> is_summary (if c then a else b)"
  by simp

lemma progressing_summary: "progressing_status cs = Some (Some s) \<Longrightarrow> is_summary s"
  by (induction cs arbitrary: s) (auto simp: bind_Some_iff split: if_splits)

lemma replicaset_summary: "replicaset_status b = Some s \<Longrightarrow> is_summary s"
  by (auto simp: replicaset_status_def bind_Some_iff intro!: if_summary)

lemma unavailable_summary: "unavailable_status b = Some s \<Longrightarrow> is_summary s"
  by (auto simp: unavailable_status_def bind_Some_iff intro!: if_summary)

lemma rollout_summary:
  assumes "rollout_status st = Some s"
  shows "is_summary s"
proof -
  from assms obtain conds early where
    "(if truthy conds then do { cs \<leftarrow> iter_of conds; progressing_status cs } else Some None) = Some early"
    "(case early of Some s \<Rightarrow> Some s | None \<Rightarrow> unavailable_status st) = Some s"
    unfolding rollout_status_def bind_Some_iff by blast
  then show ?thesis
    by (cases early) (auto simp: bind_Some_iff split: if_split_asm
        dest: unavailable_summary progressing_summary)
qed

lemma deployment_summary: "deployment_status b = Some s \<Longrightarrow> is_summary s"
  by (auto simp: deployment_status_def bind_Some_iff split: if_split_asm dest: rollout_summary)

lemma replicationcontroller_summary: "replicationcontroller_status b = Some s \<Longrightarrow> is_summary s"
  by (auto simp: replicationcontroller_status_def bind_Some_iff intro!: if_summary)

lemma daemonset_summary: "daemonset_status b = Some s \<Longrightarrow> is_summary s"
  by (auto simp: daemonset_status_def bind_Some_iff intro!: if_summary)

lemma statefulset_summary: "statefulset_status h r = Some s \<Longrightarrow> is_summary s"
  by (auto simp: statefulset_status_def bind_Some_iff intro!: if_summary split: if_split_asm)

lemma pod_summary: "pod_status now b = Some s \<Longrightarrow> is_summary s"
  by (auto simp: pod_status_def bind_Some_iff intro!: if_summary split: if_split_asm)

lemma volume_summary: "volume_status b = Some s \<Longrightarrow> is_summary s"
  by (auto simp: volume_status_def bind_Some_iff intro!: if_summary)

lemma node_conditions_step:
  assumes "node_conditions p (c # cs) s = Some t"
  shows "t = ''error'' \<or> (\<exists>s'. s' \<in> {s, ''warning'', ''ok'', ''error''} \<and> node_conditions p cs s' = Some t)"
proof -
  from assms obtain ty v where tv: "jget c ''type'' = Some ty" "jget c ''status'' = Some v"
    by (auto simp: bind_Some_iff)
  let ?ready = "if strict_eq v (JStr ''True'') \<and> s = ''scaling up'' then ''ok''
             else if strict_eq v (JStr ''False'') \<and> \<not> strict_eq p (JStr ''scaling up'') then ''error''
             else if strict_eq v (JStr ''Unknown'') then ''error'' else s"
  let ?press = "if strict_eq v (JStr ''True'') then ''warning'' else s"
  have "node_conditions p cs ?press = Some t \<or> Some ''error'' = Some t
        \<or> node_conditions p cs s = Some t \<or> node_conditions p cs ?ready = Some t"
    using assms unfolding node_conditions.simps tv bind.bind_lunit by presburger
  moreover have "?press \<in> {s, ''warning'', ''ok'', ''error''}" "?ready \<in> {s, ''warning'', ''ok'', ''error''}"
    by (simp_all only: insertI1 insertI2 simp_thms split: if_split)
  ultimately show ?thesis by blast
qed

lemma node_conditions_summary:
  "node_conditions p cs s = Some t \<Longrightarrow> s \<in> set summaries \<Longrightarrow> t \<in> set summaries"
proof (induction cs arbitrary: s)
  case (Cons c cs)
  have "{s, ''warning'', ''ok'', ''error''} \<subseteq> set summaries" using Cons.prems(2) by simp
  then have "s' \<in> {s, ''warning'', ''ok'', ''error''} \<Longrightarrow> node_conditions p cs s' = Some t \<Longrightarrow> t \<in> set summaries" for s'
    using Cons.IH by blast
  with node_conditions_step [OF Cons.prems(1)] in_summaries(3) show ?case by blast
qed simp

lemma node_summary:
  assumes "node_status r = Some s"
  shows "is_summary s"
proof -
  from assms obtain cs t where "node_conditions (r_statusSummary r) cs ''scaling up'' = Some t" "s = JStr t"
    by (auto simp: node_status_def bind_Some_iff)
  then show ?thesis using node_conditions_summary by simp
qed

lemma job_condition_summary: "job_condition c s = Some t \<Longrightarrow> s \<in> set summaries \<Longrightarrow> t \<in> set summaries"
  by (auto simp: job_condition_def bind_Some_iff)

lemma job_conditions_summary:
  "foldM job_condition cs s = Some t \<Longrightarrow> s \<in> set summaries \<Longrightarrow> t \<in> set summaries"
  using foldM_inv [of cs "\<lambda>s. s \<in> set summaries" job_condition s t] job_condition_summary by blast

lemma job_summary: "job_status b = Some s \<Longrightarrow> is_summary s"
  by (auto simp: job_status_def bind_Some_iff split: if_split_asm dest: job_conditions_summary)

lemma older_jobs_summary: "older_jobs h js s = Some t \<Longrightarrow> s \<in> set summaries \<Longrightarrow> t \<in> set summaries"
  by (induction js arbitrary: s) (auto simp: bind_Some_iff split: if_split_asm)

lemma cronjob_summary: "cronjob_status h r = Some s \<Longrightarrow> is_summary s"
  by (auto simp: cronjob_status_def bind_Some_iff split: option.split_asm list.split_asm if_split_asm
      intro!: if_summary dest!: older_jobs_summary)

text \<open>Every summary of \<^verbatim>\<open>statusForResource\<close> is one of these texts, or \<^verbatim>\<open>undefined\<close>.\<close>

lemma statusForResource_summary:
  assumes "statusForResource now h r = Some s"
  shows "is_summary s"
proof -
  from assms obtain k where k: "kind_of r = Some k" by (auto simp: statusForResource_def bind_Some_iff)
  show ?thesis
  proof (cases "\<exists>kind. k = JStr kind")
    case False
    with assms k have "s = JStr []" by (cases k) (simp_all add: statusForResource_def)
    then show ?thesis by simp
  next
    case True
    then obtain kind where kind: "k = JStr kind" ..
    from assms have
      "replicaset_status (r_body r) = Some s \<or> deployment_status (r_body r) = Some s
       \<or> pod_status now (r_body r) = Some s \<or> daemonset_status (r_body r) = Some s
       \<or> replicationcontroller_status (r_body r) = Some s \<or> statefulset_status h r = Some s
       \<or> volume_status (r_body r) = Some s \<or> node_status r = Some s \<or> job_status (r_body r) = Some s
       \<or> cronjob_status h r = Some s \<or> Some (JStr []) = Some s"
      unfolding statusForResource_def k bind.bind_lunit kind json.case by presburger
    then show ?thesis
      by (elim disjE) (auto simp: replicaset_summary deployment_summary pod_summary daemonset_summary
          replicationcontroller_summary statefulset_summary volume_summary node_summary job_summary
          cronjob_summary)
  qed
qed

end
