(* ===== verification/Filters.thy ===== *)
theory Filters
  imports Resource
begin

text \<open>
  Resource filters: \<^verbatim>\<open>src/utils/filter-utils.js\<close>, and \<^verbatim>\<open>addFilter\<close> and
  \<^verbatim>\<open>removeFilter\<close> of \<^verbatim>\<open>src/state/reducers/resources.js\<close>. A filter has the
  textual form \<^verbatim>\<open>field:value\<close> or \<^verbatim>\<open>field:!value\<close>; the state keeps the texts
  (\<open>filterNames\<close>) and the parsed form (\<open>filters\<close>, field to set of values). A resource is shown
  when every field of the global and of the dynamic filters matches it.
\<close>

type_synonym filter_map = "bool obj obj"

section \<open>Filter texts\<close>

definition bang :: "string \<Rightarrow> bool" where
  "bang s \<longleftrightarrow> starts_with ''!'' s"

text \<open>\<^verbatim>\<open>s.substr(1)\<close>\<close>

definition substr1 :: "string \<Rightarrow> string" where
  "substr1 s = drop 1 s"

definition splitFilter :: "string \<Rightarrow> string \<times> string" where
  "splitFilter s =
     (case split_on (CHR '':'') s of
        [] \<Rightarrow> ([], [])
      | [p0] \<Rightarrow> (''*'', p0)
      | p0 # p1 # ps \<Rightarrow>
          if bang p1 then (''!'' @ p0, join '':'' (substr1 p1 # ps))
          else (p0, join '':'' (p1 # ps)))"

definition normalizeFilter :: "string \<times> string \<Rightarrow> string" where
  "normalizeFilter parts =
     (if bang (fst parts) then substr1 (fst parts) @ '':!'' @ snd parts
      else join '':'' [fst parts, snd parts])"

lemma bang_simps [simp]: "bang (CHR ''!'' # s)" "\<not> bang []" "substr1 (c # s) = s"
  by (simp_all add: bang_def starts_with_def substr1_def)

lemma bang_Cons: "bang (c # s) \<longleftrightarrow> c = CHR ''!''"
  by (auto simp: bang_def starts_with_def)

lemma splitFilter_plain: "CHR '':'' \<notin> set s \<Longrightarrow> splitFilter s = (''*'', s)"
  by (simp add: splitFilter_def)

lemma join_colon_split [simp]:
  "join '':'' (p # ps) = p @ (if ps = [] then [] else CHR '':'' # join '':'' ps)"
  by (cases ps) auto

lemma splitFilter_colon:
  assumes "CHR '':'' \<notin> set k"
  shows "splitFilter (k @ CHR '':'' # v) =
           (if bang v then (CHR ''!'' # k, substr1 v) else (k, v))"
proof -
  obtain p ps where v: "split_on (CHR '':'') v = p # ps"
    by (meson list.exhaust split_on_not_Nil)
  have jv: "join '':'' (p # ps) = v"
    using join_split_on [of "CHR '':''" v] by (simp only: v)
  have bang_p: "bang p = bang v"
    using jv by (cases p) (auto simp: bang_Cons split: if_splits)
  have "splitFilter (k @ CHR '':'' # v) =
          (if bang p then (CHR ''!'' # k, join '':'' (substr1 p # ps)) else (k, join '':'' (p # ps)))"
    using assms by (simp add: splitFilter_def split_on_append v)
  moreover have "bang p \<Longrightarrow> join '':'' (substr1 p # ps) = substr1 v"
    using jv by (cases p) (auto simp: bang_Cons)
  ultimately show ?thesis using jv bang_p by presburger
qed

text \<open>Every text with a colon is a field without one, the colon, and the rest.\<close>

lemma colon_text:
  assumes "CHR '':'' \<in> set s"
  obtains k v where "s = k @ CHR '':'' # v" "CHR '':'' \<notin> set k"
  using split_list_first [OF assms] that by blast

lemma normalizeFilter_split:
  assumes "CHR '':'' \<in> set s"
  shows "splitFilter (normalizeFilter (splitFilter s)) = splitFilter s"
proof -
  from assms obtain k v where s: "s = k @ CHR '':'' # v" "CHR '':'' \<notin> set k"
    by (rule colon_text)
  show ?thesis
  proof (cases "bang v")
    case True
    then have "normalizeFilter (splitFilter s) = k @ CHR '':'' # CHR ''!'' # substr1 v"
      by (simp add: s splitFilter_colon normalizeFilter_def)
    with True s show ?thesis by (simp add: splitFilter_colon)
  next
    case False
    show ?thesis
    proof (cases "bang k")
      case True
      then obtain k' where k': "k = CHR ''!'' # k'" by (cases k) (auto simp: bang_Cons)
      have sp: "splitFilter s = (k, v)" using False s by (simp add: splitFilter_colon)
      with k' have "normalizeFilter (splitFilter s) = k' @ CHR '':'' # CHR ''!'' # v"
        by (simp add: normalizeFilter_def)
      moreover have "CHR '':'' \<notin> set k'" using s(2) k' by simp
      ultimately show ?thesis by (simp add: sp k' splitFilter_colon)
    next
      case nb: False
      with False s have "normalizeFilter (splitFilter s) = s"
        by (simp add: splitFilter_colon normalizeFilter_def)
      then show ?thesis by simp
    qed
  qed
qed

lemma normalizeFilter_colon: "CHR '':'' \<in> set (normalizeFilter p)"
  by (simp add: normalizeFilter_def)

section \<open>Adding and removing filters\<close>

definition values_of :: "filter_map \<Rightarrow> string \<Rightarrow> bool obj" where
  "values_of filters k = (case oget filters k of Some vs \<Rightarrow> vs | None \<Rightarrow> [])"

definition has_filter :: "filter_map \<Rightarrow> string \<times> string \<Rightarrow> bool" where
  "has_filter filters p \<longleftrightarrow> ohas (snd p) (values_of filters (fst p))"

type_synonym filter_state = "filter_map \<times> string list"

text \<open>One round of the loop; the flag is \<^verbatim>\<open>modified\<close>.\<close>

definition addFilter1 :: "string \<Rightarrow> filter_state \<times> bool \<Rightarrow> filter_state \<times> bool" where
  "addFilter1 filterName s =
     (let ((filters, filterNames), modified) = s;
          (k, v) = splitFilter filterName
      in if \<not> ohas k filters \<or> \<not> has_filter filters (k, v)
         then ((oset k (oset v True (values_of filters k)) filters,
                filterNames @ [normalizeFilter (k, v)]), True)
         else s)"

definition addFilter :: "filter_map \<Rightarrow> string list \<Rightarrow> string list \<Rightarrow> filter_state \<times> bool" where
  "addFilter filters filterNames newFilterNames =
     fold addFilter1 newFilterNames ((filters, filterNames), False)"

text \<open>\<^verbatim>\<open>filterNames.splice(index, 1)\<close>, where a negative index counts from the end.\<close>

definition splice1 :: "int \<Rightarrow> 'a list \<Rightarrow> 'a list" where
  "splice1 i xs =
     (let n = int (length xs);
          j = nat (if i < 0 then max 0 (n + i) else min i n)
      in take j xs @ drop (Suc j) xs)"

definition removeFilter ::
  "filter_map \<Rightarrow> string list \<Rightarrow> string \<Rightarrow> int option \<Rightarrow> filter_state" where
  "removeFilter filters filterNames filterName index =
     (let (k, v) = splitFilter filterName;
          filters' = (case oget filters k of
                        None \<Rightarrow> filters
                      | Some vs \<Rightarrow> if odel v vs = [] then odel k filters
                                   else oset k (odel v vs) filters)
      in (filters', case index of
                      Some i \<Rightarrow> splice1 i filterNames
                    | None \<Rightarrow> remove1 filterName filterNames))"

text \<open>
  The two representations agree: the parsed filters are those of the texts, and no field is
  kept with an empty set of values (an empty set would hide every resource).
\<close>

definition filters_agree :: "filter_state \<Rightarrow> bool" where
  "filters_agree fs \<longleftrightarrow>
     (\<forall>p. has_filter (fst fs) p \<longleftrightarrow> p \<in> splitFilter ` set (snd fs))
     \<and> (\<forall>k. oget (fst fs) k \<noteq> Some [])
     \<and> distinct (map splitFilter (snd fs))"

lemma has_filter_oset [simp]:
  "has_filter (oset k vs filters) p \<longleftrightarrow>
     (if fst p = k then ohas (snd p) vs else has_filter filters p)"
  by (simp add: has_filter_def values_of_def)

lemma has_filter_odel [simp]:
  "has_filter (odel k filters) p \<longleftrightarrow> fst p \<noteq> k \<and> has_filter filters p"
  by (simp add: has_filter_def values_of_def)

lemma filters_agree_empty: "filters_agree ([], [])"
  by (simp add: filters_agree_def has_filter_def values_of_def)

lemma oset_not_Nil [simp]: "oset k v o1 \<noteq> []"
  by (simp add: oset_def)

lemma addFilter1_agree:
  assumes "filters_agree (fst s)" "CHR '':'' \<in> set name"
  shows "filters_agree (fst (addFilter1 name s))"
proof -
  obtain filters names m where s: "s = ((filters, names), m)" by (metis prod.exhaust)
  obtain k v where kv: "splitFilter name = (k, v)" by (metis prod.exhaust)
  have rt: "splitFilter (normalizeFilter (k, v)) = (k, v)"
    using normalizeFilter_split [OF assms(2)] by (simp add: kv)
  show ?thesis
  proof (cases "has_filter filters (k, v)")
    case True
    then have "ohas k filters"
      by (auto simp: has_filter_def values_of_def ohas_def split: option.splits)
    with True s kv assms(1) show ?thesis by (simp add: addFilter1_def)
  next
    case False
    have "has_filter filters (a, b) \<longleftrightarrow> (a, b) \<in> splitFilter ` set names" for a b
      using assms(1) s by (simp add: filters_agree_def)
    moreover have "ohas b (values_of filters a) = has_filter filters (a, b)" for a b
      by (simp add: has_filter_def)
    ultimately show ?thesis
      using False s kv assms(1) rt
      by (auto simp: addFilter1_def filters_agree_def)
  qed
qed

lemma addFilter_agree:
  assumes "filters_agree (filters, names)" "list_all (\<lambda>n. CHR '':'' \<in> set n) new"
  shows "filters_agree (fst (addFilter filters names new))"
proof -
  have "filters_agree (fst s) \<Longrightarrow> filters_agree (fst (fold addFilter1 new s))" for s
    using assms(2)
  proof (induction new arbitrary: s)
    case (Cons n ns)
    then have "filters_agree (fst (addFilter1 n s))" by (intro addFilter1_agree) simp_all
    with Cons.IH [of "addFilter1 n s"] Cons.prems show ?case by simp
  qed simp
  then show ?thesis using assms(1) by (simp add: addFilter_def)
qed

lemma splice1_remove1:
  assumes "distinct xs" "i < length xs"
  shows "splice1 (int i) xs = remove1 (xs ! i) xs"
proof -
  have "xs = take i xs @ xs ! i # drop (Suc i) xs"
    using assms(2) by (simp add: id_take_nth_drop)
  moreover from this assms(1) have "xs ! i \<notin> set (take i xs)"
    by (metis append_Cons distinct_append disjoint_insert(2) list.simps(15))
  ultimately have "remove1 (xs ! i) xs = take i xs @ drop (Suc i) xs"
    by (metis remove1.simps(2) remove1_append)
  with assms(2) show ?thesis by (simp add: splice1_def Let_def)
qed

lemma has_filter_remove:
  "has_filter (fst (removeFilter filters names name index)) p \<longleftrightarrow>
     p \<noteq> splitFilter name \<and> has_filter filters p"
proof -
  obtain k v where kv: "splitFilter name = (k, v)" by (metis prod.exhaust)
  obtain a b where p: "p = (a, b)" by (metis prod.exhaust)
  show ?thesis
  proof (cases "oget filters k")
    case None
    then have "\<not> has_filter filters (k, v)" by (simp add: has_filter_def values_of_def)
    with None show ?thesis by (auto simp: removeFilter_def kv)
  next
    case (Some vs)
    have "ohas b vs \<and> b \<noteq> v \<longleftrightarrow> ohas b (odel v vs)" by auto
    moreover have "odel v vs = [] \<Longrightarrow> ohas b vs \<Longrightarrow> b = v"
      by (metis ohas_Nil ohas_odel)
    moreover have "a = k \<Longrightarrow> has_filter filters (a, b) = ohas b vs"
      using Some by (simp add: has_filter_def values_of_def)
    ultimately show ?thesis using Some by (auto simp: removeFilter_def kv p)
  qed
qed

lemma removeFilter_agree:
  assumes "filters_agree (filters, names)" "name \<in> set names"
    and "\<forall>i. index = Some i \<longrightarrow> (\<exists>n < length names. i = int n \<and> names ! n = name)"
  shows "filters_agree (removeFilter filters names name index)"
proof -
  let ?r = "removeFilter filters names name index"
  have dm: "distinct (map splitFilter names)" using assms(1) by (simp add: filters_agree_def)
  then have d: "distinct names" by (simp add: distinct_map)
  have names': "snd ?r = remove1 name names"
    using assms(3) d by (cases index) (auto simp: removeFilter_def split_beta splice1_remove1)
  have inj: "inj_on splitFilter (set names)" using dm by (simp add: distinct_map)
  have "splitFilter ` set (remove1 name names) = splitFilter ` set names - {splitFilter name}"
    using d inj assms(2) by (simp add: inj_on_image_set_diff [where C = "set names"])
  moreover have "oget (fst ?r) k \<noteq> Some []" for k
    using assms(1) by (auto simp: removeFilter_def split_beta filters_agree_def split: option.splits)
  moreover have "distinct (map splitFilter (remove1 name names))"
    using d inj by (auto simp: distinct_map inj_on_def dest: set_remove1_subset [THEN subsetD])
  ultimately show ?thesis
    using assms(1) by (auto simp: filters_agree_def has_filter_remove names')
qed

section \<open>Applying filters\<close>

definition zoneLabel :: string where
  "zoneLabel = ''failure-domain.beta.kubernetes.io/zone''"
definition regionLabel :: string where
  "regionLabel = ''failure-domain.beta.kubernetes.io/region''"
definition instanceTypeLabel :: string where
  "instanceTypeLabel = ''beta.kubernetes.io/instance-type''"
definition roleLabel :: string where
  "roleLabel = ''kubernetes.io/role''"
definition hostnameLabel :: string where
  "hostnameLabel = ''kubernetes.io/hostname''"
definition detachedOwnerRefsAnnotation :: string where
  "detachedOwnerRefsAnnotation = ''kuill/detachedOwnerReferences''"

text \<open>\<^verbatim>\<open>v in values\<close> for a value used as a property name.\<close>

definition in_values :: "json \<Rightarrow> bool obj \<Rightarrow> bool" where
  "in_values v values = ohas (to_str v) values"

text \<open>\<^verbatim>\<open>resource[field]\<close>, printed: the fields the UI adds come before those received.\<close>

definition field_str :: "resource \<Rightarrow> string \<Rightarrow> string option" where
  "field_str r f =
     (if f = ''key'' then Some (key_name r)
      else if f = ''statusSummary'' then Some (to_str (r_statusSummary r))
      else if f = ''isFiltered'' then Some (if r_isFiltered r then ''true'' else ''false'')
      else if f = ''isDeleted'' \<and> r_isDeleted r then Some ''true''
      else if f = ''notFound'' \<and> r_notFound r then Some ''true''
      else if f = ''owned'' \<and> r_owned r \<noteq> None \<or> f = ''related'' \<and> r_related r \<noteq> None
      then Some ''[object Object]''
      else map_option to_str (rget r f))"

text \<open>\<^verbatim>\<open>metadata.labels && metadata.labels[label] in values\<close>\<close>

definition label_in :: "string \<Rightarrow> bool obj \<Rightarrow> resource \<Rightarrow> bool option" where
  "label_in label values r = do {
     labels \<leftarrow> metadata_of r ''labels'';
     if truthy labels then do { v \<leftarrow> jget labels label; Some (in_values v values) }
     else Some False
   }"

text \<open>Short-circuit disjunction of tests that may throw.\<close>

definition or_else :: "bool option \<Rightarrow> bool option \<Rightarrow> bool option" where
  "or_else a b = (case a of None \<Rightarrow> None | Some True \<Rightarrow> Some True | Some False \<Rightarrow> b)"

definition meta_value_matches :: "bool obj \<Rightarrow> string \<Rightarrow> bool" where
  "meta_value_matches values mv \<longleftrightarrow> ohas mv values \<or> list_ex (\<lambda>v. str_includes mv v) (okeys values)"

definition match_any :: "bool obj \<Rightarrow> resource \<Rightarrow> bool option" where
  "match_any values r = do {
     md \<leftarrow> rget r ''metadata'';
     vals \<leftarrow> (if keys_in md = [] then Some [] else those (map (jget md) (keys_in md)));
     let m = list_ex (\<lambda>v. meta_value_matches values (to_str v)) vals;
     has_labels \<leftarrow> jhas ''labels'' md;
     if has_labels then do {
       labels \<leftarrow> jget md ''labels'';
       lvals \<leftarrow> (if keys_in labels = [] then Some [] else those (map (jget labels) (keys_in labels)));
       Some (m \<or> list_ex (\<lambda>v. in_values v values) lvals)
     } else Some m
   }"

fun any_name_in :: "bool obj \<Rightarrow> json list \<Rightarrow> bool option" where
  "any_name_in values [] = Some False"
| "any_name_in values (s # ss) = do {
     n \<leftarrow> jget s ''name'';
     if in_values n values then Some True else any_name_in values ss
   }"

definition is_pod :: "resource \<Rightarrow> bool option" where
  "is_pod r = map_option (\<lambda>k. strict_eq k (JStr ''Pod'')) (kind_of r)"

text \<open>\<^verbatim>\<open>resource[outer] && resource[outer][inner] in values\<close>\<close>

definition sub_in :: "string \<Rightarrow> string \<Rightarrow> bool obj \<Rightarrow> resource \<Rightarrow> bool option" where
  "sub_in outer inner values r = do {
     v \<leftarrow> rget r outer;
     if truthy v then do { w \<leftarrow> jget v inner; Some (in_values w values) } else Some False
   }"

definition detached_match :: "bool obj \<Rightarrow> resource \<Rightarrow> bool option" where
  "detached_match values r = do {
     p \<leftarrow> is_pod r;
     if p \<and> ohas ''true'' values then do {
       ann \<leftarrow> metadata_of r ''annotations'';
       if truthy ann then jhas detachedOwnerRefsAnnotation ann else Some False
     } else Some False
   }"

definition generic_match :: "string \<Rightarrow> bool obj \<Rightarrow> resource \<Rightarrow> bool option" where
  "generic_match field values r = do {
     m \<leftarrow> metadata_of r field;
     f \<leftarrow> field_str r field;
     if in_values m values \<or> ohas f values then Some True
     else do {
       md \<leftarrow> rget r ''metadata'';
       has_labels \<leftarrow> jhas ''labels'' md;
       if has_labels then do {
         labels \<leftarrow> jget md ''labels'';
         v \<leftarrow> jget labels field;
         Some (in_values v values)
       } else Some False
     }
   }"

text \<open>The chain of tests on the field; \<^verbatim>\<open>freeMemory\<close> and \<^verbatim>\<open>freeCPU\<close> are not implemented.\<close>

definition field_match :: "string \<Rightarrow> bool obj \<Rightarrow> resource \<Rightarrow> bool option" where
  "field_match field values r =
     (if field = ''*'' then match_any values r
      else if field = ''status'' then Some (in_values (r_statusSummary r) values)
      else if field = ''zone'' then
        or_else (label_in zoneLabel values r) (sub_in ''parameters'' ''zone'' values r)
      else if field = ''region'' then label_in regionLabel values r
      else if field = ''instanceType'' then label_in instanceTypeLabel values r
      else if field = ''role'' then
        or_else (label_in roleLabel values r) (sub_in ''roleRef'' ''name'' values r)
      else if field = ''hostname'' then label_in hostnameLabel values r
      else if field = ''node'' then do {
        p \<leftarrow> is_pod r;
        if p then do {
          sp \<leftarrow> rget r ''spec''; n \<leftarrow> jget sp ''nodeName''; Some (in_values n values)
        } else Some False
      }
      else if field = ''subject'' then do {
        ss \<leftarrow> rget r ''subjects'';
        if truthy ss then do { xs \<leftarrow> iter_of ss; any_name_in values xs } else Some False
      }
      else if field = ''freeMemory'' \<or> field = ''freeCPU'' then Some False
      else if field = ''namespace'' then do {
        ns \<leftarrow> metadata_of r ''namespace'';
        Some (truthy ns \<and> in_values ns values)
      }
      else if field = ''detached'' then
        or_else (detached_match values r) (generic_match field values r)
      else generic_match field values r)"

text \<open>
  The loop over the fields: it sets \<^verbatim>\<open>isFiltered\<close> at every field and returns
  \<^verbatim>\<open>true\<close> at the first that does not match.
\<close>

fun filter_fields :: "filter_map \<Rightarrow> resource \<Rightarrow> (resource \<times> bool) option" where
  "filter_fields [] r = Some (r, False)"
| "filter_fields ((f, values) # fs) r = do {
     let negated = bang f;
     m \<leftarrow> field_match (if negated then substr1 f else f) values r;
     let matched = (m \<noteq> negated);
     let r' = r\<lparr>r_isFiltered := \<not> matched\<rparr>;
     if \<not> matched then Some (r', True) else filter_fields fs r'
   }"

definition applyFiltersToResource :: "filter_map \<Rightarrow> resource \<Rightarrow> (resource \<times> bool) option" where
  "applyFiltersToResource filters r =
     (if r_isDeleted r then Some (r\<lparr>r_isFiltered := True\<rparr>, True)
      else filter_fields filters (r\<lparr>r_isFiltered := (okeys filters \<noteq> [])\<rparr>))"

text \<open>The flag is \<^verbatim>\<open>true\<close> when the resource was filtered globally, else \<^verbatim>\<open>undefined\<close>.\<close>

definition applyFilters ::
  "filter_map \<Rightarrow> filter_map \<Rightarrow> resource \<Rightarrow> (resource \<times> bool) option" where
  "applyFilters globalFilters dynamicFilters r = do {
     (r1, b) \<leftarrow> applyFiltersToResource globalFilters r;
     if \<not> b then do { (r2, _) \<leftarrow> applyFiltersToResource dynamicFilters r1; Some (r2, False) }
     else Some (r1, True)
   }"

section \<open>What applying filters means\<close>

text \<open>The test of one field, negation included.\<close>

definition field_ok :: "resource \<Rightarrow> string \<times> bool obj \<Rightarrow> bool option" where
  "field_ok r p = map_option (\<lambda>m. m \<noteq> bang (fst p))
     (field_match (if bang (fst p) then substr1 (fst p) else fst p) (snd p) r)"

definition shown_by :: "filter_map \<Rightarrow> resource \<Rightarrow> bool" where
  "shown_by filters r \<longleftrightarrow> list_all (\<lambda>p. field_ok r p = Some True) filters"

text \<open>No filter asks about the very flag that filtering computes.\<close>

definition no_self_filter :: "filter_map \<Rightarrow> bool" where
  "no_self_filter filters \<longleftrightarrow>
     list_all (\<lambda>p. fst p \<noteq> ''isFiltered'' \<and> fst p \<noteq> ''!isFiltered'') filters"

lemma field_match_isFiltered [simp]:
  assumes "field \<noteq> ''isFiltered''"
  shows "field_match field values (r\<lparr>r_isFiltered := x\<rparr>) = field_match field values r"
proof -
  have rg: "rget (r\<lparr>r_isFiltered := x\<rparr>) = rget r" by (simp add: rget_def fun_eq_iff)
  have md: "metadata_of (r\<lparr>r_isFiltered := x\<rparr>) = metadata_of r"
    unfolding metadata_of_def rg ..
  have fs: "field_str (r\<lparr>r_isFiltered := x\<rparr>) field = field_str r field"
    using assms
    by (cases "r_owned r"; cases "r_related r") (simp_all add: field_str_def rg key_name_def)
  have st: "r_statusSummary (r\<lparr>r_isFiltered := x\<rparr>) = r_statusSummary r" by simp
  show ?thesis
    unfolding field_match_def match_any_def label_in_def sub_in_def detached_match_def
      generic_match_def is_pod_def kind_of_def rg md fs st ..
qed

lemma field_ok_isFiltered:
  assumes "fst p \<noteq> ''isFiltered''" "fst p \<noteq> ''!isFiltered''"
  shows "field_ok (r\<lparr>r_isFiltered := x\<rparr>) p = field_ok r p"
proof -
  have "bang (fst p) \<Longrightarrow> substr1 (fst p) \<noteq> ''isFiltered''"
    using assms(2) by (cases "fst p") (auto simp: bang_Cons)
  then show ?thesis using assms(1) by (simp add: field_ok_def)
qed

lemma shown_by_isFiltered:
  "no_self_filter fs \<Longrightarrow> shown_by fs (r\<lparr>r_isFiltered := x\<rparr>) = shown_by fs r"
  by (simp add: shown_by_def no_self_filter_def list_all_iff field_ok_isFiltered)

lemma filter_fields_result:
  assumes "filter_fields fs r = Some (r', b)" "no_self_filter fs"
  shows "r' = r\<lparr>r_isFiltered := (if fs = [] then r_isFiltered r else b)\<rparr> \<and> b = (\<not> shown_by fs r)"
  using assms
proof (induction fs r arbitrary: r' b rule: filter_fields.induct)
  case (1 r)
  then show ?case by (simp add: shown_by_def)
next
  case (2 f vals fs r)
  let ?m = "field_match (if bang f then substr1 f else f) vals r"
  have "?m \<noteq> None"
    using "2.prems"(1) by (auto simp: Let_def bind_Some_iff)
  then obtain m where m: "?m = Some m" by blast
  have ok: "field_ok r (f, vals) = Some (m \<noteq> bang f)" 
    unfolding field_ok_def fst_conv snd_conv m by simp
  have ns: "no_self_filter fs" using "2.prems"(2) by (simp add: no_self_filter_def)
  show ?case
  proof (cases "m = bang f")
    case True
    with "2.prems" m ok show ?thesis by (simp add: shown_by_def)
  next
    case False
    let ?r = "r\<lparr>r_isFiltered := False\<rparr>"
    from False "2.prems" m have rec: "filter_fields fs ?r = Some (r', b)" by simp
    have "r' = ?r\<lparr>r_isFiltered := (if fs = [] then r_isFiltered ?r else b)\<rparr> \<and> b = (\<not> shown_by fs ?r)"
      using "2.IH" [OF refl m refl refl] rec ns False by simp
    moreover have "fs = [] \<Longrightarrow> \<not> b" using rec by simp
    ultimately show ?thesis
      using ok False shown_by_isFiltered [OF ns] by (cases fs) (auto simp: shown_by_def)
  qed
qed

lemma applyFiltersToResource_result:
  assumes "applyFiltersToResource fs r = Some (r', b)" "no_self_filter fs"
  shows "b = (r_isDeleted r \<or> \<not> shown_by fs r) \<and> r' = r\<lparr>r_isFiltered := b\<rparr>"
proof (cases "r_isDeleted r")
  case True
  with assms show ?thesis by (auto simp: applyFiltersToResource_def)
next
  case False
  with assms(1) have "filter_fields fs (r\<lparr>r_isFiltered := (okeys fs \<noteq> [])\<rparr>) = Some (r', b)"
    by (simp add: applyFiltersToResource_def)
  from filter_fields_result [OF this assms(2)] False shown_by_isFiltered [OF assms(2)]
  show ?thesis by (auto simp: shown_by_def)
qed

lemma applyFilters_result:
  assumes "applyFilters g d r = Some (r', b)" "no_self_filter g" "no_self_filter d"
  shows "b = (r_isDeleted r \<or> \<not> shown_by g r)
         \<and> r' = r\<lparr>r_isFiltered := (r_isDeleted r \<or> \<not> shown_by g r \<or> \<not> shown_by d r)\<rparr>"
proof -
  from assms(1) obtain r1 b1 where s1: "applyFiltersToResource g r = Some (r1, b1)"
    by (auto simp: applyFilters_def bind_Some_iff)
  note one = applyFiltersToResource_result [OF s1 assms(2)]
  show ?thesis
  proof (cases b1)
    case True
    with assms(1) s1 one show ?thesis by (auto simp: applyFilters_def)
  next
    case False
    with assms(1) s1 obtain b2 where s2: "applyFiltersToResource d r1 = Some (r', b2)" and "\<not> b"
      by (auto simp: applyFilters_def bind_Some_iff)
    with applyFiltersToResource_result [OF s2 assms(3)] one False shown_by_isFiltered [OF assms(3)]
    show ?thesis by auto
  qed
qed

end
