(* ===== verification/ResourcesState.thy ===== *)
theory ResourcesState
  imports StatusSummary Filters
begin

text \<open>
  The state of the resources slice (\<^verbatim>\<open>src/state/reducers/resources.js\<close>) and the helpers
  that its handlers share: ownership, related resources, autocompletion, problem resources,
  versions and counts.

  The heap of resource objects is part of the state, because the handlers mutate resource
  objects in place. A reducer that spreads \<^verbatim>\<open>{...state}\<close> keeps the inner objects, so the
  inner objects of the module constant \<^verbatim>\<open>initialState\<close> stay in use until a handler
  stores a new object in the field. The fields \<open>st_orig_\<dots>\<close> record this:
  \<^term>\<open>None\<close> while the state still holds the object of \<^verbatim>\<open>initialState\<close>, and otherwise the last
  content of that object (a copy that a removal makes before the first load still shares its
  inner maps with it; the record keeps their content at that moment). \<^verbatim>\<open>globalFilters\<close>, \<^verbatim>\<open>maxResourceVersionByKind\<close> and
  \<^verbatim>\<open>countsByNamespace\<close> are never replaced by any handler.
\<close>

record autocomplete =
  ac_workloads :: "bool obj"
  ac_nodes :: "bool obj"
  ac_access :: "bool obj"
  ac_subjects :: "bool obj"
  ac_pods :: "bool obj"

definition empty_autocomplete :: autocomplete where
  "empty_autocomplete =
     \<lparr>ac_workloads = [], ac_nodes = [], ac_access = [], ac_subjects = [], ac_pods = []\<rparr>"

record editor =
  ed_resource :: json
  ed_contents :: json
  ed_error :: json
  ed_format :: json

record rstate =
  st_heap :: heap
  st_next :: ref
  st_filterNames :: "string list"
  st_filters :: filter_map
  st_globalFilters :: filter_map
  st_autocomplete :: autocomplete
  st_resource :: "ref option"
  st_pods :: "ref obj"
  st_podCount :: int
  st_resources :: "ref obj"
  st_problemResources :: "ref obj"
  st_lastLoaded :: int
  st_namespaces :: json
  st_editor :: editor
  st_editing :: bool
  st_countsByKind :: "int option obj"
  st_countsByNamespace :: "int option obj"
  st_watches :: "nat option"
  st_podsByNode :: "ref obj obj"
  st_maxResourceVersionByKind :: "int option obj"
  st_maxResourceVersion :: "int option"
  st_resourceRevision :: int
  st_unresolvedOwnership :: "ref list obj option"
  st_orig_autocomplete :: "autocomplete option"
  st_orig_problemResources :: "ref obj option"
  st_orig_podsByNode :: "ref obj obj option"
  st_orig_countsByKind :: "int option obj option"

text \<open>\<^verbatim>\<open>initialState\<close> as the module creates it, over a heap.\<close>

definition initialState :: "heap \<Rightarrow> ref \<Rightarrow> rstate" where
  "initialState h n =
     \<lparr>st_heap = h, st_next = n, st_filterNames = [], st_filters = [], st_globalFilters = [],
      st_autocomplete = empty_autocomplete, st_resource = None, st_pods = [], st_podCount = 0,
      st_resources = [], st_problemResources = [], st_lastLoaded = 0, st_namespaces = JArr [],
      st_editor = \<lparr>ed_resource = JUndef, ed_contents = JUndef, ed_error = JUndef,
                   ed_format = JStr ''yaml''\<rparr>,
      st_editing = False, st_countsByKind = [], st_countsByNamespace = [], st_watches = None,
      st_podsByNode = [], st_maxResourceVersionByKind = [], st_maxResourceVersion = Some 0,
      st_resourceRevision = 0, st_unresolvedOwnership = None, st_orig_autocomplete = None,
      st_orig_problemResources = None, st_orig_podsByNode = None, st_orig_countsByKind = None\<rparr>"

definition deref :: "rstate \<Rightarrow> ref \<Rightarrow> resource option" where
  "deref s r = st_heap s r"

definition upd_res :: "ref \<Rightarrow> (resource \<Rightarrow> resource) \<Rightarrow> rstate \<Rightarrow> rstate" where
  "upd_res r f s = s\<lparr>st_heap := (st_heap s)(r := map_option f (st_heap s r))\<rparr>"

text \<open>The content of an object of \<^verbatim>\<open>initialState\<close> when its field gets a new object.\<close>

definition orig :: "'a option \<Rightarrow> 'a \<Rightarrow> 'a option" where
  "orig saved cur = (case saved of None \<Rightarrow> Some cur | Some x \<Rightarrow> Some x)"

definition excludedKinds :: "string list" where
  "excludedKinds = [''APIService'', ''ComponentStatus'', ''ControllerRevision'', ''Event'', ''Endpoints'']"

definition kind_name :: "resource \<Rightarrow> string option" where
  "kind_name r = map_option to_str (kind_of r)"

section \<open>Problem resources\<close>

text \<open>\<^verbatim>\<open>!!s && 'error warning timed out'.includes(s)\<close>: a test for a substring.\<close>

definition is_problem :: "json \<Rightarrow> bool" where
  "is_problem s \<longleftrightarrow> truthy s \<and> str_includes ''error warning timed out'' (to_str s)"

definition updateProblemResources :: "ref \<Rightarrow> rstate \<Rightarrow> rstate option" where
  "updateProblemResources r s = do {
     x \<leftarrow> deref s r;
     Some (if is_problem (r_statusSummary x)
           then s\<lparr>st_problemResources := oset (key_name x) r (st_problemResources s)\<rparr>
           else s\<lparr>st_problemResources := odel (key_name x) (st_problemResources s)\<rparr>)
   }"

section \<open>Ownership\<close>

text \<open>
  One owner reference of \<^verbatim>\<open>registerOwned\<close>; \<open>rec\<close> is the recursive call for the owner.
  On removal the owner is found but \<^verbatim>\<open>resolved\<close> stays false. Pushing to
  \<^verbatim>\<open>unresolvedOwnership\<close> throws before the first load, which creates it.
\<close>

definition push_unresolved :: "string \<Rightarrow> ref \<Rightarrow> rstate \<Rightarrow> rstate option" where
  "push_unresolved ownerKey r s = do {
     u \<leftarrow> st_unresolvedOwnership s;
     let rs = (case oget u ownerKey of Some xs \<Rightarrow> xs | None \<Rightarrow> []);
     Some (s\<lparr>st_unresolvedOwnership := Some (oset ownerKey (rs @ [r]) u)\<rparr>)
   }"

definition owned_or_empty :: "resource \<Rightarrow> ref obj" where
  "owned_or_empty x = (case r_owned x of Some o1 \<Rightarrow> o1 | None \<Rightarrow> [])"

definition attach_owner :: "int \<Rightarrow> string \<Rightarrow> ref \<Rightarrow> ref \<Rightarrow> rstate \<Rightarrow> rstate option" where
  "attach_owner now k r owner s = do {
     let s1 = upd_res owner (\<lambda>x. x\<lparr>r_owned := Some (oset k r (owned_or_empty x))\<rparr>) s;
     ox \<leftarrow> deref s1 owner;
     status \<leftarrow> statusForResource now (st_heap s1) ox;
     let s2 = upd_res owner (\<lambda>x. x\<lparr>r_statusSummary := status\<rparr>) s1;
     s3 \<leftarrow> updateProblemResources owner s2;
     let ac = st_autocomplete s3;
     Some (s3\<lparr>st_autocomplete :=
              ac\<lparr>ac_workloads := oset (''status:'' @ to_str status) True (ac_workloads ac)\<rparr>\<rparr>)
   }"

definition register_ref ::
  "(ref \<Rightarrow> rstate \<Rightarrow> rstate option) \<Rightarrow> int \<Rightarrow> bool \<Rightarrow> ref \<Rightarrow> string \<Rightarrow> json \<Rightarrow> json
     \<Rightarrow> rstate \<Rightarrow> rstate option" where
  "register_ref rec now remove r k ns oref s = do {
     ok \<leftarrow> keyForResource oref ns;
     let ownerKey = to_str ok;
     (case oget (st_resources s) ownerKey of
        None \<Rightarrow> push_unresolved ownerKey r s
      | Some owner \<Rightarrow>
          if remove then
            push_unresolved ownerKey r
              (upd_res owner (\<lambda>x. x\<lparr>r_owned := Some (odel k (owned_or_empty x))\<rparr>) s)
          else do { s1 \<leftarrow> attach_owner now k r owner s; rec owner s1 })
   }"

text \<open>The fuel bounds the depth of the recursion; out of fuel is the stack overflow.\<close>

fun registerOwned :: "nat \<Rightarrow> int \<Rightarrow> bool \<Rightarrow> ref \<Rightarrow> rstate \<Rightarrow> rstate option" where
  "registerOwned 0 now remove r s = None"
| "registerOwned (Suc n) now remove r s = do {
     x \<leftarrow> deref s r;
     md \<leftarrow> rget x ''metadata'';
     has \<leftarrow> jhas ''ownerReferences'' md;
     if has then do {
       refs \<leftarrow> jget md ''ownerReferences'';
       xs \<leftarrow> iter_of refs;
       ns \<leftarrow> jget md ''namespace'';
       foldM (register_ref (registerOwned n now False) now remove r (key_name x) ns) xs s
     } else Some s
   }"

section \<open>Related resources\<close>

definition add_related :: "ref \<Rightarrow> string \<Rightarrow> rstate \<Rightarrow> rstate" where
  "add_related r k s = upd_res r (\<lambda>x. x\<lparr>r_related :=
     Some (oset k True (case r_related x of Some o1 \<Rightarrow> o1 | None \<Rightarrow> []))\<rparr>) s"

definition add_related_at :: "string \<Rightarrow> string \<Rightarrow> rstate \<Rightarrow> rstate" where
  "add_related_at target k s =
     (case oget (st_resources s) target of Some r \<Rightarrow> add_related r k s | None \<Rightarrow> s)"

definition drop_related_at :: "string \<Rightarrow> string \<Rightarrow> rstate \<Rightarrow> rstate" where
  "drop_related_at k relKey s =
     (case oget (st_resources s) relKey of
        Some r \<Rightarrow> upd_res r (\<lambda>x. x\<lparr>r_related := map_option (odel k) (r_related x)\<rparr>) s
      | None \<Rightarrow> s)"

definition endpoint_address :: "string \<Rightarrow> json \<Rightarrow> rstate \<Rightarrow> rstate option" where
  "endpoint_address serviceKey addr s = do {
     has \<leftarrow> jhas ''targetRef'' addr;
     if has then do {
       t \<leftarrow> jget addr ''targetRef'';
       k \<leftarrow> jget t ''kind''; ns \<leftarrow> jget t ''namespace''; n \<leftarrow> jget t ''name'';
       let refKey = to_str k @ ''/'' @ to_str ns @ ''/'' @ to_str n;
       Some (add_related_at serviceKey refKey (add_related_at refKey serviceKey s))
     } else Some s
   }"

definition endpoint_subset :: "string \<Rightarrow> json \<Rightarrow> rstate \<Rightarrow> rstate option" where
  "endpoint_subset serviceKey sub s = do {
     has \<leftarrow> jhas ''addresses'' sub;
     if has then do {
       as \<leftarrow> jget sub ''addresses''; xs \<leftarrow> iter_of as;
       foldM (endpoint_address serviceKey) xs s
     } else Some s
   }"

definition ingress_path :: "ref \<Rightarrow> string \<Rightarrow> json \<Rightarrow> json \<Rightarrow> rstate \<Rightarrow> rstate option" where
  "ingress_path r k ns p s = do {
     backend \<leftarrow> jget p ''backend'';
     svc \<leftarrow> (if truthy backend then jget backend ''serviceName'' else Some JUndef);
     if truthy svc then do {
       let refKey = ''Service/'' @ to_str ns @ ''/'' @ to_str svc;
       Some (add_related r refKey (add_related_at refKey k s))
     } else Some s
   }"

definition ingress_rule :: "ref \<Rightarrow> string \<Rightarrow> json \<Rightarrow> json \<Rightarrow> rstate \<Rightarrow> rstate option" where
  "ingress_rule r k ns rule s = do {
     http \<leftarrow> jget rule ''http'';
     paths \<leftarrow> (if truthy http then jget http ''paths'' else Some JUndef);
     if truthy paths then do { xs \<leftarrow> iter_of paths; foldM (ingress_path r k ns) xs s }
     else Some s
   }"

definition pod_volume :: "ref \<Rightarrow> json \<Rightarrow> json \<Rightarrow> rstate \<Rightarrow> rstate option" where
  "pod_volume r ns vol s = do {
     secret \<leftarrow> jget vol ''secret'';
     cm \<leftarrow> jget vol ''configMap'';
     pvc \<leftarrow> jget vol ''persistentVolumeClaim'';
     if truthy secret then do {
       n \<leftarrow> jget secret ''secretName'';
       Some (add_related r (''Secret/'' @ to_str ns @ ''/'' @ to_str n) s)
     } else if truthy cm then do {
       n \<leftarrow> jget cm ''name'';
       Some (add_related r (''ConfigMap/'' @ to_str ns @ ''/'' @ to_str n) s)
     } else if truthy pvc then do {
       n \<leftarrow> jget pvc ''claimName'';
       Some (add_related r (''PersistentVolumeClaim/'' @ to_str ns @ ''/'' @ to_str n) s)
     } else Some s
   }"

definition updateRelatedResources :: "bool \<Rightarrow> ref \<Rightarrow> rstate \<Rightarrow> rstate option" where
  "updateRelatedResources remove r s = do {
     x \<leftarrow> deref s r;
     kind \<leftarrow> kind_of x;
     (case (remove, r_related x) of
        (True, Some rel) \<Rightarrow> Some (fold (drop_related_at (key_name x)) (okeys rel) s)
      | _ \<Rightarrow>
          if strict_eq kind (JStr ''Endpoints'') then do {
            subsets \<leftarrow> rget x ''subsets'';
            if truthy subsets then do {
              xs \<leftarrow> iter_of subsets;
              ns \<leftarrow> metadata_of x ''namespace''; n \<leftarrow> metadata_of x ''name'';
              foldM (endpoint_subset (''Service/'' @ to_str ns @ ''/'' @ to_str n)) xs s
            } else Some s
          }
          else if strict_eq kind (JStr ''Ingress'') then do {
            sp \<leftarrow> rget x ''spec''; rules \<leftarrow> jget sp ''rules''; xs \<leftarrow> iter_of rules;
            ns \<leftarrow> metadata_of x ''namespace'';
            foldM (ingress_rule r (key_name x) ns) xs s
          }
          else if strict_eq kind (JStr ''Pod'') then do {
            ns \<leftarrow> metadata_of x ''namespace'';
            sp \<leftarrow> rget x ''spec''; vols \<leftarrow> jget sp ''volumes''; xs \<leftarrow> iter_of vols;
            foldM (pod_volume r ns) xs s
          }
          else Some s)
   }"

section \<open>Autocompletion\<close>

definition tag :: "string \<Rightarrow> json \<Rightarrow> bool obj \<Rightarrow> bool obj" where
  "tag prefix v possible = oset (prefix @ to_str v) True possible"

definition tag_namespace :: "resource \<Rightarrow> bool obj \<Rightarrow> bool obj option" where
  "tag_namespace x p = do {
     md \<leftarrow> rget x ''metadata'';
     if truthy md then do {
       ns \<leftarrow> jget md ''namespace'';
       Some (if truthy ns then tag ''namespace:'' ns p else p)
     } else Some p
   }"

definition tag_app :: "resource \<Rightarrow> bool obj \<Rightarrow> bool obj option" where
  "tag_app x p = do {
     labels \<leftarrow> metadata_of x ''labels'';
     if truthy labels then do {
       has \<leftarrow> jhas ''app'' labels;
       if has then do { a \<leftarrow> jget labels ''app''; Some (tag ''app:'' a p) } else Some p
     } else Some p
   }"

definition tag_detached :: "resource \<Rightarrow> bool obj \<Rightarrow> bool obj option" where
  "tag_detached x p = do {
     ann \<leftarrow> metadata_of x ''annotations'';
     if truthy ann then do {
       d \<leftarrow> jget ann detachedOwnerRefsAnnotation;
       Some (if truthy d then oset ''detached:true'' True p else p)
     } else Some p
   }"

definition updateWorkloadsAutocomplete :: "resource \<Rightarrow> bool obj \<Rightarrow> bool obj option" where
  "updateWorkloadsAutocomplete x p0 = do {
     p1 \<leftarrow> tag_namespace x p0;
     kind \<leftarrow> kind_of x;
     p2 \<leftarrow> tag_app x (tag ''kind:'' kind p1);
     let p3 = tag ''status:'' (r_statusSummary x) p2;
     if strict_eq kind (JStr ''Pod'') then do {
       sp \<leftarrow> rget x ''spec''; node \<leftarrow> jget sp ''nodeName'';
       tag_detached x (tag ''node:'' node p3)
     } else Some p3
   }"

definition updatePodsAutocomplete :: "resource \<Rightarrow> bool obj \<Rightarrow> bool obj option" where
  "updatePodsAutocomplete x p0 = do {
     p1 \<leftarrow> tag_namespace x p0;
     p2 \<leftarrow> tag_app x p1;
     tag_detached x (tag ''status:'' (r_statusSummary x) p2)
   }"

text \<open>\<^verbatim>\<open>key.split('/').pop()\<close>\<close>

definition last_segment :: "string \<Rightarrow> string" where
  "last_segment k = last (split_on (CHR ''/'') k)"

definition updateNodesAutocomplete :: "resource \<Rightarrow> bool obj \<Rightarrow> bool obj option" where
  "updateNodesAutocomplete x p0 = do {
     labels \<leftarrow> metadata_of x ''labels'';
     p1 \<leftarrow> foldM (\<lambda>k p. do { v \<leftarrow> jget labels k; Some (tag (last_segment k @ '':'') v p) })
             (keys_in labels) p0;
     Some (tag ''status:'' (r_statusSummary x) p1)
   }"

definition tag_subject :: "json \<Rightarrow> bool obj \<times> bool obj \<Rightarrow> (bool obj \<times> bool obj) option" where
  "tag_subject sub p = do {
     n \<leftarrow> jget sub ''name''; k \<leftarrow> jget sub ''kind'';
     Some (tag ''subject:'' n (fst p), tag (to_str k @ '':'') n (snd p))
   }"

definition updateAccessAutocomplete ::
  "resource \<Rightarrow> bool obj \<times> bool obj \<Rightarrow> (bool obj \<times> bool obj) option" where
  "updateAccessAutocomplete x p0 = do {
     a1 \<leftarrow> tag_namespace x (fst p0);
     kind \<leftarrow> kind_of x;
     a2 \<leftarrow> tag_app x (tag ''kind:'' kind a1);
     subjects \<leftarrow> rget x ''subjects'';
     p3 \<leftarrow> (if truthy subjects then do { xs \<leftarrow> iter_of subjects; foldM tag_subject xs (a2, snd p0) }
           else Some (a2, snd p0));
     has \<leftarrow> jhas ''roleRef'' (r_body x);
     if has then do {
       rr \<leftarrow> rget x ''roleRef''; n \<leftarrow> jget rr ''name'';
       Some (tag ''role:'' n (fst p3), snd p3)
     } else Some p3
   }"

text \<open>The groups after one resource of the given resource group has been added.\<close>

definition autocomplete_with :: "json \<Rightarrow> resource \<Rightarrow> autocomplete \<Rightarrow> autocomplete option" where
  "autocomplete_with resourceGroup x ac = do {
     kind \<leftarrow> kind_of x;
     let g = (if strict_eq kind (JStr ''Node'') then JStr ''nodes''
              else if strict_eq kind (JStr ''RoleBinding'') \<or> strict_eq kind (JStr ''ClusterRoleBinding'')
              then JStr ''subjects'' else resourceGroup);
     if strict_eq g (JStr ''workloads'') then do {
       w \<leftarrow> updateWorkloadsAutocomplete x (ac_workloads ac);
       p \<leftarrow> (if strict_eq kind (JStr ''Pod'') then updatePodsAutocomplete x (ac_pods ac)
            else Some (ac_pods ac));
       Some (ac\<lparr>ac_workloads := w, ac_pods := p\<rparr>)
     }
     else if strict_eq g (JStr ''nodes'') then do {
       n \<leftarrow> updateNodesAutocomplete x (ac_nodes ac);
       Some (ac\<lparr>ac_nodes := n\<rparr>)
     }
     else if strict_eq g (JStr ''access'') \<or> strict_eq g (JStr ''subjects'') then do {
       p \<leftarrow> updateAccessAutocomplete x (ac_access ac, ac_subjects ac);
       Some (ac\<lparr>ac_access := fst p, ac_subjects := snd p\<rparr>)
     }
     else Some ac
   }"

definition updateAutocomplete :: "json \<Rightarrow> ref \<Rightarrow> rstate \<Rightarrow> rstate option" where
  "updateAutocomplete resourceGroup r s = do {
     x \<leftarrow> deref s r;
     ac \<leftarrow> autocomplete_with resourceGroup x (st_autocomplete s);
     Some (s\<lparr>st_autocomplete := ac\<rparr>)
   }"

section \<open>Versions and counts\<close>

text \<open>
  \<^verbatim>\<open>state.maxResourceVersionByKind[kind] || 0\<close> is always a number, so the source's
  \<^verbatim>\<open>parseInt\<close> branches are never taken and \<^verbatim>\<open>Math.max\<close> converts the version.
\<close>

definition num_or0 :: "int option option \<Rightarrow> int option" where
  "num_or0 v = (case v of Some (Some n) \<Rightarrow> Some n | _ \<Rightarrow> Some 0)"

definition updateVersionByKind :: "ref \<Rightarrow> rstate \<Rightarrow> rstate option" where
  "updateVersionByKind r s = do {
     x \<leftarrow> deref s r;
     kind \<leftarrow> kind_name x;
     v \<leftarrow> metadata_of x ''resourceVersion'';
     let currentMax = num_or0 (oget (st_maxResourceVersionByKind s) kind);
     Some (s\<lparr>st_maxResourceVersionByKind :=
               oset kind (num_max currentMax (to_num v)) (st_maxResourceVersionByKind s),
             st_maxResourceVersion := num_max (st_maxResourceVersion s) (to_num v)\<rparr>)
   }"

text \<open>
  \<^verbatim>\<open>counts[k] = counts[k] || 0; counts[k]++\<close>, where a count may be \<^verbatim>\<open>NaN\<close>, and
  \<^verbatim>\<open>counts[k] -= 1\<close>, which makes a missing count \<^verbatim>\<open>NaN\<close>.
\<close>

definition bump :: "string \<Rightarrow> int option obj \<Rightarrow> int option obj" where
  "bump k counts = oset k (map_option (\<lambda>n. n + 1) (num_or0 (oget counts k))) counts"

definition uncount :: "string \<Rightarrow> int option obj \<Rightarrow> int option obj" where
  "uncount k counts =
     oset k (case oget counts k of Some (Some n) \<Rightarrow> Some (n - 1) | _ \<Rightarrow> None) counts"

definition updatePodCount :: "ref \<Rightarrow> rstate \<Rightarrow> rstate option" where
  "updatePodCount r s = do {
     x \<leftarrow> deref s r;
     kind \<leftarrow> kind_of x;
     if strict_eq kind (JStr ''Pod'') then do {
       sp \<leftarrow> rget x ''spec''; node \<leftarrow> jget sp ''nodeName'';
       let n = to_str node;
       let pods = (case oget (st_podsByNode s) n of Some o1 \<Rightarrow> o1 | None \<Rightarrow> []);
       Some (s\<lparr>st_podCount := st_podCount s + 1,
               st_podsByNode := oset n (oset (key_name x) r pods) (st_podsByNode s)\<rparr>)
     } else Some s
   }"

definition updateResourceCounts :: "ref \<Rightarrow> rstate \<Rightarrow> rstate option" where
  "updateResourceCounts r s = do {
     x \<leftarrow> deref s r;
     kind \<leftarrow> kind_name x;
     ns \<leftarrow> metadata_of x ''namespace'';
     Some (s\<lparr>st_countsByKind := bump kind (st_countsByKind s),
             st_countsByNamespace := bump (to_str (js_or ns (JStr ''''))) (st_countsByNamespace s)\<rparr>)
   }"

end
