(* ===== verification/KubeKinds.thy ===== *)
theory KubeKinds
  imports Prelude
begin

text \<open>
  The static table of \<^verbatim>\<open>src/kube-kinds.js\<close>: resource group to kind to its API path and
  the UI's capabilities. A flag that the table leaves out is \<^term>\<open>None\<close>.
\<close>

record kube_kind =
  kk_base :: string
  kk_plural :: string
  kk_abbrev :: string
  kk_image :: "string option"
  kk_hasLogs :: "bool option"
  kk_hasTerminal :: "bool option"
  kk_hasScale :: "bool option"
  kk_editable :: "bool option"
  kk_deletable :: "bool option"
  kk_watchable :: "bool option"

definition kube_kind :: "string \<Rightarrow> string \<Rightarrow> string \<Rightarrow> kube_kind" where
  "kube_kind base plural abbrev =
     \<lparr>kk_base = base, kk_plural = plural, kk_abbrev = abbrev, kk_image = None, kk_hasLogs = None,
      kk_hasTerminal = None, kk_hasScale = None, kk_editable = None, kk_deletable = None,
      kk_watchable = None\<rparr>"

definition workloads_kinds :: "kube_kind obj" where
  "workloads_kinds = [
     (''Deployment'', (kube_kind ''apis/apps/v1beta1'' ''deployments'' ''De'')
        \<lparr>kk_hasLogs := Some True, kk_hasTerminal := Some True, kk_hasScale := Some True, kk_image := Some ''deployment.png''\<rparr>),
     (''DaemonSet'', (kube_kind ''apis/extensions/v1beta1'' ''daemonsets'' ''Ds'')
        \<lparr>kk_hasLogs := Some True, kk_hasTerminal := Some True, kk_image := Some ''daemonset.png''\<rparr>),
     (''StatefulSet'', (kube_kind ''apis/apps/v1beta1'' ''statefulsets'' ''Ss'')
        \<lparr>kk_hasLogs := Some True, kk_hasTerminal := Some True, kk_hasScale := Some True\<rparr>),
     (''ReplicaSet'', (kube_kind ''apis/extensions/v1beta1'' ''replicasets'' ''Rs'')
        \<lparr>kk_image := Some ''replicaset.png'', kk_hasLogs := Some True, kk_hasTerminal := Some True, kk_hasScale := Some True\<rparr>),
     (''ReplicationController'', (kube_kind ''api/v1'' ''replicationcontrollers'' ''Rc'')
        \<lparr>kk_image := Some ''replicationcontroller.png'', kk_hasLogs := Some True, kk_hasTerminal := Some True, kk_hasScale := Some True\<rparr>),
     (''Job'', (kube_kind ''apis/batch/v1'' ''jobs'' ''Jb'')
        \<lparr>kk_image := Some ''job.png'', kk_hasLogs := Some True, kk_hasTerminal := Some True\<rparr>),
     (''CronJob'', (kube_kind ''apis/batch/v2alpha1'' ''cronjobs'' ''Cj'')
        \<lparr>kk_hasLogs := Some True, kk_hasTerminal := Some True\<rparr>),
     (''Pod'', (kube_kind ''api/v1'' ''pods'' ''Po'')
        \<lparr>kk_image := Some ''pod.png'', kk_hasLogs := Some True, kk_hasTerminal := Some True\<rparr>),
     (''Service'', kube_kind ''api/v1'' ''services'' ''Sv''),
     (''Endpoints'', (kube_kind ''api/v1'' ''endpoints'' ''Ep'')
        \<lparr>kk_editable := Some False, kk_deletable := Some False\<rparr>),
     (''Ingress'', kube_kind ''apis/extensions/v1beta1'' ''ingresses'' ''Ig''),
     (''ConfigMap'', kube_kind ''api/v1'' ''configmaps'' ''Cm''),
     (''Secret'', kube_kind ''api/v1'' ''secrets'' ''Se''),
     (''PersistentVolumeClaim'', kube_kind ''api/v1'' ''persistentvolumeclaims'' ''Pc'')]"

definition cluster_kinds :: "kube_kind obj" where
  "cluster_kinds = [
     (''Node'', (kube_kind ''api/v1'' ''nodes'' ''No'')
        \<lparr>kk_editable := Some False, kk_deletable := Some False\<rparr>),
     (''PersistentVolume'', kube_kind ''api/v1'' ''persistentvolumes'' ''Pv''),
     (''StorageClass'', (kube_kind ''apis/storage.k8s.io/v1'' ''storageclasses'' ''Sc'')
        \<lparr>kk_watchable := Some False\<rparr>),
     (''Namespace'', (kube_kind ''api/v1'' ''namespaces'' ''Ns'')
        \<lparr>kk_watchable := Some False\<rparr>),
     (''ResourceQuota'', kube_kind ''api/v1'' ''resourcequotas'' ''Rq''),
     (''ThirdPartyResource'', kube_kind ''apis/extensions/v1beta1'' ''thirdpartyresources'' ''Tr'')]"

definition access_kinds :: "kube_kind obj" where
  "access_kinds = [
     (''ServiceAccount'', kube_kind ''api/v1'' ''serviceaccounts'' ''Sa''),
     (''Role'', kube_kind ''apis/rbac.authorization.k8s.io/v1beta1'' ''roles'' ''Ro''),
     (''RoleBinding'', kube_kind ''apis/rbac.authorization.k8s.io/v1beta1'' ''rolebindings'' ''Rb''),
     (''ClusterRole'', kube_kind ''apis/rbac.authorization.k8s.io/v1beta1'' ''clusterroles'' ''Cr''),
     (''ClusterRoleBinding'', kube_kind ''apis/rbac.authorization.k8s.io/v1beta1'' ''clusterrolebindings'' ''Cb''),
     (''NetworkPolicy'', kube_kind ''apis/extensions/v1beta1'' ''networkpolicies'' ''Np'')]"

definition kinds_table :: "kube_kind obj obj" where
  "kinds_table =
     [(''workloads'', workloads_kinds), (''cluster'', cluster_kinds), (''access'', access_kinds)]"

text \<open>\<^verbatim>\<open>getAPIVersion\<close> of \<^verbatim>\<open>src/utils/request-utils.js\<close>: the first group that has the kind.\<close>

fun getAPIVersion_in :: "kube_kind obj obj \<Rightarrow> string \<Rightarrow> string option" where
  "getAPIVersion_in [] kind = None"
| "getAPIVersion_in ((g, kinds) # gs) kind =
     (case oget kinds kind of Some k \<Rightarrow> Some (kk_base k) | None \<Rightarrow> getAPIVersion_in gs kind)"

definition getAPIVersion :: "string \<Rightarrow> string option" where
  "getAPIVersion kind = getAPIVersion_in kinds_table kind"

end
