(* ===== verification/RequestUtils.thy ===== *)
theory RequestUtils
  imports Resource KubeKinds
begin

text \<open>
  Request bodies: \<^verbatim>\<open>src/utils/request-utils.js\<close>. \<^verbatim>\<open>yaml.safeLoad\<close> of
  js-yaml is the parameter \<open>load\<close>. \<^verbatim>\<open>JSON.stringify\<close> is modelled on the values that
  occur; a resource object of the heap is turned into a value first, following its
  \<^verbatim>\<open>owned\<close> map, with fuel (a cyclic map throws, as \<^verbatim>\<open>JSON.stringify\<close> does).
\<close>

definition lastConfigAnnotation :: string where
  "lastConfigAnnotation = ''kubectl.kubernetes.io/last-applied-configuration''"

section \<open>Updating inside a value\<close>

text \<open>Mutation of \<^verbatim>\<open>v[k]\<close> in place; it throws where reading or changing \<^verbatim>\<open>v[k]\<close> does.\<close>

definition modify_at :: "string \<Rightarrow> (json \<Rightarrow> json option) \<Rightarrow> json \<Rightarrow> json option" where
  "modify_at k f v = do { w \<leftarrow> jget v k; w' \<leftarrow> f w; jset k w' v }"

fun del_all :: "string list \<Rightarrow> json \<Rightarrow> json option" where
  "del_all [] v = Some v"
| "del_all (k # ks) v = do { w \<leftarrow> jdel k v; del_all ks w }"

definition has_template_metadata :: "json \<Rightarrow> bool option" where
  "has_template_metadata v = do {
     a \<leftarrow> jhas ''spec'' v;
     if a then do {
       sp \<leftarrow> jget v ''spec''; b \<leftarrow> jhas ''template'' sp;
       if b then do { t \<leftarrow> jget sp ''template''; jhas ''metadata'' t } else Some False
     } else Some False
   }"

definition removeReadOnlyFields :: "json \<Rightarrow> json option" where
  "removeReadOnlyFields v = do {
     v1 \<leftarrow> jdel ''status'' v;
     v2 \<leftarrow> modify_at ''metadata'' (del_all [''generation'', ''creationTimestamp'']) v1;
     t \<leftarrow> has_template_metadata v2;
     v3 \<leftarrow> (if t then modify_at ''spec'' (modify_at ''template'' (modify_at ''metadata''
                         (jdel ''creationTimestamp''))) v2
           else Some v2);
     modify_at ''metadata'' (del_all [''resourceVersion'', ''selfLink'', ''uid'']) v3
   }"

section \<open>JSON text\<close>

definition escape_char :: "char \<Rightarrow> string" where
  "escape_char c =
     (if c = CHR ''\"'' then [CHR 0x5C, CHR ''\"'']
      else if c = CHR 0x5C then [CHR 0x5C, CHR 0x5C]
      else if c = CHR 0x0A then [CHR 0x5C, CHR ''n'']
      else if c = CHR 0x0D then [CHR 0x5C, CHR ''r'']
      else if c = CHR 0x09 then [CHR 0x5C, CHR ''t'']
      else [c])"

definition quote :: "string \<Rightarrow> string" where
  "quote s = CHR ''\"'' # concat (map escape_char s) @ [CHR ''\"'']"

text \<open>A property whose value is \<^verbatim>\<open>undefined\<close> is left out; in an array it prints \<^verbatim>\<open>null\<close>.\<close>

fun json_stringify :: "json \<Rightarrow> string" where
  "json_stringify JUndef = ''null''"
| "json_stringify JNull = ''null''"
| "json_stringify (JBool b) = (if b then ''true'' else ''false'')"
| "json_stringify (JNum n) = int_str n"
| "json_stringify (JStr s) = quote s"
| "json_stringify (JArr xs) = ''['' @ join '','' (map json_stringify xs) @ '']''"
| "json_stringify (JObj fs) =
     ''{'' @ join '','' (map (\<lambda>p. quote (fst p) @ '':'' @ json_stringify (snd p))
                       (filter (\<lambda>p. snd p \<noteq> JUndef) fs)) @ ''}''"

section \<open>A resource object as a value\<close>

definition opt_field :: "string \<Rightarrow> json option \<Rightarrow> json obj" where
  "opt_field k v = (case v of None \<Rightarrow> [] | Some w \<Rightarrow> [(k, w)])"

fun resource_value :: "nat \<Rightarrow> heap \<Rightarrow> ref \<Rightarrow> json option" where
  "resource_value 0 h r = None"
| "resource_value (Suc n) h r = do {
     x \<leftarrow> h r;
     ow \<leftarrow> (case r_owned x of
             None \<Rightarrow> Some None
           | Some o1 \<Rightarrow> do {
               vs \<leftarrow> those (map (resource_value n h) (map snd o1));
               Some (Some (JObj (zip (okeys o1) vs))) });
     Some (JObj (obj_fields (r_body x)
       @ opt_field ''key'' (map_option JStr (r_key x))
       @ (if r_statusSummary x = JUndef then [] else [(''statusSummary'', r_statusSummary x)])
       @ [(''isFiltered'', JBool (r_isFiltered x))]
       @ (if r_isDeleted x then [(''isDeleted'', JBool True)] else [])
       @ (if r_notFound x then [(''notFound'', JBool True)] else [])
       @ opt_field ''owned'' ow
       @ opt_field ''related''
           (map_option (\<lambda>o1. JObj (map (\<lambda>p. (fst p, JBool (snd p))) o1)) (r_related x))))
   }"

section \<open>Patches and posts\<close>

text \<open>The annotation is computed from a deep copy of the resource.\<close>

definition createLastConfigAnnotation :: "json \<Rightarrow> json option" where
  "createLastConfigAnnotation resource = do {
     a1 \<leftarrow> modify_at ''metadata'' (jset ''annotations'' (JObj [])) resource;
     a2 \<leftarrow> jdel ''isFiltered'' a1;
     av \<leftarrow> jget a2 ''apiVersion'';
     a3 \<leftarrow> (if truthy av then Some a2
           else do {
             kind \<leftarrow> jget resource ''kind'';
             jset ''apiVersion''
               (case getAPIVersion (to_str kind) of Some b \<Rightarrow> JStr b | None \<Rightarrow> JUndef) a2 });
     a4 \<leftarrow> jdel ''status'' a3;
     a5 \<leftarrow> modify_at ''metadata''
            (del_all [''generation'', ''creationTimestamp'', ''resourceVersion'', ''selfLink'', ''uid'']) a4;
     Some (JStr (json_stringify a5))
   }"

definition set_patch_mark :: "json \<Rightarrow> json option" where
  "set_patch_mark v = jset ''$patch'' (JStr ''replace'') v"

text \<open>\<open>resource\<close> is the selected resource as a value, or \<^verbatim>\<open>undefined\<close>.\<close>

definition createPatch :: "(string \<Rightarrow> json option) \<Rightarrow> json \<Rightarrow> json \<Rightarrow> json option" where
  "createPatch load resource contents = do {
     p0 \<leftarrow> (case contents of JStr s \<Rightarrow> load s | _ \<Rightarrow> Some contents);
     has \<leftarrow> jhas ''spec'' p0;
     p1 \<leftarrow> (if has then do { q \<leftarrow> modify_at ''spec'' set_patch_mark p0;
                           modify_at ''metadata'' set_patch_mark q }
           else Some p0);
     p2 \<leftarrow> del_all [''kind'', ''apiVersion''] p1;
     p3 \<leftarrow> removeReadOnlyFields p2;
     if truthy resource then do {
       ann \<leftarrow> createLastConfigAnnotation resource;
       modify_at ''metadata''
         (\<lambda>md. do { a \<leftarrow> jget md ''annotations'';
                    a' \<leftarrow> jset lastConfigAnnotation ann (js_or a (JObj []));
                    jset ''annotations'' a' md }) p3
     } else Some p3
   }"

definition createPost :: "(string \<Rightarrow> json option) \<Rightarrow> string \<Rightarrow> json option" where
  "createPost load contents = do { post \<leftarrow> load contents; removeReadOnlyFields post }"

section \<open>What removing the read-only fields does\<close>

lemma modify_at_JObj:
  "modify_at k f (JObj fs) = Some w \<longleftrightarrow>
     (\<exists>x. f (lookup_prop fs k) = Some x \<and> w = JObj (oset k x fs))"
  by (auto simp: modify_at_def bind_Some_iff)

lemma jdel_cases: "jdel k v = Some w \<Longrightarrow> (\<exists>fs. v = JObj fs \<and> w = JObj (odel k fs)) \<or> (\<not> is_obj v \<and> w = v)"
  by (cases v) auto

lemma jget_jdel: "jdel k v = Some w \<Longrightarrow> jget w k' = (if is_obj v \<and> k' = k then Some JUndef else jget v k')"
  by (cases v) auto

lemma is_obj_jdel: "jdel k v = Some w \<Longrightarrow> is_obj w = is_obj v"
  by (cases v) auto

lemma jget_del_all:
  "del_all ks v = Some w \<Longrightarrow>
   jget w k = (if is_obj v \<and> k \<in> set ks then Some JUndef else jget v k)"
proof (induction ks arbitrary: v)
  case Nil
  then show ?case by simp
next
  case (Cons a ks)
  then obtain u where u: "jdel a v = Some u" "del_all ks u = Some w" by (auto simp: bind_Some_iff)
  with Cons.IH [OF u(2)] show ?case
    by (auto simp: jget_jdel [OF u(1)] is_obj_jdel [OF u(1)])
qed

lemma is_obj_del_all: "del_all ks v = Some w \<Longrightarrow> is_obj w = is_obj v"
  by (induction ks arbitrary: v) (auto simp: bind_Some_iff dest: is_obj_jdel)

lemma jget_jset: "jset k x v = Some w \<Longrightarrow> jget w k' = (if is_obj v \<and> k' = k then Some x else jget v k')"
  by (cases v) auto

lemma is_obj_jset: "jset k x v = Some w \<Longrightarrow> is_obj w = is_obj v"
  by (cases v) auto

lemma modify_at_get:
  assumes "modify_at k f v = Some w" "is_obj v"
  shows "is_obj w" "\<exists>x y. jget v k = Some x \<and> f x = Some y \<and> jget w k = Some y"
    "k' \<noteq> k \<Longrightarrow> jget w k' = jget v k'"
  using assms by (auto simp: modify_at_def bind_Some_iff jget_jset dest: is_obj_jset)

definition meta_at :: "json \<Rightarrow> string \<Rightarrow> json option" where
  "meta_at v k = do { md \<leftarrow> jget v ''metadata''; jget md k }"

definition readOnlyMeta :: "string list" where
  "readOnlyMeta = [''generation'', ''creationTimestamp'', ''resourceVersion'', ''selfLink'', ''uid'']"

lemma removeReadOnlyFields_result:
  assumes "removeReadOnlyFields v = Some w" "is_obj v"
  shows "is_obj w" "jget w ''status'' = Some JUndef"
    "\<And>k. k \<notin> {''status'', ''metadata'', ''spec''} \<Longrightarrow> jget w k = jget v k"
    "\<exists>md. jget v ''metadata'' = Some md \<and>
       (\<forall>k. meta_at w k = (if is_obj md \<and> k \<in> set readOnlyMeta then Some JUndef else jget md k))"
proof -
  from assms(1) obtain v1 v2 t v3 where s:
    "jdel ''status'' v = Some v1"
    "modify_at ''metadata'' (del_all [''generation'', ''creationTimestamp'']) v1 = Some v2"
    "(if t then modify_at ''spec'' (modify_at ''template'' (modify_at ''metadata''
        (jdel ''creationTimestamp''))) v2 else Some v2) = Some v3"
    "modify_at ''metadata'' (del_all [''resourceVersion'', ''selfLink'', ''uid'']) v3 = Some w"
    unfolding removeReadOnlyFields_def bind_Some_iff by blast
  have o1: "is_obj v1" using s(1) assms(2) is_obj_jdel by blast
  note m2 = modify_at_get [OF s(2) o1]
  have o3: "is_obj v3" and k3: "k \<noteq> ''spec'' \<Longrightarrow> jget v3 k = jget v2 k" for k
    using s(3) m2(1) modify_at_get [of "''spec''" _ v2 v3] by (auto split: if_splits)
  note m4 = modify_at_get [OF s(4) o3]
  show "is_obj w" by (rule m4(1))
  have g: "jget w k = jget v k" if "k \<notin> {''metadata'', ''spec'', ''status''}" for k
    using that m4(3) [of k] k3 [of k] m2(3) [of k] jget_jdel [OF s(1), of k] by auto
  then show "\<And>k. k \<notin> {''status'', ''metadata'', ''spec''} \<Longrightarrow> jget w k = jget v k" by blast
  have "jget w ''status'' = jget v1 ''status''"
    using m4(3) [of "''status''"] k3 [of "''status''"] m2(3) [of "''status''"] by simp
  then show "jget w ''status'' = Some JUndef" using jget_jdel [OF s(1), of "''status''"] assms(2) by simp
  from m2(2) obtain md y2 where y2: "jget v1 ''metadata'' = Some md"
    "del_all [''generation'', ''creationTimestamp''] md = Some y2" "jget v2 ''metadata'' = Some y2"
    by blast
  from m4(2) k3 [of "''metadata''"] y2(3) obtain y4 where y4:
    "del_all [''resourceVersion'', ''selfLink'', ''uid''] y2 = Some y4" "jget w ''metadata'' = Some y4"
    by auto
  have "jget v ''metadata'' = Some md" using y2(1) jget_jdel [OF s(1), of "''metadata''"] by simp
  moreover have "meta_at w k = (if is_obj md \<and> k \<in> set readOnlyMeta then Some JUndef else jget md k)" for k
    using jget_del_all [OF y4(1), of k] jget_del_all [OF y2(2), of k] is_obj_del_all [OF y2(2)]
    by (auto simp: meta_at_def y4(2) readOnlyMeta_def)
  ultimately show "\<exists>md. jget v ''metadata'' = Some md \<and>
       (\<forall>k. meta_at w k = (if is_obj md \<and> k \<in> set readOnlyMeta then Some JUndef else jget md k))"
    by blast
qed

end
