(* ===== verification/ResourcesReducer.thy ===== *)
theory ResourcesReducer
  imports ResourcesState RequestUtils
begin

text \<open>
  The handlers of the resources slice (\<^verbatim>\<open>src/state/reducers/resources.js\<close>) and the
  reducer that dispatches on the action. \<open>fuel\<close> bounds the depth of ownership chains and the
  length of traversals, \<open>now\<close> is \<^verbatim>\<open>Date.now()\<close>; \<^term>\<open>None\<close> is a thrown exception (or a
  traversal that does not end).
\<close>

section \<open>Applying filters to all resources\<close>

text \<open>\<^verbatim>\<open>visitResources\<close>: the visitors over the map in its order.\<close>

definition visitResources :: "(ref \<Rightarrow> rstate \<Rightarrow> rstate option) \<Rightarrow> ref obj \<Rightarrow> rstate \<Rightarrow> rstate option" where
  "visitResources visitor rs s = foldM visitor (map snd rs) s"

text \<open>\<^verbatim>\<open>applyFilters\<close> on an object of the heap; the flag is its return value.\<close>

definition filter_ref :: "ref \<Rightarrow> rstate \<Rightarrow> (rstate \<times> bool) option" where
  "filter_ref r s = do {
     x \<leftarrow> deref s r;
     (x', b) \<leftarrow> applyFilters (st_globalFilters s) (st_filters s) x;
     Some (upd_res r (\<lambda>_. x') s, b)
   }"

definition doFilterAll :: "rstate \<Rightarrow> rstate option" where
  "doFilterAll s = visitResources (\<lambda>r t. map_option fst (filter_ref r t)) (st_resources s) s"

section \<open>Filters\<close>

definition doAddFilter :: "string \<Rightarrow> rstate \<Rightarrow> rstate option" where
  "doAddFilter filterName s =
     (let ((fs, names), modified) = addFilter (st_filters s) (st_filterNames s) [filterName]
      in if modified then doFilterAll (s\<lparr>st_filterNames := names, st_filters := fs\<rparr>) else Some s)"

definition doSetFilterNames :: "string list \<Rightarrow> rstate \<Rightarrow> rstate option" where
  "doSetFilterNames filterNames s =
     (let ((fs, names), _) = addFilter [] [] filterNames
      in doFilterAll (s\<lparr>st_filterNames := names, st_filters := fs\<rparr>))"

definition doRemoveFilter :: "string \<Rightarrow> int option \<Rightarrow> rstate \<Rightarrow> rstate option" where
  "doRemoveFilter filterName index s =
     (let (fs, names) = removeFilter (st_filters s) (st_filterNames s) filterName index
      in doFilterAll (s\<lparr>st_filterNames := names, st_filters := fs\<rparr>))"

definition put_global :: "string \<Rightarrow> bool obj \<Rightarrow> filter_map \<Rightarrow> filter_map" where
  "put_global k selected g = (if okeys selected \<noteq> [] then oset k selected g else odel k g)"

text \<open>
  \<open>kubeKinds\<close> may be \<^verbatim>\<open>undefined\<close>; the visitor then throws at the first resource that
  no global filter hides. The five autocomplete groups start empty.
\<close>

definition global_visitor :: "json \<Rightarrow> ref \<Rightarrow> rstate \<Rightarrow> rstate option" where
  "global_visitor kubeKinds r s = do {
     (s1, b) \<leftarrow> filter_ref r s;
     if \<not> b then do {
       x \<leftarrow> deref s1 r; kind \<leftarrow> kind_name x;
       kubeKind \<leftarrow> jget kubeKinds kind;
       resourceGroup \<leftarrow> jget kubeKind ''resourceGroup'';
       updateAutocomplete resourceGroup r s1
     } else Some s1
   }"

definition doSetGlobalFilters :: "bool obj \<Rightarrow> bool obj option \<Rightarrow> json \<Rightarrow> rstate \<Rightarrow> rstate option" where
  "doSetGlobalFilters selectedNamespaces selectedKinds kubeKinds s =
     (let g1 = put_global ''namespace'' selectedNamespaces (st_globalFilters s);
          g2 = (case selectedKinds of None \<Rightarrow> g1 | Some ks \<Rightarrow> put_global ''kind'' ks g1)
      in visitResources (global_visitor kubeKinds) (st_resources s)
           (s\<lparr>st_globalFilters := g2,
              st_orig_autocomplete := orig (st_orig_autocomplete s) (st_autocomplete s),
              st_autocomplete := empty_autocomplete\<rparr>))"

section \<open>Selecting a resource\<close>

text \<open>
  The pods a resource owns transitively, by name; the queue holds the owners still to visit.
\<close>

fun collect_owned :: "heap \<Rightarrow> ref list \<Rightarrow> ref obj \<times> ref list \<Rightarrow> (ref obj \<times> ref list) option" where
  "collect_owned h [] acc = Some acc"
| "collect_owned h (o1 # os) (pods, q) = do {
     x \<leftarrow> h o1;
     pod \<leftarrow> is_pod x;
     if pod then do { n \<leftarrow> metadata_of x ''name''; collect_owned h os (oset (to_str n) o1 pods, q) }
     else collect_owned h os (pods, if r_owned x \<noteq> None then q @ [o1] else q)
   }"

fun pods_loop :: "nat \<Rightarrow> heap \<Rightarrow> ref list \<Rightarrow> ref obj \<Rightarrow> ref obj option" where
  "pods_loop n h [] pods = Some pods"
| "pods_loop 0 h (ow # q) pods = None"
| "pods_loop (Suc n) h (ow # q) pods = do {
     (pods', q') \<leftarrow> collect_owned h (owned_refs h ow) (pods, q);
     pods_loop n h q' pods'
   }"

definition placeholder :: "json \<Rightarrow> json \<Rightarrow> json \<Rightarrow> resource" where
  "placeholder namespace kind name =
     (fresh_resource (JObj [(''kind'', kind), (''metadata'', JObj
        ([(''name'', name)]
         @ (if truthy namespace \<and> \<not> strict_eq namespace (JStr ''~'')
            then [(''namespace'', namespace)] else [])))]))\<lparr>r_notFound := True\<rparr>"

definition doSelectResource :: "nat \<Rightarrow> json \<Rightarrow> json \<Rightarrow> json \<Rightarrow> rstate \<Rightarrow> rstate option" where
  "doSelectResource fuel namespace kind name s = do {
     k \<leftarrow> keyForResource (JObj [(''kind'', kind), (''namespace'', namespace), (''name'', name)]) JUndef;
     (case oget (st_resources s) (to_str k) of
        Some r \<Rightarrow> do {
          x \<leftarrow> deref s r;
          pods \<leftarrow> (if strict_eq kind (JStr ''Pod'') then Some [(to_str name, r)]
                  else if r_owned x \<noteq> None then pods_loop fuel (st_heap s) [r] []
                  else Some []);
          Some (s\<lparr>st_resource := Some r, st_pods := pods\<rparr>)
        }
      | None \<Rightarrow>
          let r = st_next s
          in Some (s\<lparr>st_heap := (st_heap s)(r \<mapsto> placeholder namespace kind name),
                     st_next := Suc r,
                     st_resources := oset (to_str k) r (st_resources s),
                     st_resource := Some r,
                     st_pods := []\<rparr>))
   }"

section \<open>Receiving one resource\<close>

text \<open>The owned map of the object being replaced, without what has been deleted meanwhile.\<close>

definition keep_owned :: "ref obj \<Rightarrow> ref \<Rightarrow> string \<Rightarrow> rstate \<Rightarrow> rstate option" where
  "keep_owned old r ownedKey s =
     (case oget old ownedKey of
        None \<Rightarrow> Some s
      | Some ow \<Rightarrow> do {
          x \<leftarrow> deref s ow;
          Some (if r_isDeleted x then s
                else upd_res r (\<lambda>y. y\<lparr>r_owned := Some (oset ownedKey ow (owned_or_empty y))\<rparr>) s)
        })"

definition copy_owned :: "ref obj \<Rightarrow> ref option \<Rightarrow> ref \<Rightarrow> rstate \<Rightarrow> rstate option" where
  "copy_owned old existing r s =
     (case existing of
        None \<Rightarrow> Some s
      | Some e \<Rightarrow> do {
          ex \<leftarrow> deref s e; x \<leftarrow> deref s r;
          same \<leftarrow> sameResource (Some ex) (Some x);
          if same \<and> r_owned ex \<noteq> None then do {
            let s1 = upd_res r (\<lambda>y. y\<lparr>r_owned := Some []\<rparr>) s;
            ex1 \<leftarrow> deref s1 e;
            foldM (keep_owned old r) (okeys (owned_or_empty ex1)) s1
          } else Some s
        })"

definition reselect :: "nat \<Rightarrow> ref \<Rightarrow> rstate \<Rightarrow> rstate option" where
  "reselect fuel r s = do {
     x \<leftarrow> deref s r;
     same \<leftarrow> (case st_resource s of
               None \<Rightarrow> Some False
             | Some sel \<Rightarrow> do { y \<leftarrow> deref s sel; sameResource (Some y) (Some x) });
     if same then do {
       ns \<leftarrow> metadata_of x ''namespace''; k \<leftarrow> kind_of x; n \<leftarrow> metadata_of x ''name'';
       doSelectResource fuel ns k n s
     } else Some s
   }"

definition filter_and_complete :: "json \<Rightarrow> ref \<Rightarrow> rstate \<Rightarrow> rstate option" where
  "filter_and_complete resourceGroup r s = do {
     (s1, b) \<leftarrow> filter_ref r s;
     if \<not> b then updateAutocomplete resourceGroup r s1 else Some s1
   }"

text \<open>Whether the object takes its key in the map: the two early returns of the source.\<close>

definition accepts_update :: "rstate \<Rightarrow> string \<Rightarrow> json \<Rightarrow> bool \<Rightarrow> bool option" where
  "accepts_update s k kind isNew =
     (case oget (st_resources s) k of
        Some e \<Rightarrow> do { ex \<leftarrow> deref s e; Some (\<not> (r_isDeleted ex \<and> \<not> isNew)) }
      | None \<Rightarrow> Some (isNew \<or> strict_eq kind (JStr ''Pod'')))"

text \<open>\<^verbatim>\<open>if (isNew) { updateResourceCounts; updatePodCount }\<close>\<close>

definition count_new :: "bool \<Rightarrow> ref \<Rightarrow> rstate \<Rightarrow> rstate option" where
  "count_new isNew r s =
     (if isNew then do { t \<leftarrow> updateResourceCounts r s; updatePodCount r t } else Some s)"

definition bump_revision :: "bool \<Rightarrow> rstate \<Rightarrow> rstate" where
  "bump_revision b s = (if b then s\<lparr>st_resourceRevision := st_resourceRevision s + 1\<rparr> else s)"

text \<open>What follows for a kind that is not excluded; \<open>old\<close> is the map before the update.\<close>

definition index_update ::
  "nat \<Rightarrow> int \<Rightarrow> ref obj \<Rightarrow> string \<Rightarrow> ref \<Rightarrow> bool \<Rightarrow> json \<Rightarrow> json \<Rightarrow> rstate \<Rightarrow> rstate option" where
  "index_update fuel now old k r isNew kind kubeKinds s2 = do {
     kubeKind \<leftarrow> jget kubeKinds (to_str kind);
     resourceGroup \<leftarrow> jget kubeKind ''resourceGroup'';
     x2 \<leftarrow> deref s2 r;
     status \<leftarrow> statusForResource now (st_heap s2) x2;
     s3 \<leftarrow> registerOwned fuel now False r (upd_res r (\<lambda>x. x\<lparr>r_statusSummary := status\<rparr>) s2);
     s4 \<leftarrow> updateProblemResources r s3;
     s5 \<leftarrow> updateVersionByKind r s4;
     s6 \<leftarrow> count_new isNew r s5;
     s8 \<leftarrow> copy_owned old (oget old k) r
             (bump_revision (isNew \<or> \<not> strict_eq kind (JStr ''Endpoints'')) s6);
     s9 \<leftarrow> reselect fuel r s8;
     filter_and_complete resourceGroup r s9
   }"

definition doUpdateResource :: "nat \<Rightarrow> int \<Rightarrow> ref \<Rightarrow> bool \<Rightarrow> json \<Rightarrow> rstate \<Rightarrow> rstate option" where
  "doUpdateResource fuel now r isNew kubeKinds s0 = do {
     x0 \<leftarrow> deref s0 r;
     kv \<leftarrow> keyForResource (r_body x0) JUndef;
     let k = to_str kv;
     let s = upd_res r (\<lambda>x. x\<lparr>r_key := Some k\<rparr>) s0;
     kind \<leftarrow> kind_of x0;
     accept \<leftarrow> accepts_update s k kind isNew;
     if \<not> accept then Some s
     else do {
       s2 \<leftarrow> updateRelatedResources False r (s\<lparr>st_resources := oset k r (st_resources s)\<rparr>);
       if to_str kind \<in> set excludedKinds then Some s2
       else index_update fuel now (st_resources s) k r isNew kind kubeKinds s2
     }
   }"

section \<open>Removing a resource\<close>

text \<open>
  \<^verbatim>\<open>countsByNamespace\<close> of the source is a copy that the returned state does not include,
  so it has no effect here. The pod's entry is deleted from the shared inner map of its node.
\<close>

definition drop_pod_of_node :: "ref \<Rightarrow> rstate \<Rightarrow> rstate option" where
  "drop_pod_of_node r s = do {
     x \<leftarrow> deref s r;
     pod \<leftarrow> is_pod x;
     if pod then do {
       sp \<leftarrow> rget x ''spec''; node \<leftarrow> jget sp ''nodeName'';
       pods \<leftarrow> oget (st_podsByNode s) (to_str node);
       Some (s\<lparr>st_podsByNode := oset (to_str node) (odel (key_name x) pods) (st_podsByNode s)\<rparr>)
     } else Some s
   }"

definition mark_deleted :: "resource \<Rightarrow> resource" where
  "mark_deleted x = x\<lparr>r_isDeleted := True, r_notFound := True, r_isFiltered := True\<rparr>"

text \<open>\<open>a\<close> is the object of the action, \<open>r\<close> the one the map holds under its key.\<close>

definition doRemoveResource :: "nat \<Rightarrow> int \<Rightarrow> ref \<Rightarrow> rstate \<Rightarrow> rstate option" where
  "doRemoveResource fuel now a s = do {
     ax \<leftarrow> deref s a;
     (case oget (st_resources s) (key_name ax) of
        None \<Rightarrow> Some s
      | Some r \<Rightarrow> do {
          let s1 = upd_res r mark_deleted s;
          s2 \<leftarrow> registerOwned fuel now True r s1;
          s3 \<leftarrow> drop_pod_of_node a s2;
          kind \<leftarrow> kind_name ax;
          _ \<leftarrow> metadata_of ax ''namespace'';
          s4 \<leftarrow> updateRelatedResources True a s3;
          sel \<leftarrow> (case st_resource s4 of
                   None \<Rightarrow> Some None
                 | Some c \<Rightarrow> do { cx \<leftarrow> deref s4 c; Some (if r_key cx = r_key ax then None else Some c) });
          Some (s4\<lparr>st_countsByKind := uncount kind (st_countsByKind s4),
                   st_orig_countsByKind := orig (st_orig_countsByKind s4) (st_countsByKind s4),
                   st_orig_podsByNode := orig (st_orig_podsByNode s4) (st_podsByNode s4),
                   st_resource := sel,
                   st_podCount := st_podCount s4 - 1,
                   st_resourceRevision := st_resourceRevision s4 + 1\<rparr>)
        })
   }"

section \<open>Receiving all resources\<close>

definition group_or_workloads :: "json \<Rightarrow> string \<Rightarrow> json option" where
  "group_or_workloads kubeKinds kind = do {
     kubeKind \<leftarrow> jget kubeKinds kind;
     g \<leftarrow> (if truthy kubeKind then jget kubeKind ''resourceGroup'' else Some kubeKind);
     Some (js_or g (JStr ''workloads''))
   }"

definition receive_visitor :: "nat \<Rightarrow> int \<Rightarrow> json \<Rightarrow> ref \<Rightarrow> rstate \<Rightarrow> rstate option" where
  "receive_visitor fuel now kubeKinds r s = do {
     x \<leftarrow> deref s r;
     status \<leftarrow> statusForResource now (st_heap s) x;
     let s1 = upd_res r (\<lambda>x. x\<lparr>r_statusSummary := status\<rparr>) s;
     kind \<leftarrow> kind_name x;
     resourceGroup \<leftarrow> group_or_workloads kubeKinds kind;
     s2 \<leftarrow> registerOwned fuel now False r s1;
     s3 \<leftarrow> updateRelatedResources False r s2;
     if kind \<in> set excludedKinds then Some s3
     else do {
       s4 \<leftarrow> updateProblemResources r s3;
       s5 \<leftarrow> filter_and_complete resourceGroup r s4;
       s6 \<leftarrow> updateVersionByKind r s5;
       s7 \<leftarrow> updatePodCount r s6;
       updateResourceCounts r s7
     }
   }"

text \<open>\<^verbatim>\<open>excludeKeys\<close>: the keys of the received objects whose kind is excluded.\<close>

definition exclude_keys :: "rstate \<Rightarrow> ref obj \<Rightarrow> string list" where
  "exclude_keys s rs = List.map_filter (\<lambda>r. case deref s r of None \<Rightarrow> None
     | Some x \<Rightarrow> (case kind_name x of None \<Rightarrow> None
         | Some k \<Rightarrow> if k \<in> set excludedKinds then Some (key_name x) else None)) (map snd rs)"

text \<open>
  \<^verbatim>\<open>processUnresolvedOwners\<close> loops over \<^verbatim>\<open>state.unnresolvedOwnership\<close>, a field that
  no code sets; \<open>misspelt\<close> is its value, and the result is the number of warnings printed.
\<close>

definition processUnresolvedOwners :: "json \<Rightarrow> nat option" where
  "processUnresolvedOwners misspelt =
     foldM (\<lambda>k n. do { v \<leftarrow> jget misspelt k; xs \<leftarrow> iter_of v; Some (n + length xs) }) (keys_in misspelt) 0"

definition doReceiveResources :: "nat \<Rightarrow> int \<Rightarrow> ref obj \<Rightarrow> json \<Rightarrow> rstate \<Rightarrow> rstate option" where
  "doReceiveResources fuel now rs kubeKinds s = do {
     let s0 = s\<lparr>st_resources := ospread (st_resources s) rs,
                st_podCount := 0,
                st_orig_problemResources := orig (st_orig_problemResources s) (st_problemResources s),
                st_problemResources := [],
                st_lastLoaded := now,
                st_orig_podsByNode := orig (st_orig_podsByNode s) (st_podsByNode s),
                st_podsByNode := [],
                st_orig_countsByKind := orig (st_orig_countsByKind s) (st_countsByKind s),
                st_countsByKind := [],
                st_unresolvedOwnership := Some []\<rparr>;
     s1 \<leftarrow> visitResources (receive_visitor fuel now kubeKinds) rs s0;
     _ \<leftarrow> processUnresolvedOwners JUndef;
     Some (s1\<lparr>st_resources := fold odel (exclude_keys s1 rs) (st_resources s1),
              st_resourceRevision := st_resourceRevision s1 + 1\<rparr>)
   }"

section \<open>The editor, the location and the session\<close>

text \<open>
  \<open>dump\<close> is \<^verbatim>\<open>yaml.safeDump\<close> of js-yaml with the source's options. \<open>same\<close> says that
  the resource and the contents of the action are one object, which the removal of the
  read-only fields then changes in both places.
\<close>

definition doReceiveResourceContents ::
  "(json \<Rightarrow> string) \<Rightarrow> bool \<Rightarrow> json \<Rightarrow> json \<Rightarrow> json \<Rightarrow> rstate \<Rightarrow> rstate option" where
  "doReceiveResourceContents dump same resource contents err s =
     (if truthy contents \<and> truthy (ed_format (st_editor s)) then do {
        c \<leftarrow> removeReadOnlyFields contents;
        let text = (if strict_eq (ed_format (st_editor s)) (JStr ''yaml'') then dump c
                    else json_stringify c);
        Some (s\<lparr>st_editor := \<lparr>ed_resource = (if same then c else resource), ed_contents = JStr text,
                              ed_error = err, ed_format = JStr ''yaml''\<rparr>\<rparr>)
      } else Some (s\<lparr>st_editor := \<lparr>ed_resource = resource, ed_contents = contents,
                                  ed_error = err, ed_format = JStr ''yaml''\<rparr>\<rparr>))"

fun as_str :: "json \<Rightarrow> string option" where
  "as_str (JStr s) = Some s"
| "as_str _ = None"

text \<open>
  \<open>query\<close> is \<^verbatim>\<open>queryString.parse(location.search)\<close> of the query-string package: a
  parameter that occurs once is a string, one that is repeated an array.
\<close>

definition doSetFiltersByLocation :: "json \<Rightarrow> rstate \<Rightarrow> rstate option" where
  "doSetFiltersByLocation query s = do {
     f \<leftarrow> jget query ''filters'';
     let names = (if \<not> truthy f then JArr [] else if \<not> is_array f then JArr [f] else f);
     if \<not> arraysEqual names (strs (st_filterNames s)) then do {
       ns \<leftarrow> those (map as_str (arr_elems names));
       doSetFilterNames ns s
     } else Some s
   }"

definition doReceiveNewLocation :: "string \<Rightarrow> json \<Rightarrow> rstate \<Rightarrow> rstate option" where
  "doReceiveNewLocation pathname query s = do {
     s1 \<leftarrow> doSetFiltersByLocation query s;
     view \<leftarrow> jget query ''view'';
     Some (s1\<lparr>st_editing := (strict_eq view (JStr ''edit'') \<or> ends_with ''/new'' pathname)\<rparr>)
   }"

text \<open>
  \<^verbatim>\<open>session.INVALIDATE\<close>: the watches are destroyed (the second component) and the
  reducer returns the constant \<^verbatim>\<open>initialState\<close>, with the content its objects have by now.
\<close>

definition doInvalidate :: "rstate \<Rightarrow> rstate \<times> nat option" where
  "doInvalidate s =
     ((initialState (st_heap s) (st_next s))
        \<lparr>st_globalFilters := st_globalFilters s,
         st_maxResourceVersionByKind := st_maxResourceVersionByKind s,
         st_countsByNamespace := st_countsByNamespace s,
         st_autocomplete := (case st_orig_autocomplete s of None \<Rightarrow> st_autocomplete s | Some x \<Rightarrow> x),
         st_problemResources := (case st_orig_problemResources s of None \<Rightarrow> st_problemResources s | Some x \<Rightarrow> x),
         st_podsByNode := (case st_orig_podsByNode s of None \<Rightarrow> st_podsByNode s | Some x \<Rightarrow> x),
         st_countsByKind := (case st_orig_countsByKind s of None \<Rightarrow> st_countsByKind s | Some x \<Rightarrow> x)\<rparr>,
      st_watches s)"

section \<open>The reducer\<close>

datatype raction =
    Invalidate
  | LocationChange string json
  | ReceiveResources "ref obj" json
  | FilterAll
  | SetFilterNames "string list"
  | PutResource ref bool json
  | RemoveResource ref
  | SelectResource json json json
  | ReceiveResourceContents bool json json json
  | SetWatches nat
  | AddFilter string
  | RemoveFilter string "int option"
  | PutGlobalFilters "bool obj" "bool obj option" json
  | PutNamespaces json
  | OtherAction

fun resources_reducer ::
  "(json \<Rightarrow> string) \<Rightarrow> nat \<Rightarrow> int \<Rightarrow> raction \<Rightarrow> rstate \<Rightarrow> rstate option" where
  "resources_reducer dump fuel now Invalidate s = Some (fst (doInvalidate s))"
| "resources_reducer dump fuel now (LocationChange p q) s = doReceiveNewLocation p q s"
| "resources_reducer dump fuel now (ReceiveResources rs kk) s = doReceiveResources fuel now rs kk s"
| "resources_reducer dump fuel now FilterAll s = doFilterAll s"
| "resources_reducer dump fuel now (SetFilterNames ns) s = doSetFilterNames ns s"
| "resources_reducer dump fuel now (PutResource r isNew kk) s = doUpdateResource fuel now r isNew kk s"
| "resources_reducer dump fuel now (RemoveResource r) s = doRemoveResource fuel now r s"
| "resources_reducer dump fuel now (SelectResource ns k n) s = doSelectResource fuel ns k n s"
| "resources_reducer dump fuel now (ReceiveResourceContents same r c e) s =
     doReceiveResourceContents dump same r c e s"
| "resources_reducer dump fuel now (SetWatches w) s = Some (s\<lparr>st_watches := Some w\<rparr>)"
| "resources_reducer dump fuel now (AddFilter f) s = doAddFilter f s"
| "resources_reducer dump fuel now (RemoveFilter f i) s = doRemoveFilter f i s"
| "resources_reducer dump fuel now (PutGlobalFilters ns ks kk) s = doSetGlobalFilters ns ks kk s"
| "resources_reducer dump fuel now (PutNamespaces ns) s = Some (s\<lparr>st_namespaces := ns\<rparr>)"
| "resources_reducer dump fuel now OtherAction s = Some s"

end
