(* ===== verification/ResourcesFrame.thy ===== *)
theory ResourcesFrame
  imports ResourcesReducer
begin

text \<open>
  What the helpers of the resources slice leave alone. \<open>heap_frame\<close> says that objects are
  neither created nor lost and keep what identifies them; \<open>frame\<close> adds that only the heap, the
  problem resources, the autocompletion and the unresolved owners of the state may change.
  The invariants and the functional properties of the handlers rest on these lemmas.
\<close>

named_theorems frames \<open>frame lemmas of the helpers\<close>

definition same_identity :: "resource \<Rightarrow> resource \<Rightarrow> bool" where
  "same_identity x y \<longleftrightarrow> r_body y = r_body x \<and> r_key y = r_key x \<and> r_isDeleted y = r_isDeleted x
     \<and> r_notFound y = r_notFound x"

definition heap_frame :: "heap \<Rightarrow> heap \<Rightarrow> bool" where
  "heap_frame h h' \<longleftrightarrow> (\<forall>r. rel_option same_identity (h r) (h' r))"

text \<open>The state without the four fields that the helpers change.\<close>

definition core :: "rstate \<Rightarrow> rstate" where
  "core s = s\<lparr>st_heap := (\<lambda>_. None), st_problemResources := [],
              st_autocomplete := empty_autocomplete, st_unresolvedOwnership := None\<rparr>"

definition frame :: "rstate \<Rightarrow> rstate \<Rightarrow> bool" where
  "frame s t \<longleftrightarrow> heap_frame (st_heap s) (st_heap t) \<and> core s = core t"

lemma same_identity_refl [simp]: "same_identity x x"
  by (simp add: same_identity_def)

lemma same_identity_trans: "same_identity x y \<Longrightarrow> same_identity y z \<Longrightarrow> same_identity x z"
  by (simp add: same_identity_def)

lemma heap_frame_refl [simp]: "heap_frame h h"
  by (simp add: heap_frame_def option.rel_refl)

lemma rel_identity_trans:
  "rel_option same_identity a b \<Longrightarrow> rel_option same_identity b c \<Longrightarrow> rel_option same_identity a c"
  by (cases a; cases b; cases c) (auto intro: same_identity_trans)

lemma heap_frame_trans: "heap_frame h1 h2 \<Longrightarrow> heap_frame h2 h3 \<Longrightarrow> heap_frame h1 h3"
  unfolding heap_frame_def by (blast intro: rel_identity_trans)

lemma heap_frame_Some:
  "heap_frame h h' \<Longrightarrow> h r = Some x \<Longrightarrow> \<exists>y. h' r = Some y \<and> same_identity x y"
  unfolding heap_frame_def by (metis option_rel_Some1)

lemma heap_frame_Some2:
  "heap_frame h h' \<Longrightarrow> h' r = Some y \<Longrightarrow> \<exists>x. h r = Some x \<and> same_identity x y"
  unfolding heap_frame_def by (metis option_rel_Some2)

lemma heap_frame_None: "heap_frame h h' \<Longrightarrow> h' r = None \<longleftrightarrow> h r = None"
  unfolding heap_frame_def by (metis option.rel_distinct(1,2) option.exhaust)

lemma heap_frame_dom: "heap_frame h h' \<Longrightarrow> dom h' = dom h"
  by (auto simp: dom_def heap_frame_None)

lemma frame_refl [simp]: "frame s s"
  by (simp add: frame_def)

lemma frame_trans [trans]: "frame s t \<Longrightarrow> frame t u \<Longrightarrow> frame s u"
  unfolding frame_def by (auto intro: heap_frame_trans)

lemma frame_fields:
  assumes "frame s t"
  shows "st_next t = st_next s" "st_filterNames t = st_filterNames s" "st_filters t = st_filters s"
    "st_globalFilters t = st_globalFilters s" "st_resource t = st_resource s" "st_pods t = st_pods s"
    "st_podCount t = st_podCount s" "st_resources t = st_resources s"
    "st_lastLoaded t = st_lastLoaded s" "st_namespaces t = st_namespaces s"
    "st_editor t = st_editor s" "st_editing t = st_editing s"
    "st_countsByKind t = st_countsByKind s" "st_countsByNamespace t = st_countsByNamespace s"
    "st_watches t = st_watches s" "st_podsByNode t = st_podsByNode s"
    "st_maxResourceVersionByKind t = st_maxResourceVersionByKind s"
    "st_maxResourceVersion t = st_maxResourceVersion s"
    "st_resourceRevision t = st_resourceRevision s"
    "st_orig_autocomplete t = st_orig_autocomplete s"
    "st_orig_problemResources t = st_orig_problemResources s"
    "st_orig_podsByNode t = st_orig_podsByNode s"
    "st_orig_countsByKind t = st_orig_countsByKind s"
  using assms by (cases s; cases t; simp add: frame_def core_def)+

lemma frame_heap: "frame s t \<Longrightarrow> heap_frame (st_heap s) (st_heap t)"
  by (simp add: frame_def)

lemma frame_upd_res:
  assumes "\<And>x. same_identity x (f x)"
  shows "frame s (upd_res r f s)"
  using assms by (auto simp: frame_def upd_res_def core_def heap_frame_def option.rel_map option.rel_refl
      intro: option.rel_refl_strong)

lemma frame_problem [simp]: "frame s (s\<lparr>st_problemResources := p\<rparr>)"
  by (simp add: frame_def core_def)

lemma frame_autocomplete [simp]: "frame s (s\<lparr>st_autocomplete := a\<rparr>)"
  by (simp add: frame_def core_def)

lemma frame_unresolved [simp]: "frame s (s\<lparr>st_unresolvedOwnership := u\<rparr>)"
  by (simp add: frame_def core_def)

lemma frame_foldM:
  assumes "foldM f xs s = Some t" "\<And>x s t. f x s = Some t \<Longrightarrow> frame s t"
  shows "frame s t"
  using assms(1) by (rule foldM_rel) (auto intro: frame_trans assms(2))

lemma frame_updateProblemResources [frames]: "updateProblemResources r s = Some t \<Longrightarrow> frame s t"
  by (auto simp: updateProblemResources_def bind_Some_iff)

lemma frame_push_unresolved [frames]: "push_unresolved k r s = Some t \<Longrightarrow> frame s t"
  by (auto simp: push_unresolved_def bind_Some_iff Let_def)

lemma frame_attach_owner [frames]:
  assumes "attach_owner now k r owner s = Some t"
  shows "frame s t"
proof -
  let ?s1 = "upd_res owner (\<lambda>x. x\<lparr>r_owned := Some (oset k r (owned_or_empty x))\<rparr>) s"
  from assms obtain ox status s3 where s3:
    "updateProblemResources owner (upd_res owner (\<lambda>x. x\<lparr>r_statusSummary := status\<rparr>) ?s1) = Some s3"
    "t = s3\<lparr>st_autocomplete := (st_autocomplete s3)\<lparr>ac_workloads :=
           oset (''status:'' @ to_str status) True (ac_workloads (st_autocomplete s3))\<rparr>\<rparr>"
    by (auto simp: attach_owner_def bind_Some_iff Let_def)
  have "frame s ?s1" by (rule frame_upd_res) (simp add: same_identity_def)
  also have "frame ?s1 (upd_res owner (\<lambda>x. x\<lparr>r_statusSummary := status\<rparr>) ?s1)"
    by (rule frame_upd_res) (simp add: same_identity_def)
  also have "frame \<dots> s3" by (rule frame_updateProblemResources [OF s3(1)])
  also have "frame s3 t" unfolding s3(2) by (rule frame_autocomplete)
  finally show ?thesis .
qed

lemma frame_register_ref:
  assumes "register_ref rec now remove r k ns oref s = Some t"
    and "\<And>ow s t. rec ow s = Some t \<Longrightarrow> frame s t"
  shows "frame s t"
proof -
  from assms(1) obtain ok where ok: "keyForResource oref ns = Some ok"
    by (auto simp: register_ref_def bind_Some_iff)
  show ?thesis
  proof (cases "oget (st_resources s) (to_str ok)")
    case None
    with assms(1) ok show ?thesis by (auto simp: register_ref_def intro: frame_push_unresolved)
  next
    case (Some ow)
    show ?thesis
    proof (cases remove)
      case True
      let ?s1 = "upd_res ow (\<lambda>x. x\<lparr>r_owned := Some (odel k (owned_or_empty x))\<rparr>) s"
      have "frame s ?s1" by (rule frame_upd_res) (simp add: same_identity_def)
      moreover from True Some assms(1) ok have "push_unresolved (to_str ok) r ?s1 = Some t"
        by (simp add: register_ref_def)
      ultimately show ?thesis by (blast intro: frame_trans frame_push_unresolved)
    next
      case False
      with Some assms(1) ok obtain s1 where "attach_owner now k r ow s = Some s1" "rec ow s1 = Some t"
        by (auto simp: register_ref_def bind_Some_iff)
      then show ?thesis by (blast intro: frame_trans frame_attach_owner assms(2))
    qed
  qed
qed

lemma frame_registerOwned [frames]: "registerOwned n now remove r s = Some t \<Longrightarrow> frame s t"
proof (induction n arbitrary: remove r s t)
  case 0
  then show ?case by simp
next
  case (Suc n)
  from Suc.prems obtain x md has where x: "deref s r = Some x" "rget x ''metadata'' = Some md"
    "jhas ''ownerReferences'' md = Some has" by (auto simp: bind_Some_iff)
  show ?case
  proof (cases has)
    case False
    with x Suc.prems show ?thesis by simp
  next
    case True
    with x Suc.prems obtain xs ns where
      "foldM (register_ref (registerOwned n now False) now remove r (key_name x) ns) xs s = Some t"
      by (auto simp: bind_Some_iff)
    then show ?thesis by (rule frame_foldM) (blast intro: frame_register_ref Suc.IH)
  qed
qed

lemma frame_add_related [simp]: "frame s (add_related r k s)"
  unfolding add_related_def by (rule frame_upd_res) (simp add: same_identity_def)

lemma frame_add_related_at [simp]: "frame s (add_related_at target k s)"
  by (auto simp: add_related_at_def split: option.split)

lemma frame_drop_related_at [simp]: "frame s (drop_related_at k relKey s)"
  by (auto simp: drop_related_at_def same_identity_def split: option.split intro!: frame_upd_res)

lemma frame_fold_drop: "frame s (fold (drop_related_at k) ks s)"
  by (induction ks arbitrary: s) (auto intro: frame_trans frame_drop_related_at)

lemma frame_add_twice [simp]:
  "frame s (add_related_at a b (add_related_at c d s))"
  "frame s (add_related r e (add_related_at c d s))"
  by (blast intro: frame_trans [OF frame_add_related_at frame_add_related_at]
        frame_trans [OF frame_add_related_at frame_add_related])+

lemma frame_endpoint_address: "endpoint_address sk addr s = Some t \<Longrightarrow> frame s t"
  by (auto simp: endpoint_address_def bind_Some_iff Let_def split: if_splits)

lemma frame_endpoint_subset: "endpoint_subset sk sub s = Some t \<Longrightarrow> frame s t"
  by (auto simp: endpoint_subset_def bind_Some_iff split: if_splits
      intro: frame_foldM frame_endpoint_address)

lemma frame_ingress_path: "ingress_path r k ns p s = Some t \<Longrightarrow> frame s t"
  by (auto simp: ingress_path_def bind_Some_iff Let_def split: if_splits)

lemma frame_ingress_rule: "ingress_rule r k ns rule s = Some t \<Longrightarrow> frame s t"
  by (auto simp: ingress_rule_def bind_Some_iff split: if_splits intro: frame_foldM frame_ingress_path)

lemma frame_pod_volume: "pod_volume r ns vol s = Some t \<Longrightarrow> frame s t"
  by (auto simp: pod_volume_def bind_Some_iff split: if_splits)

lemma frame_updateRelatedResources [frames]:
  assumes "updateRelatedResources remove r s = Some t"
  shows "frame s t"
proof -
  from assms obtain x kind where x: "deref s r = Some x" "kind_of x = Some kind"
    by (auto simp: updateRelatedResources_def bind_Some_iff)
  show ?thesis
  proof (cases "remove \<and> r_related x \<noteq> None")
    case True
    with assms x show ?thesis by (auto simp: updateRelatedResources_def frame_fold_drop)
  next
    case False
    then have sel: "(case (remove, r_related x) of (True, Some rel) \<Rightarrow> f rel | _ \<Rightarrow> g) = g" for f g
      by (auto split: bool.split option.split)
    show ?thesis
      using assms unfolding updateRelatedResources_def x bind.bind_lunit sel
      by (auto simp: bind_Some_iff intro: frame_foldM frame_endpoint_subset
          frame_ingress_rule frame_pod_volume split: if_split_asm)
  qed
qed

lemma frame_updateAutocomplete [frames]: "updateAutocomplete g r s = Some t \<Longrightarrow> frame s t"
  by (auto simp: updateAutocomplete_def bind_Some_iff)

lemma filter_fields_frame:
  "filter_fields fs x = Some (x', b) \<Longrightarrow> \<exists>f. x' = x\<lparr>r_isFiltered := f\<rparr>"
proof (induction fs x arbitrary: x' b rule: filter_fields.induct)
  case (1 r)
  then have "x' = r\<lparr>r_isFiltered := r_isFiltered r\<rparr>" by simp
  then show ?case by blast
next
  case (2 f vals fs r)
  let ?m = "field_match (if bang f then substr1 f else f) vals r"
  have "?m \<noteq> None" using "2.prems" by (auto simp: Let_def bind_Some_iff)
  then obtain m where m: "?m = Some m" by blast
  show ?case
  proof (cases "m = bang f")
    case True
    with "2.prems" m show ?thesis by (auto simp: Let_def)
  next
    case False
    with "2.prems" m have "filter_fields fs (r\<lparr>r_isFiltered := False\<rparr>) = Some (x', b)" by (simp add: Let_def)
    with "2.IH" [OF refl m refl refl] False show ?thesis by auto
  qed
qed

lemma applyFiltersToResource_frame:
  "applyFiltersToResource fs x = Some (x', b) \<Longrightarrow> \<exists>f. x' = x\<lparr>r_isFiltered := f\<rparr>"
  by (fastforce simp: applyFiltersToResource_def split: if_splits dest: filter_fields_frame)

lemma applyFilters_frame:
  "applyFilters g d x = Some (x', b) \<Longrightarrow> \<exists>f. x' = x\<lparr>r_isFiltered := f\<rparr>"
  by (force simp: applyFilters_def bind_Some_iff split: if_splits prod.splits
      dest: applyFiltersToResource_frame)

lemma filter_refE:
  assumes "filter_ref r s = Some (t, b)"
  obtains x x' where "deref s r = Some x"
    "applyFilters (st_globalFilters s) (st_filters s) x = Some (x', b)" "t = upd_res r (\<lambda>_. x') s"
  using assms by (auto simp: filter_ref_def bind_Some_iff)

lemma frame_filter_ref [frames]:
  assumes "filter_ref r s = Some (t, b)"
  shows "frame s t"
proof -
  from assms obtain x x' where x: "deref s r = Some x"
    "applyFilters (st_globalFilters s) (st_filters s) x = Some (x', b)" "t = upd_res r (\<lambda>_. x') s"
    by (rule filter_refE)
  then have "t = upd_res r (\<lambda>y. y\<lparr>r_isFiltered := r_isFiltered x'\<rparr>) s"
    using applyFilters_frame [OF x(2)] by (auto simp: upd_res_def deref_def fun_eq_iff)
  then show ?thesis by (simp add: frame_upd_res same_identity_def)
qed

lemma frame_filter_and_complete [frames]:
  "filter_and_complete g r s = Some t \<Longrightarrow> frame s t"
  by (auto simp: filter_and_complete_def bind_Some_iff split: if_splits
      intro: frame_trans frame_filter_ref frame_updateAutocomplete)

lemma frame_global_visitor [frames]: "global_visitor kk r s = Some t \<Longrightarrow> frame s t"
  by (auto simp: global_visitor_def bind_Some_iff split: if_splits
      intro: frame_trans frame_filter_ref frame_updateAutocomplete)

lemma frame_visit:
  "visitResources f rs s = Some t \<Longrightarrow> (\<And>r s t. f r s = Some t \<Longrightarrow> frame s t) \<Longrightarrow> frame s t"
  unfolding visitResources_def by (rule frame_foldM)

lemma frame_doFilterAll [frames]: "doFilterAll s = Some t \<Longrightarrow> frame s t"
  unfolding doFilterAll_def by (erule frame_visit) (auto intro: frame_filter_ref)

lemma frame_keep_owned [frames]: "keep_owned old r k s = Some t \<Longrightarrow> frame s t"
  by (auto simp: keep_owned_def bind_Some_iff same_identity_def split: option.splits if_splits
      intro!: frame_upd_res)

lemma frame_copy_owned [frames]:
  assumes "copy_owned old existing r s = Some t"
  shows "frame s t"
proof -
  let ?s1 = "upd_res r (\<lambda>y. y\<lparr>r_owned := Some []\<rparr>) s"
  have f1: "frame s ?s1" by (rule frame_upd_res) (simp add: same_identity_def)
  have "foldM (keep_owned old r) ks ?s1 = Some t \<Longrightarrow> frame s t" for ks
    by (rule frame_trans [OF f1]) (erule frame_foldM, rule frame_keep_owned)
  with assms show ?thesis
    by (auto simp: copy_owned_def bind_Some_iff Let_def split: option.splits if_splits)
qed

end
