(* ===== verification/ResourcesInvariant.thy ===== *)
theory ResourcesInvariant
  imports ResourcesFrame
begin

text \<open>
  The invariants of the resources slice and their preservation by every action: no reference
  of the state or of an owned map dangles (\<open>refs_ok\<close>), the resources map has no duplicate keys
  and is indexed by \<^verbatim>\<open>keyForResource\<close> of its objects (\<open>keys_ok\<close>), and the two
  representations of the filters agree (\<open>filters_agree\<close>). \<open>reaches\<close> is the step relation: the
  environment allocates parsed objects, the store dispatches actions.
\<close>

definition orefs :: "ref obj \<Rightarrow> ref set" where
  "orefs o1 = snd ` set o1"

lemma orefs_simps [simp]:
  "orefs [] = {}" "orefs ((k, r) # o1) = insert r (orefs o1)"
  by (simp_all add: orefs_def)

lemma orefs_oset: "orefs (oset k r o1) \<subseteq> insert r (orefs o1)"
  unfolding orefs_def by (rule set_oset_subset)

lemma orefs_odel: "orefs (odel k o1) \<subseteq> orefs o1"
  unfolding orefs_def using set_odel_subset by blast

lemma orefs_oget: "oget o1 k = Some r \<Longrightarrow> r \<in> orefs o1"
  unfolding orefs_def by (metis imageI map_of_SomeD snd_conv)

lemma orefs_ospread: "orefs (ospread a b) \<subseteq> orefs a \<union> orefs b"
  by (force simp: orefs_def ospread_def split: option.splits dest: map_of_SomeD)

section \<open>No dangling references\<close>

definition live :: "rstate \<Rightarrow> ref set" where
  "live s = dom (st_heap s)"

text \<open>The part that the ownership helpers change: a set of live references bounds it.\<close>

definition owned_in :: "heap \<Rightarrow> ref set \<Rightarrow> bool" where
  "owned_in h D \<longleftrightarrow> (\<forall>r x. h r = Some x \<longrightarrow> orefs (owned_or_empty x) \<subseteq> D)"

definition unresolved_in :: "ref list obj option \<Rightarrow> ref set \<Rightarrow> bool" where
  "unresolved_in u D \<longleftrightarrow> (\<forall>w \<in> set_option u. \<forall>p \<in> set w. set (snd p) \<subseteq> D)"

definition dyn_ok :: "rstate \<Rightarrow> bool" where
  "dyn_ok s \<longleftrightarrow> owned_in (st_heap s) (live s) \<and> orefs (st_problemResources s) \<subseteq> live s
     \<and> unresolved_in (st_unresolvedOwnership s) (live s)"

definition nodes_ok :: "ref obj obj \<Rightarrow> ref set \<Rightarrow> bool" where
  "nodes_ok n D \<longleftrightarrow> (\<forall>p \<in> set n. orefs (snd p) \<subseteq> D)"

definition refs_ok :: "rstate \<Rightarrow> bool" where
  "refs_ok s \<longleftrightarrow> dyn_ok s
     \<and> (\<forall>r \<ge> st_next s. st_heap s r = None)
     \<and> orefs (st_resources s) \<subseteq> live s
     \<and> orefs (st_pods s) \<subseteq> live s
     \<and> set_option (st_resource s) \<subseteq> live s
     \<and> nodes_ok (st_podsByNode s) (live s)
     \<and> (\<forall>p. st_orig_problemResources s = Some p \<longrightarrow> orefs p \<subseteq> live s)
     \<and> (\<forall>n. st_orig_podsByNode s = Some n \<longrightarrow> nodes_ok n (live s))"

lemma oset_in_set: "p \<in> set (oset k v o1) \<Longrightarrow> p = (k, v) \<or> p \<in> set o1"
  by (induction o1) (auto simp: oset_def split: if_splits)

lemma nodes_ok_oset: "nodes_ok n D \<Longrightarrow> orefs o1 \<subseteq> D \<Longrightarrow> nodes_ok (oset k o1 n) D"
  unfolding nodes_ok_def by (metis oset_in_set snd_conv)

lemma nodes_ok_oget: "nodes_ok n D \<Longrightarrow> oget n k = Some o1 \<Longrightarrow> orefs o1 \<subseteq> D"
  unfolding nodes_ok_def by (metis map_of_SomeD snd_conv)

lemma nodes_ok_mono: "nodes_ok n D \<Longrightarrow> D \<subseteq> E \<Longrightarrow> nodes_ok n E"
  unfolding nodes_ok_def by blast

lemma unresolved_in_mono: "unresolved_in u D \<Longrightarrow> D \<subseteq> E \<Longrightarrow> unresolved_in u E"
  unfolding unresolved_in_def by blast

lemma nodes_ok_Nil [simp]: "nodes_ok [] D"
  by (simp add: nodes_ok_def)

lemma owned_inD: "owned_in h D \<Longrightarrow> h r = Some x \<Longrightarrow> orefs (owned_or_empty x) \<subseteq> D"
  unfolding owned_in_def by blast

lemma live_upd_res [simp]: "live (upd_res r f s) = live s"
  by (auto simp: live_def upd_res_def split: if_splits)

lemma live_frame: "frame s t \<Longrightarrow> live t = live s"
  by (simp add: live_def frame_def heap_frame_dom)

lemma live_simps [simp]:
  "live (s\<lparr>st_problemResources := p\<rparr>) = live s" "live (s\<lparr>st_autocomplete := a\<rparr>) = live s"
  "live (s\<lparr>st_unresolvedOwnership := u\<rparr>) = live s" "live (s\<lparr>st_resources := m\<rparr>) = live s"
  "live (s\<lparr>st_podCount := n\<rparr>) = live s"
  by (simp_all add: live_def)

lemma deref_live: "deref s r = Some x \<Longrightarrow> r \<in> live s"
  by (simp add: deref_def live_def domI)

lemma owned_in_upd:
  assumes "owned_in h D" "\<And>x. h r = Some x \<Longrightarrow> orefs (owned_or_empty (f x)) \<subseteq> D"
  shows "owned_in (h(r := map_option f (h r))) D"
  unfolding owned_in_def
proof (intro allI impI)
  fix q y
  assume y: "(h(r := map_option f (h r))) q = Some y"
  show "orefs (owned_or_empty y) \<subseteq> D"
  proof (cases "q = r")
    case True
    with y obtain x where "h r = Some x" "y = f x" by auto
    with assms(2) show ?thesis by blast
  next
    case False
    with y have "h q = Some y" by simp
    with assms(1) show ?thesis by (rule owned_inD)
  qed
qed

lemma dyn_ok_upd_res:
  assumes "dyn_ok s" "\<And>x. deref s r = Some x \<Longrightarrow> orefs (owned_or_empty (f x)) \<subseteq> live s"
  shows "dyn_ok (upd_res r f s)"
proof -
  have "owned_in (st_heap (upd_res r f s)) (live s)"
    using assms unfolding upd_res_def dyn_ok_def deref_def by (simp add: owned_in_upd)
  with assms(1) show ?thesis unfolding dyn_ok_def live_upd_res by (simp add: upd_res_def)
qed

lemma dyn_ok_upd_same:
  assumes "dyn_ok s" "\<And>x. r_owned (f x) = r_owned x"
  shows "dyn_ok (upd_res r f s)"
  using assms(1)
proof (rule dyn_ok_upd_res)
  fix x
  assume "deref s r = Some x"
  then have "orefs (owned_or_empty x) \<subseteq> live s"
    using assms(1) owned_inD unfolding dyn_ok_def deref_def by blast
  then show "orefs (owned_or_empty (f x)) \<subseteq> live s"
    by (simp add: owned_or_empty_def assms(2))
qed

lemma owned_live: "dyn_ok s \<Longrightarrow> deref s r = Some x \<Longrightarrow> orefs (owned_or_empty x) \<subseteq> live s"
  unfolding dyn_ok_def deref_def using owned_inD by blast

lemma dyn_ok_add_owned:
  assumes "dyn_ok s" "r' \<in> live s"
  shows "dyn_ok (upd_res r (\<lambda>x. x\<lparr>r_owned := Some (oset k r' (owned_or_empty x))\<rparr>) s)"
proof (rule dyn_ok_upd_res [OF assms(1)])
  fix x
  assume "deref s r = Some x"
  from owned_live [OF assms(1) this] assms(2) orefs_oset [of k r' "owned_or_empty x"]
  show "orefs (owned_or_empty (x\<lparr>r_owned := Some (oset k r' (owned_or_empty x))\<rparr>)) \<subseteq> live s"
    by (simp add: owned_or_empty_def [of "r_owned_update _ _"]) blast
qed

lemma dyn_ok_del_owned:
  assumes "dyn_ok s"
  shows "dyn_ok (upd_res r (\<lambda>x. x\<lparr>r_owned := Some (odel k (owned_or_empty x))\<rparr>) s)"
proof (rule dyn_ok_upd_res [OF assms(1)])
  fix x
  assume "deref s r = Some x"
  from owned_live [OF assms(1) this] orefs_odel [of k "owned_or_empty x"]
  show "orefs (owned_or_empty (x\<lparr>r_owned := Some (odel k (owned_or_empty x))\<rparr>)) \<subseteq> live s"
    by (simp add: owned_or_empty_def [of "r_owned_update _ _"])
qed

lemma dyn_ok_clear_owned: "dyn_ok s \<Longrightarrow> dyn_ok (upd_res r (\<lambda>x. x\<lparr>r_owned := Some []\<rparr>) s)"
  by (rule dyn_ok_upd_res) (simp_all add: owned_or_empty_def)

lemma dyn_updateProblemResources:
  assumes "updateProblemResources r s = Some t" "dyn_ok s"
  shows "dyn_ok t"
proof -
  from assms(1) obtain x where x: "deref s r = Some x"
    and t: "t = s\<lparr>st_problemResources := oset (key_name x) r (st_problemResources s)\<rparr>
      \<or> t = s\<lparr>st_problemResources := odel (key_name x) (st_problemResources s)\<rparr>"
    by (auto simp: updateProblemResources_def bind_Some_iff split: if_splits)
  have "orefs (oset (key_name x) r (st_problemResources s)) \<subseteq> live s"
    "orefs (odel (key_name x) (st_problemResources s)) \<subseteq> live s"
    using assms(2) deref_live [OF x] orefs_oset [of "key_name x" r "st_problemResources s"]
      orefs_odel [of "key_name x" "st_problemResources s"] unfolding dyn_ok_def by blast+
  with t assms(2) show ?thesis by (elim disjE) (simp_all add: dyn_ok_def)
qed

lemma dyn_push_unresolved:
  assumes "push_unresolved k r s = Some t" "dyn_ok s" "r \<in> live s"
  shows "dyn_ok t"
proof -
  from assms(1) obtain u where u: "st_unresolvedOwnership s = Some u"
    "t = s\<lparr>st_unresolvedOwnership :=
       Some (oset k ((case oget u k of Some xs \<Rightarrow> xs | None \<Rightarrow> []) @ [r]) u)\<rparr>"
    by (auto simp: push_unresolved_def bind_Some_iff Let_def)
  let ?new = "(case oget u k of Some xs \<Rightarrow> xs | None \<Rightarrow> []) @ [r]"
  have old: "set (snd p) \<subseteq> live s" if "p \<in> set u" for p
    using assms(2) u(1) that unfolding dyn_ok_def unresolved_in_def by simp
  have "set ?new \<subseteq> live s"
  proof (cases "oget u k")
    case None
    with assms(3) show ?thesis by simp
  next
    case (Some rs)
    with old [OF map_of_SomeD [OF Some]] assms(3) show ?thesis by simp
  qed
  then have "set (snd p) \<subseteq> live s" if "p \<in> set (oset k ?new u)" for p
    using oset_in_set [OF that] old by (metis snd_conv)
  with assms(2) show ?thesis unfolding dyn_ok_def u(2) unresolved_in_def by simp
qed

lemma dyn_attach_owner:
  assumes "attach_owner now k r ow s = Some t" "dyn_ok s" "r \<in> live s"
  shows "dyn_ok t"
proof -
  let ?s1 = "upd_res ow (\<lambda>x. x\<lparr>r_owned := Some (oset k r (owned_or_empty x))\<rparr>) s"
  from assms(1) obtain status s3 ac where s3:
    "updateProblemResources ow (upd_res ow (\<lambda>x. x\<lparr>r_statusSummary := status\<rparr>) ?s1) = Some s3"
    "t = s3\<lparr>st_autocomplete := ac\<rparr>"
    by (auto simp: attach_owner_def bind_Some_iff Let_def)
  have "dyn_ok ?s1" by (rule dyn_ok_add_owned [OF assms(2,3)])
  then have "dyn_ok (upd_res ow (\<lambda>x. x\<lparr>r_statusSummary := status\<rparr>) ?s1)"
    by (rule dyn_ok_upd_same) simp
  with s3(1) have "dyn_ok s3" by (rule dyn_updateProblemResources)
  then show ?thesis unfolding s3(2) dyn_ok_def by simp
qed

lemma dyn_register_ref:
  assumes ref: "register_ref rec now remove r k ns oref s = Some t"
    and "\<And>ow s t. rec ow s = Some t \<Longrightarrow> dyn_ok s \<Longrightarrow> dyn_ok t" and "dyn_ok s" "r \<in> live s"
  shows "dyn_ok t"
proof -
  from ref obtain ok where ok: "keyForResource oref ns = Some ok"
    by (auto simp: register_ref_def bind_Some_iff)
  show ?thesis
  proof (cases "oget (st_resources s) (to_str ok)")
    case None
    with ref ok have "push_unresolved (to_str ok) r s = Some t" by (simp add: register_ref_def)
    then show ?thesis by (rule dyn_push_unresolved [OF _ assms(3,4)])
  next
    case (Some ow)
    show ?thesis
    proof (cases remove)
      case True
      let ?s1 = "upd_res ow (\<lambda>x. x\<lparr>r_owned := Some (odel k (owned_or_empty x))\<rparr>) s"
      from True Some ref ok have "push_unresolved (to_str ok) r ?s1 = Some t"
        by (simp add: register_ref_def)
      then show ?thesis
        by (rule dyn_push_unresolved) (simp_all add: dyn_ok_del_owned assms(3,4))
    next
      case False
      with Some ref ok obtain s1 where "attach_owner now k r ow s = Some s1" "rec ow s1 = Some t"
        by (auto simp: register_ref_def bind_Some_iff)
      then show ?thesis using assms(2) dyn_attach_owner [OF _ assms(3,4)] by blast
    qed
  qed
qed

lemma dyn_registerOwned:
  "registerOwned n now remove r s = Some t \<Longrightarrow> dyn_ok s \<Longrightarrow> dyn_ok t"
proof (induction n arbitrary: remove r s t)
  case 0
  then show ?case by simp
next
  case (Suc n)
  from Suc.prems(1) obtain x md has where x: "deref s r = Some x" "rget x ''metadata'' = Some md"
    "jhas ''ownerReferences'' md = Some has" by (auto simp: bind_Some_iff)
  show ?case
  proof (cases has)
    case False
    with x Suc.prems show ?thesis by simp
  next
    case True
    with x Suc.prems(1) obtain xs ns where fold:
      "foldM (register_ref (registerOwned n now False) now remove r (key_name x) ns) xs s = Some t"
      by (auto simp: bind_Some_iff)
    let ?f = "register_ref (registerOwned n now False) now remove r (key_name x) ns"
    let ?P = "\<lambda>u. dyn_ok u \<and> live u = live s"
    have "?P v" if "?P u" and ref: "?f oref u = Some v" for oref u v
    proof -
      have "frame u v" using ref by (rule frame_register_ref) (rule frame_registerOwned)
      then have "live v = live u" by (rule live_frame)
      moreover have "dyn_ok v"
        using ref Suc.IH that(1) deref_live [OF x(1)] by (intro dyn_register_ref [OF ref]) simp_all
      ultimately show ?thesis using that(1) by simp
    qed
    then have "?P t" using foldM_inv [of xs ?P ?f s t] Suc.prems(2) fold by blast
    then show ?thesis ..
  qed
qed

text \<open>Helpers that touch neither the owned maps nor the two other dynamic fields.\<close>

definition owned_same :: "rstate \<Rightarrow> rstate \<Rightarrow> bool" where
  "owned_same s t \<longleftrightarrow> frame s t
     \<and> (\<forall>r. map_option r_owned (st_heap t r) = map_option r_owned (st_heap s r))
     \<and> st_problemResources t = st_problemResources s
     \<and> st_unresolvedOwnership t = st_unresolvedOwnership s"

lemma owned_same_refl [simp]: "owned_same s s"
  by (simp add: owned_same_def)

lemma owned_same_trans: "owned_same s t \<Longrightarrow> owned_same t u \<Longrightarrow> owned_same s u"
  unfolding owned_same_def by (metis frame_trans)

lemma owned_same_dyn: "owned_same s t \<Longrightarrow> dyn_ok s \<Longrightarrow> dyn_ok t"
proof -
  assume st: "owned_same s t" and s: "dyn_ok s"
  have live: "live t = live s" using st by (simp add: owned_same_def live_frame)
  have "orefs (owned_or_empty y) \<subseteq> live s" if y: "st_heap t r = Some y" for r y
  proof -
    have "map_option r_owned (st_heap s r) = Some (r_owned y)"
      using st y unfolding owned_same_def by (metis option.simps(9))
    then obtain x where "st_heap s r = Some x" "r_owned y = r_owned x" by auto
    with s show ?thesis unfolding dyn_ok_def owned_in_def owned_or_empty_def by metis
  qed
  with s st show ?thesis unfolding dyn_ok_def live owned_in_def by (auto simp: owned_same_def)
qed

lemma owned_same_upd:
  "(\<And>x. same_identity x (f x) \<and> r_owned (f x) = r_owned x) \<Longrightarrow> owned_same s (upd_res r f s)"
  unfolding owned_same_def
proof (intro conjI allI)
  assume f: "\<And>x. same_identity x (f x) \<and> r_owned (f x) = r_owned x"
  then show "frame s (upd_res r f s)" by (intro frame_upd_res) blast
  show "map_option r_owned (st_heap (upd_res r f s) q) = map_option r_owned (st_heap s q)" for q
    using f by (cases "q = r"; cases "st_heap s q") (simp_all add: upd_res_def)
qed (simp_all add: upd_res_def)

lemma owned_same_add_related [simp]: "owned_same s (add_related r k s)"
  unfolding add_related_def by (rule owned_same_upd) (simp add: same_identity_def)

lemma owned_same_add_related_at [simp]: "owned_same s (add_related_at target k s)"
  by (simp add: add_related_at_def split: option.split)

lemma owned_same_drop_related_at [simp]: "owned_same s (drop_related_at k relKey s)"
  by (auto simp: drop_related_at_def same_identity_def split: option.split intro!: owned_same_upd)

lemma owned_same_foldM:
  "foldM f xs s = Some t \<Longrightarrow> (\<And>x s t. f x s = Some t \<Longrightarrow> owned_same s t) \<Longrightarrow> owned_same s t"
  by (erule foldM_rel) (auto intro: owned_same_trans)

lemma owned_same_fold_drop: "owned_same s (fold (drop_related_at k) ks s)"
  by (induction ks arbitrary: s) (auto intro: owned_same_trans owned_same_drop_related_at)

lemma owned_same_add_twice [simp]:
  "owned_same s (add_related_at a b (add_related_at c d s))"
  "owned_same s (add_related r e (add_related_at c d s))"
  by (blast intro: owned_same_trans [OF owned_same_add_related_at owned_same_add_related_at]
        owned_same_trans [OF owned_same_add_related_at owned_same_add_related])+

lemma owned_same_endpoint: "endpoint_subset sk sub s = Some t \<Longrightarrow> owned_same s t"
proof -
  have "endpoint_address sk a s = Some t \<Longrightarrow> owned_same s t" for a s t
    by (auto simp: endpoint_address_def bind_Some_iff Let_def split: if_splits)
  then show "endpoint_subset sk sub s = Some t \<Longrightarrow> owned_same s t"
    by (auto simp: endpoint_subset_def bind_Some_iff split: if_splits intro: owned_same_foldM)
qed

lemma owned_same_ingress: "ingress_rule r k ns rule s = Some t \<Longrightarrow> owned_same s t"
proof -
  have "ingress_path r k ns p s = Some t \<Longrightarrow> owned_same s t" for p s t
    by (auto simp: ingress_path_def bind_Some_iff Let_def split: if_splits)
  then show "ingress_rule r k ns rule s = Some t \<Longrightarrow> owned_same s t"
    by (auto simp: ingress_rule_def bind_Some_iff split: if_splits intro: owned_same_foldM)
qed

lemma owned_same_pod_volume: "pod_volume r ns vol s = Some t \<Longrightarrow> owned_same s t"
  by (auto simp: pod_volume_def bind_Some_iff split: if_splits)

lemma owned_same_updateRelatedResources:
  assumes "updateRelatedResources remove r s = Some t"
  shows "owned_same s t"
proof -
  from assms obtain x kind where x: "deref s r = Some x" "kind_of x = Some kind"
    by (auto simp: updateRelatedResources_def bind_Some_iff)
  show ?thesis
  proof (cases "remove \<and> r_related x \<noteq> None")
    case True
    with assms x show ?thesis by (auto simp: updateRelatedResources_def owned_same_fold_drop)
  next
    case False
    then have sel: "(case (remove, r_related x) of (True, Some rel) \<Rightarrow> f rel | _ \<Rightarrow> g) = g" for f g
      by (auto split: bool.split option.split)
    show ?thesis
      using assms unfolding updateRelatedResources_def x bind.bind_lunit sel
      by (auto simp: bind_Some_iff intro: owned_same_foldM owned_same_endpoint
          owned_same_ingress owned_same_pod_volume split: if_split_asm)
  qed
qed

lemma owned_same_filter_ref:
  assumes "filter_ref r s = Some (t, b)"
  shows "owned_same s t"
proof -
  from assms obtain x x' where x: "deref s r = Some x"
    "applyFilters (st_globalFilters s) (st_filters s) x = Some (x', b)" "t = upd_res r (\<lambda>_. x') s"
    by (rule filter_refE)
  then have "t = upd_res r (\<lambda>y. y\<lparr>r_isFiltered := r_isFiltered x'\<rparr>) s"
    using applyFilters_frame [OF x(2)] by (auto simp: upd_res_def deref_def fun_eq_iff)
  then show ?thesis by (simp add: owned_same_upd same_identity_def)
qed

lemma owned_same_updateAutocomplete: "updateAutocomplete g r s = Some t \<Longrightarrow> owned_same s t"
  by (auto simp: updateAutocomplete_def bind_Some_iff owned_same_def)

lemma owned_same_filter_and_complete: "filter_and_complete g r s = Some t \<Longrightarrow> owned_same s t"
  by (auto simp: filter_and_complete_def bind_Some_iff split: if_splits
      intro: owned_same_trans owned_same_filter_ref owned_same_updateAutocomplete)

lemma owned_same_global_visitor: "global_visitor kk r s = Some t \<Longrightarrow> owned_same s t"
  by (auto simp: global_visitor_def bind_Some_iff split: if_splits
      intro: owned_same_trans owned_same_filter_ref owned_same_updateAutocomplete)

lemma owned_same_visit:
  "visitResources f rs s = Some t \<Longrightarrow> (\<And>r s t. f r s = Some t \<Longrightarrow> owned_same s t) \<Longrightarrow> owned_same s t"
  unfolding visitResources_def by (rule owned_same_foldM)

lemma dyn_keep_owned:
  assumes "keep_owned old r k s = Some t" "dyn_ok s"
  shows "dyn_ok t"
proof (cases "oget old k")
  case None
  with assms show ?thesis by (simp add: keep_owned_def)
next
  case (Some ow)
  with assms(1) obtain x where "deref s ow = Some x"
    by (auto simp: keep_owned_def bind_Some_iff)
  from deref_live [OF this] Some assms show ?thesis
    by (auto simp: keep_owned_def bind_Some_iff dyn_ok_add_owned split: if_splits)
qed

lemma dyn_copy_owned:
  assumes "copy_owned old existing r s = Some t" "dyn_ok s"
  shows "dyn_ok t"
proof -
  have "foldM (keep_owned old r) ks (upd_res r (\<lambda>y. y\<lparr>r_owned := Some []\<rparr>) s) = Some t \<Longrightarrow> dyn_ok t" for ks
    using foldM_inv [of ks dyn_ok "keep_owned old r"] dyn_keep_owned dyn_ok_clear_owned [OF assms(2)]
    by blast
  with assms show ?thesis
    by (auto simp: copy_owned_def bind_Some_iff Let_def split: option.splits if_splits)
qed


section \<open>Preservation by the handlers\<close>

lemma refs_ok_dyn: "refs_ok s \<Longrightarrow> dyn_ok s"
  by (simp add: refs_ok_def)

lemma refs_ok_frame:
  assumes "refs_ok s" "frame s t" "dyn_ok t"
  shows "refs_ok t"
  using assms(1,3) frame_fields [OF assms(2)] live_frame [OF assms(2)]
    heap_frame_None [OF frame_heap [OF assms(2)]]
  unfolding refs_ok_def by simp

lemma refs_ok_owned_same: "refs_ok s \<Longrightarrow> owned_same s t \<Longrightarrow> refs_ok t"
  using refs_ok_frame owned_same_dyn unfolding refs_ok_def owned_same_def by blast

lemma owned_same_doFilterAll: "doFilterAll s = Some t \<Longrightarrow> owned_same s t"
  unfolding doFilterAll_def by (erule owned_same_visit) (auto intro: owned_same_filter_ref)

text \<open>Fields that hold no reference may change freely.\<close>

lemma refs_ok_plain [simp]:
  "refs_ok (s\<lparr>st_filterNames := a\<rparr>) = refs_ok s"
  "refs_ok (s\<lparr>st_filters := b\<rparr>) = refs_ok s"
  "refs_ok (s\<lparr>st_globalFilters := b\<rparr>) = refs_ok s"
  "refs_ok (s\<lparr>st_autocomplete := c\<rparr>) = refs_ok s"
  "refs_ok (s\<lparr>st_podCount := n\<rparr>) = refs_ok s"
  "refs_ok (s\<lparr>st_lastLoaded := n\<rparr>) = refs_ok s"
  "refs_ok (s\<lparr>st_namespaces := j\<rparr>) = refs_ok s"
  "refs_ok (s\<lparr>st_editor := e\<rparr>) = refs_ok s"
  "refs_ok (s\<lparr>st_editing := f\<rparr>) = refs_ok s"
  "refs_ok (s\<lparr>st_countsByKind := k\<rparr>) = refs_ok s"
  "refs_ok (s\<lparr>st_countsByNamespace := k\<rparr>) = refs_ok s"
  "refs_ok (s\<lparr>st_watches := w\<rparr>) = refs_ok s"
  "refs_ok (s\<lparr>st_maxResourceVersionByKind := k\<rparr>) = refs_ok s"
  "refs_ok (s\<lparr>st_maxResourceVersion := v\<rparr>) = refs_ok s"
  "refs_ok (s\<lparr>st_resourceRevision := n\<rparr>) = refs_ok s"
  "refs_ok (s\<lparr>st_orig_autocomplete := oc\<rparr>) = refs_ok s"
  "refs_ok (s\<lparr>st_orig_countsByKind := ok1\<rparr>) = refs_ok s"
  by (simp_all add: refs_ok_def dyn_ok_def live_def)

lemma refs_doFilterAll: "doFilterAll s = Some t \<Longrightarrow> refs_ok s \<Longrightarrow> refs_ok t"
  using owned_same_doFilterAll refs_ok_owned_same by blast

lemma refs_doAddFilter: "doAddFilter f s = Some t \<Longrightarrow> refs_ok s \<Longrightarrow> refs_ok t"
  by (auto simp: doAddFilter_def Let_def split: prod.splits if_splits elim: refs_doFilterAll)

lemma refs_doSetFilterNames: "doSetFilterNames fs s = Some t \<Longrightarrow> refs_ok s \<Longrightarrow> refs_ok t"
  by (auto simp: doSetFilterNames_def Let_def split: prod.splits elim: refs_doFilterAll)

lemma refs_doRemoveFilter: "doRemoveFilter f i s = Some t \<Longrightarrow> refs_ok s \<Longrightarrow> refs_ok t"
  by (auto simp: doRemoveFilter_def Let_def split: prod.splits elim: refs_doFilterAll)

lemma refs_doSetGlobalFilters:
  "doSetGlobalFilters ns ks kk s = Some t \<Longrightarrow> refs_ok s \<Longrightarrow> refs_ok t"
  unfolding doSetGlobalFilters_def Let_def
  by (drule owned_same_visit, erule owned_same_global_visitor)
    (erule refs_ok_owned_same [rotated], simp)

lemma collect_owned_live:
  "collect_owned h os (pods, q) = Some (pods', q') \<Longrightarrow> orefs pods \<subseteq> dom h \<Longrightarrow> orefs pods' \<subseteq> dom h"
proof (induction h os "(pods, q)" arbitrary: pods q rule: collect_owned.induct)
  case (2 h o1 os pods q)
  from "2.prems"(1) obtain x pod where x: "h o1 = Some x" "is_pod x = Some pod"
    by (auto simp: bind_Some_iff)
  show ?case
  proof (cases pod)
    case True
    with x "2.prems"(1) obtain n where n: "metadata_of x ''name'' = Some n"
      "collect_owned h os (oset (to_str n) o1 pods, q) = Some (pods', q')"
      by (auto simp: bind_Some_iff)
    have "orefs (oset (to_str n) o1 pods) \<subseteq> dom h"
      using orefs_oset [of "to_str n" o1 pods] x(1) "2.prems"(2) by blast
    with "2.hyps"(1) [OF x True n(1) n(2)] show ?thesis by blast
  next
    case False
    with x "2.prems" "2.hyps"(2) [OF x] show ?thesis by simp
  qed
qed simp

lemma pods_loop_live:
  "pods_loop n h q pods = Some pods' \<Longrightarrow> orefs pods \<subseteq> dom h \<Longrightarrow> orefs pods' \<subseteq> dom h"
proof (induction n h q pods rule: pods_loop.induct)
  case (3 n h ow q pods)
  from "3.prems"(1) obtain p1 q1 where c: "collect_owned h (owned_refs h ow) (pods, q) = Some (p1, q1)"
    "pods_loop n h q1 p1 = Some pods'" by (auto simp: bind_Some_iff)
  from "3.IH" [OF c(1) refl c(2)] collect_owned_live [OF c(1) "3.prems"(2)] show ?case by blast
qed auto

text \<open>Allocation: the heap grows by one object that owns nothing.\<close>

lemma refs_ok_alloc:
  assumes "refs_ok s" "r_owned x = None"
  shows "refs_ok (s\<lparr>st_heap := (st_heap s)(st_next s \<mapsto> x), st_next := Suc (st_next s)\<rparr>)"
proof -
  let ?t = "s\<lparr>st_heap := (st_heap s)(st_next s \<mapsto> x), st_next := Suc (st_next s)\<rparr>"
  have sub: "live s \<subseteq> live ?t" by (auto simp: live_def)
  have "owned_in (st_heap ?t) (live ?t)"
    unfolding owned_in_def
  proof (intro allI impI)
    fix r y
    assume y: "st_heap ?t r = Some y"
    show "orefs (owned_or_empty y) \<subseteq> live ?t"
    proof (cases "r = st_next s")
      case True
      with y assms(2) show ?thesis by (simp add: owned_or_empty_def)
    next
      case False
      with y assms(1) have "orefs (owned_or_empty y) \<subseteq> live s"
        by (simp add: refs_ok_def dyn_ok_def owned_in_def)
      with sub show ?thesis by blast
    qed
  qed
  moreover have "unresolved_in (st_unresolvedOwnership ?t) (live ?t)"
    using assms(1) unresolved_in_mono [OF _ sub] by (simp add: refs_ok_def dyn_ok_def)
  moreover have "nodes_ok (st_podsByNode ?t) (live ?t)"
    using assms(1) nodes_ok_mono [OF _ sub] by (simp add: refs_ok_def)
  moreover have "st_orig_podsByNode ?t = Some n \<Longrightarrow> nodes_ok n (live ?t)" for n
    using assms(1) nodes_ok_mono [OF _ sub] by (simp add: refs_ok_def)
  moreover have "st_orig_problemResources ?t = Some p \<Longrightarrow> orefs p \<subseteq> live ?t" for p
    using assms(1) sub by (simp add: refs_ok_def) blast
  ultimately show ?thesis
    using assms(1) sub unfolding refs_ok_def dyn_ok_def by auto
qed

lemma refs_ok_select:
  "refs_ok s \<Longrightarrow> r \<in> live s \<Longrightarrow> orefs pods \<subseteq> live s \<Longrightarrow>
   refs_ok (s\<lparr>st_resource := Some r, st_pods := pods\<rparr>)"
  by (auto simp: refs_ok_def dyn_ok_def live_def)

lemma refs_ok_put:
  "refs_ok s \<Longrightarrow> r \<in> live s \<Longrightarrow> refs_ok (s\<lparr>st_resources := oset k r (st_resources s)\<rparr>)"
  using orefs_oset [of k r "st_resources s"] by (auto simp: refs_ok_def dyn_ok_def live_def)

lemma refs_doSelectResource:
  assumes "doSelectResource fuel ns kind name s = Some t" "refs_ok s"
  shows "refs_ok t"
proof -
  obtain k where k: "keyForResource (JObj [(''kind'', kind), (''namespace'', ns), (''name'', name)]) JUndef = Some k"
    using assms(1) by (auto simp: doSelectResource_def bind_Some_iff)
  show ?thesis
  proof (cases "oget (st_resources s) (to_str k)")
    case None
    let ?s1 = "s\<lparr>st_heap := (st_heap s)(st_next s \<mapsto> placeholder ns kind name), st_next := Suc (st_next s)\<rparr>"
    have s1: "refs_ok ?s1"
      by (rule refs_ok_alloc [OF assms(2)]) (simp add: placeholder_def fresh_resource_def)
    have lv: "st_next s \<in> live ?s1" by (simp add: live_def)
    let ?s2 = "?s1\<lparr>st_resources := oset (to_str k) (st_next s) (st_resources ?s1)\<rparr>"
    have "refs_ok ?s2" by (rule refs_ok_put [OF s1 lv])
    moreover have "st_next s \<in> live ?s2" by (simp add: live_def)
    ultimately have "refs_ok (?s2\<lparr>st_resource := Some (st_next s), st_pods := []\<rparr>)"
      by (rule refs_ok_select) simp
    with assms(1) k None show ?thesis by (auto simp: doSelectResource_def Let_def)
  next
    case (Some r)
    from assms(1) k Some obtain x pods where x: "deref s r = Some x"
      and t: "t = s\<lparr>st_resource := Some r, st_pods := pods\<rparr>"
      and pods: "pods = [(to_str name, r)] \<or> pods_loop fuel (st_heap s) [r] [] = Some pods \<or> pods = []"
      by (auto simp: doSelectResource_def bind_Some_iff split: if_splits)
    have "orefs pods \<subseteq> live s"
      using pods deref_live [OF x] pods_loop_live [of fuel "st_heap s" "[r]" "[]" pods]
      by (auto simp: live_def)
    with assms(2) deref_live [OF x] t show ?thesis by (simp add: refs_ok_select)
  qed
qed


lemma dyn_ok_nodes [simp]:
  "dyn_ok (s\<lparr>st_podsByNode := n\<rparr>) = dyn_ok s"
  "live (s\<lparr>st_podsByNode := n\<rparr>) = live s"
  by (simp_all add: dyn_ok_def live_def)

lemma refs_ok_nodes:
  "refs_ok s \<Longrightarrow> nodes_ok n (live s) \<Longrightarrow> refs_ok (s\<lparr>st_podsByNode := n\<rparr>)"
  by (simp add: refs_ok_def)

lemma refs_updateProblemResources:
  "updateProblemResources r s = Some t \<Longrightarrow> refs_ok s \<Longrightarrow> refs_ok t"
  by (meson refs_ok_frame frame_updateProblemResources dyn_updateProblemResources refs_ok_dyn)

lemma refs_registerOwned: "registerOwned n now b r s = Some t \<Longrightarrow> refs_ok s \<Longrightarrow> refs_ok t"
  by (meson refs_ok_frame frame_registerOwned dyn_registerOwned refs_ok_dyn)

lemma refs_updateRelatedResources:
  "updateRelatedResources b r s = Some t \<Longrightarrow> refs_ok s \<Longrightarrow> refs_ok t"
  by (meson refs_ok_owned_same owned_same_updateRelatedResources)

lemma refs_filter_and_complete: "filter_and_complete g r s = Some t \<Longrightarrow> refs_ok s \<Longrightarrow> refs_ok t"
  by (meson refs_ok_owned_same owned_same_filter_and_complete)

lemma refs_copy_owned: "copy_owned old e r s = Some t \<Longrightarrow> refs_ok s \<Longrightarrow> refs_ok t"
  by (meson refs_ok_frame frame_copy_owned dyn_copy_owned refs_ok_dyn)

lemma refs_upd_status: "refs_ok s \<Longrightarrow> refs_ok (upd_res r (\<lambda>x. x\<lparr>r_statusSummary := v\<rparr>) s)"
  by (erule refs_ok_owned_same) (rule owned_same_upd, simp add: same_identity_def)

lemma refs_updateVersionByKind: "updateVersionByKind r s = Some t \<Longrightarrow> refs_ok s \<Longrightarrow> refs_ok t"
  by (auto simp: updateVersionByKind_def bind_Some_iff Let_def)

lemma refs_updateResourceCounts: "updateResourceCounts r s = Some t \<Longrightarrow> refs_ok s \<Longrightarrow> refs_ok t"
  by (auto simp: updateResourceCounts_def bind_Some_iff)

lemma refs_updatePodCount:
  assumes "updatePodCount r s = Some t" "refs_ok s"
  shows "refs_ok t"
proof -
  from assms(1) obtain x where x: "deref s r = Some x"
    by (auto simp: updatePodCount_def bind_Some_iff)
  have "orefs (oset (key_name x) r pods) \<subseteq> live s" if "orefs pods \<subseteq> live s" for pods
    using orefs_oset [of "key_name x" r pods] deref_live [OF x] that by blast
  moreover have "orefs (case oget (st_podsByNode s) n of Some o1 \<Rightarrow> o1 | None \<Rightarrow> []) \<subseteq> live s" for n
    using assms(2) nodes_ok_oget [of "st_podsByNode s" "live s"]
    by (cases "oget (st_podsByNode s) n") (simp_all add: refs_ok_def)
  ultimately have "nodes_ok (oset n (oset (key_name x) r
      (case oget (st_podsByNode s) n of Some o1 \<Rightarrow> o1 | None \<Rightarrow> [])) (st_podsByNode s)) (live s)" for n
    using assms(2) by (simp add: refs_ok_def nodes_ok_oset)
  with x assms show ?thesis
    by (auto simp: updatePodCount_def bind_Some_iff Let_def intro!: refs_ok_nodes split: if_splits)
qed

lemma refs_reselect: "reselect fuel r s = Some t \<Longrightarrow> refs_ok s \<Longrightarrow> refs_ok t"
  by (auto simp: reselect_def bind_Some_iff split: if_splits elim: refs_doSelectResource)

lemmas refs_helpers = refs_updateProblemResources refs_registerOwned refs_updateRelatedResources
  refs_filter_and_complete refs_copy_owned refs_upd_status refs_updateVersionByKind
  refs_updateResourceCounts refs_updatePodCount refs_reselect

lemma refs_upd_same:
  assumes s: "refs_ok s" and f: "\<And>x. r_owned (f x) = r_owned x"
  shows "refs_ok (upd_res r f s)"
proof -
  let ?t = "upd_res r f s"
  have "dyn_ok ?t" using refs_ok_dyn [OF s] by (rule dyn_ok_upd_same) (rule f)
  moreover have "\<forall>q \<ge> st_next ?t. st_heap ?t q = None"
    using s by (auto simp: refs_ok_def upd_res_def)
  ultimately show ?thesis using s unfolding refs_ok_def live_upd_res by (simp add: upd_res_def)
qed

lemma refs_upd_key: "refs_ok s \<Longrightarrow> refs_ok (upd_res r (\<lambda>x. x\<lparr>r_key := k\<rparr>) s)"
  by (rule refs_upd_same) simp_all

lemma refs_count_new: "count_new b r s = Some t \<Longrightarrow> refs_ok s \<Longrightarrow> refs_ok t"
  by (auto simp: count_new_def bind_Some_iff split: if_splits
      dest: refs_updateResourceCounts refs_updatePodCount)

lemma refs_bump_revision [simp]: "refs_ok (bump_revision b s) = refs_ok s"
  by (simp add: bump_revision_def)

text \<open>The chain of states of \<^verbatim>\<open>doUpdateResource\<close> for a kind that is not excluded.\<close>

lemma index_updateE:
  assumes "index_update fuel now old k r isNew kind kk s = Some t"
  obtains g status s3 s4 s5 s6 s8 s9 where
    "registerOwned fuel now False r (upd_res r (\<lambda>x. x\<lparr>r_statusSummary := status\<rparr>) s) = Some s3"
    "updateProblemResources r s3 = Some s4" "updateVersionByKind r s4 = Some s5"
    "count_new isNew r s5 = Some s6"
    "copy_owned old (oget old k) r
       (bump_revision (isNew \<or> \<not> strict_eq kind (JStr ''Endpoints'')) s6) = Some s8"
    "reselect fuel r s8 = Some s9" "filter_and_complete g r s9 = Some t"
  using assms unfolding index_update_def bind_Some_iff by blast

lemma refs_index_update:
  assumes "index_update fuel now old k r isNew kind kk s = Some t" "refs_ok s"
  shows "refs_ok t"
proof -
  from assms(1) obtain g status s3 s4 s5 s6 s8 s9 where st:
    "registerOwned fuel now False r (upd_res r (\<lambda>x. x\<lparr>r_statusSummary := status\<rparr>) s) = Some s3"
    "updateProblemResources r s3 = Some s4" "updateVersionByKind r s4 = Some s5"
    "count_new isNew r s5 = Some s6"
    "copy_owned old (oget old k) r
       (bump_revision (isNew \<or> \<not> strict_eq kind (JStr ''Endpoints'')) s6) = Some s8"
    "reselect fuel r s8 = Some s9" "filter_and_complete g r s9 = Some t"
    by (rule index_updateE)
  have "refs_ok s5"
    using refs_updateVersionByKind [OF st(3)] refs_updateProblemResources [OF st(2)]
      refs_registerOwned [OF st(1)] refs_upd_status [OF assms(2)] by blast
  from refs_count_new [OF st(4) this] have "refs_ok s8"
    using refs_copy_owned [OF st(5)] by simp
  then show ?thesis using refs_filter_and_complete [OF st(7)] refs_reselect [OF st(6)] by blast
qed

text \<open>The cases of \<^verbatim>\<open>doUpdateResource\<close>: ignored, excluded kind, indexed.\<close>

lemma doUpdateResource_cases:
  assumes "doUpdateResource fuel now r isNew kk s0 = Some t"
  obtains (ignored) x0 kv kind where "deref s0 r = Some x0" "keyForResource (r_body x0) JUndef = Some kv"
      "kind_of x0 = Some kind" "t = upd_res r (\<lambda>x. x\<lparr>r_key := Some (to_str kv)\<rparr>) s0"
      "accepts_update t (to_str kv) kind isNew = Some False"
  | (accepted) x0 kv kind s s2 where "deref s0 r = Some x0" "keyForResource (r_body x0) JUndef = Some kv"
      "kind_of x0 = Some kind" "s = upd_res r (\<lambda>x. x\<lparr>r_key := Some (to_str kv)\<rparr>) s0"
      "accepts_update s (to_str kv) kind isNew = Some True"
      "updateRelatedResources False r (s\<lparr>st_resources := oset (to_str kv) r (st_resources s)\<rparr>) = Some s2"
      "if to_str kind \<in> set excludedKinds then t = s2
       else index_update fuel now (st_resources s) (to_str kv) r isNew kind kk s2 = Some t"
proof -
  from assms obtain x0 kv kind acc where x0: "deref s0 r = Some x0"
    "keyForResource (r_body x0) JUndef = Some kv" "kind_of x0 = Some kind"
    "accepts_update (upd_res r (\<lambda>x. x\<lparr>r_key := Some (to_str kv)\<rparr>) s0) (to_str kv) kind isNew = Some acc"
    unfolding doUpdateResource_def Let_def bind_Some_iff by blast
  show thesis
  proof (cases acc)
    case False
    with assms x0 have "t = upd_res r (\<lambda>x. x\<lparr>r_key := Some (to_str kv)\<rparr>) s0"
      by (simp add: doUpdateResource_def Let_def)
    with ignored x0 False show thesis by simp
  next
    case True
    with assms x0 True obtain s2 where s2: "updateRelatedResources False r
        ((upd_res r (\<lambda>x. x\<lparr>r_key := Some (to_str kv)\<rparr>) s0)\<lparr>st_resources := oset (to_str kv) r
          (st_resources (upd_res r (\<lambda>x. x\<lparr>r_key := Some (to_str kv)\<rparr>) s0))\<rparr>) = Some s2"
      by (auto simp: doUpdateResource_def Let_def bind_Some_iff)
    with True assms x0 show thesis
      by (intro accepted [OF x0(1-3) refl _ s2]) (simp_all add: doUpdateResource_def Let_def split: if_splits)
  qed
qed

lemma refs_doUpdateResource:
  assumes "doUpdateResource fuel now r isNew kk s0 = Some t" "refs_ok s0"
  shows "refs_ok t"
  using assms(1)
proof (cases rule: doUpdateResource_cases)
  case (ignored x0 kv kind)
  then show ?thesis using refs_upd_key [OF assms(2)] by simp
next
  case (accepted x0 kv kind s s2)
  have s: "refs_ok s" using accepted(4) refs_upd_key [OF assms(2)] by simp
  have "r \<in> live s" using deref_live [OF accepted(1)] accepted(4) by simp
  then have "refs_ok s2" by (rule refs_updateRelatedResources [OF accepted(6) refs_ok_put [OF s]])
  with accepted(7) refs_index_update show ?thesis by (auto split: if_splits)
qed

lemma refs_drop_pod_of_node:
  assumes "drop_pod_of_node r s = Some t" "refs_ok s"
  shows "refs_ok t"
proof -
  have "orefs (odel k pods) \<subseteq> live s" if "oget (st_podsByNode s) n = Some pods" for k pods n
    using assms(2) nodes_ok_oget [OF _ that] orefs_odel [of k pods] by (auto simp: refs_ok_def)
  then have "nodes_ok (oset n (odel k pods) (st_podsByNode s)) (live s)"
    if "oget (st_podsByNode s) n = Some pods" for k pods n
    using assms(2) that by (simp add: nodes_ok_oset refs_ok_def)
  then show ?thesis
    using assms by (auto simp: drop_pod_of_node_def bind_Some_iff intro!: refs_ok_nodes split: if_splits)
qed

end
