(* ===== verification/ResourcesReach.thy ===== *)
theory ResourcesReach
  imports ResourcesInvariant
begin

text \<open>
  Every action of the resources slice keeps the invariants: the remaining handlers, the
  reducer, and the step relation \<open>resources_step\<close> of a running store, in which the environment
  allocates the objects it has parsed and the store dispatches actions. \<open>reachable\<close> are the
  states that sequences of such steps reach from \<^verbatim>\<open>initialState\<close>.
\<close>

section \<open>References\<close>

lemma refs_ok_orig:
  assumes "refs_ok s"
  shows "refs_ok (s\<lparr>st_orig_podsByNode := orig (st_orig_podsByNode s) (st_podsByNode s)\<rparr>)"
    and "refs_ok (s\<lparr>st_orig_problemResources := orig (st_orig_problemResources s) (st_problemResources s)\<rparr>)"
  using assms by (simp_all add: refs_ok_def dyn_ok_def live_def orig_def split: option.split)

lemma refs_ok_deselect: "refs_ok s \<Longrightarrow> set_option c \<subseteq> set_option (st_resource s) \<Longrightarrow>
    refs_ok (s\<lparr>st_resource := c\<rparr>)"
  by (auto simp: refs_ok_def dyn_ok_def live_def)

definition drop_counts :: "string \<Rightarrow> ref option \<Rightarrow> rstate \<Rightarrow> rstate" where
  "drop_counts kind sel s =
     s\<lparr>st_countsByKind := uncount kind (st_countsByKind s),
       st_orig_countsByKind := orig (st_orig_countsByKind s) (st_countsByKind s),
       st_orig_podsByNode := orig (st_orig_podsByNode s) (st_podsByNode s),
       st_resource := sel,
       st_podCount := st_podCount s - 1,
       st_resourceRevision := st_resourceRevision s + 1\<rparr>"

lemma refs_drop_counts:
  "refs_ok s \<Longrightarrow> set_option sel \<subseteq> set_option (st_resource s) \<Longrightarrow> refs_ok (drop_counts kind sel s)"
  by (auto simp: drop_counts_def refs_ok_def dyn_ok_def live_def orig_def split: option.splits)

text \<open>The cases of \<^verbatim>\<open>doRemoveResource\<close>: an unknown key, and a removal.\<close>

lemma doRemoveResource_cases:
  assumes "doRemoveResource fuel now a s = Some t"
  obtains (unknown) ax where "deref s a = Some ax" "oget (st_resources s) (key_name ax) = None" "t = s"
  | (removed) ax r s2 s3 s4 kind sel where "deref s a = Some ax"
      "oget (st_resources s) (key_name ax) = Some r"
      "registerOwned fuel now True r (upd_res r mark_deleted s) = Some s2"
      "drop_pod_of_node a s2 = Some s3" "updateRelatedResources True a s3 = Some s4"
      "kind_name ax = Some kind" "set_option sel \<subseteq> set_option (st_resource s4)"
      "t = drop_counts kind sel s4"
proof -
  from assms obtain ax where ax: "deref s a = Some ax"
    by (auto simp: doRemoveResource_def bind_Some_iff)
  show thesis
  proof (cases "oget (st_resources s) (key_name ax)")
    case None
    with ax assms have "t = s" by (simp add: doRemoveResource_def)
    with unknown [OF ax None] show thesis .
  next
    case (Some r)
    with assms ax obtain s2 s3 s4 kind sel where st:
      "registerOwned fuel now True r (upd_res r mark_deleted s) = Some s2"
      "drop_pod_of_node a s2 = Some s3" "updateRelatedResources True a s3 = Some s4"
      "kind_name ax = Some kind" "t = drop_counts kind sel s4"
      and sel: "(case st_resource s4 of None \<Rightarrow> Some None
        | Some c \<Rightarrow> do { cx \<leftarrow> deref s4 c; Some (if r_key cx = r_key ax then None else Some c) }) = Some sel"
      by (auto simp: doRemoveResource_def bind_Some_iff Let_def drop_counts_def)
    have "set_option sel \<subseteq> set_option (st_resource s4)"
      using sel by (auto simp: bind_Some_iff split: option.splits if_splits)
    with removed [OF ax Some st(1-4) _ st(5)] show thesis by blast
  qed
qed

lemma refs_doRemoveResource:
  assumes "doRemoveResource fuel now a s = Some t" "refs_ok s"
  shows "refs_ok t"
  using assms(1)
proof (cases rule: doRemoveResource_cases)
  case (unknown ax)
  with assms show ?thesis by simp
next
  case (removed ax r s2 s3 s4 kind sel)
  have "refs_ok (upd_res r mark_deleted s)"
    using assms(2) by (rule refs_upd_same) (simp add: mark_deleted_def)
  then have "refs_ok s4"
    using refs_updateRelatedResources [OF removed(5)] refs_drop_pod_of_node [OF removed(4)]
      refs_registerOwned [OF removed(3)] by blast
  then show ?thesis unfolding removed(8) using removed(7) by (rule refs_drop_counts)
qed

text \<open>The state at the start of the loop of \<^verbatim>\<open>doReceiveResources\<close>.\<close>

definition receive_start :: "int \<Rightarrow> ref obj \<Rightarrow> rstate \<Rightarrow> rstate" where
  "receive_start now rs s = s\<lparr>st_resources := ospread (st_resources s) rs,
                st_podCount := 0,
                st_orig_problemResources := orig (st_orig_problemResources s) (st_problemResources s),
                st_problemResources := [],
                st_lastLoaded := now,
                st_orig_podsByNode := orig (st_orig_podsByNode s) (st_podsByNode s),
                st_podsByNode := [],
                st_orig_countsByKind := orig (st_orig_countsByKind s) (st_countsByKind s),
                st_countsByKind := [],
                st_unresolvedOwnership := Some []\<rparr>"

lemma doReceiveResources_cases:
  assumes "doReceiveResources fuel now rs kk s = Some t"
  obtains s1 where "visitResources (receive_visitor fuel now kk) rs (receive_start now rs s) = Some s1"
    "t = s1\<lparr>st_resources := fold odel (exclude_keys s1 rs) (st_resources s1),
            st_resourceRevision := st_resourceRevision s1 + 1\<rparr>"
  using assms by (auto simp: doReceiveResources_def receive_start_def bind_Some_iff Let_def)

lemma refs_receive_start:
  assumes "refs_ok s" "orefs rs \<subseteq> live s"
  shows "refs_ok (receive_start now rs s)"
  using assms orefs_ospread [of "st_resources s" rs]
  by (auto simp: receive_start_def refs_ok_def dyn_ok_def live_def unresolved_in_def orig_def
      split: option.splits)

text \<open>The cases of the visitor of \<^verbatim>\<open>doReceiveResources\<close>.\<close>

lemma receive_visitor_cases:
  assumes "receive_visitor fuel now kk r s = Some t"
  obtains (excluded) x kind status s2 where "deref s r = Some x" "kind_name x = Some kind"
      "kind \<in> set excludedKinds"
      "registerOwned fuel now False r (upd_res r (\<lambda>x. x\<lparr>r_statusSummary := status\<rparr>) s) = Some s2"
      "updateRelatedResources False r s2 = Some t"
  | (indexed) x kind status g s2 s3 s4 s5 s6 s7 where "deref s r = Some x" "kind_name x = Some kind"
      "kind \<notin> set excludedKinds"
      "registerOwned fuel now False r (upd_res r (\<lambda>x. x\<lparr>r_statusSummary := status\<rparr>) s) = Some s2"
      "updateRelatedResources False r s2 = Some s3" "updateProblemResources r s3 = Some s4"
      "filter_and_complete g r s4 = Some s5" "updateVersionByKind r s5 = Some s6"
      "updatePodCount r s6 = Some s7" "updateResourceCounts r s7 = Some t"
proof -
  from assms obtain x status kind g s2 s3 where st: "deref s r = Some x" "kind_name x = Some kind"
    "registerOwned fuel now False r (upd_res r (\<lambda>x. x\<lparr>r_statusSummary := status\<rparr>) s) = Some s2"
    "updateRelatedResources False r s2 = Some s3"
    and rest: "(if kind \<in> set excludedKinds then Some s3
     else do {
       s4 \<leftarrow> updateProblemResources r s3;
       s5 \<leftarrow> filter_and_complete g r s4;
       s6 \<leftarrow> updateVersionByKind r s5;
       s7 \<leftarrow> updatePodCount r s6;
       updateResourceCounts r s7
     }) = Some t"
    unfolding receive_visitor_def Let_def bind_Some_iff by blast
  show thesis
  proof (cases "kind \<in> set excludedKinds")
    case True
    with rest have "s3 = t" by simp
    with excluded [OF st(1,2) True st(3)] st(4) show thesis by blast
  next
    case False
    with rest obtain s4 s5 s6 s7 where "updateProblemResources r s3 = Some s4"
      "filter_and_complete g r s4 = Some s5" "updateVersionByKind r s5 = Some s6"
      "updatePodCount r s6 = Some s7" "updateResourceCounts r s7 = Some t"
      by (auto simp: bind_Some_iff)
    with indexed [OF st(1,2) False st(3,4)] show thesis by blast
  qed
qed

lemma refs_receive_visitor:
  assumes "receive_visitor fuel now kk r s = Some t" "refs_ok s"
  shows "refs_ok t"
  using assms(1)
proof (cases rule: receive_visitor_cases)
  case (excluded x kind status s2)
  from refs_updateRelatedResources [OF excluded(5)] refs_registerOwned [OF excluded(4)]
    refs_upd_status [OF assms(2)] show ?thesis by blast
next
  case (indexed x kind status g s2 s3 s4 s5 s6 s7)
  have "refs_ok s3"
    using refs_updateRelatedResources [OF indexed(5)] refs_registerOwned [OF indexed(4)]
      refs_upd_status [OF assms(2)] by blast
  with indexed(6-10) show ?thesis by (meson refs_helpers)
qed

lemma orefs_fold_odel: "orefs (fold odel ks m) \<subseteq> orefs m"
proof (induction ks arbitrary: m)
  case (Cons k ks)
  from Cons.IH [of "odel k m"] orefs_odel [of k m] show ?case by simp
qed simp

lemma refs_doReceiveResources:
  assumes "doReceiveResources fuel now rs kk s = Some t" "refs_ok s" "orefs rs \<subseteq> live s"
  shows "refs_ok t"
  using assms(1)
proof (cases rule: doReceiveResources_cases)
  case (1 s1)
  have "refs_ok s1"
    by (rule foldM_inv [where P = refs_ok, OF _ refs_receive_start [OF assms(2,3)]
          1(1) [unfolded visitResources_def]]) (rule refs_receive_visitor)
  moreover have "orefs (fold odel (exclude_keys s1 rs) (st_resources s1)) \<subseteq> orefs (st_resources s1)"
    by (rule orefs_fold_odel)
  ultimately show ?thesis unfolding 1(2) by (auto simp: refs_ok_def dyn_ok_def live_def)
qed

lemma refs_doReceiveNewLocation:
  assumes "doReceiveNewLocation p q s = Some t" "refs_ok s"
  shows "refs_ok t"
proof -
  from assms(1) obtain s1 e where s1: "doSetFiltersByLocation q s = Some s1" "t = s1\<lparr>st_editing := e\<rparr>"
    unfolding doReceiveNewLocation_def bind_Some_iff by blast
  from s1(1) obtain names where "s1 = s \<or> doSetFilterNames names s = Some s1"
    unfolding doSetFiltersByLocation_def bind_Some_iff Let_def by (metis (no_types, lifting) bind_Some_iff option.inject)
  then have "refs_ok s1" using assms(2) refs_doSetFilterNames by blast
  then show ?thesis by (simp add: s1(2))
qed

lemma doReceiveResourceContents_editor:
  "doReceiveResourceContents d b r c e s = Some t \<Longrightarrow> \<exists>ed. t = s\<lparr>st_editor := ed\<rparr>"
  unfolding doReceiveResourceContents_def bind_Some_iff Let_def
  by (split if_split_asm) (unfold bind_Some_iff, blast+)

lemma refs_doReceiveResourceContents:
  "doReceiveResourceContents d b r c e s = Some t \<Longrightarrow> refs_ok s \<Longrightarrow> refs_ok t"
  by (drule doReceiveResourceContents_editor) (erule exE, simp)

lemma refs_doInvalidate: "refs_ok s \<Longrightarrow> refs_ok (fst (doInvalidate s))"
  by (auto simp: doInvalidate_def initialState_def refs_ok_def dyn_ok_def live_def unresolved_in_def
      split: option.splits)


section \<open>The index of the resources map\<close>

definition body_of :: "rstate \<Rightarrow> ref \<Rightarrow> json option" where
  "body_of s r = map_option r_body (st_heap s r)"

text \<open>\<open>r\<close> holds an object whose key is \<open>k\<close>.\<close>

definition keyed :: "rstate \<Rightarrow> string \<Rightarrow> ref \<Rightarrow> bool" where
  "keyed s k r \<longleftrightarrow> map_option to_str (do { b \<leftarrow> body_of s r; keyForResource b JUndef }) = Some k"

definition keys_ok :: "rstate \<Rightarrow> bool" where
  "keys_ok s \<longleftrightarrow> wf_obj (st_resources s) \<and> (\<forall>k r. oget (st_resources s) k = Some r \<longrightarrow> keyed s k r)"

definition same_bodies :: "rstate \<Rightarrow> rstate \<Rightarrow> bool" where
  "same_bodies s t \<longleftrightarrow> st_resources t = st_resources s \<and> body_of t = body_of s"

lemma same_bodies_refl [simp]: "same_bodies s s"
  by (simp add: same_bodies_def)

lemma same_bodies_trans [trans]: "same_bodies s t \<Longrightarrow> same_bodies t u \<Longrightarrow> same_bodies s u"
  by (simp add: same_bodies_def)

lemma same_bodies_frame: "frame s t \<Longrightarrow> same_bodies s t"
proof -
  assume f: "frame s t"
  have "body_of t r = body_of s r" for r
    using frame_heap [OF f] unfolding heap_frame_def body_of_def
    by (cases "st_heap s r"; cases "st_heap t r") (auto simp: same_identity_def dest: spec [of _ r])
  then show ?thesis using frame_fields(8) [OF f] by (simp add: same_bodies_def fun_eq_iff)
qed

lemma same_bodies_upd: "(\<And>x. r_body (f x) = r_body x) \<Longrightarrow> same_bodies s (upd_res r f s)"
  by (auto simp: same_bodies_def body_of_def upd_res_def fun_eq_iff option.map_comp comp_def)

lemma keyed_same: "same_bodies s t \<Longrightarrow> keyed t k r = keyed s k r"
  by (simp add: keyed_def same_bodies_def)

lemma keys_ok_same: "same_bodies s t \<Longrightarrow> keys_ok t = keys_ok s"
  by (simp add: keys_ok_def keyed_same) (simp add: same_bodies_def)

lemma same_bodies_plain [simp]:
  "same_bodies s (s\<lparr>st_podCount := n\<rparr>)" "same_bodies s (s\<lparr>st_resource := c\<rparr>)"
  "same_bodies s (s\<lparr>st_resource := c, st_pods := p\<rparr>)" "same_bodies s (s\<lparr>st_podsByNode := b\<rparr>)"
  "same_bodies s (drop_counts kind c s)" "same_bodies s (bump_revision q s)"
  by (simp_all add: same_bodies_def body_of_def drop_counts_def bump_revision_def fun_eq_iff)

lemma same_bodies_updateVersionByKind: "updateVersionByKind r s = Some t \<Longrightarrow> same_bodies s t"
  by (auto simp: updateVersionByKind_def bind_Some_iff Let_def same_bodies_def body_of_def fun_eq_iff)

lemma same_bodies_updatePodCount: "updatePodCount r s = Some t \<Longrightarrow> same_bodies s t"
  by (auto simp: updatePodCount_def bind_Some_iff Let_def same_bodies_def body_of_def fun_eq_iff split: if_splits)

lemma same_bodies_updateResourceCounts: "updateResourceCounts r s = Some t \<Longrightarrow> same_bodies s t"
  by (auto simp: updateResourceCounts_def bind_Some_iff same_bodies_def body_of_def fun_eq_iff)

lemma same_bodies_count_new: "count_new b r s = Some t \<Longrightarrow> same_bodies s t"
  by (auto simp: count_new_def bind_Some_iff split: if_splits
      intro: same_bodies_trans same_bodies_updateResourceCounts same_bodies_updatePodCount)

lemma same_bodies_drop_pod: "drop_pod_of_node r s = Some t \<Longrightarrow> same_bodies s t"
  by (auto simp: drop_pod_of_node_def bind_Some_iff same_bodies_def body_of_def fun_eq_iff split: if_splits)

lemma keys_ok_put:
  "keys_ok s \<Longrightarrow> keyed s k r \<Longrightarrow> keys_ok (s\<lparr>st_resources := oset k r (st_resources s)\<rparr>)"
  by (auto simp: keys_ok_def keyed_def body_of_def)

lemma keys_ok_upd:
  "(\<And>x. keyForResource (r_body (f x)) JUndef = keyForResource (r_body x) JUndef) \<Longrightarrow>
     keys_ok (upd_res r f s) = keys_ok s"
proof -
  assume f: "\<And>x. keyForResource (r_body (f x)) JUndef = keyForResource (r_body x) JUndef"
  have "keyed (upd_res r f s) k q = keyed s k q" for k q
    using f by (cases "st_heap s q"; cases "q = r") (simp_all add: keyed_def body_of_def upd_res_def)
  then show ?thesis by (simp add: keys_ok_def upd_res_def)
qed

text \<open>The placeholder of a missing resource has the key it is stored under.\<close>

lemma placeholder_key:
  assumes "keyForResource (JObj [(''kind'', kind), (''namespace'', ns), (''name'', name)]) JUndef = Some k"
  shows "map_option to_str (keyForResource (r_body (placeholder ns kind name)) JUndef) = Some (to_str k)"
proof -
  have "truthy name" using assms by (auto simp: keyForResource_def bind_Some_iff split: if_splits)
  with assms show ?thesis
    by (auto simp: keyForResource_def placeholder_def fresh_resource_def js_or_def)
qed

lemma keys_ok_alloc:
  assumes "keys_ok s" "refs_ok s"
  shows "keys_ok (s\<lparr>st_heap := (st_heap s)(st_next s \<mapsto> x), st_next := Suc (st_next s)\<rparr>)"
proof -
  have "st_heap s (st_next s) = None" using assms(2) by (simp add: refs_ok_def)
  then have "\<not> keyed s k (st_next s)" for k by (simp add: keyed_def body_of_def)
  then have "oget (st_resources s) k = Some r \<Longrightarrow> r \<noteq> st_next s" for k r
    using assms(1) unfolding keys_ok_def by blast
  with assms(1) show ?thesis by (auto simp: keys_ok_def keyed_def body_of_def)
qed

lemma keys_doSelectResource:
  assumes "doSelectResource fuel ns kind name s = Some t" "keys_ok s" "refs_ok s"
  shows "keys_ok t"
proof -
  obtain k where k: "keyForResource (JObj [(''kind'', kind), (''namespace'', ns), (''name'', name)]) JUndef = Some k"
    using assms(1) by (auto simp: doSelectResource_def bind_Some_iff)
  show ?thesis
  proof (cases "oget (st_resources s) (to_str k)")
    case None
    let ?s1 = "s\<lparr>st_heap := (st_heap s)(st_next s \<mapsto> placeholder ns kind name), st_next := Suc (st_next s)\<rparr>"
    have "keyed ?s1 (to_str k) (st_next s)"
      using placeholder_key [OF k] by (simp add: keyed_def body_of_def)
    then have "keys_ok (?s1\<lparr>st_resources := oset (to_str k) (st_next s) (st_resources ?s1)\<rparr>)"
      by (rule keys_ok_put [OF keys_ok_alloc [OF assms(2,3)]])
    with assms(1) k None show ?thesis
      by (auto simp: doSelectResource_def Let_def keys_ok_def keyed_def body_of_def)
  next
    case (Some r)
    with assms(1) k obtain c p where "t = s\<lparr>st_resource := c, st_pods := p\<rparr>"
      by (auto simp: doSelectResource_def bind_Some_iff)
    then have "same_bodies s t" by simp
    with assms(2) show ?thesis by (simp add: keys_ok_same)
  qed
qed

lemma keys_index_update:
  assumes "index_update fuel now old k r isNew kind kk s = Some t" "keys_ok s" "refs_ok s"
  shows "keys_ok t"
proof -
  from assms(1) obtain g status s3 s4 s5 s6 s8 s9 where st:
    "registerOwned fuel now False r (upd_res r (\<lambda>x. x\<lparr>r_statusSummary := status\<rparr>) s) = Some s3"
    "updateProblemResources r s3 = Some s4" "updateVersionByKind r s4 = Some s5"
    "count_new isNew r s5 = Some s6"
    "copy_owned old (oget old k) r
       (bump_revision (isNew \<or> \<not> strict_eq kind (JStr ''Endpoints'')) s6) = Some s8"
    "reselect fuel r s8 = Some s9" "filter_and_complete g r s9 = Some t"
    by (rule index_updateE)
  have "refs_ok s5"
    using refs_updateVersionByKind [OF st(3)] refs_updateProblemResources [OF st(2)]
      refs_registerOwned [OF st(1)] refs_upd_status [OF assms(3)] by blast
  from refs_count_new [OF st(4) this] have ok8: "refs_ok s8"
    using refs_copy_owned [OF st(5)] by simp
  have "same_bodies s (upd_res r (\<lambda>x. x\<lparr>r_statusSummary := status\<rparr>) s)"
    by (rule same_bodies_upd) simp
  also note same_bodies_frame [OF frame_registerOwned [OF st(1)]]
  also note same_bodies_frame [OF frame_updateProblemResources [OF st(2)]]
  also note same_bodies_updateVersionByKind [OF st(3)]
  also note same_bodies_count_new [OF st(4)]
  also note same_bodies_plain(6)
  also note same_bodies_frame [OF frame_copy_owned [OF st(5)]]
  finally have "same_bodies s s8" .
  with assms(2) have "keys_ok s8" by (simp add: keys_ok_same)
  then have "keys_ok s9"
    using st(6) ok8 by (auto simp: reselect_def bind_Some_iff split: if_splits elim: keys_doSelectResource)
  with same_bodies_frame [OF frame_filter_and_complete [OF st(7)]] show ?thesis
    by (simp add: keys_ok_same)
qed


lemma keys_doUpdateResource:
  assumes "doUpdateResource fuel now r isNew kk s0 = Some t" "keys_ok s0" "refs_ok s0"
  shows "keys_ok t"
  using assms(1)
proof (cases rule: doUpdateResource_cases)
  case (ignored x0 kv kind)
  have "same_bodies s0 t" unfolding ignored(4) by (rule same_bodies_upd) simp
  with assms(2) show ?thesis by (simp add: keys_ok_same)
next
  case (accepted x0 kv kind s s2)
  have sb: "same_bodies s0 s" unfolding accepted(4) by (rule same_bodies_upd) simp
  have rs: "refs_ok s" using accepted(4) refs_upd_key [OF assms(3)] by simp
  have "r \<in> live s" using deref_live [OF accepted(1)] accepted(4) by simp
  from refs_updateRelatedResources [OF accepted(6) refs_ok_put [OF rs this]] have r2: "refs_ok s2" .
  have "keyed s0 (to_str kv) r"
    using accepted(1,2) by (simp add: keyed_def body_of_def deref_def)
  then have "keyed s (to_str kv) r" using keyed_same [OF sb] by simp
  then have "keys_ok (s\<lparr>st_resources := oset (to_str kv) r (st_resources s)\<rparr>)"
    using assms(2) sb by (intro keys_ok_put) (simp_all add: keys_ok_same)
  with same_bodies_frame [OF frame_updateRelatedResources [OF accepted(6)]] have "keys_ok s2"
    by (simp add: keys_ok_same)
  with accepted(7) r2 show ?thesis by (auto split: if_splits elim: keys_index_update)
qed

lemma keys_doRemoveResource:
  assumes "doRemoveResource fuel now a s = Some t" "keys_ok s"
  shows "keys_ok t"
  using assms(1)
proof (cases rule: doRemoveResource_cases)
  case (unknown ax)
  with assms show ?thesis by simp
next
  case (removed ax r s2 s3 s4 kind sel)
  have "same_bodies s (upd_res r mark_deleted s)"
    by (rule same_bodies_upd) (simp add: mark_deleted_def)
  also note same_bodies_frame [OF frame_registerOwned [OF removed(3)]]
  also note same_bodies_drop_pod [OF removed(4)]
  also note same_bodies_frame [OF frame_updateRelatedResources [OF removed(5)]]
  also have "same_bodies s4 t" unfolding removed(8) by (rule same_bodies_plain)
  finally show ?thesis using assms(2) by (simp add: keys_ok_same)
qed

lemma same_bodies_receive_visitor:
  assumes "receive_visitor fuel now kk r s = Some t"
  shows "same_bodies s t"
  using assms
proof (cases rule: receive_visitor_cases)
  case (excluded x kind status s2)
  have "same_bodies s (upd_res r (\<lambda>x. x\<lparr>r_statusSummary := status\<rparr>) s)"
    by (rule same_bodies_upd) simp
  also note same_bodies_frame [OF frame_registerOwned [OF excluded(4)]]
  also note same_bodies_frame [OF frame_updateRelatedResources [OF excluded(5)]]
  finally show ?thesis .
next
  case (indexed x kind status g s2 s3 s4 s5 s6 s7)
  have "same_bodies s (upd_res r (\<lambda>x. x\<lparr>r_statusSummary := status\<rparr>) s)"
    by (rule same_bodies_upd) simp
  also note same_bodies_frame [OF frame_registerOwned [OF indexed(4)]]
  also note same_bodies_frame [OF frame_updateRelatedResources [OF indexed(5)]]
  also note same_bodies_frame [OF frame_updateProblemResources [OF indexed(6)]]
  also note same_bodies_frame [OF frame_filter_and_complete [OF indexed(7)]]
  also note same_bodies_updateVersionByKind [OF indexed(8)]
  also note same_bodies_updatePodCount [OF indexed(9)]
  also note same_bodies_updateResourceCounts [OF indexed(10)]
  finally show ?thesis .
qed

lemma oget_fold_odel: "oget (fold odel ks m) k = (if k \<in> set ks then None else oget m k)"
  by (induction ks arbitrary: m) auto

lemma wf_fold_odel: "wf_obj m \<Longrightarrow> wf_obj (fold odel ks m)"
  by (induction ks arbitrary: m) auto

definition batch_ok :: "rstate \<Rightarrow> ref obj \<Rightarrow> bool" where
  "batch_ok s rs \<longleftrightarrow> wf_obj rs \<and> list_all (\<lambda>(k, r). keyed s k r) rs"

lemma keyed_live: "keyed s k r \<Longrightarrow> r \<in> live s"
  by (auto simp: keyed_def body_of_def live_def bind_Some_iff)

lemma batch_ok_live:
  assumes "batch_ok s rs"
  shows "orefs rs \<subseteq> live s"
proof
  fix r
  assume "r \<in> orefs rs"
  then obtain k where "(k, r) \<in> set rs" by (auto simp: orefs_def)
  with assms have "keyed s k r" by (auto simp: batch_ok_def list_all_iff)
  then show "r \<in> live s" by (rule keyed_live)
qed

lemma keys_doReceiveResources:
  assumes "doReceiveResources fuel now rs kk s = Some t" "keys_ok s" "batch_ok s rs"
  shows "keys_ok t"
  using assms(1)
proof (cases rule: doReceiveResources_cases)
  case (1 s1)
  have kd: "keyed (receive_start now rs s) = keyed s"
    by (simp add: keyed_def body_of_def receive_start_def fun_eq_iff)
  have "oget rs k = Some r \<Longrightarrow> keyed s k r" for k r
    using assms(3) by (auto simp: batch_ok_def list_all_iff dest: map_of_SomeD)
  then have "keys_ok (receive_start now rs s)"
    using assms(2,3) unfolding keys_ok_def kd
    by (auto simp: receive_start_def batch_ok_def split: option.splits)
  moreover have "same_bodies (receive_start now rs s) s1"
    using 1(1) unfolding visitResources_def
    by (rule foldM_rel) (auto intro: same_bodies_trans same_bodies_receive_visitor)
  ultimately have "keys_ok s1" by (simp add: keys_ok_same)
  then show ?thesis unfolding 1(2)
    by (auto simp: keys_ok_def keyed_def body_of_def oget_fold_odel wf_fold_odel split: if_splits)
qed

section \<open>The reducer\<close>

lemma same_bodies_filterers:
  "doAddFilter f s = Some t \<Longrightarrow> same_bodies s t"
  "doSetFilterNames fs s = Some t \<Longrightarrow> same_bodies s t"
  "doRemoveFilter f i s = Some t \<Longrightarrow> same_bodies s t"
  "doSetGlobalFilters g ks kk s = Some t \<Longrightarrow> same_bodies s t"
proof -
  have eq: "same_bodies s u" if "doFilterAll (s\<lparr>st_filterNames := a, st_filters := b\<rparr>) = Some u" for a b u
    using same_bodies_frame [OF frame_doFilterAll [OF that]] by (simp add: same_bodies_def body_of_def fun_eq_iff)
  then show "doAddFilter f s = Some t \<Longrightarrow> same_bodies s t"
    "doSetFilterNames fs s = Some t \<Longrightarrow> same_bodies s t"
    "doRemoveFilter f i s = Some t \<Longrightarrow> same_bodies s t"
    by (auto simp: doAddFilter_def doSetFilterNames_def doRemoveFilter_def Let_def split: prod.splits if_splits)
  show "doSetGlobalFilters g ks kk s = Some t \<Longrightarrow> same_bodies s t"
    unfolding doSetGlobalFilters_def Let_def
    by (drule frame_visit, erule frame_global_visitor, drule same_bodies_frame)
      (simp add: same_bodies_def body_of_def fun_eq_iff)
qed


lemma keys_resources_reducer:
  assumes "resources_reducer dump fuel now a s = Some t" "keys_ok s" "refs_ok s"
    and "\<And>rs kk. a = ReceiveResources rs kk \<Longrightarrow> batch_ok s rs"
  shows "keys_ok t"
proof (cases a)
  case Invalidate
  with assms(1) show ?thesis by (auto simp: doInvalidate_def initialState_def keys_ok_def)
next
  case (LocationChange p q)
  with assms(1) obtain s1 e where s1: "doSetFiltersByLocation q s = Some s1" "t = s1\<lparr>st_editing := e\<rparr>"
    by (auto simp: doReceiveNewLocation_def bind_Some_iff)
  from s1(1) obtain names where "s1 = s \<or> doSetFilterNames names s = Some s1"
    unfolding doSetFiltersByLocation_def bind_Some_iff Let_def
    by (metis (no_types, lifting) bind_Some_iff option.inject)
  then have "same_bodies s s1" using same_bodies_filterers(2) by auto
  with s1(2) assms(2) keys_ok_same have "keys_ok s1" by blast
  then show ?thesis by (simp add: s1(2) keys_ok_def keyed_def body_of_def)
next
  case (ReceiveResourceContents b r c e)
  with assms(1) obtain ed where "t = s\<lparr>st_editor := ed\<rparr>"
    using doReceiveResourceContents_editor by fastforce
  with assms(2) show ?thesis by (simp add: keys_ok_def keyed_def body_of_def)
next
  case FilterAll
  with assms(1,2) keys_ok_same [OF same_bodies_frame [OF frame_doFilterAll]] show ?thesis by auto
next
  case (SetFilterNames ns)
  with assms(1,2) keys_ok_same [OF same_bodies_filterers(2)] show ?thesis by auto
next
  case (AddFilter f)
  with assms(1,2) keys_ok_same [OF same_bodies_filterers(1)] show ?thesis by auto
next
  case (RemoveFilter f i)
  with assms(1,2) keys_ok_same [OF same_bodies_filterers(3)] show ?thesis by auto
next
  case (PutGlobalFilters g ks kk)
  with assms(1,2) keys_ok_same [OF same_bodies_filterers(4)] show ?thesis by auto
qed (use assms keys_doSelectResource keys_doUpdateResource keys_doRemoveResource
      keys_doReceiveResources in \<open>auto simp: keys_ok_def keyed_def body_of_def\<close>)

lemma refs_resources_reducer:
  assumes "resources_reducer dump fuel now a s = Some t" "refs_ok s"
    and "\<And>rs kk. a = ReceiveResources rs kk \<Longrightarrow> orefs rs \<subseteq> live s"
  shows "refs_ok t"
  using assms
  by (cases a) (auto dest: refs_doInvalidate refs_doReceiveNewLocation refs_doReceiveResources
      refs_doFilterAll refs_doSetFilterNames refs_doUpdateResource refs_doRemoveResource
      refs_doSelectResource refs_doReceiveResourceContents refs_doAddFilter refs_doRemoveFilter
      refs_doSetGlobalFilters)


section \<open>The filters\<close>

definition filter_part :: "rstate \<Rightarrow> filter_state" where
  "filter_part s = (st_filters s, st_filterNames s)"

lemma filter_part_frame: "frame s t \<Longrightarrow> filter_part t = filter_part s"
  by (simp add: filter_part_def frame_fields)

lemma filter_part_upd [simp]: "filter_part (upd_res r f s) = filter_part s"
  by (simp add: filter_part_def upd_res_def)

lemma filter_part_updateVersionByKind: "updateVersionByKind r s = Some t \<Longrightarrow> filter_part t = filter_part s"
  by (auto simp: updateVersionByKind_def bind_Some_iff Let_def filter_part_def)

lemma filter_part_updatePodCount: "updatePodCount r s = Some t \<Longrightarrow> filter_part t = filter_part s"
  by (auto simp: updatePodCount_def bind_Some_iff Let_def filter_part_def split: if_splits)

lemma filter_part_updateResourceCounts: "updateResourceCounts r s = Some t \<Longrightarrow> filter_part t = filter_part s"
  by (auto simp: updateResourceCounts_def bind_Some_iff filter_part_def)

lemma filter_part_count_new: "count_new b r s = Some t \<Longrightarrow> filter_part t = filter_part s"
  unfolding count_new_def
  by (auto simp: bind_Some_iff filter_part_updatePodCount filter_part_updateResourceCounts split: if_splits)

lemma filter_part_drop_pod: "drop_pod_of_node r s = Some t \<Longrightarrow> filter_part t = filter_part s"
  by (auto simp: drop_pod_of_node_def bind_Some_iff filter_part_def split: if_splits)

lemma filter_part_doSelectResource:
  "doSelectResource fuel ns k n s = Some t \<Longrightarrow> filter_part t = filter_part s"
  by (auto simp: doSelectResource_def bind_Some_iff Let_def filter_part_def split: option.splits)

lemma filter_part_reselect: "reselect fuel r s = Some t \<Longrightarrow> filter_part t = filter_part s"
  by (auto simp: reselect_def bind_Some_iff split: if_splits dest: filter_part_doSelectResource)

lemma filter_part_index_update:
  assumes "index_update fuel now old k r isNew kind kk s = Some t"
  shows "filter_part t = filter_part s"
proof -
  from assms obtain g status s3 s4 s5 s6 s8 s9 where st:
    "registerOwned fuel now False r (upd_res r (\<lambda>x. x\<lparr>r_statusSummary := status\<rparr>) s) = Some s3"
    "updateProblemResources r s3 = Some s4" "updateVersionByKind r s4 = Some s5"
    "count_new isNew r s5 = Some s6"
    "copy_owned old (oget old k) r
       (bump_revision (isNew \<or> \<not> strict_eq kind (JStr ''Endpoints'')) s6) = Some s8"
    "reselect fuel r s8 = Some s9" "filter_and_complete g r s9 = Some t"
    by (rule index_updateE)
  have "filter_part (bump_revision b s6) = filter_part s6" for b
    by (simp add: bump_revision_def filter_part_def)
  then show ?thesis
    using filter_part_frame [OF frame_filter_and_complete [OF st(7)]] filter_part_reselect [OF st(6)]
      filter_part_frame [OF frame_copy_owned [OF st(5)]] filter_part_count_new [OF st(4)]
      filter_part_updateVersionByKind [OF st(3)]
      filter_part_frame [OF frame_updateProblemResources [OF st(2)]]
      filter_part_frame [OF frame_registerOwned [OF st(1)]] by simp
qed

lemma filter_part_doUpdateResource:
  assumes "doUpdateResource fuel now r isNew kk s0 = Some t"
  shows "filter_part t = filter_part s0"
  using assms
proof (cases rule: doUpdateResource_cases)
  case (ignored x0 kv kind)
  then show ?thesis by simp
next
  case (accepted x0 kv kind s s2)
  have "filter_part s2 = filter_part s0"
    using filter_part_frame [OF frame_updateRelatedResources [OF accepted(6)]] accepted(4)
    by (simp add: filter_part_def upd_res_def)
  with accepted(7) show ?thesis by (auto split: if_splits dest: filter_part_index_update)
qed

lemma filter_part_doRemoveResource:
  assumes "doRemoveResource fuel now a s = Some t"
  shows "filter_part t = filter_part s"
  using assms
proof (cases rule: doRemoveResource_cases)
  case (removed ax r s2 s3 s4 kind sel)
  have "filter_part t = filter_part s4" by (simp add: removed(8) drop_counts_def filter_part_def)
  then show ?thesis
    using filter_part_frame [OF frame_updateRelatedResources [OF removed(5)]]
      filter_part_drop_pod [OF removed(4)] filter_part_frame [OF frame_registerOwned [OF removed(3)]]
    by simp
qed simp

lemma filter_part_receive_visitor:
  assumes "receive_visitor fuel now kk r s = Some t"
  shows "filter_part t = filter_part s"
  using assms
proof (cases rule: receive_visitor_cases)
  case (excluded x kind status s2)
  then show ?thesis
    using filter_part_frame [OF frame_updateRelatedResources [OF excluded(5)]]
      filter_part_frame [OF frame_registerOwned [OF excluded(4)]] by simp
next
  case (indexed x kind status g s2 s3 s4 s5 s6 s7)
  show ?thesis
    using filter_part_frame [OF frame_updateRelatedResources [OF indexed(5)]]
      filter_part_frame [OF frame_registerOwned [OF indexed(4)]]
      filter_part_frame [OF frame_updateProblemResources [OF indexed(6)]]
      filter_part_frame [OF frame_filter_and_complete [OF indexed(7)]]
      filter_part_updateVersionByKind [OF indexed(8)] filter_part_updatePodCount [OF indexed(9)]
      filter_part_updateResourceCounts [OF indexed(10)] by simp
qed

lemma filter_part_doReceiveResources:
  assumes "doReceiveResources fuel now rs kk s = Some t"
  shows "filter_part t = filter_part s"
  using assms
proof (cases rule: doReceiveResources_cases)
  case (1 s1)
  have "filter_part s1 = filter_part (receive_start now rs s)"
    using 1(1) unfolding visitResources_def
    by (rule foldM_rel) (auto dest: filter_part_receive_visitor)
  with 1(2) show ?thesis by (simp add: filter_part_def receive_start_def)
qed

lemma filter_part_setters:
  "doAddFilter f s = Some t \<Longrightarrow>
     filter_part t = fst (addFilter (st_filters s) (st_filterNames s) [f]) \<or> filter_part t = filter_part s"
  "doSetFilterNames fs s = Some t \<Longrightarrow> filter_part t = fst (addFilter [] [] fs)"
  "doRemoveFilter f i s = Some t \<Longrightarrow>
     filter_part t = removeFilter (st_filters s) (st_filterNames s) f i"
  "doSetGlobalFilters g ks kk s = Some t \<Longrightarrow> filter_part t = filter_part s"
proof -
  have eq: "filter_part u = (b, a)" if "doFilterAll (s\<lparr>st_filterNames := a, st_filters := b\<rparr>) = Some u" for a b u
    using filter_part_frame [OF frame_doFilterAll [OF that]] by (simp add: filter_part_def)
  then show "doAddFilter f s = Some t \<Longrightarrow>
     filter_part t = fst (addFilter (st_filters s) (st_filterNames s) [f]) \<or> filter_part t = filter_part s"
    "doSetFilterNames fs s = Some t \<Longrightarrow> filter_part t = fst (addFilter [] [] fs)"
    "doRemoveFilter f i s = Some t \<Longrightarrow>
     filter_part t = removeFilter (st_filters s) (st_filterNames s) f i"
    by (auto simp: doAddFilter_def doSetFilterNames_def doRemoveFilter_def Let_def split: prod.splits if_splits)
  show "doSetGlobalFilters g ks kk s = Some t \<Longrightarrow> filter_part t = filter_part s"
    unfolding doSetGlobalFilters_def Let_def
    by (drule frame_visit, erule frame_global_visitor, drule filter_part_frame)
      (simp add: filter_part_def)
qed


section \<open>Runs of the store\<close>

text \<open>
  What the code that dispatches guarantees: a batch is a map by key of objects that are alive;
  filter texts have the form \<^verbatim>\<open>field:value\<close> (the filter box and the links build them so);
  a filter is removed by a text that is present, at its index.
\<close>

definition has_colon :: "string \<Rightarrow> bool" where
  "has_colon f \<longleftrightarrow> CHR '':'' \<in> set f"

definition query_ok :: "json \<Rightarrow> bool" where
  "query_ok q \<longleftrightarrow> list_all (\<lambda>v. case v of JStr f \<Rightarrow> has_colon f | _ \<Rightarrow> True)
     (case jget q ''filters'' of Some (JArr fs) \<Rightarrow> fs | Some f \<Rightarrow> [f] | None \<Rightarrow> [])"

fun action_ok :: "rstate \<Rightarrow> raction \<Rightarrow> bool" where
  "action_ok s (ReceiveResources rs kk) = batch_ok s rs"
| "action_ok s (AddFilter f) = has_colon f"
| "action_ok s (SetFilterNames fs) = list_all has_colon fs"
| "action_ok s (LocationChange p q) = query_ok q"
| "action_ok s (RemoveFilter f i) =
     (f \<in> set (st_filterNames s) \<and>
      (case i of None \<Rightarrow> True
       | Some j \<Rightarrow> 0 \<le> j \<and> nat j < length (st_filterNames s) \<and> st_filterNames s ! nat j = f))"
| "action_ok s _ = True"

inductive resources_step :: "(json \<Rightarrow> string) \<Rightarrow> nat \<Rightarrow> rstate \<Rightarrow> rstate \<Rightarrow> bool"
  for dump :: "json \<Rightarrow> string" and fuel :: nat where
  parse: "resources_step dump fuel s
            (s\<lparr>st_heap := (st_heap s)(st_next s \<mapsto> fresh_resource b), st_next := Suc (st_next s)\<rparr>)"
| edit: "(\<And>x. r_owned (f x) = r_owned x) \<Longrightarrow>
     (\<And>x. keyForResource (r_body (f x)) JUndef = keyForResource (r_body x) JUndef) \<Longrightarrow>
     resources_step dump fuel s (upd_res r f s)"
| act: "resources_reducer dump fuel now a s = Some t \<Longrightarrow> action_ok s a \<Longrightarrow> resources_step dump fuel s t"

inductive_cases resources_stepE [consumes 1, case_names parse edit act]: "resources_step dump fuel s t"

definition reachable :: "(json \<Rightarrow> string) \<Rightarrow> nat \<Rightarrow> rstate \<Rightarrow> bool" where
  "reachable dump fuel s \<longleftrightarrow> (resources_step dump fuel)\<^sup>*\<^sup>* (initialState (\<lambda>_. None) 0) s"

lemma step_set_key: "resources_step dump fuel s (upd_res r (\<lambda>x. x\<lparr>r_key := Some k\<rparr>) s)"
  by (rule resources_step.edit) simp_all

lemma reachable_init: "reachable dump fuel (initialState (\<lambda>_. None) 0)"
  by (simp add: reachable_def)

lemma reachable_step: "reachable dump fuel s \<Longrightarrow> resources_step dump fuel s t \<Longrightarrow> reachable dump fuel t"
  unfolding reachable_def by (rule rtranclp.rtrancl_into_rtrancl)

lemma reachable_induct [consumes 1, case_names init step]:
  assumes "reachable dump fuel s" "P (initialState (\<lambda>_. None) 0)"
    and "\<And>s t. reachable dump fuel s \<Longrightarrow> resources_step dump fuel s t \<Longrightarrow> P s \<Longrightarrow> P t"
  shows "P s"
  using assms(1) unfolding reachable_def
  by (induction rule: rtranclp_induct) (auto intro: assms(2,3) simp: reachable_def)

lemma refs_ok_init: "refs_ok (initialState (\<lambda>_. None) 0)"
  by (simp add: initialState_def refs_ok_def dyn_ok_def live_def owned_in_def unresolved_in_def)

lemma reachable_refs_keys:
  assumes "reachable dump fuel s"
  shows "refs_ok s \<and> keys_ok s"
  using assms
proof (induction rule: reachable_induct)
  case init
  show ?case using refs_ok_init by (simp add: keys_ok_def initialState_def)
next
  case (step s t)
  from step(2) show ?case
  proof (cases rule: resources_stepE)
    case (parse b)
    with step.IH show ?thesis
      by (simp add: keys_ok_alloc refs_ok_alloc fresh_resource_def)
  next
    case (edit f r)
    with step.IH show ?thesis
      by (simp add: refs_upd_same keys_ok_upd)
  next
    case (act now a)
    have "orefs rs \<subseteq> live s" if "batch_ok s rs" for rs
      using that by (rule batch_ok_live)
    with act(2) have "a = ReceiveResources rs kk \<Longrightarrow> batch_ok s rs \<and> orefs rs \<subseteq> live s" for rs kk
      by simp
    with step.IH show ?thesis
      using refs_resources_reducer [OF act(1)] keys_resources_reducer [OF act(1)] by blast
  qed
qed

lemma filters_agree_setters:
  assumes "filters_agree (filter_part s)"
  shows "doAddFilter f s = Some t \<Longrightarrow> has_colon f \<Longrightarrow> filters_agree (filter_part t)"
    and "doSetFilterNames fs s = Some t \<Longrightarrow> list_all has_colon fs \<Longrightarrow> filters_agree (filter_part t)"
    and "doRemoveFilter f i s = Some t \<Longrightarrow> action_ok s (RemoveFilter f i) \<Longrightarrow> filters_agree (filter_part t)"
proof -
  show "doAddFilter f s = Some t \<Longrightarrow> has_colon f \<Longrightarrow> filters_agree (filter_part t)"
    using filter_part_setters(1) [of f s t] assms
      addFilter_agree [of "st_filters s" "st_filterNames s" "[f]"]
    by (auto simp: has_colon_def filter_part_def)
  show "doSetFilterNames fs s = Some t \<Longrightarrow> list_all has_colon fs \<Longrightarrow> filters_agree (filter_part t)"
    using filter_part_setters(2) [of fs s t] addFilter_agree [OF filters_agree_empty, of fs]
    by (simp add: has_colon_def [abs_def])
  show "doRemoveFilter f i s = Some t \<Longrightarrow> action_ok s (RemoveFilter f i) \<Longrightarrow> filters_agree (filter_part t)"
    using filter_part_setters(3) [of f i s t] assms
      removeFilter_agree [of "st_filters s" "st_filterNames s" f i]
    by (force simp: filter_part_def split: option.splits)
qed

lemma those_map_as_str: "those (map as_str vs) = Some ns \<Longrightarrow> vs = map JStr ns"
proof (induction vs arbitrary: ns)
  case (Cons v vs)
  then show ?case by (cases v) (auto split: option.splits)
qed simp

lemma query_ok_names:
  assumes "query_ok q" "jget q ''filters'' = Some f"
    "those (map as_str (arr_elems (if \<not> truthy f then JArr [] else if \<not> is_array f then JArr [f] else f))) = Some ns"
  shows "list_all has_colon ns"
  using assms(1,2) those_map_as_str [OF assms(3)]
  by (cases f) (auto simp: query_ok_def list_all_iff split: if_splits)

lemma doSetFiltersByLocation_names:
  assumes "doSetFiltersByLocation q s = Some t" "query_ok q"
  shows "t = s \<or> (\<exists>ns. list_all has_colon ns \<and> doSetFilterNames ns s = Some t)"
proof -
  from assms(1) obtain f where f: "jget q ''filters'' = Some f"
    by (auto simp: doSetFiltersByLocation_def bind_Some_iff)
  let ?names = "if \<not> truthy f then JArr [] else if \<not> is_array f then JArr [f] else f"
  show ?thesis
  proof (cases "arraysEqual ?names (strs (st_filterNames s))")
    case True
    with assms(1) f show ?thesis by (simp add: doSetFiltersByLocation_def)
  next
    case False
    with assms(1) f obtain ns where "those (map as_str (arr_elems ?names)) = Some ns"
      "doSetFilterNames ns s = Some t"
      unfolding doSetFiltersByLocation_def f bind.bind_lunit Let_def by (auto simp: bind_Some_iff)
    with query_ok_names [OF assms(2) f] show ?thesis by blast
  qed
qed

lemma reachable_filters:
  assumes "reachable dump fuel s"
  shows "filters_agree (filter_part s)"
  using assms
proof (induction rule: reachable_induct)
  case init
  show ?case using filters_agree_empty by (simp add: filter_part_def initialState_def)
next
  case (step s t)
  from step(2) show ?case
  proof (cases rule: resources_stepE)
    case (parse b)
    with step.IH show ?thesis by (simp add: filter_part_def)
  next
    case (edit f r)
    with step.IH show ?thesis by simp
  next
    case (act now a)
    show ?thesis
    proof (cases a)
      case Invalidate
      with act filters_agree_empty show ?thesis
        by (auto simp: doInvalidate_def initialState_def filter_part_def)
    next
      case (LocationChange p q)
      with act(1) obtain s1 e where s1: "doSetFiltersByLocation q s = Some s1" "t = s1\<lparr>st_editing := e\<rparr>"
        by (auto simp: doReceiveNewLocation_def bind_Some_iff)
      have "query_ok q" using act(2) LocationChange by simp
      from doSetFiltersByLocation_names [OF s1(1) this]
      have "s1 = s \<or> (\<exists>ns. list_all has_colon ns \<and> doSetFilterNames ns s = Some s1)" .
      then have "filters_agree (filter_part s1)" using filters_agree_setters(2) step.IH by blast
      then show ?thesis by (simp add: s1(2) filter_part_def)
    next
      case (ReceiveResourceContents b r c e)
      with act(1) obtain ed where "t = s\<lparr>st_editor := ed\<rparr>"
        using doReceiveResourceContents_editor by fastforce
      with step.IH show ?thesis by (simp add: filter_part_def)
    next
      case FilterAll
      with act filter_part_frame [OF frame_doFilterAll] step.IH show ?thesis by auto
    next
      case (SetWatches w)
      with act(1) step.IH show ?thesis by (auto simp: filter_part_def)
    next
      case (PutNamespaces ns)
      with act(1) step.IH show ?thesis by (auto simp: filter_part_def)
    qed (use act step.IH filters_agree_setters [OF step.IH] in
        \<open>auto simp: filter_part_doUpdateResource filter_part_doRemoveResource filter_part_setters(4)
           filter_part_doReceiveResources filter_part_doSelectResource\<close>)
  qed
qed

end
