(* ===== verification/Counter.thy ===== *)
theory Counter
  imports Prelude "HOL-Library.Multiset"
begin

text \<open>
  Tables of counters. Several parts of the source keep an object from names to numbers and
  add to it in a loop, \<^verbatim>\<open>counts[k] = (counts[k] || 0) + n\<close>. The locale \<open>counter\<close> is the contract of
  one such addition; inside it the loop is shown to compute the sum of what is added
  under each name, whatever the order.
\<close>

locale counter =
  fixes add :: "string \<Rightarrow> 'n :: comm_ring_1 \<Rightarrow> 'c \<Rightarrow> 'c" and read :: "'c \<Rightarrow> string \<Rightarrow> 'n"
  assumes read_add: "read (add k n c) j = (if j = k then read c j + n else read c j)"
begin

lemma read_fold:
  "read (fold (\<lambda>(k, n). add k n) kns c) j = read c j + sum_list (map snd (filter (\<lambda>p. fst p = j) kns))"
proof (induction kns arbitrary: c)
  case (Cons p kns)
  then show ?case by (cases p) (simp add: read_add)
qed simp

lemma read_fold_one:
  "read (fold (\<lambda>k. add k 1) ks c) j = read c j + of_nat (count_list ks j)"
  by (induction ks arbitrary: c) (auto simp: read_add)

lemma read_fold_perm:
  "mset kns = mset kns' \<Longrightarrow>
   read (fold (\<lambda>(k, n). add k n) kns c) j = read (fold (\<lambda>(k, n). add k n) kns' c) j"
proof -
  assume "mset kns = mset kns'"
  then have "mset (map snd (filter (\<lambda>p. fst p = j) kns)) = mset (map snd (filter (\<lambda>p. fst p = j) kns'))"
    by simp
  then show ?thesis unfolding read_fold by (metis sum_mset_sum_list)
qed

end

end
