(* ===== verification/ResourcesLaws.thy ===== *)
theory ResourcesLaws
  imports ResourcesReach Counter
begin

text \<open>
  What the handlers of the resources slice compute: which objects a filter change shows, the
  counts after a load, the pods behind a selection, the ownership that a load records and
  when recording it does not end.
\<close>

section \<open>Filtering everything\<close>

text \<open>The object after filtering with the state's filters.\<close>

definition refiltered :: "rstate \<Rightarrow> resource \<Rightarrow> resource" where
  "refiltered s x = x\<lparr>r_isFiltered := (r_isDeleted x \<or> \<not> shown_by (st_globalFilters s) x
                                      \<or> \<not> shown_by (st_filters s) x)\<rparr>"

definition plain_filters :: "rstate \<Rightarrow> bool" where
  "plain_filters s \<longleftrightarrow> no_self_filter (st_globalFilters s) \<and> no_self_filter (st_filters s)"

lemma refiltered_idem: "plain_filters s \<Longrightarrow> refiltered s (refiltered s x) = refiltered s x"
  by (simp add: refiltered_def plain_filters_def shown_by_isFiltered)

lemma filter_ref_result:
  assumes "filter_ref r s = Some (t, b)" "plain_filters s"
  shows "t = upd_res r (refiltered s) s"
proof -
  from assms(1) obtain x x' where x: "deref s r = Some x"
    "applyFilters (st_globalFilters s) (st_filters s) x = Some (x', b)" "t = upd_res r (\<lambda>_. x') s"
    by (rule filter_refE)
  from applyFilters_result [OF x(2)] assms(2) have "x' = refiltered s x"
    by (simp add: plain_filters_def refiltered_def)
  with x show ?thesis by (simp add: upd_res_def deref_def fun_eq_iff)
qed

text \<open>The loop over any list of references, which may repeat.\<close>

lemma filter_loop_result:
  assumes "foldM (\<lambda>r t. map_option fst (filter_ref r t)) rs s = Some t" "plain_filters s"
  shows "t = s\<lparr>st_heap := (\<lambda>r. if r \<in> set rs then map_option (refiltered s) (st_heap s r) else st_heap s r)\<rparr>"
  using assms
proof (induction rs arbitrary: s)
  case Nil
  then show ?case by simp
next
  case (Cons r rs)
  from Cons.prems(1) obtain u b where u: "filter_ref r s = Some (u, b)"
    "foldM (\<lambda>r t. map_option fst (filter_ref r t)) rs u = Some t"
    by (auto split: option.splits)
  have ueq: "u = upd_res r (refiltered s) s" by (rule filter_ref_result [OF u(1) Cons.prems(2)])
  then have pf: "plain_filters u" using Cons.prems(2) by (simp add: plain_filters_def upd_res_def)
  have same: "refiltered u = refiltered s" by (simp add: ueq refiltered_def upd_res_def fun_eq_iff)
  have idem: "map_option (refiltered s) (map_option (refiltered s) m) = map_option (refiltered s) m" for m
    using refiltered_idem [OF Cons.prems(2)] by (cases m) auto
  show ?case
    unfolding Cons.IH [OF u(2) pf] same
    by (simp add: ueq upd_res_def fun_eq_iff idem)
qed

lemma doFilterAll_result:
  "doFilterAll s = Some t \<Longrightarrow> plain_filters s \<Longrightarrow>
   t = s\<lparr>st_heap := (\<lambda>r. if r \<in> orefs (st_resources s) then map_option (refiltered s) (st_heap s r)
                          else st_heap s r)\<rparr>"
  unfolding doFilterAll_def visitResources_def
  by (drule filter_loop_result) (simp_all add: orefs_def)

section \<open>Counts\<close>

definition read_count :: "int option obj \<Rightarrow> string \<Rightarrow> int" where
  "read_count c k = (case num_or0 (oget c k) of Some n \<Rightarrow> n | None \<Rightarrow> 0)"

definition bump_by :: "string \<Rightarrow> int \<Rightarrow> int option obj \<Rightarrow> int option obj" where
  "bump_by k n counts = oset k (map_option (\<lambda>m. m + n) (num_or0 (oget counts k))) counts"

lemma bump_by_1: "bump k = bump_by k 1"
  by (simp add: bump_def bump_by_def fun_eq_iff)

interpretation counts: counter bump_by read_count
  by unfold_locales (auto simp: bump_by_def read_count_def num_or0_def split: option.splits)

text \<open>The kind of a reference, constant as long as the bodies are.\<close>

definition ref_kind :: "rstate \<Rightarrow> ref \<Rightarrow> string" where
  "ref_kind s r = (case body_of s r of None \<Rightarrow> [] | Some b \<Rightarrow>
     (case jget b ''kind'' of None \<Rightarrow> [] | Some k \<Rightarrow> to_str k))"

definition ref_namespace :: "rstate \<Rightarrow> ref \<Rightarrow> string" where
  "ref_namespace s r = (case body_of s r of None \<Rightarrow> [] | Some b \<Rightarrow>
     (case jget b ''metadata'' of None \<Rightarrow> [] | Some md \<Rightarrow>
       (case jget md ''namespace'' of None \<Rightarrow> [] | Some ns \<Rightarrow> to_str (js_or ns (JStr ''''))))) "

lemma ref_kind_deref: "deref s r = Some x \<Longrightarrow> kind_name x = Some k \<Longrightarrow> ref_kind s r = k"
  by (auto simp: ref_kind_def body_of_def deref_def kind_name_def kind_of_def rget_def)

lemma ref_kind_same: "same_bodies s t \<Longrightarrow> ref_kind t = ref_kind s"
  by (simp add: ref_kind_def same_bodies_def fun_eq_iff)

lemma ref_namespace_same: "same_bodies s t \<Longrightarrow> ref_namespace t = ref_namespace s"
  by (simp add: ref_namespace_def same_bodies_def fun_eq_iff)

definition counters :: "rstate \<Rightarrow> int option obj \<times> int option obj \<times> int" where
  "counters s = (st_countsByKind s, st_countsByNamespace s, st_podCount s)"

lemma counters_frame: "frame s t \<Longrightarrow> counters t = counters s"
  by (simp add: counters_def frame_fields)

lemma counters_upd [simp]: "counters (upd_res r f s) = counters s"
  by (simp add: counters_def upd_res_def)

lemma counters_version: "updateVersionByKind r s = Some t \<Longrightarrow> counters t = counters s"
  by (auto simp: updateVersionByKind_def bind_Some_iff Let_def counters_def)

definition ref_is_pod :: "rstate \<Rightarrow> ref \<Rightarrow> bool" where
  "ref_is_pod s r \<longleftrightarrow> do { b \<leftarrow> body_of s r; jget b ''kind'' } = Some (JStr ''Pod'')"

lemma ref_is_pod_same: "same_bodies s t \<Longrightarrow> ref_is_pod t = ref_is_pod s"
  by (simp add: ref_is_pod_def same_bodies_def fun_eq_iff)

lemma ref_is_pod_deref: "deref s r = Some x \<Longrightarrow> ref_is_pod s r \<longleftrightarrow> kind_of x = Some (JStr ''Pod'')"
  by (simp add: ref_is_pod_def body_of_def deref_def kind_of_def rget_def)

lemma counters_pod:
  assumes "updatePodCount r s = Some t"
  shows "counters t = (st_countsByKind s, st_countsByNamespace s,
                       st_podCount s + (if ref_is_pod s r then 1 else 0))"
proof -
  from assms obtain x kind where x: "deref s r = Some x" "kind_of x = Some kind"
    by (auto simp: updatePodCount_def bind_Some_iff)
  show ?thesis
  proof (cases "kind = JStr ''Pod''")
    case True
    with x assms obtain n where "t = s\<lparr>st_podCount := st_podCount s + 1, st_podsByNode := n\<rparr>"
      by (auto simp: updatePodCount_def bind_Some_iff Let_def)
    with True x show ?thesis by (simp add: counters_def ref_is_pod_deref)
  next
    case False
    with x assms show ?thesis by (simp add: updatePodCount_def counters_def ref_is_pod_deref)
  qed
qed

lemma counters_kind:
  assumes "updateResourceCounts r s = Some t"
  shows "counters t = (bump_by (ref_kind s r) 1 (st_countsByKind s),
                       bump_by (ref_namespace s r) 1 (st_countsByNamespace s), st_podCount s)"
proof -
  from assms obtain x kind ns where x: "deref s r = Some x" "kind_name x = Some kind"
    "metadata_of x ''namespace'' = Some ns"
    "t = s\<lparr>st_countsByKind := bump kind (st_countsByKind s),
           st_countsByNamespace := bump (to_str (js_or ns (JStr ''''))) (st_countsByNamespace s)\<rparr>"
    by (auto simp: updateResourceCounts_def bind_Some_iff)
  then have "ref_namespace s r = to_str (js_or ns (JStr ''''))"
    by (auto simp: ref_namespace_def body_of_def deref_def metadata_of_def rget_def bind_Some_iff)
  with x ref_kind_deref [OF x(1,2)] show ?thesis by (simp add: counters_def bump_by_1)
qed

definition counted :: "rstate \<Rightarrow> ref \<Rightarrow> bool" where
  "counted s r \<longleftrightarrow> ref_kind s r \<notin> set excludedKinds"

lemma counted_same: "same_bodies s t \<Longrightarrow> counted t = counted s"
  by (simp add: counted_def fun_eq_iff ref_kind_same)

text \<open>One round of the loop of \<^verbatim>\<open>doReceiveResources\<close>.\<close>

lemma counters_receive_visitor:
  assumes "receive_visitor fuel now kk r s = Some t"
  shows "counters t =
    (if counted s r
     then (bump_by (ref_kind s r) 1 (st_countsByKind s),
           bump_by (ref_namespace s r) 1 (st_countsByNamespace s),
           st_podCount s + (if ref_is_pod s r then 1 else 0))
     else counters s)"
  using assms
proof (cases rule: receive_visitor_cases)
  case (excluded x kind status s2)
  then have "\<not> counted s r" using ref_kind_deref by (simp add: counted_def)
  with counters_frame [OF frame_updateRelatedResources [OF excluded(5)]]
    counters_frame [OF frame_registerOwned [OF excluded(4)]] show ?thesis by simp
next
  case (indexed x kind status g s2 s3 s4 s5 s6 s7)
  then have c: "counted s r" using ref_kind_deref by (simp add: counted_def)
  have "counters s6 = counters s"
    using counters_frame [OF frame_updateRelatedResources [OF indexed(5)]]
      counters_frame [OF frame_registerOwned [OF indexed(4)]]
      counters_frame [OF frame_updateProblemResources [OF indexed(6)]]
      counters_frame [OF frame_filter_and_complete [OF indexed(7)]]
      counters_version [OF indexed(8)] by simp
  have "same_bodies s (upd_res r (\<lambda>x. x\<lparr>r_statusSummary := status\<rparr>) s)"
    by (rule same_bodies_upd) simp
  also note same_bodies_frame [OF frame_registerOwned [OF indexed(4)]]
  also note same_bodies_frame [OF frame_updateRelatedResources [OF indexed(5)]]
  also note same_bodies_frame [OF frame_updateProblemResources [OF indexed(6)]]
  also note same_bodies_frame [OF frame_filter_and_complete [OF indexed(7)]]
  also note same_bodies_updateVersionByKind [OF indexed(8)]
  finally have s6: "same_bodies s s6" .
  have s7: "same_bodies s s7" by (rule same_bodies_trans [OF s6 same_bodies_updatePodCount [OF indexed(9)]])
  show ?thesis
    using counters_kind [OF indexed(10)] counters_pod [OF indexed(9)] \<open>counters s6 = counters s\<close> c
      ref_kind_same [OF s7] ref_namespace_same [OF s7] ref_is_pod_same [OF s6]
    by (simp add: counters_def)
qed

lemma counters_loop:
  assumes "foldM (receive_visitor fuel now kk) rs s = Some t"
  shows "counters t =
    (fold (\<lambda>k. bump_by k 1) (map (ref_kind s) (filter (counted s) rs)) (st_countsByKind s),
     fold (\<lambda>k. bump_by k 1) (map (ref_namespace s) (filter (counted s) rs)) (st_countsByNamespace s),
     st_podCount s + int (length (filter (ref_is_pod s) (filter (counted s) rs))))"
  using assms
proof (induction rs arbitrary: s)
  case Nil
  then show ?case by (simp add: counters_def)
next
  case (Cons r rs)
  from Cons.prems obtain u where u: "receive_visitor fuel now kk r s = Some u"
    "foldM (receive_visitor fuel now kk) rs u = Some t" by (auto split: option.splits)
  note same = same_bodies_receive_visitor [OF u(1)]
  show ?case
    using Cons.IH [OF u(2)] counters_receive_visitor [OF u(1)]
    by (auto simp: ref_kind_same [OF same] ref_namespace_same [OF same] ref_is_pod_same [OF same]
        counted_same [OF same] counters_def split: if_splits)
qed

text \<open>The objects of a batch that are counted.\<close>

definition batch_refs :: "rstate \<Rightarrow> ref obj \<Rightarrow> ref list" where
  "batch_refs s rs = filter (counted s) (map snd rs)"

lemma doReceiveResources_counters:
  assumes "doReceiveResources fuel now rs kk s = Some t"
  shows "counters t =
    (fold (\<lambda>k. bump_by k 1) (map (ref_kind s) (batch_refs s rs)) [],
     fold (\<lambda>k. bump_by k 1) (map (ref_namespace s) (batch_refs s rs)) (st_countsByNamespace s),
     int (length (filter (ref_is_pod s) (batch_refs s rs))))"
  using assms
proof (cases rule: doReceiveResources_cases)
  case (1 s1)
  have b: "body_of (receive_start now rs s) = body_of s"
    by (simp add: body_of_def receive_start_def fun_eq_iff)
  then have "ref_kind (receive_start now rs s) = ref_kind s"
    "ref_namespace (receive_start now rs s) = ref_namespace s"
    "ref_is_pod (receive_start now rs s) = ref_is_pod s"
    "counted (receive_start now rs s) = counted s"
    by (simp_all add: ref_kind_def ref_namespace_def ref_is_pod_def counted_def fun_eq_iff)
  with counters_loop [OF 1(1) [unfolded visitResources_def]] 1(2) show ?thesis
    by (simp add: counters_def receive_start_def batch_refs_def)
qed

section \<open>The pods behind a selection\<close>

definition pod_at :: "heap \<Rightarrow> ref \<Rightarrow> bool" where
  "pod_at h r \<longleftrightarrow> (case h r of Some x \<Rightarrow> is_pod x = Some True | None \<Rightarrow> False)"

definition pod_name :: "heap \<Rightarrow> ref \<Rightarrow> string" where
  "pod_name h r = (case h r of Some x \<Rightarrow>
      (case metadata_of x ''name'' of Some n \<Rightarrow> to_str n | None \<Rightarrow> []) | None \<Rightarrow> [])"

text \<open>The owned objects that the loop queues: no pods, and they have an \<^verbatim>\<open>owned\<close> map.\<close>

definition pod_owners :: "heap \<Rightarrow> ref \<Rightarrow> ref list" where
  "pod_owners h r = filter (\<lambda>o1. \<not> pod_at h o1 \<and> owned_of h o1 \<noteq> None) (owned_refs h r)"

definition pod_below :: "heap \<Rightarrow> ref \<Rightarrow> ref \<Rightarrow> bool" where
  "pod_below h r p \<longleftrightarrow> (\<exists>y. (r, y) \<in> (edges (pod_owners h))\<^sup>* \<and> p \<in> set (owned_refs h y) \<and> pod_at h p)"

text \<open>A heap of Kubernetes objects: kind and metadata are there, owned references are alive.\<close>

definition k8s_heap :: "heap \<Rightarrow> bool" where
  "k8s_heap h \<longleftrightarrow> (\<forall>r x. h r = Some x \<longrightarrow> kind_of x \<noteq> None \<and> metadata_of x ''name'' \<noteq> None
     \<and> orefs (owned_or_empty x) \<subseteq> dom h)"

interpretation pod_owners: owner_graph pod_owners acyclic_owned
proof
  fix h :: heap
  assume "acyclic_owned h"
  then have "wf ((edges (owned_refs h))\<inverse>)" by (rule owned.ok_wf)
  moreover have "(edges (pod_owners h))\<inverse> \<subseteq> (edges (owned_refs h))\<inverse>"
    by (auto simp: pod_owners_def)
  ultimately show "wf ((edges (pod_owners h))\<inverse>)" by (rule wf_subset)
qed

lemma owned_refs_live:
  assumes "k8s_heap h"
  shows "set (owned_refs h r) \<subseteq> dom h"
proof (cases "owned_of h r")
  case None
  then show ?thesis by (simp add: owned_refs_def)
next
  case (Some o1)
  then obtain x where x: "h r = Some x" "r_owned x = Some o1"
    by (auto simp: owned_of_def split: option.splits)
  with assms have "orefs (owned_or_empty x) \<subseteq> dom h" unfolding k8s_heap_def by blast
  with x Some show ?thesis by (simp add: owned_refs_def owned_or_empty_def orefs_def)
qed

lemma collect_owned_result:
  assumes "collect_owned h os (pods, q) = Some (pods', q')"
  shows "q' = q @ filter (\<lambda>o1. \<not> pod_at h o1 \<and> owned_of h o1 \<noteq> None) os
    \<and> (\<forall>n p. oget pods' n = Some p \<longrightarrow> oget pods n = Some p \<or> p \<in> set os \<and> pod_at h p \<and> pod_name h p = n)
    \<and> (\<forall>p \<in> set os. pod_at h p \<longrightarrow> ohas (pod_name h p) pods')
    \<and> (\<forall>n. ohas n pods \<longrightarrow> ohas n pods')"
  using assms
proof (induction h os "(pods, q)" arbitrary: pods q rule: collect_owned.induct)
  case (2 h o1 os pods q)
  from "2.prems"(1) obtain x pod where x: "h o1 = Some x" "is_pod x = Some pod"
    by (auto simp: bind_Some_iff)
  show ?case
  proof (cases pod)
    case True
    with x "2.prems"(1) obtain n where n: "metadata_of x ''name'' = Some n"
      "collect_owned h os (oset (to_str n) o1 pods, q) = Some (pods', q')"
      by (auto simp: bind_Some_iff)
    have pa: "pod_at h o1" and nm: "pod_name h o1 = to_str n"
      using x n True by (simp_all add: pod_at_def pod_name_def)
    from "2.hyps"(1) [OF x True n(1) n(2)] pa nm show ?thesis
      by (auto split: if_splits)
  next
    case False
    with x have np: "\<not> pod_at h o1" by (simp add: pod_at_def)
    have oo: "owned_of h o1 = r_owned x" using x by (simp add: owned_of_def)
    from False x "2.prems"(1) have
      "collect_owned h os (pods, if r_owned x \<noteq> None then q @ [o1] else q) = Some (pods', q')" by simp
    from "2.hyps"(2) [OF x False this] np oo show ?thesis by auto
  qed
qed simp

lemma pod_below_step:
  "pod_below h r p \<longleftrightarrow> (p \<in> set (owned_refs h r) \<and> pod_at h p) \<or> (\<exists>y \<in> set (pod_owners h r). pod_below h y p)"
proof
  assume "pod_below h r p"
  then obtain y where "(r, y) \<in> (edges (pod_owners h))\<^sup>*" "p \<in> set (owned_refs h y)" "pod_at h p"
    by (auto simp: pod_below_def)
  then show "(p \<in> set (owned_refs h r) \<and> pod_at h p) \<or> (\<exists>y \<in> set (pod_owners h r). pod_below h y p)"
    by (cases rule: converse_rtranclE) (auto simp: pod_below_def)
next
  assume "(p \<in> set (owned_refs h r) \<and> pod_at h p) \<or> (\<exists>y \<in> set (pod_owners h r). pod_below h y p)"
  then show "pod_below h r p"
    by (auto simp: pod_below_def intro: converse_rtrancl_into_rtrancl)
qed

lemma pods_loop_result:
  assumes "pods_loop n h q pods = Some pods'"
  shows "(\<forall>k p. oget pods' k = Some p \<longrightarrow> oget pods k = Some p \<or> (\<exists>x \<in> set q. pod_below h x p \<and> pod_name h p = k))
    \<and> (\<forall>x \<in> set q. \<forall>p. pod_below h x p \<longrightarrow> ohas (pod_name h p) pods')
    \<and> (\<forall>k. ohas k pods \<longrightarrow> ohas k pods')"
  using assms
proof (induction n h q pods rule: pods_loop.induct)
  case (3 n h ow q pods)
  from "3.prems"(1) obtain p1 q1 where c: "collect_owned h (owned_refs h ow) (pods, q) = Some (p1, q1)"
    "pods_loop n h q1 p1 = Some pods'" by (auto simp: bind_Some_iff)
  have q1: "q1 = q @ pod_owners h ow"
    using collect_owned_result [OF c(1)] by (simp add: pod_owners_def)
  note ih = "3.IH" [OF c(1) refl c(2)] and cr = collect_owned_result [OF c(1)]
  show ?case
  proof (intro conjI allI ballI impI)
    fix k p
    assume "oget pods' k = Some p"
    with ih have "oget p1 k = Some p \<or> (\<exists>x \<in> set q1. pod_below h x p \<and> pod_name h p = k)" by blast
    with cr q1 pod_below_step [of h ow p]
    show "oget pods k = Some p \<or> (\<exists>x \<in> set (ow # q). pod_below h x p \<and> pod_name h p = k)" by auto
  next
    fix x p
    assume "x \<in> set (ow # q)" "pod_below h x p"
    with ih cr q1 pod_below_step [of h ow p] show "ohas (pod_name h p) pods'" by auto
  next
    fix k
    assume "ohas k pods"
    with ih cr show "ohas k pods'" by blast
  qed
qed auto

lemma collect_owned_total:
  assumes "k8s_heap h" "set os \<subseteq> dom h"
  shows "\<exists>pods'. collect_owned h os (pods, q) =
    Some (pods', q @ filter (\<lambda>o1. \<not> pod_at h o1 \<and> owned_of h o1 \<noteq> None) os)"
  using assms(2)
proof (induction os arbitrary: pods q)
  case (Cons o1 os)
  then obtain x where x: "h o1 = Some x" by auto
  with assms(1) obtain kd nm where kn: "kind_of x = Some kd" "metadata_of x ''name'' = Some nm"
    unfolding k8s_heap_def by blast
  show ?case
  proof (cases "kd = JStr ''Pod''")
    case True
    with x kn Cons show ?thesis by (simp add: is_pod_def pod_at_def)
  next
    case False
    with x kn Cons.IH [of pods "if r_owned x \<noteq> None then q @ [o1] else q"] Cons.prems
    show ?thesis by (auto simp: is_pod_def pod_at_def owned_of_def)
  qed
qed simp

lemma pods_loop_walk:
  assumes "k8s_heap h"
  shows "walk n (pod_owners h) q = Some vs \<Longrightarrow> \<exists>pods'. pods_loop n h q pods = Some pods'"
proof (induction n "pod_owners h" q arbitrary: vs pods rule: walk.induct)
  case (3 n x q)
  obtain p1 where "collect_owned h (owned_refs h x) (pods, q) = Some (p1, q @ pod_owners h x)"
    using collect_owned_total [OF assms owned_refs_live [OF assms]] unfolding pod_owners_def by blast
  with 3 show ?case by auto
qed auto

text \<open>The loop ends on acyclic ownership, with the pods below the owner, by name.\<close>

lemma pods_loop_correct:
  assumes "acyclic_owned h" "k8s_heap h"
  shows "\<exists>n0. \<forall>n \<ge> n0. \<exists>pods. pods_loop n h [r] [] = Some pods
    \<and> (\<forall>k p. oget pods k = Some p \<longrightarrow> pod_below h r p \<and> pod_name h p = k)
    \<and> (\<forall>p. pod_below h r p \<longrightarrow> ohas (pod_name h p) pods)"
proof -
  obtain n0 where n0: "\<And>n. n \<ge> n0 \<Longrightarrow> \<exists>vs. walk n (pod_owners h) [r] = Some vs"
    using pod_owners.walk_terminates [OF assms(1)] by blast
  have "\<exists>pods. pods_loop n h [r] [] = Some pods
    \<and> (\<forall>k p. oget pods k = Some p \<longrightarrow> pod_below h r p \<and> pod_name h p = k)
    \<and> (\<forall>p. pod_below h r p \<longrightarrow> ohas (pod_name h p) pods)" if n: "n \<ge> n0" for n
  proof -
    obtain pods where p: "pods_loop n h [r] [] = Some pods"
      using n0 [OF n] pods_loop_walk [OF assms(2)] by blast
    from pods_loop_result [OF p] p show ?thesis by auto
  qed
  then show ?thesis by blast
qed

section \<open>Recording ownership\<close>

text \<open>
  The owners of an object that the resources map holds, through its \<^verbatim>\<open>ownerReferences\<close>. They
  depend on the bodies and the map only.
\<close>

definition owner_refs_of :: "json \<Rightarrow> json list" where
  "owner_refs_of b =
     (case do { md \<leftarrow> jget b ''metadata''; refs \<leftarrow> jget md ''ownerReferences''; iter_of refs } of
        Some xs \<Rightarrow> xs | None \<Rightarrow> [])"

definition body_ns :: "json \<Rightarrow> json" where
  "body_ns b = (case do { md \<leftarrow> jget b ''metadata''; jget md ''namespace'' } of Some v \<Rightarrow> v | None \<Rightarrow> JUndef)"

definition owners_in :: "rstate \<Rightarrow> ref \<Rightarrow> ref list" where
  "owners_in s r = (case body_of s r of None \<Rightarrow> [] | Some b \<Rightarrow>
     List.map_filter (\<lambda>oref. do { ok \<leftarrow> keyForResource oref (body_ns b);
                                  oget (st_resources s) (to_str ok) }) (owner_refs_of b))"

lemma owners_in_iff:
  "deref s r = Some x \<Longrightarrow> ow \<in> set (owners_in s r) \<longleftrightarrow>
   (\<exists>oref \<in> set (owner_refs_of (r_body x)). \<exists>ok. keyForResource oref (body_ns (r_body x)) = Some ok
      \<and> oget (st_resources s) (to_str ok) = Some ow)"
  by (force simp: owners_in_def body_of_def deref_def List.map_filter_def bind_Some_iff)

lemma owners_in_frame:
  assumes "frame s t"
  shows "owners_in t = owners_in s"
proof -
  have "st_resources t = st_resources s" "body_of t = body_of s"
    using same_bodies_frame [OF assms] by (simp_all add: same_bodies_def)
  then show ?thesis by (simp add: owners_in_def fun_eq_iff cong: option.case_cong)
qed

text \<open>Owned entries are never lost while ownership is recorded.\<close>

definition owns_more :: "rstate \<Rightarrow> rstate \<Rightarrow> bool" where
  "owns_more s t \<longleftrightarrow> (\<forall>k r. owns_key (st_heap s) k r \<longrightarrow> owns_key (st_heap t) k r)"

lemma owns_more_refl [simp]: "owns_more s s"
  by (simp add: owns_more_def)

lemma owns_more_trans [trans]: "owns_more s t \<Longrightarrow> owns_more t u \<Longrightarrow> owns_more s u"
  by (simp add: owns_more_def)

lemma owns_key_Some: "h r = Some x \<Longrightarrow> owns_key h k r \<longleftrightarrow> ohas k (owned_or_empty x)"
  by (simp add: owns_key_def owned_of_def owned_or_empty_def split: option.split)

lemma owns_key_None [simp]: "h r = None \<Longrightarrow> \<not> owns_key h k r"
  by (simp add: owns_key_def owned_of_def)

lemma owns_more_heap [simp]: "st_heap t = st_heap s \<Longrightarrow> owns_more s t"
  by (simp add: owns_more_def)

lemma owns_more_add:
  "owns_more s (upd_res ow (\<lambda>x. x\<lparr>r_owned := Some (oset k r (owned_or_empty x))\<rparr>) s)"
  by (auto simp: owns_more_def upd_res_def owns_key_def owned_of_def owned_or_empty_def split: option.splits)

lemma owns_more_status: "owns_more s (upd_res ow (\<lambda>x. x\<lparr>r_statusSummary := v\<rparr>) s)"
  by (auto simp: owns_more_def upd_res_def owns_key_def owned_of_def split: option.splits)

lemma heap_updateProblemResources: "updateProblemResources r s = Some t \<Longrightarrow> st_heap t = st_heap s"
  by (auto simp: updateProblemResources_def bind_Some_iff split: if_splits)

lemma heap_push_unresolved: "push_unresolved k r s = Some t \<Longrightarrow> st_heap t = st_heap s"
  by (auto simp: push_unresolved_def bind_Some_iff Let_def)

lemma owns_attach_owner:
  assumes "attach_owner now k r ow s = Some t"
  shows "owns_more s t \<and> owns_key (st_heap t) k ow"
proof -
  let ?s1 = "upd_res ow (\<lambda>x. x\<lparr>r_owned := Some (oset k r (owned_or_empty x))\<rparr>) s"
  from assms obtain ox status s3 ac where s3: "deref ?s1 ow = Some ox"
    "updateProblemResources ow (upd_res ow (\<lambda>x. x\<lparr>r_statusSummary := status\<rparr>) ?s1) = Some s3"
    "t = s3\<lparr>st_autocomplete := ac\<rparr>"
    by (auto simp: attach_owner_def bind_Some_iff Let_def)
  have "owns_more ?s1 t"
    using owns_more_status [of ?s1 ow status] heap_updateProblemResources [OF s3(2)]
    by (simp add: owns_more_def s3(3))
  moreover have "owns_key (st_heap ?s1) k ow"
    using s3(1) by (auto simp: owns_key_Some deref_def upd_res_def owned_or_empty_def)
  ultimately show ?thesis using owns_more_trans [OF owns_more_add] unfolding owns_more_def by blast
qed

lemma owns_register_ref:
  assumes "register_ref rec now False r k ns oref s = Some t"
    and rec: "\<And>ow s t. rec ow s = Some t \<Longrightarrow> owns_more s t"
  shows "owns_more s t" and "\<And>ok ow. keyForResource oref ns = Some ok \<Longrightarrow>
      oget (st_resources s) (to_str ok) = Some ow \<Longrightarrow> owns_key (st_heap t) k ow"
proof -
  from assms(1) obtain ok where ok: "keyForResource oref ns = Some ok"
    by (auto simp: register_ref_def bind_Some_iff)
  have found: "owns_more s t \<and> owns_key (st_heap t) k ow"
    if ow: "oget (st_resources s) (to_str ok) = Some ow" for ow
  proof -
    from ow ok assms(1) obtain s1 where s1: "attach_owner now k r ow s = Some s1" "rec ow s1 = Some t"
      by (auto simp: register_ref_def bind_Some_iff)
    from owns_attach_owner [OF s1(1)] rec [OF s1(2)] show ?thesis
      unfolding owns_more_def by blast
  qed
  show "owns_more s t"
  proof (cases "oget (st_resources s) (to_str ok)")
    case None
    with ok assms(1) show ?thesis by (auto simp: register_ref_def dest: heap_push_unresolved)
  qed (use found in blast)
  show "keyForResource oref ns = Some ok' \<Longrightarrow> oget (st_resources s) (to_str ok') = Some ow \<Longrightarrow>
      owns_key (st_heap t) k ow" for ok' ow
    using found ok by auto
qed

text \<open>The loop of \<^verbatim>\<open>registerOwned\<close> over the owner references of an object.\<close>

lemma registerOwned_loop:
  assumes "registerOwned (Suc n) now remove r s = Some t" "deref s r = Some x" "owner_refs_of (r_body x) \<noteq> []"
  shows "foldM (register_ref (registerOwned n now False) now remove r (key_name x) (body_ns (r_body x)))
           (owner_refs_of (r_body x)) s = Some t"
proof -
  from assms(1,2) obtain md has where md: "jget (r_body x) ''metadata'' = Some md"
    "jhas ''ownerReferences'' md = Some has" by (auto simp: bind_Some_iff rget_def)
  have has
  proof (rule ccontr)
    assume "\<not> has"
    with md(2) have "jget md ''ownerReferences'' = Some JUndef"
      by (cases md) (auto simp: ohas_def)
    with md(1) assms(3) show False by (simp add: owner_refs_of_def)
  qed
  with assms(1,2) md show ?thesis
    by (auto simp: bind_Some_iff rget_def owner_refs_of_def body_ns_def)
qed

lemma owns_registerOwned: "registerOwned n now False r s = Some t \<Longrightarrow> owns_more s t"
proof (induction n arbitrary: r s t)
  case (Suc n)
  from Suc.prems obtain x where x: "deref s r = Some x" by (auto simp: bind_Some_iff)
  show ?case
  proof (cases "owner_refs_of (r_body x) = []")
    case True
    from Suc.prems x have "t = s"
      using True by (auto simp: bind_Some_iff rget_def owner_refs_of_def split: if_splits)
    then show ?thesis by simp
  next
    case False
    from registerOwned_loop [OF Suc.prems x False] show ?thesis
      by (rule foldM_rel) (auto intro: owns_more_trans owns_register_ref(1) [OF _ Suc.IH])
  qed
qed simp

text \<open>Every owner that the map holds has the object in its \<^verbatim>\<open>owned\<close> map afterwards.\<close>

lemma registerOwned_records:
  assumes "registerOwned n now False r s = Some t" "deref s r = Some x" "ow \<in> set (owners_in s r)"
  shows "owns_key (st_heap t) (key_name x) ow"
proof -
  obtain m where n: "n = Suc m" using assms(1) by (cases n) auto
  let ?ns = "body_ns (r_body x)"
  let ?f = "register_ref (registerOwned m now False) now False r (key_name x) ?ns"
  from assms(2,3) obtain oref ok where oref: "oref \<in> set (owner_refs_of (r_body x))"
    "keyForResource oref ?ns = Some ok" "oget (st_resources s) (to_str ok) = Some ow"
    using owners_in_iff by blast
  then have "owner_refs_of (r_body x) \<noteq> []" by auto
  from registerOwned_loop [OF assms(1)[unfolded n] assms(2) this]
  have fold: "foldM ?f (owner_refs_of (r_body x)) s = Some t" .
  from split_list [OF oref(1)] obtain as bs where xs: "owner_refs_of (r_body x) = as @ oref # bs" by blast
  from fold xs obtain u v where u: "foldM ?f as s = Some u" "?f oref u = Some v" "foldM ?f bs v = Some t"
    by (auto simp: foldM_append bind_Some_iff split: option.splits)
  have "frame s u" using u(1)
    by (rule frame_foldM) (blast intro: frame_register_ref frame_registerOwned)
  with oref have "oget (st_resources u) (to_str ok) = Some ow" by (simp add: frame_fields)
  from owns_register_ref(2) [OF u(2) _ oref(2) this] owns_registerOwned
  have "owns_key (st_heap v) (key_name x) ow" by blast
  moreover have "owns_more v t" using u(3)
    by (rule foldM_rel) (auto intro: owns_more_trans owns_register_ref(1) [OF _ owns_registerOwned])
  ultimately show ?thesis by (simp add: owns_more_def)
qed

text \<open>Objects that own one another: the recursion has no end.\<close>

lemma registerOwned_cycle:
  assumes "\<forall>r \<in> C. \<exists>ow \<in> C. ow \<in> set (owners_in s r)" "r \<in> C"
  shows "registerOwned n now False r s = None"
  using assms
proof (induction n arbitrary: r s)
  case (Suc n)
  show ?case
  proof (rule ccontr)
    assume "registerOwned (Suc n) now False r s \<noteq> None"
    then obtain t where t: "registerOwned (Suc n) now False r s = Some t" by blast
    then obtain x where x: "deref s r = Some x" by (auto simp: bind_Some_iff)
    let ?ns = "body_ns (r_body x)"
    let ?f = "register_ref (registerOwned n now False) now False r (key_name x) ?ns"
    from Suc.prems x obtain ow oref ok where oref: "ow \<in> C" "oref \<in> set (owner_refs_of (r_body x))"
      "keyForResource oref ?ns = Some ok" "oget (st_resources s) (to_str ok) = Some ow"
      using owners_in_iff [OF x] by blast
    then have ne: "owner_refs_of (r_body x) \<noteq> []" by auto
    from split_list [OF oref(2)] obtain as bs where xs: "owner_refs_of (r_body x) = as @ oref # bs" by blast
    from registerOwned_loop [OF t x ne] xs obtain u v where u: "foldM ?f as s = Some u" "?f oref u = Some v"
      by (auto simp: foldM_append bind_Some_iff split: option.splits)
    have fr: "frame s u" using u(1)
      by (rule frame_foldM) (blast intro: frame_register_ref frame_registerOwned)
    with oref have "oget (st_resources u) (to_str ok) = Some ow" by (simp add: frame_fields)
    with u(2) oref(3) obtain w where w: "attach_owner now (key_name x) r ow u = Some w"
      "registerOwned n now False ow w = Some v"
      by (auto simp: register_ref_def bind_Some_iff)
    have "owners_in w = owners_in s"
      using owners_in_frame [OF frame_trans [OF fr frame_attach_owner [OF w(1)]]] .
    with Suc.IH [of w ow] Suc.prems(1) oref(1) w(2) show False by simp
  qed
qed simp

section \<open>Removal\<close>

lemma frame_deleted:
  assumes "frame s t" "deref s r = Some x" "r_isDeleted x" "r_notFound x"
  shows "\<exists>y. deref t r = Some y \<and> r_isDeleted y \<and> r_notFound y"
  using heap_frame_Some [OF frame_heap [OF assms(1)], of r x] assms
  by (auto simp: deref_def same_identity_def)

text \<open>The object that the map holds is marked and stays in the map.\<close>

lemma doRemoveResource_marks:
  assumes "doRemoveResource fuel now a s = Some t" "deref s a = Some ax"
    "oget (st_resources s) (key_name ax) = Some r"
  shows "st_resources t = st_resources s \<and> (\<exists>y. deref t r = Some y \<and> r_isDeleted y \<and> r_notFound y)"
  using assms(1)
proof (cases rule: doRemoveResource_cases)
  case (unknown ax')
  with assms(2,3) show ?thesis by simp
next
  case (removed ax' r' s2 s3 s4 kind sel)
  with assms(2,3) have r: "r' = r" by simp
  have m: "st_resources s4 = st_resources s"
    using frame_fields(8) [OF frame_registerOwned [OF removed(3)]] same_bodies_drop_pod [OF removed(4)]
      frame_fields(8) [OF frame_updateRelatedResources [OF removed(5)]]
    by (simp add: same_bodies_def upd_res_def)
  from removed(3) obtain x0 where "deref s r' = Some x0"
    by (cases fuel; cases "deref s r'") (auto simp: bind_Some_iff deref_def upd_res_def)
  then have "deref (upd_res r' mark_deleted s) r = Some (mark_deleted x0)"
    by (simp add: deref_def upd_res_def r)
  from frame_deleted [OF frame_registerOwned [OF removed(3)] this]
  obtain y2 where "deref s2 r = Some y2" "r_isDeleted y2" "r_notFound y2"
    by (auto simp: mark_deleted_def)
  moreover have "st_heap s3 = st_heap s2"
    using removed(4) by (auto simp: drop_pod_of_node_def bind_Some_iff split: if_splits)
  ultimately obtain y where "deref s4 r = Some y" "r_isDeleted y" "r_notFound y"
    using frame_deleted [OF frame_updateRelatedResources [OF removed(5)]] by (auto simp: deref_def)
  with m show ?thesis by (simp add: removed(8) drop_counts_def deref_def)
qed

text \<open>A modification that arrives for a deleted key does not bring it back.\<close>

lemma update_of_deleted:
  assumes "doUpdateResource fuel now r' False kk s = Some u" "deref s r' = Some x'"
    "keyForResource (r_body x') JUndef = Some kv" "oget (st_resources s) (to_str kv) = Some r"
    "deref s r = Some y" "r_isDeleted y"
  shows "u = upd_res r' (\<lambda>x. x\<lparr>r_key := Some (to_str kv)\<rparr>) s"
proof -
  have no: "accepts_update (upd_res r' (\<lambda>x. x\<lparr>r_key := Some (to_str kv)\<rparr>) s) (to_str kv) kind False = Some False" for kind
    using assms(4,5,6) by (cases "r = r'") (simp_all add: accepts_update_def upd_res_def deref_def)
  show ?thesis using assms(1)
  proof (cases rule: doUpdateResource_cases)
    case (ignored x0 kv' kind)
    with assms(2,3) show ?thesis by simp
  next
    case (accepted x0 kv' kind s1 s2)
    with assms(2,3) no show ?thesis by simp
  qed
qed

section \<open>Problems\<close>

lemma is_problem_summary:
  "is_summary s \<Longrightarrow> is_problem s \<longleftrightarrow> s \<in> {JStr ''error'', JStr ''warning'', JStr ''timed out''}"
proof -
  assume "is_summary s"
  then consider "s = JUndef" | w where "s = JStr w" "w \<in> set summaries"
    by (auto simp: is_summary_def)
  then show ?thesis
  proof cases
    case 1
    then show ?thesis by (simp add: is_problem_def)
  next
    case (2 w)
    have "list_all (\<lambda>w. is_problem (JStr w) = (w \<in> {''error'', ''warning'', ''timed out''})) summaries"
      by code_simp
    with 2 show ?thesis by (auto simp: list_all_iff)
  qed
qed

end
