(* ===== verification/Demo.thy ===== *)
theory Demo
  imports ResourcesLaws
begin

text \<open>
  A concrete scenario, on which the properties of the resources slice are exercised: a
  replica set that owns one pod, and the run of the store that loads them.
\<close>

definition demo_rs :: json where
  "demo_rs = JObj [(''kind'', JStr ''ReplicaSet''),
     (''metadata'', JObj [(''name'', JStr ''rs''), (''namespace'', JStr ''ns''),
                          (''resourceVersion'', JStr ''7'')]),
     (''spec'', JObj [(''replicas'', JNum 1)]), (''status'', JObj [(''readyReplicas'', JNum 0)])]"

definition demo_pod :: json where
  "demo_pod = JObj [(''kind'', JStr ''Pod''),
     (''metadata'', JObj [(''name'', JStr ''p''), (''namespace'', JStr ''ns''),
        (''resourceVersion'', JStr ''8''),
        (''ownerReferences'', JArr [JObj [(''kind'', JStr ''ReplicaSet''), (''name'', JStr ''rs'')]])]),
     (''spec'', JObj [(''nodeName'', JStr ''n1''), (''containers'', JArr [JObj [(''name'', JStr ''c'')]]), (''volumes'', JArr [])]),
     (''status'', JObj [])]"

definition demo_kinds :: json where
  "demo_kinds = JObj [(''Pod'', JObj [(''resourceGroup'', JStr ''workloads'')]),
                      (''ReplicaSet'', JObj [(''resourceGroup'', JStr ''workloads'')])]"

definition demo_batch :: "ref obj" where
  "demo_batch = [(''ReplicaSet/ns/rs'', 0), (''Pod/ns/p'', 1)]"

definition parse_obj :: "json \<Rightarrow> string \<Rightarrow> rstate \<Rightarrow> rstate" where
  "parse_obj b k s = upd_res (st_next s) (\<lambda>x. x\<lparr>r_key := Some k\<rparr>)
     (s\<lparr>st_heap := (st_heap s)(st_next s \<mapsto> fresh_resource b), st_next := Suc (st_next s)\<rparr>)"

definition demo_parsed :: rstate where
  "demo_parsed = parse_obj demo_pod ''Pod/ns/p''
     (parse_obj demo_rs ''ReplicaSet/ns/rs'' (initialState (\<lambda>_. None) 0))"

definition demo_loaded :: rstate where
  "demo_loaded = (case doReceiveResources 5 0 demo_batch demo_kinds demo_parsed of
     Some t \<Rightarrow> t | None \<Rightarrow> demo_parsed)"

lemma some_case: "\<not> Option.is_none m \<Longrightarrow> m = Some (case m of Some t \<Rightarrow> t | None \<Rightarrow> d)"
  by (cases m) auto

lemma demo_run: "doReceiveResources 5 0 demo_batch demo_kinds demo_parsed = Some demo_loaded"
  unfolding demo_loaded_def by (rule some_case) code_simp

lemma demo_batch_ok: "batch_ok demo_parsed demo_batch"
  by code_simp

lemma demo_reach_parsed: "reachable dump 5 demo_parsed"
proof -
  let ?s0 = "initialState (\<lambda>_. None) 0"
  have step: "reachable dump 5 (parse_obj b k s)" if "reachable dump 5 s" for b k s
    unfolding parse_obj_def
    by (rule reachable_step [OF reachable_step [OF that resources_step.parse] step_set_key])
  show ?thesis
    unfolding demo_parsed_def by (intro step reachable_init)
qed

lemma demo_reach_loaded: "reachable dump 5 demo_loaded"
proof (rule reachable_step [OF demo_reach_parsed resources_step.act])
  show "resources_reducer dump 5 0 (ReceiveResources demo_batch demo_kinds) demo_parsed = Some demo_loaded"
    by (simp add: demo_run)
  show "action_ok demo_parsed (ReceiveResources demo_batch demo_kinds)"
    by (simp add: demo_batch_ok)
qed

end
