(* ===== verification/ResourcesClaims.thy ===== *)
theory ResourcesClaims
  imports Demo
begin

text \<open>
  The properties of resources and of the resources slice, each with a run on the scenario of
  Demo or on a small heap.
\<close>

section \<open>Identity and ownership\<close>

lemma key_str_eq:
  assumes "CHR ''/'' \<notin> set kind" "CHR ''/'' \<notin> set name" "\<forall>n. ns = Some n \<longrightarrow> CHR ''/'' \<notin> set n \<and> n \<noteq> ''~''"
    and "CHR ''/'' \<notin> set kind'" "CHR ''/'' \<notin> set name'" "\<forall>n. ns' = Some n \<longrightarrow> CHR ''/'' \<notin> set n \<and> n \<noteq> ''~''"
  shows "key_str kind ns name = key_str kind' ns' name' \<longleftrightarrow> (kind, ns, name) = (kind', ns', name')"
proof
  assume "key_str kind ns name = key_str kind' ns' name'"
  then have "split_on (CHR ''/'') (key_str kind ns name) = split_on (CHR ''/'') (key_str kind' ns' name')"
    by simp
  then show "(kind, ns, name) = (kind', ns', name')"
    using assms split_key_str [of kind name ns] split_key_str [of kind' name' ns']
    by (cases ns; cases ns') auto
qed simp

text \<open>Two Kubernetes objects whose kind, namespace and name hold no slash get the same
  key from keyForResource exactly when they agree in kind, namespace and name; a missing namespace
  counts as its own one.\<close>

theorem keyForResource_identifies:
  assumes "k8s_object kind name ns v" "k8s_object kind' name' ns' w"
    and "CHR ''/'' \<notin> set kind" "CHR ''/'' \<notin> set name" "\<forall>n. ns = Some n \<longrightarrow> CHR ''/'' \<notin> set n \<and> n \<noteq> ''~''"
    and "CHR ''/'' \<notin> set kind'" "CHR ''/'' \<notin> set name'" "\<forall>n. ns' = Some n \<longrightarrow> CHR ''/'' \<notin> set n \<and> n \<noteq> ''~''"
  shows "keyForResource v JUndef = keyForResource w JUndef \<longleftrightarrow> (kind, ns, name) = (kind', ns', name')"
  using key_str_eq [OF assms(3-8)] keyForResource_k8s [OF assms(1)] keyForResource_k8s [OF assms(2)]
  by simp

theorem keyForResource_identifies_witness:
  "keyForResource demo_rs JUndef \<noteq> keyForResource demo_pod JUndef"
proof -
  have "k8s_object ''ReplicaSet'' ''rs'' (Some ''ns'') demo_rs" "k8s_object ''Pod'' ''p'' (Some ''ns'') demo_pod"
    by (simp_all add: k8s_object_def k8s_meta_def demo_rs_def demo_pod_def)
  from keyForResource_identifies [OF this] show ?thesis by simp
qed

text \<open>C8: isResourceOwnedBy, which walks the owned maps without a visited set, returns on every heap
  whose ownership is acyclic, and its answer is whether the owner, or something it owns
  transitively, has the key of the resource in its owned map.\<close>

theorem isResourceOwnedBy_correct:
  assumes "acyclic_owned h"
  shows "\<exists>n0. \<forall>n \<ge> n0. isResourceOwnedBy n h (Some r) (Some ow) = Some (transitively_owns h ow (key_name r))"
proof -
  obtain n0 where n0: "\<And>n. n \<ge> n0 \<Longrightarrow> \<exists>vs. walk n (owned_refs h) [ow] = Some vs"
    using owned.walk_terminates [OF assms] by blast
  have "isResourceOwnedBy n h (Some r) (Some ow) = Some (transitively_owns h ow (key_name r))"
    if "n \<ge> n0" for n
  proof -
    from n0 [OF that] obtain vs where vs: "walk n (owned_refs h) [ow] = Some vs" by blast
    from isResourceOwnedBy_loop_walk [OF vs, of "key_name r"]
      isResourceOwnedBy_loop_sound [of n h "key_name r" "[ow]"]
    show ?thesis by (auto simp: isResourceOwnedBy_def)
  qed
  then show ?thesis by blast
qed

definition demo_heap :: heap where
  "demo_heap = [0 \<mapsto> (fresh_resource demo_rs)\<lparr>r_owned := Some [(''Pod/ns/p'', 1)]\<rparr>,
                1 \<mapsto> (fresh_resource demo_pod)\<lparr>r_key := Some ''Pod/ns/p''\<rparr>]"

lemma demo_edges: "edges (owned_refs demo_heap) = {(0, 1)}"
  by (auto simp: owned_refs_def owned_of_def demo_heap_def fresh_resource_def split: if_splits)

lemma demo_acyclic: "acyclic_owned demo_heap"
proof -
  have "wf ({(0 :: nat, 1 :: nat)}\<inverse>)"
    by (rule wf_subset [of "measure (\<lambda>n. 1 - n)"]) auto
  then have "acyclic {(0 :: nat, 1 :: nat)}"
    by (metis acyclic_converse wf_acyclic)
  then show ?thesis unfolding acyclic_owned_def demo_edges by (simp add: demo_heap_def)
qed

theorem isResourceOwnedBy_correct_witness:
  "\<exists>n0. \<forall>n \<ge> n0. isResourceOwnedBy n demo_heap (demo_heap 1) (Some 0) = Some True"
proof -
  have "owns_key demo_heap ''Pod/ns/p'' 0"
    by (simp add: owns_key_def owned_of_def demo_heap_def ohas_def)
  then have "transitively_owns demo_heap 0 ''Pod/ns/p''"
    unfolding transitively_owns_def by blast
  moreover obtain x where "demo_heap 1 = Some x" "key_name x = ''Pod/ns/p''"
    by (simp add: demo_heap_def key_name_def)
  ultimately show ?thesis using isResourceOwnedBy_correct [OF demo_acyclic, of x 0] by simp
qed

lemma isResourceOwnedBy_loop_False:
  "isResourceOwnedBy_loop n h k q = Some False \<Longrightarrow> \<exists>vs. walk n (owned_refs h) q = Some vs"
  by (induction n h k q rule: isResourceOwnedBy_loop.induct)
    (auto simp: owned_refs_def split: option.splits if_splits)

text \<open>When the owner reaches a resource that owns itself transitively, and nothing on the way owns
  the key that is asked for, isResourceOwnedBy does not return whatever the number of steps.\<close>

theorem isResourceOwnedBy_diverges:
  assumes "(ow, c) \<in> (edges (owned_refs h))\<^sup>*" "(c, c) \<in> (edges (owned_refs h))\<^sup>+"
    and "\<not> transitively_owns h ow (key_name r)"
  shows "isResourceOwnedBy n h (Some r) (Some ow) = None"
proof (cases "isResourceOwnedBy_loop n h (key_name r) [ow]")
  case None
  then show ?thesis by (simp add: isResourceOwnedBy_def)
next
  case (Some b)
  from isResourceOwnedBy_loop_sound [OF Some] assms(3) have "\<not> b" by simp
  with Some isResourceOwnedBy_loop_False [of n h "key_name r" "[ow]"]
  obtain vs where "walk n (owned_refs h) [ow] = Some vs" by auto
  with walk_cycle_None [of c "owned_refs h" "[ow]" n] assms(1,2) show ?thesis by auto
qed

definition demo_cycle :: heap where
  "demo_cycle = [0 \<mapsto> (fresh_resource demo_rs)\<lparr>r_owned := Some [(''ReplicaSet/ns/rs'', 0)]\<rparr>]"

theorem isResourceOwnedBy_diverges_witness:
  "isResourceOwnedBy 100 demo_cycle (Some (fresh_resource demo_pod)) (Some 0) = None"
proof -
  have e: "edges (owned_refs demo_cycle) = {(0, 0)}"
    by (auto simp: owned_refs_def owned_of_def demo_cycle_def split: if_splits)
  have "\<not> owns_key demo_cycle (key_name (fresh_resource demo_pod)) t" for t
    by (simp add: owns_key_def owned_of_def demo_cycle_def key_name_def fresh_resource_def ohas_def)
  then have "\<not> transitively_owns demo_cycle 0 (key_name (fresh_resource demo_pod))"
    unfolding transitively_owns_def by blast
  then show ?thesis by (intro isResourceOwnedBy_diverges [of 0 0]) (auto simp: e)
qed

section \<open>Statuses\<close>

text \<open>The substring test by which updateProblemResources decides is exact on every summary that
  statusForResource can return: the problem resources are those in error, with a warning, or timed
  out.\<close>

theorem problem_summaries:
  assumes "statusForResource now h x = Some s"
  shows "is_problem s \<longleftrightarrow> s \<in> {JStr ''error'', JStr ''warning'', JStr ''timed out''}"
  by (rule is_problem_summary [OF statusForResource_summary [OF assms]])

theorem problem_summaries_witness: "\<not> is_problem (JStr ''scaling up'')"
proof -
  have "statusForResource 0 demo_heap (fresh_resource demo_rs) = Some (JStr ''scaling up'')"
    by code_simp
  from problem_summaries [OF this] show ?thesis by simp
qed

section \<open>Filters\<close>

text \<open>Printing a parsed filter and parsing it again gives the same filter, for every text with a
  colon: a negated value stays negated.\<close>

theorem normalizeFilter_roundtrip:
  assumes "CHR '':'' \<in> set s"
  shows "splitFilter (normalizeFilter (splitFilter s)) = splitFilter s"
  using assms by (rule normalizeFilter_split)

theorem normalizeFilter_roundtrip_witness:
  "splitFilter (normalizeFilter (''!app'', ''a:b'')) = (''!app'', ''a:b'')"
proof -
  have "splitFilter ''app:!a:b'' = (''!app'', ''a:b'')" by code_simp
  with normalizeFilter_roundtrip [of "''app:!a:b''"] show ?thesis by simp
qed

text \<open>applyFilters, when it returns, sets the filtered flag of a resource exactly when it is
  deleted or some field of the global or of the dynamic filters does not match it (negation
  included), returns true exactly when it is filtered globally, and changes nothing else.\<close>

theorem applyFilters_decides:
  assumes "applyFilters g d r = Some (r', b)" "no_self_filter g" "no_self_filter d"
  shows "b = (r_isDeleted r \<or> \<not> shown_by g r)
         \<and> r' = r\<lparr>r_isFiltered := (r_isDeleted r \<or> \<not> shown_by g r \<or> \<not> shown_by d r)\<rparr>"
  using assms by (rule applyFilters_result)

definition demo_global :: filter_map where
  "demo_global = [(''namespace'', [(''ns'', True)])]"

definition demo_dynamic :: filter_map where
  "demo_dynamic = [(''!kind'', [(''Pod'', True)])]"

theorem applyFilters_decides_witness:
  "shown_by demo_global (fresh_resource demo_pod) \<and> \<not> shown_by demo_dynamic (fresh_resource demo_pod)"
proof -
  let ?r = "fresh_resource demo_pod"
  obtain r' where r': "applyFilters demo_global demo_dynamic ?r = Some (r', False)" "r_isFiltered r'"
  proof -
    have "(case applyFilters demo_global demo_dynamic ?r of Some (x, b) \<Rightarrow> \<not> b \<and> r_isFiltered x | None \<Rightarrow> False)"
      by code_simp
    with that show ?thesis by (auto split: option.splits prod.splits)
  qed
  have "r_isDeleted ?r = False" by (simp add: fresh_resource_def)
  moreover have "no_self_filter demo_global" "no_self_filter demo_dynamic" by code_simp+
  ultimately show ?thesis using applyFilters_decides [OF r'(1)] r'(2) by auto
qed

text \<open>Filtering everything gives every object of the resources map the flag that the global
  and dynamic filters of the state ask for, and changes nothing else of any object or of the state.\<close>

theorem doFilterAll_flags:
  assumes "doFilterAll s = Some t" "plain_filters s"
  shows "t = s\<lparr>st_heap := (\<lambda>r. if r \<in> orefs (st_resources s) then map_option (refiltered s) (st_heap s r)
                               else st_heap s r)\<rparr>"
  using assms by (rule doFilterAll_result)

definition demo_filtered :: rstate where
  "demo_filtered = demo_loaded\<lparr>st_filters := demo_dynamic, st_filterNames := [''kind:!Pod'']\<rparr>"

theorem doFilterAll_flags_witness:
  "\<exists>t. doFilterAll demo_filtered = Some t \<and> map_option r_isFiltered (st_heap t 0) = Some False
     \<and> map_option r_isFiltered (st_heap t 1) = Some True"
proof -
  have "\<not> Option.is_none (doFilterAll demo_filtered)" by code_simp
  then obtain t where t: "doFilterAll demo_filtered = Some t" by (cases "doFilterAll demo_filtered") auto
  have pf: "plain_filters demo_filtered" by code_simp
  have in_map: "0 \<in> orefs (st_resources demo_filtered)" "1 \<in> orefs (st_resources demo_filtered)"
    unfolding orefs_def by code_simp+
  have flags: "map_option (\<lambda>x. r_isFiltered (refiltered demo_filtered x)) (st_heap demo_filtered 0) = Some False"
    "map_option (\<lambda>x. r_isFiltered (refiltered demo_filtered x)) (st_heap demo_filtered 1) = Some True"
    by code_simp+
  have comp: "map_option r_isFiltered (map_option (refiltered demo_filtered) m)
      = map_option (\<lambda>x. r_isFiltered (refiltered demo_filtered x)) m" for m
    by (cases m) auto
  show ?thesis
    using t doFilterAll_flags [OF t pf] in_map flags by (intro exI [of _ t]) (simp add: comp)
qed

section \<open>Invariants of every run\<close>



text \<open>C2: In every reachable state the resources map has no duplicate key, and each object is stored
  under the key that keyForResource computes from its body.\<close>

theorem resources_keyed:
  assumes "reachable dump fuel s"
  shows "wf_obj (st_resources s) \<and> (\<forall>k r. oget (st_resources s) k = Some r \<longrightarrow>
    (\<exists>x kv. deref s r = Some x \<and> keyForResource (r_body x) JUndef = Some kv \<and> to_str kv = k))"
  using reachable_refs_keys [OF assms]
  by (auto simp: keys_ok_def keyed_def body_of_def deref_def bind_Some_iff) fastforce

theorem resources_keyed_witness: "wf_obj (st_resources demo_loaded)"
  using resources_keyed [OF demo_reach_loaded] by blast




section \<open>Loading\<close>

text \<open>C5: After a load, each kind counts exactly the received objects of that kind, apart from the
  excluded kinds, and the pod count is the number of received pods.\<close>

theorem received_counts:
  assumes "doReceiveResources fuel now rs kk s = Some t"
  shows "(\<forall>k. read_count (st_countsByKind t) k = int (count_list (map (ref_kind s) (batch_refs s rs)) k))
    \<and> st_podCount t = int (length (filter (ref_is_pod s) (batch_refs s rs)))"
proof -
  have "read_count [] k = 0" for k by (simp add: read_count_def num_or0_def)
  with doReceiveResources_counters [OF assms] counts.read_fold_one [of _ "[]"] show ?thesis
    by (simp add: counters_def)
qed

theorem received_counts_witness:
  "read_count (st_countsByKind demo_loaded) ''Pod'' = 1 \<and> st_podCount demo_loaded = 1"
proof -
  have "map (ref_kind demo_parsed) (batch_refs demo_parsed demo_batch) = [''ReplicaSet'', ''Pod'']"
    "length (filter (ref_is_pod demo_parsed) (batch_refs demo_parsed demo_batch)) = 1"
    by code_simp+
  then show ?thesis using received_counts [OF demo_run] by simp
qed

text \<open>The counts by namespace are not reset by a load: each load adds the received objects to what
  was counted before, so that loading the same objects twice counts them twice.\<close>

theorem namespace_counts_accumulate:
  assumes "doReceiveResources fuel now rs kk s = Some t"
  shows "read_count (st_countsByNamespace t) ns =
    read_count (st_countsByNamespace s) ns + int (count_list (map (ref_namespace s) (batch_refs s rs)) ns)"
  using doReceiveResources_counters [OF assms] by (simp add: counters_def counts.read_fold_one)

theorem namespace_counts_accumulate_witness:
  "\<exists>t. doReceiveResources 5 0 demo_batch demo_kinds demo_loaded = Some t
     \<and> read_count (st_countsByNamespace t) ''ns'' = 4"
proof -
  have "\<not> Option.is_none (doReceiveResources 5 0 demo_batch demo_kinds demo_loaded)" by code_simp
  then obtain t where t: "doReceiveResources 5 0 demo_batch demo_kinds demo_loaded = Some t"
    by (cases "doReceiveResources 5 0 demo_batch demo_kinds demo_loaded") auto
  have "count_list (map (ref_namespace demo_loaded) (batch_refs demo_loaded demo_batch)) ''ns'' = 2"
    "read_count (st_countsByNamespace demo_loaded) ''ns'' = 2"
    by code_simp+
  with t namespace_counts_accumulate [OF t, of "''ns''"] show ?thesis by simp
qed




text \<open>When each resource of a set has an owner in the set, registerOwned never returns for any of
  them, at any depth: cyclic owner references overflow the stack.\<close>

theorem ownership_cycle_overflows:
  assumes "\<forall>r \<in> C. \<exists>ow \<in> C. ow \<in> set (owners_in s r)" "r \<in> C"
  shows "registerOwned n now False r s = None"
  using assms by (rule registerOwned_cycle)

definition demo_self_owned :: rstate where
  "demo_self_owned = (parse_obj (JObj [(''kind'', JStr ''Pod''), (''metadata'',
      JObj [(''name'', JStr ''p''), (''ownerReferences'', JArr [JObj [(''kind'', JStr ''Pod''), (''name'', JStr ''p'')]])])])
      ''Pod/~/p'' (initialState (\<lambda>_. None) 0))\<lparr>st_resources := [(''Pod/~/p'', 0)]\<rparr>"

theorem ownership_cycle_overflows_witness: "registerOwned 1000 0 False 0 demo_self_owned = None"
proof -
  have "owners_in demo_self_owned 0 = [0]" by code_simp
  then show ?thesis by (intro ownership_cycle_overflows [of "{0}"]) auto
qed

section \<open>Selection and removal\<close>

text \<open>C4: On a heap of Kubernetes objects with acyclic ownership the traversal that selects the pods of a
  resource returns, and its result maps exactly the names of the pods below the resource, through
  owners that are no pods, to such pods.\<close>

theorem selected_pods:
  assumes "acyclic_owned h" "k8s_heap h"
  shows "\<exists>n0. \<forall>n \<ge> n0. \<exists>pods. pods_loop n h [r] [] = Some pods
    \<and> (\<forall>k p. oget pods k = Some p \<longrightarrow> pod_below h r p \<and> pod_name h p = k)
    \<and> (\<forall>p. pod_below h r p \<longrightarrow> ohas (pod_name h p) pods)"
  using assms by (rule pods_loop_correct)

theorem selected_pods_witness: "\<exists>n pods. pods_loop n demo_heap [0] [] = Some pods \<and> ohas ''p'' pods"
proof -
  have "k8s_heap demo_heap"
    unfolding k8s_heap_def
    by (auto simp: demo_heap_def demo_rs_def demo_pod_def fresh_resource_def kind_of_def rget_def
        metadata_of_def owned_or_empty_def split: if_splits)
  from selected_pods [OF demo_acyclic this, of 0] obtain n pods where
    pods: "pods_loop n demo_heap [0] [] = Some pods"
    "\<And>p. pod_below demo_heap 0 p \<Longrightarrow> ohas (pod_name demo_heap p) pods" by blast
  have "1 \<in> set (owned_refs demo_heap 0)" "pod_at demo_heap 1" "pod_name demo_heap 1 = ''p''"
    by code_simp+
  then have "pod_below demo_heap 0 1" unfolding pod_below_def by blast
  with pods \<open>pod_name demo_heap 1 = ''p''\<close> show ?thesis by metis
qed

text \<open>C7: A removal keeps the object in the resources map, marked as deleted and not found; a
  modification that arrives later for its key then changes nothing but the key field of the
  arriving object.\<close>

theorem removed_stays_removed:
  assumes "doRemoveResource fuel now a s = Some t" "deref s a = Some ax"
    "oget (st_resources s) (key_name ax) = Some r"
    and "deref t r' = Some x'" "keyForResource (r_body x') JUndef = Some kv" "to_str kv = key_name ax"
    and "doUpdateResource fuel' now' r' False kk t = Some u"
  shows "st_resources t = st_resources s \<and> (\<exists>y. deref t r = Some y \<and> r_isDeleted y \<and> r_notFound y)
    \<and> u = upd_res r' (\<lambda>x. x\<lparr>r_key := Some (key_name ax)\<rparr>) t"
proof -
  note marks = doRemoveResource_marks [OF assms(1-3)]
  then obtain y where "deref t r = Some y" "r_isDeleted y" by blast
  moreover have "oget (st_resources t) (to_str kv) = Some r" using marks assms(3,6) by simp
  ultimately have "u = upd_res r' (\<lambda>x. x\<lparr>r_key := Some (to_str kv)\<rparr>) t"
    by (intro update_of_deleted [OF assms(7,4,5)])
  with marks assms(6) show ?thesis by simp
qed

definition demo_removed :: rstate where
  "demo_removed = (case doRemoveResource 5 0 1 demo_loaded of Some t \<Rightarrow> t | None \<Rightarrow> demo_loaded)"

definition demo_modified :: rstate where
  "demo_modified = (case doUpdateResource 5 0 1 False demo_kinds demo_removed of Some t \<Rightarrow> t | None \<Rightarrow> demo_loaded)"

theorem removed_stays_removed_witness: "st_resources demo_modified = st_resources demo_removed"
proof -
  have r: "doRemoveResource 5 0 1 demo_loaded = Some demo_removed"
    unfolding demo_removed_def by (rule some_case) code_simp
  have m: "doUpdateResource 5 0 1 False demo_kinds demo_removed = Some demo_modified"
    unfolding demo_modified_def by (rule some_case) code_simp
  have "map_option key_name (deref demo_loaded 1) = Some ''Pod/ns/p''" by code_simp
  then obtain ax where ax: "deref demo_loaded 1 = Some ax" "key_name ax = ''Pod/ns/p''" by auto
  have "map_option (\<lambda>x. keyForResource (r_body x) JUndef) (deref demo_removed 1) = Some (Some (JStr ''Pod/ns/p''))"
    by code_simp
  then obtain x' where x': "deref demo_removed 1 = Some x'"
    "keyForResource (r_body x') JUndef = Some (JStr ''Pod/ns/p'')" by auto
  have map1: "oget (st_resources demo_loaded) ''Pod/ns/p'' = Some 1" by code_simp
  have "demo_modified = upd_res 1 (\<lambda>x. x\<lparr>r_key := Some (key_name ax)\<rparr>) demo_removed"
    using removed_stays_removed [OF r ax(1) _ x'(1) x'(2) _ m] map1 ax(2) by simp
  then show ?thesis unfolding upd_res_def by (metis rstate.select_convs(10) rstate.surjective rstate.update_convs(1))
qed

end
