(* ===== verification/Owners.thy ===== *)
theory Owners
  imports ResourcesState
begin

text \<open>
  The remaining functions of \<^verbatim>\<open>src/utils/resource-utils.js\<close>: the owners that the name of a
  resource suggests, the order of statuses, the kinds of a group, and the test for replicas.
\<close>

section \<open>Potential owners by name\<close>

definition stripLastSegment :: "string \<Rightarrow> string" where
  "stripLastSegment name =
     (let parts = split_on (CHR ''-'') name
      in if length parts > 1 then join ''-'' (butlast parts) else [])"

definition kind_rank :: "string \<Rightarrow> nat" where
  "kind_rank key = (let kind = hd (split_on (CHR ''/'') key)
     in if kind = ''Pod'' then 2 else if kind = ''ReplicaSet'' then 1 else 0)"

text \<open>
  \<open>resources\<close> is only asked for its keys. A key with fewer than three segments has no name,
  and \<^verbatim>\<open>undefined.split\<close> throws.
\<close>

function ownersForResource :: "'a obj \<Rightarrow> string \<Rightarrow> string list \<Rightarrow> string list option" where
  "ownersForResource resources key ownerKeys =
     (case split_on (CHR ''/'') key of
        kind # ns # name # _ \<Rightarrow>
          (let nameSuffix = ns @ ''/'' @ stripLastSegment name
           in if kind = ''Pod'' then
                (let ownerKey = ''ReplicationController/'' @ nameSuffix
                 in if ohas ownerKey resources
                    then ownersForResource resources ownerKey (ownerKeys @ [ownerKey])
                    else (let ownerKey = ''ReplicaSet/'' @ nameSuffix
                          in ownersForResource resources ownerKey (ownerKeys @ [ownerKey])))
              else if kind = ''ReplicaSet'' then
                ownersForResource resources (''Deployment/'' @ nameSuffix)
                  (ownerKeys @ [''Deployment/'' @ nameSuffix])
              else Some ownerKeys)
      | _ \<Rightarrow> None)"
  by pat_completeness auto

lemma kind_rank_split:
  "split_on (CHR ''/'') key = k # ws \<Longrightarrow>
   kind_rank key = (if k = ''Pod'' then 2 else if k = ''ReplicaSet'' then 1 else 0)"
  by (simp add: kind_rank_def)

lemma kind_rank_lit:
  "kind_rank (''ReplicationController/'' @ s) = 0" "kind_rank (''ReplicaSet/'' @ s) = 1"
  "kind_rank (''Deployment/'' @ s) = 0"
  using kind_rank_split [of "''ReplicationController/'' @ s" "''ReplicationController''"]
    kind_rank_split [of "''ReplicaSet/'' @ s" "''ReplicaSet''"]
    kind_rank_split [of "''Deployment/'' @ s" "''Deployment''"]
    split_on_append [of "CHR ''/''" "''ReplicationController''" s]
    split_on_append [of "CHR ''/''" "''ReplicaSet''" s] split_on_append [of "CHR ''/''" "''Deployment''" s]
  by simp_all

termination ownersForResource
  by (relation "measure (\<lambda>(r, k, o1). kind_rank k)")
    (simp_all add: kind_rank_split kind_rank_lit [simplified])

declare ownersForResource.simps [simp del]

lemma owners_kind:
  assumes "CHR ''/'' \<notin> set kind" "CHR ''/'' \<notin> set ns" "CHR ''/'' \<notin> set name"
  shows "ownersForResource resources (kind @ ''/'' @ ns @ ''/'' @ name) acc =
    (let nameSuffix = ns @ ''/'' @ stripLastSegment name
     in if kind = ''Pod'' then
          (if ohas (''ReplicationController/'' @ nameSuffix) resources
           then ownersForResource resources (''ReplicationController/'' @ nameSuffix)
                  (acc @ [''ReplicationController/'' @ nameSuffix])
           else ownersForResource resources (''ReplicaSet/'' @ nameSuffix)
                  (acc @ [''ReplicaSet/'' @ nameSuffix]))
        else if kind = ''ReplicaSet'' then
          ownersForResource resources (''Deployment/'' @ nameSuffix) (acc @ [''Deployment/'' @ nameSuffix])
        else Some acc)"
proof -
  have "split_on (CHR ''/'') (kind @ ''/'' @ ns @ ''/'' @ name) = [kind, ns, name]"
    using assms by (simp add: split_on_append)
  then show ?thesis by (subst ownersForResource.simps) (simp add: Let_def)
qed

lemma join_set: "set (join [c] ws) \<subseteq> insert c (\<Union> (set ` set ws))"
  by (induction "[c]" ws rule: join.induct) auto

lemma stripLastSegment_set: "CHR ''/'' \<notin> set name \<Longrightarrow> CHR ''/'' \<notin> set (stripLastSegment name)"
proof -
  assume a: "CHR ''/'' \<notin> set name"
  have "set w \<subseteq> set name" if "w \<in> set (split_on c name)" for w c
    using that by (induction name arbitrary: w) (fastforce split: if_splits list.splits)+
  then have "\<Union> (set ` set (butlast (split_on (CHR ''-'') name))) \<subseteq> set name"
    by (auto dest: in_set_butlastD)
  with a join_set [of "CHR ''-''" "butlast (split_on (CHR ''-'') name)"] show ?thesis
    by (auto simp: stripLastSegment_def Let_def)
qed

text \<open>The three kinds of owner, and a pod: a replication controller, or a replica set and its deployment.\<close>

lemma owners_top:
  assumes "CHR ''/'' \<notin> set ns" "CHR ''/'' \<notin> set name"
  shows "ownersForResource resources (''ReplicationController/'' @ ns @ ''/'' @ name) acc = Some acc"
    and "ownersForResource resources (''Deployment/'' @ ns @ ''/'' @ name) acc = Some acc"
  using owners_kind [of "''ReplicationController''" ns name] owners_kind [of "''Deployment''" ns name] assms
  by simp_all

lemma owners_replicaset:
  assumes "CHR ''/'' \<notin> set ns" "CHR ''/'' \<notin> set name"
  shows "ownersForResource resources (''ReplicaSet/'' @ ns @ ''/'' @ name) acc =
    Some (acc @ [''Deployment/'' @ ns @ ''/'' @ stripLastSegment name])"
  using owners_kind [of "''ReplicaSet''" ns name resources acc] assms
    owners_top(2) [OF assms(1) stripLastSegment_set [OF assms(2)],
      of resources "acc @ [''Deployment/'' @ ns @ ''/'' @ stripLastSegment name]"]
  by simp

lemma ownersForResource_pod:
  assumes "CHR ''/'' \<notin> set ns" "CHR ''/'' \<notin> set name"
    and base: "base = stripLastSegment name"
  shows "ownersForResource resources (''Pod/'' @ ns @ ''/'' @ name) [] =
    Some (if ohas (''ReplicationController/'' @ ns @ ''/'' @ base) resources
          then [''ReplicationController/'' @ ns @ ''/'' @ base]
          else [''ReplicaSet/'' @ ns @ ''/'' @ base, ''Deployment/'' @ ns @ ''/'' @ stripLastSegment base])"
proof -
  let ?rc = "''ReplicationController/'' @ ns @ ''/'' @ base" and ?rs = "''ReplicaSet/'' @ ns @ ''/'' @ base"
  have b: "CHR ''/'' \<notin> set base" unfolding base by (rule stripLastSegment_set [OF assms(2)])
  have "''Pod/'' @ ns @ ''/'' @ name = ''Pod'' @ ''/'' @ ns @ ''/'' @ name" by simp
  moreover have "CHR ''/'' \<notin> set ''Pod''" by simp
  ultimately have "ownersForResource resources (''Pod/'' @ ns @ ''/'' @ name) [] =
      (if ohas ?rc resources then ownersForResource resources ?rc [?rc]
       else ownersForResource resources ?rs [?rs])"
    using owners_kind [of "''Pod''" ns name resources "[]"] assms(1,2)
    unfolding Let_def base by (simp only: append_Nil simp_thms if_True)
  also have "ownersForResource resources ?rc [?rc] = Some [?rc]"
    using owners_top(1) [OF assms(1) b] .
  also have "ownersForResource resources ?rs [?rs] = Some [?rs, ''Deployment/'' @ ns @ ''/'' @ stripLastSegment base]"
    using owners_replicaset [OF assms(1) b, of resources "[?rs]"] by (simp only: append_Cons append_Nil)
  finally show ?thesis by (simp split: if_split)
qed

section \<open>Replicas, order of statuses, groups\<close>

text \<open>\<open>selectedIds\<close> is the list of the keys of the selection.\<close>

fun anySelectedWithReplicas :: "heap \<Rightarrow> ref obj \<Rightarrow> string list \<Rightarrow> bool option" where
  "anySelectedWithReplicas h resources [] = Some False"
| "anySelectedWithReplicas h resources (i # is) = do {
     r \<leftarrow> oget resources i; x \<leftarrow> h r;
     has \<leftarrow> jhas ''spec'' (r_body x);
     found \<leftarrow> (if has then do {
                 sp \<leftarrow> rget x ''spec'';
                 a \<leftarrow> jget sp ''replicas'';
                 b \<leftarrow> jget sp ''readyReplicas'';
                 Some (truthy a \<or> truthy b)
               } else Some False);
     if found then Some True else anySelectedWithReplicas h resources is
   }"

definition statuses :: "int obj" where
  "statuses = [(''ok'', 1), (''none'', 2), ('''', 3), (''scaling up'', 4), (''scaling down'', 5),
               (''disabled'', 6), (''warning'', 7), (''error'', 8), (''timed out'', 9)]"

text \<open>\<^term>\<open>None\<close> is \<^verbatim>\<open>NaN\<close>, the difference with a status that the table lacks.\<close>

definition compareStatuses :: "json \<Rightarrow> json \<Rightarrow> int option" where
  "compareStatuses s1 s2 =
     (case (oget statuses (to_str s1), oget statuses (to_str s2)) of
        (Some a, Some b) \<Rightarrow> Some (a - b) | _ \<Rightarrow> None)"

fun kindsByResourceGroup :: "json obj \<Rightarrow> json \<Rightarrow> json obj option" where
  "kindsByResourceGroup [] group1 = Some []"
| "kindsByResourceGroup ((k, kind) # ks) group1 = do {
     g \<leftarrow> jget kind ''resourceGroup'';
     rest \<leftarrow> kindsByResourceGroup ks group1;
     Some (if strict_eq g group1 then (k, kind) # rest else rest)
   }"

text \<open>On the summaries in the table the comparison is a total order by severity.\<close>

definition severity :: "string \<Rightarrow> int" where
  "severity s = (case oget statuses s of Some n \<Rightarrow> n | None \<Rightarrow> 0)"

definition status_cmp :: "string \<Rightarrow> string \<Rightarrow> int" where
  "status_cmp a b = severity a - severity b"

interpretation status_order: comparator status_cmp
  by unfold_locales (auto simp: status_cmp_def)

lemma compareStatuses_severity:
  "ohas a statuses \<Longrightarrow> ohas b statuses \<Longrightarrow> compareStatuses (JStr a) (JStr b) = Some (status_cmp a b)"
  by (auto simp: ohas_def compareStatuses_def status_cmp_def severity_def)

lemma compareStatuses_complete: "compareStatuses (JStr ''complete'') s = None"
  by (simp add: compareStatuses_def statuses_def)

end
