(* ===== verification/SessionSlice.thy ===== *)
theory SessionSlice
  imports Prelude
begin

text \<open>
  The contract of a slice of the store that forgets everything when the session is
  invalidated, and what follows for the runs of its reducer.
\<close>

locale session_slice =
  fixes reduce :: "'a \<Rightarrow> 's \<Rightarrow> 's option" and init :: 's and invalidate :: 'a
  assumes reset: "reduce invalidate s = Some init"
begin

text \<open>Nothing that was dispatched before the invalidation can be observed after it.\<close>

lemma isolation:
  assumes "foldM reduce before s = Some t"
  shows "foldM reduce (before @ invalidate # after) s = foldM reduce after init"
  using assms by (simp add: foldM_append reset)

lemma isolation_two:
  assumes "foldM reduce b1 s1 = Some t1" "foldM reduce b2 s2 = Some t2"
  shows "foldM reduce (b1 @ invalidate # after) s1 = foldM reduce (b2 @ invalidate # after) s2"
  using isolation [OF assms(1)] isolation [OF assms(2)] by simp

end

text \<open>A slice whose reducer never throws: the histories need no further assumption.\<close>

locale total_slice = session_slice +
  assumes total: "reduce a s \<noteq> None"
begin

lemma run_total: "\<exists>t. foldM reduce as s = Some t"
proof (induction as arbitrary: s)
  case (Cons a as)
  from total [of a s] obtain t where "reduce a s = Some t" by blast
  with Cons show ?case by simp
qed simp

lemma forgets: "foldM reduce (b1 @ invalidate # after) s1 = foldM reduce (b2 @ invalidate # after) s2"
  using run_total [of b1 s1] run_total [of b2 s2] isolation_two by blast

end

end
