(* ===== verification/Events.thy ===== *)
theory Events
  imports Owners SessionSlice
begin

text \<open>
  The events slice: \<^verbatim>\<open>src/state/reducers/events.js\<close>, its actions, and
  \<^verbatim>\<open>eventsForResource\<close> of \<^verbatim>\<open>src/utils/resource-utils.js\<close>. An event is kept under the key of
  the object it involves, under the nearest known owner that the name of that object suggests,
  or among the detached events; the twenty most recent are listed apart. The reducer asks the
  resources only for their keys; the selection walks the \<^verbatim>\<open>owned\<close> maps of the heap.
\<close>

section \<open>One event\<close>

record event =
  ev_object :: json
  ev_type :: json
  ev_key :: json

definition lower_char :: "char \<Rightarrow> char" where
  "lower_char c =
     (if 65 \<le> (of_char c :: nat) \<and> (of_char c :: nat) \<le> 90 then char_of ((of_char c :: nat) + 32) else c)"

definition to_lower :: "string \<Rightarrow> string" where
  "to_lower s = map lower_char s"

definition guessEventType :: "json \<Rightarrow> json option" where
  "guessEventType obj1 = do {
     m \<leftarrow> jget obj1 ''message'';
     ty \<leftarrow> jget obj1 ''type'';
     (case m of
        JStr s \<Rightarrow>
          (let msg = to_lower s
           in Some (JStr
             (if str_includes msg ''created'' \<or> str_includes msg ''added'' then ''ADDED''
              else if str_includes msg ''deleted'' \<or> str_includes msg ''removed'' \<or> str_includes msg ''kill''
              then ''DELETED''
              else if \<not> strict_eq ty (JStr ''Normal'') then ''ERROR''
              else ''MODIFIED'')))
      | _ \<Rightarrow> None)
   }"

text \<open>
  An event comes as a Kubernetes object (it has metadata) or in the envelope of a watch.
\<close>

definition open_event :: "json \<Rightarrow> event option" where
  "open_event e = do {
     plain \<leftarrow> jhas ''metadata'' e;
     obj1 \<leftarrow> (if plain then Some e else jget e ''object'');
     typed \<leftarrow> (if plain then Some False else jhas ''type'' e);
     ty \<leftarrow> (if typed then jget e ''type'' else guessEventType obj1);
     inv \<leftarrow> jget obj1 ''involvedObject'';
     k \<leftarrow> keyForResource (js_or inv obj1) JUndef;
     Some \<lparr>ev_object = obj1, ev_type = ty, ev_key = k\<rparr>
   }"

definition ev_meta :: "string \<Rightarrow> event \<Rightarrow> json option" where
  "ev_meta k e = do { md \<leftarrow> jget (ev_object e) ''metadata''; jget md k }"

section \<open>The state\<close>

record estate =
  es_watch :: json
  es_events :: "event obj obj"
  es_recent :: "event list"
  es_detached :: "event list"
  es_selected :: "event list"
  es_selectedResource :: "ref option"
  es_revision :: int

definition events_initialState :: estate where
  "events_initialState =
     \<lparr>es_watch = JNull, es_events = [], es_recent = [], es_detached = [], es_selected = [],
      es_selectedResource = None, es_revision = 0\<rparr>"

definition maxRecentEvents :: nat where
  "maxRecentEvents = 20"

text \<open>\<^verbatim>\<open>stateEvents[k] = stateEvents[k] || {}; stateEvents[k][name] = event\<close>\<close>

definition attach_event :: "string \<Rightarrow> event \<Rightarrow> event obj obj \<Rightarrow> event obj obj option" where
  "attach_event k e evs = do {
     n \<leftarrow> ev_meta ''name'' e;
     Some (oset k (oset (to_str n) e (case oget evs k of Some o1 \<Rightarrow> o1 | None \<Rightarrow> [])) evs)
   }"

text \<open>
  The sort value \<^verbatim>\<open>lastTimestamp + uid\<close>: comparing calls a method of it, so it must be a string.
\<close>

definition recent_key :: "event \<Rightarrow> string option" where
  "recent_key e = do {
     ts \<leftarrow> jget (ev_object e) ''lastTimestamp'';
     uid \<leftarrow> ev_meta ''uid'' e;
     (case (ts, uid) of
        (JStr a, _) \<Rightarrow> Some (a @ to_str uid)
      | (_, JStr b) \<Rightarrow> Some (to_str ts @ b)
      | _ \<Rightarrow> None)
   }"

definition desc_by :: "('a \<Rightarrow> string) \<Rightarrow> 'a \<Rightarrow> 'a \<Rightarrow> int" where
  "desc_by f a b = -1 * lex_cmp (f a) (f b)"

definition key_or_empty :: "event \<Rightarrow> string" where
  "key_or_empty e = (case recent_key e of Some k \<Rightarrow> k | None \<Rightarrow> [])"

definition sort_recent :: "event list \<Rightarrow> event list option" where
  "sort_recent es =
     (if length es < 2 then Some es
      else if list_ex (\<lambda>e. recent_key e = None) es then None
      else Some (sort_by (desc_by key_or_empty) es))"

definition uid_str :: "event \<Rightarrow> string" where
  "uid_str e = (case ev_meta ''uid'' e of Some u \<Rightarrow> to_str u | None \<Rightarrow> [])"

text \<open>The filter with \<^verbatim>\<open>seen\<close>: the first event of each uid stays.\<close>

fun dedupe_from :: "string list \<Rightarrow> event list \<Rightarrow> event list" where
  "dedupe_from seen [] = []"
| "dedupe_from seen (e # es) =
     (if uid_str e \<in> set seen then dedupe_from seen es
      else e # dedupe_from (uid_str e # seen) es)"

definition trim_recent :: "event list \<Rightarrow> event list option" where
  "trim_recent es =
     (if list_ex (\<lambda>e. ev_meta ''uid'' e = None) es then None
      else do { s \<leftarrow> sort_recent es; Some (take maxRecentEvents (dedupe_from [] s)) })"

section \<open>Receiving events\<close>

fun first_known :: "'a obj \<Rightarrow> string list \<Rightarrow> string option" where
  "first_known resources [] = None"
| "first_known resources (k # ks) = (if ohas k resources then Some k else first_known resources ks)"

text \<open>The events by key, the detached events and the recent events.\<close>

type_synonym event_bins = "event obj obj \<times> event list \<times> event list"

definition receive_event :: "ref obj \<Rightarrow> json \<Rightarrow> event_bins \<Rightarrow> event_bins option" where
  "receive_event resources raw bins = do {
     e \<leftarrow> open_event raw;
     let (evs, det, rec) = bins;
     let k = to_str (ev_key e);
     bins' \<leftarrow> (if ohas k resources then do {
                 evs' \<leftarrow> attach_event k e evs; Some (evs', det, rec @ [e])
               } else do {
                 owners \<leftarrow> ownersForResource resources k [];
                 (case first_known resources owners of
                    Some ow \<Rightarrow> do { evs' \<leftarrow> attach_event ow e evs; Some (evs', det, rec) }
                  | None \<Rightarrow> Some (evs, det @ [e], rec @ [e]))
               });
     recent \<leftarrow> trim_recent (snd (snd bins'));
     Some (fst bins', fst (snd bins'), recent)
   }"

text \<open>The detached events are taken from the end; those still unknown are kept, reversed.\<close>

definition reconcile_event :: "ref obj \<Rightarrow> event \<Rightarrow> event obj obj \<times> event list \<Rightarrow> (event obj obj \<times> event list) option" where
  "reconcile_event resources e s =
     (if ohas (to_str (ev_key e)) resources
      then do { evs' \<leftarrow> attach_event (to_str (ev_key e)) e (fst s); Some (evs', snd s) }
      else Some (fst s, snd s @ [e]))"

section \<open>Selecting events\<close>

definition all_events :: "event obj obj \<Rightarrow> string \<Rightarrow> event list" where
  "all_events evs k = (case oget evs k of Some o1 \<Rightarrow> map snd o1 | None \<Rightarrow> [])"

fun eventsForResource_loop :: "nat \<Rightarrow> heap \<Rightarrow> event obj obj \<Rightarrow> ref list \<Rightarrow> event list \<Rightarrow> event list option" where
  "eventsForResource_loop n h evs [] sel = Some sel"
| "eventsForResource_loop 0 h evs (ow # q) sel = None"
| "eventsForResource_loop (Suc n) h evs (ow # q) sel = do {
     x \<leftarrow> h ow;
     eventsForResource_loop n h evs (q @ owned_refs h ow) (sel @ all_events evs (key_name x))
   }"

definition timestamp_of :: "event \<Rightarrow> string" where
  "timestamp_of e = (case jget (ev_object e) ''lastTimestamp'' of Some (JStr s) \<Rightarrow> s | _ \<Rightarrow> [])"

definition has_timestamp :: "event \<Rightarrow> bool" where
  "has_timestamp e \<longleftrightarrow> (case jget (ev_object e) ''lastTimestamp'' of Some (JStr s) \<Rightarrow> True | _ \<Rightarrow> False)"

definition eventsForResource :: "nat \<Rightarrow> heap \<Rightarrow> event obj obj \<Rightarrow> ref \<Rightarrow> event list option" where
  "eventsForResource fuel h evs r = do {
     sel \<leftarrow> eventsForResource_loop fuel h evs [r] [];
     if length sel < 2 then Some sel
     else if \<not> list_all has_timestamp sel then None
     else Some (sort_by (desc_by timestamp_of) sel)
   }"

definition doSelectEventsFor :: "nat \<Rightarrow> heap \<Rightarrow> ref option \<Rightarrow> estate \<Rightarrow> estate option" where
  "doSelectEventsFor fuel h resource s =
     (if es_events s = []
      then Some (s\<lparr>es_selectedResource := resource, es_selected := [], es_revision := es_revision s + 1\<rparr>)
      else do {
        r \<leftarrow> resource;
        selected \<leftarrow> eventsForResource fuel h (es_events s) r;
        Some (s\<lparr>es_selected := selected, es_selectedResource := resource,
                es_revision := es_revision s + 1\<rparr>)
      })"

definition doReceiveEvents :: "nat \<Rightarrow> heap \<Rightarrow> ref obj \<Rightarrow> json list \<Rightarrow> estate \<Rightarrow> estate option" where
  "doReceiveEvents fuel h resources events s = do {
     bins \<leftarrow> foldM (receive_event resources) events (es_events s, es_detached s, es_recent s);
     rest \<leftarrow> foldM (reconcile_event resources) (rev (fst (snd bins))) (fst bins, []);
     let s' = s\<lparr>es_events := fst rest, es_detached := snd rest, es_recent := snd (snd bins)\<rparr>;
     (case es_selectedResource s' of
        Some r \<Rightarrow> doSelectEventsFor fuel h (Some r) s'
      | None \<Rightarrow> Some (s'\<lparr>es_selected := [], es_revision := es_revision s' + 1\<rparr>))
   }"

section \<open>The reducer\<close>

datatype eaction =
    EInvalidate
  | EReceive "ref obj" "json list"
  | ESetWatch json
  | ESelectFor "ref option"
  | EOther

fun events_reducer :: "nat \<Rightarrow> heap \<Rightarrow> eaction \<Rightarrow> estate \<Rightarrow> estate option" where
  "events_reducer fuel h EInvalidate s = Some events_initialState"
| "events_reducer fuel h (EReceive rs es) s = doReceiveEvents fuel h rs es s"
| "events_reducer fuel h (ESetWatch w) s = Some (s\<lparr>es_watch := w\<rparr>)"
| "events_reducer fuel h (ESelectFor r) s = doSelectEventsFor fuel h r s"
| "events_reducer fuel h EOther s = Some s"

interpretation events: session_slice "events_reducer fuel h" events_initialState EInvalidate for fuel h
  by unfold_locales simp

section \<open>The recent events\<close>

interpretation desc: comparator "desc_by f" for f
  unfolding desc_by_def by (rule comparator_by_key_desc)

lemma sorted_wrt_short: "length xs < 2 \<Longrightarrow> sorted_wrt R xs"
  by (cases xs; cases "tl xs") auto

lemma dedupe_from_distinct:
  "distinct (map uid_str (dedupe_from seen es)) \<and> set (map uid_str (dedupe_from seen es)) \<inter> set seen = {}"
  by (induction seen es rule: dedupe_from.induct) auto

lemma dedupe_from_sorted:
  "sorted_wrt R es \<Longrightarrow> sorted_wrt R (dedupe_from seen es) \<and> set (dedupe_from seen es) \<subseteq> set es"
  by (induction seen es rule: dedupe_from.induct) auto

text \<open>Most recent first, one event for each uid, at most twenty.\<close>

definition recent_ok :: "event list \<Rightarrow> bool" where
  "recent_ok es \<longleftrightarrow> sorted_wrt (\<lambda>a b. desc_by key_or_empty a b \<le> 0) es
     \<and> distinct (map uid_str es) \<and> length es \<le> maxRecentEvents"

lemma recent_ok_Nil [simp]: "recent_ok []"
  by (simp add: recent_ok_def)

lemma sort_recent_sorted:
  "sort_recent es = Some s \<Longrightarrow> sorted_wrt (\<lambda>a b. desc_by key_or_empty a b \<le> 0) s"
proof (cases "length es < 2")
  case True
  assume "sort_recent es = Some s"
  with True have "s = es" by (simp add: sort_recent_def)
  with True show ?thesis by (simp add: sorted_wrt_short)
next
  case False
  assume "sort_recent es = Some s"
  with False show ?thesis
    by (auto simp: sort_recent_def desc.sorted_sort_by split: if_splits)
qed

lemma trim_recent_ok: "trim_recent es = Some rec \<Longrightarrow> recent_ok rec"
  using dedupe_from_distinct [of "[]"] dedupe_from_sorted [OF sort_recent_sorted, of es _ "[]"]
  by (auto simp: trim_recent_def bind_Some_iff recent_ok_def sorted_wrt_take take_map [symmetric]
      distinct_take split: if_splits)

lemma receive_event_recent: "receive_event resources raw bins = Some bins' \<Longrightarrow> recent_ok (snd (snd bins'))"
  by (cases bins) (auto simp: receive_event_def bind_Some_iff Let_def dest: trim_recent_ok)

lemma receive_events_recent:
  assumes "foldM (receive_event resources) events bins = Some bins'" "recent_ok (snd (snd bins))"
  shows "recent_ok (snd (snd bins'))"
  using foldM_inv [of events "\<lambda>b. recent_ok (snd (snd b))" "receive_event resources" bins bins']
    receive_event_recent assms by blast

section \<open>The selected events\<close>

definition live_below :: "heap \<Rightarrow> ref \<Rightarrow> bool" where
  "live_below h r \<longleftrightarrow> (\<forall>y. (r, y) \<in> (edges (owned_refs h))\<^sup>* \<longrightarrow> h y \<noteq> None)"

definition events_at :: "heap \<Rightarrow> event obj obj \<Rightarrow> ref \<Rightarrow> event list" where
  "events_at h evs r = (case h r of Some x \<Rightarrow> all_events evs (key_name x) | None \<Rightarrow> [])"

lemma events_loop_walk:
  assumes "walk n (owned_refs h) q = Some vs" "\<forall>y \<in> set vs. h y \<noteq> None"
  shows "eventsForResource_loop n h evs q sel = Some (sel @ concat (map (events_at h evs) vs))"
  using assms
proof (induction n h evs q sel arbitrary: vs rule: eventsForResource_loop.induct)
  case (3 n h evs ow q sel)
  then obtain ws where ws: "walk n (owned_refs h) (q @ owned_refs h ow) = Some ws" "vs = ow # ws" by auto
  with "3.prems"(2) obtain x where x: "h ow = Some x" by auto
  with "3.IH" [OF x ws(1)] "3.prems"(2) ws(2) show ?case by (simp add: events_at_def)
qed auto

text \<open>
  The result of the traversal on acyclic ownership: the events of the resource and of all it
  owns, most recent first.
\<close>

lemma eventsForResource_result:
  assumes "acyclic_owned h" "live_below h r"
    and "\<forall>y \<in> (edges (owned_refs h))\<^sup>* `` {r}. \<forall>e \<in> set (events_at h evs y). has_timestamp e"
  shows "\<exists>n0. \<forall>n \<ge> n0. \<exists>es. eventsForResource n h evs r = Some es
    \<and> set es = (\<Union>y \<in> (edges (owned_refs h))\<^sup>* `` {r}. set (events_at h evs y))
    \<and> sorted_wrt (\<lambda>a b. desc_by timestamp_of a b \<le> 0) es"
proof -
  obtain n0 where n0: "\<And>n. n \<ge> n0 \<Longrightarrow> \<exists>vs. walk n (owned_refs h) [r] = Some vs"
    using owned.walk_terminates [OF assms(1)] by blast
  have "\<exists>es. eventsForResource n h evs r = Some es
    \<and> set es = (\<Union>y \<in> (edges (owned_refs h))\<^sup>* `` {r}. set (events_at h evs y))
    \<and> sorted_wrt (\<lambda>a b. desc_by timestamp_of a b \<le> 0) es" if n: "n \<ge> n0" for n
  proof -
    from n0 [OF n] obtain vs where vs: "walk n (owned_refs h) [r] = Some vs" by blast
    have set_vs: "set vs = (edges (owned_refs h))\<^sup>* `` {r}" using walk_set [OF vs] by simp
    then have "\<forall>y \<in> set vs. h y \<noteq> None" using assms(2) by (auto simp: live_below_def)
    from events_loop_walk [OF vs this, of evs "[]"]
    have sel: "eventsForResource_loop n h evs [r] [] = Some (concat (map (events_at h evs) vs))" by simp
    let ?sel = "concat (map (events_at h evs) vs)"
    have ts: "list_all has_timestamp ?sel"
      using assms(3) set_vs by (auto simp: list_all_iff)
    have elems: "set ?sel = (\<Union>y \<in> (edges (owned_refs h))\<^sup>* `` {r}. set (events_at h evs y))"
      by (simp add: set_vs)
    show ?thesis
    proof (cases "length ?sel < 2")
      case True
      then have "sorted_wrt (\<lambda>a b. desc_by timestamp_of a b \<le> 0) ?sel"
        by (rule sorted_wrt_short)
      with True sel elems show ?thesis by (simp add: eventsForResource_def)
    next
      case False
      with ts sel have "eventsForResource n h evs r = Some (sort_by (desc_by timestamp_of) ?sel)"
        by (simp add: eventsForResource_def)
      with elems show ?thesis by (simp add: desc.sorted_sort_by)
    qed
  qed
  then show ?thesis by blast
qed

section \<open>Where an event goes\<close>

definition filed :: "event obj obj \<Rightarrow> string \<Rightarrow> event \<Rightarrow> bool" where
  "filed evs k e \<longleftrightarrow> e \<in> set (all_events evs k)"

lemma attach_event_filed: "attach_event k e evs = Some evs' \<Longrightarrow> filed evs' k e"
proof -
  assume "attach_event k e evs = Some evs'"
  then obtain n o1 where "oget evs' k = Some (oset n e o1)"
    by (auto simp: attach_event_def bind_Some_iff)
  moreover have "e \<in> set (map snd (oset n e o1))"
    by (metis fun_upd_same in_set_conv_nth list.set_map map_of_SomeD oget_oset rev_image_eqI snd_conv)
  ultimately show ?thesis by (simp add: filed_def all_events_def)
qed

text \<open>The key under which an event with the given key is filed.\<close>

definition event_home :: "ref obj \<Rightarrow> string \<Rightarrow> string option" where
  "event_home resources k =
     (if ohas k resources then Some k
      else do { owners \<leftarrow> ownersForResource resources k []; first_known resources owners })"

lemma receive_event_home:
  assumes "receive_event resources raw bins = Some bins'" "open_event raw = Some e"
  shows "case event_home resources (to_str (ev_key e)) of
           Some k \<Rightarrow> filed (fst bins') k e
         | None \<Rightarrow> e \<in> set (fst (snd bins'))"
proof -
  obtain evs det rec where bins: "bins = (evs, det, rec)" by (metis prod.exhaust)
  let ?k = "to_str (ev_key e)"
  show ?thesis
  proof (cases "ohas ?k resources")
    case True
    with assms bins obtain evs' where "attach_event ?k e evs = Some evs'" "fst bins' = evs'"
      by (auto simp: receive_event_def bind_Some_iff)
    with True attach_event_filed show ?thesis by (auto simp: event_home_def)
  next
    case False
    with assms bins obtain owners where ow: "ownersForResource resources ?k [] = Some owners"
      by (auto simp: receive_event_def bind_Some_iff)
    show ?thesis
    proof (cases "first_known resources owners")
      case None
      with False assms bins ow show ?thesis
        by (auto simp: receive_event_def bind_Some_iff event_home_def)
    next
      case (Some k)
      with False assms bins ow obtain evs' where "attach_event k e evs = Some evs'" "fst bins' = evs'"
        by (auto simp: receive_event_def bind_Some_iff)
      with False Some ow attach_event_filed show ?thesis by (auto simp: event_home_def)
    qed
  qed
qed

lemma first_known_SomeD: "first_known resources ks = Some k \<Longrightarrow> ohas k resources \<and> k \<in> set ks"
  by (induction ks) (auto split: if_splits)

end
