(* ===== verification/EventsClaims.thy ===== *)
theory EventsClaims
  imports Events
begin

text \<open>The properties of the events slice.\<close>

section \<open>The recent events of every run\<close>

inductive events_step :: "nat \<Rightarrow> estate \<Rightarrow> estate \<Rightarrow> bool" for fuel :: nat where
  dispatch: "events_reducer fuel h a s = Some t \<Longrightarrow> events_step fuel s t"

inductive_cases events_stepE [consumes 1, case_names dispatch]: "events_step fuel s t"

definition events_reachable :: "nat \<Rightarrow> estate \<Rightarrow> bool" where
  "events_reachable fuel s \<longleftrightarrow> (events_step fuel)\<^sup>*\<^sup>* events_initialState s"

lemma events_reachable_init: "events_reachable fuel events_initialState"
  by (simp add: events_reachable_def)

lemma events_reachable_step:
  "events_reachable fuel s \<Longrightarrow> events_reducer fuel h a s = Some t \<Longrightarrow> events_reachable fuel t"
  unfolding events_reachable_def by (meson events_step.dispatch rtranclp.rtrancl_into_rtrancl)

lemma recent_doSelectEventsFor: "doSelectEventsFor fuel h r s = Some t \<Longrightarrow> es_recent t = es_recent s"
  by (auto simp: doSelectEventsFor_def bind_Some_iff split: if_splits)

lemma recent_doReceiveEvents:
  assumes "doReceiveEvents fuel h rs evs s = Some t" "recent_ok (es_recent s)"
  shows "recent_ok (es_recent t)"
proof -
  from assms(1) obtain bins rest where bins:
    "foldM (receive_event rs) evs (es_events s, es_detached s, es_recent s) = Some bins"
    "(case es_selectedResource (s\<lparr>es_events := fst rest, es_detached := snd rest, es_recent := snd (snd bins)\<rparr>) of
        Some r \<Rightarrow> doSelectEventsFor fuel h (Some r)
                    (s\<lparr>es_events := fst rest, es_detached := snd rest, es_recent := snd (snd bins)\<rparr>)
      | None \<Rightarrow> Some ((s\<lparr>es_events := fst rest, es_detached := snd rest, es_recent := snd (snd bins)\<rparr>)
           \<lparr>es_selected := [], es_revision :=
              es_revision (s\<lparr>es_events := fst rest, es_detached := snd rest, es_recent := snd (snd bins)\<rparr>) + 1\<rparr>)) = Some t"
    unfolding doReceiveEvents_def Let_def bind_Some_iff by blast
  from bins(2) have "es_recent t = snd (snd bins)"
    by (cases "es_selectedResource s") (auto dest: recent_doSelectEventsFor)
  with receive_events_recent [OF bins(1)] assms(2) show ?thesis by simp
qed

lemma recent_events_reducer:
  "events_reducer fuel h a s = Some t \<Longrightarrow> recent_ok (es_recent s) \<Longrightarrow> recent_ok (es_recent t)"
  by (cases a) (auto simp: events_initialState_def recent_doSelectEventsFor dest: recent_doReceiveEvents)

text \<open>C13: In every state the events reducer can reach, the recent events are sorted with the most recent
  first, hold one event for each uid, and are at most twenty.\<close>

theorem recent_events:
  assumes "events_reachable fuel s"
  shows "sorted_wrt (\<lambda>a b. desc_by key_or_empty a b \<le> 0) (es_recent s)
    \<and> distinct (map uid_str (es_recent s)) \<and> length (es_recent s) \<le> 20"
proof -
  have "recent_ok (es_recent s)"
    using assms unfolding events_reachable_def
  proof (induction rule: rtranclp_induct)
    case base
    show ?case by (simp add: events_initialState_def)
  next
    case (step s t)
    from step(2) show ?case
      by (cases rule: events_stepE) (rule recent_events_reducer [OF _ step.IH])
  qed
  then show ?thesis by (simp add: recent_ok_def maxRecentEvents_def)
qed

definition demo_event :: "string \<Rightarrow> string \<Rightarrow> json" where
  "demo_event uid ts = JObj [(''metadata'', JObj [(''name'', JStr uid), (''uid'', JStr uid)]),
     (''message'', JStr ''Created container''), (''lastTimestamp'', JStr ts),
     (''involvedObject'', JObj [(''kind'', JStr ''Pod''), (''namespace'', JStr ''ns''), (''name'', JStr ''p-x'')])]"

definition demo_events :: estate where
  "demo_events = (case events_reducer 5 (\<lambda>_. None)
       (EReceive [(''ReplicaSet/ns/q'', 0)] [demo_event ''a'' ''2018-01-01T00:00:00Z'', demo_event ''b'' ''2018-01-02T00:00:00Z''])
       events_initialState of Some t \<Rightarrow> t | None \<Rightarrow> events_initialState)"

theorem recent_events_witness: "map uid_str (es_recent demo_events) = [''b'', ''a''] \<and> length (es_recent demo_events) \<le> 20"
proof -
  let ?a = "EReceive [(''ReplicaSet/ns/q'', 0)] [demo_event ''a'' ''2018-01-01T00:00:00Z'', demo_event ''b'' ''2018-01-02T00:00:00Z'']"
  have "\<not> Option.is_none (events_reducer 5 (\<lambda>_. None) ?a events_initialState)" by code_simp
  then have "events_reducer 5 (\<lambda>_. None) ?a events_initialState = Some demo_events"
    unfolding demo_events_def by (cases "events_reducer 5 (\<lambda>_. None) ?a events_initialState") auto
  then have "events_reachable 5 demo_events"
    by (rule events_reachable_step [OF events_reachable_init])
  from recent_events [OF this] show ?thesis by (intro conjI) (code_simp, blast)
qed

section \<open>Filing and selecting\<close>

text \<open>An event that is received is filed under the key of its object when the resources have that
  key, else under the first of the owners that the key suggests which the resources have, and is
  kept as detached when there is none: no event is dropped.\<close>

theorem event_is_filed:
  assumes "receive_event resources raw bins = Some bins'" "open_event raw = Some e"
  shows "case event_home resources (to_str (ev_key e)) of
           Some k \<Rightarrow> filed (fst bins') k e
         | None \<Rightarrow> e \<in> set (fst (snd bins'))"
  using assms by (rule receive_event_home)

theorem event_is_filed_witness:
  "\<exists>bins' e. receive_event [(''ReplicaSet/ns/p'', 0)] (demo_event ''a'' ''t'') ([], [], []) = Some bins'
     \<and> filed (fst bins') ''ReplicaSet/ns/p'' e"
proof -
  let ?rs = "[(''ReplicaSet/ns/p'', 0)]" and ?raw = "demo_event ''a'' ''t''"
  have "\<not> Option.is_none (receive_event ?rs ?raw ([], [], []))" "\<not> Option.is_none (open_event ?raw)"
    "map_option (\<lambda>e. event_home ?rs (to_str (ev_key e))) (open_event ?raw) = Some (Some ''ReplicaSet/ns/p'')"
    by code_simp+
  moreover from this obtain bins' e where be: "receive_event ?rs ?raw ([], [], []) = Some bins'" "open_event ?raw = Some e"
    by (cases "receive_event ?rs ?raw ([], [], [])"; cases "open_event ?raw") auto
  ultimately show ?thesis using event_is_filed [OF be] by auto
qed

text \<open>On acyclic ownership eventsForResource returns, and selects exactly the events filed under the
  resource and under everything it owns transitively, the most recent first.\<close>

theorem selected_events:
  assumes "acyclic_owned h" "live_below h r"
    and "\<forall>y \<in> (edges (owned_refs h))\<^sup>* `` {r}. \<forall>e \<in> set (events_at h evs y). has_timestamp e"
  shows "\<exists>n0. \<forall>n \<ge> n0. \<exists>es. eventsForResource n h evs r = Some es
    \<and> set es = (\<Union>y \<in> (edges (owned_refs h))\<^sup>* `` {r}. set (events_at h evs y))
    \<and> sorted_wrt (\<lambda>a b. desc_by timestamp_of a b \<le> 0) es"
  using assms by (rule eventsForResource_result)

definition demo_pair :: heap where
  "demo_pair = [0 \<mapsto> (fresh_resource JNull)\<lparr>r_key := Some ''a'', r_owned := Some [(''b'', 1)]\<rparr>,
                1 \<mapsto> (fresh_resource JNull)\<lparr>r_key := Some ''b''\<rparr>]"

definition demo_filed :: "event obj obj" where
  "demo_filed = [(''b'', [(''e'', \<lparr>ev_object = demo_event ''e'' ''t'', ev_type = JUndef, ev_key = JStr ''b''\<rparr>)])]"

theorem selected_events_witness:
  "\<exists>n es. eventsForResource n demo_pair demo_filed 0 = Some es \<and> ev_key ` set es = {JStr ''b''}"
proof -
  have e: "edges (owned_refs demo_pair) = {(0, 1)}"
    by (auto simp: owned_refs_def owned_of_def demo_pair_def fresh_resource_def split: if_splits)
  have "wf ({(0 :: nat, 1 :: nat)}\<inverse>)" by (rule wf_subset [of "measure (\<lambda>n. 1 - n)"]) auto
  then have "acyclic {(0 :: nat, 1 :: nat)}" by (metis acyclic_converse wf_acyclic)
  then have ac: "acyclic_owned demo_pair" unfolding acyclic_owned_def e by (simp add: demo_pair_def)
  have below: "(0, y) \<in> {(0 :: nat, 1 :: nat)}\<^sup>* \<Longrightarrow> y = 0 \<or> y = 1" for y
    by (induction rule: rtrancl_induct) auto
  then have star: "{(0 :: nat, 1 :: nat)}\<^sup>* `` {0} = {0, 1}" by auto
  have lv: "live_below demo_pair 0"
    unfolding live_below_def e
    by (intro allI impI, drule below) (auto simp: demo_pair_def)
  have at: "events_at demo_pair demo_filed 0 = []" "map ev_key (events_at demo_pair demo_filed 1) = [JStr ''b'']"
    "list_all has_timestamp (events_at demo_pair demo_filed 1)"
    by code_simp+
  have ts: "\<forall>y \<in> (edges (owned_refs demo_pair))\<^sup>* `` {0}. \<forall>v \<in> set (events_at demo_pair demo_filed y). has_timestamp v"
    unfolding e star using at(1,3) by (simp add: list_all_iff)
  note sel = selected_events [OF ac lv ts, unfolded e star]
  then obtain n0 where n0: "\<forall>n \<ge> n0. \<exists>es. eventsForResource n demo_pair demo_filed 0 = Some es
      \<and> set es = (\<Union>y \<in> {0, 1}. set (events_at demo_pair demo_filed y))
      \<and> sorted_wrt (\<lambda>a b. desc_by timestamp_of a b \<le> 0) es" ..
  from n0 [rule_format, OF order_refl] obtain es where
    es: "eventsForResource n0 demo_pair demo_filed 0 = Some es"
    "set es = (\<Union>y \<in> {0, 1}. set (events_at demo_pair demo_filed y))" by blast
  have "ev_key ` set es = set (map ev_key (events_at demo_pair demo_filed 1))" by (simp add: es(2) at(1))
  with at(2) es(1) show ?thesis by auto
qed

end
