(* ===== verification/Requests.thy ===== *)
theory Requests
  imports JsValue
begin

text \<open>
  Named requests: \<^verbatim>\<open>src/state/actions/requests.js\<close> and \<^verbatim>\<open>src/state/reducers/requests.js\<close>. The
  slice keeps the handle (a promise) of each request in flight by name; a second request of the
  same name joins the first. A handle is a number here; \<open>requests_step\<close> interleaves the callers,
  the settling of promises and the continuations of the callers that started a request.
\<close>

section \<open>The slice\<close>

record requests_state =
  rq_fetching :: "nat obj"
  rq_fetchBackoff :: int
  rq_fetchError :: json

definition requests_initialState :: requests_state where
  "requests_initialState = \<lparr>rq_fetching = [], rq_fetchBackoff = 0, rq_fetchError = JNull\<rparr>"

definition decrementBackoff :: "int \<Rightarrow> int" where
  "decrementBackoff backoff = max (backoff div 4) 0"

definition incrementBackoff :: "int \<Rightarrow> int" where
  "incrementBackoff backoff = max (backoff * 2) 1000"

definition next_backoff :: "requests_state \<Rightarrow> int" where
  "next_backoff s =
     (if truthy (rq_fetchError s) then incrementBackoff (rq_fetchBackoff s)
      else decrementBackoff (rq_fetchBackoff s))"

definition doSetFetching :: "requests_state \<Rightarrow> string \<Rightarrow> nat option \<Rightarrow> requests_state" where
  "doSetFetching s name request =
     (case request of
        Some r \<Rightarrow> s\<lparr>rq_fetching := oset name r (rq_fetching s)\<rparr>
      | None \<Rightarrow> s\<lparr>rq_fetching := odel name (rq_fetching s), rq_fetchBackoff := next_backoff s\<rparr>)"

definition doClearFetching :: "requests_state \<Rightarrow> string \<Rightarrow> requests_state" where
  "doClearFetching s name =
     s\<lparr>rq_fetching := odel name (rq_fetching s), rq_fetchBackoff := next_backoff s\<rparr>"

datatype requests_action = StartRequest string "nat option" | DoneRequest string | RequestsOther

fun requests_reducer :: "requests_action \<Rightarrow> requests_state \<Rightarrow> requests_state" where
  "requests_reducer (StartRequest name r) s = doSetFetching s name r"
| "requests_reducer (DoneRequest name) s = doClearFetching s name"
| "requests_reducer RequestsOther s = s"

section \<open>doRequest, up to its await\<close>

text \<open>
  \<^verbatim>\<open>fetchBackoff[name] || 0\<close> reads a property of a number, which is \<^verbatim>\<open>undefined\<close>.
\<close>

definition backoff_for :: "requests_state \<Rightarrow> string \<Rightarrow> int" where
  "backoff_for s name =
     (case jget (JNum (rq_fetchBackoff s)) name of
        Some v \<Rightarrow> (case js_or v (JNum 0) of JNum n \<Rightarrow> n | _ \<Rightarrow> 0) | None \<Rightarrow> 0)"

text \<open>
  What a caller awaits: a handle it joins, a handle it starts after a delay, the call of the
  function passed in place of a name, or \<^verbatim>\<open>undefined\<close> (a name without request).
\<close>

datatype awaited = Join nat | Start nat int | CallDirectly | AwaitUndefined

text \<open>\<open>fresh\<close> is the handle of the promise that \<^verbatim>\<open>sleep(\<dots>).then(request)\<close> creates.\<close>

definition doRequest_begin :: "nat \<Rightarrow> string option \<Rightarrow> bool \<Rightarrow> requests_state \<Rightarrow> awaited \<times> requests_state" where
  "doRequest_begin fresh name request s =
     (case name of
        None \<Rightarrow> (CallDirectly, s)
      | Some n \<Rightarrow>
          (case oget (rq_fetching s) n of
             Some h \<Rightarrow> (Join h, s)
           | None \<Rightarrow>
               if request then (Start fresh (backoff_for s n), requests_reducer (StartRequest n (Some fresh)) s)
               else (AwaitUndefined, s)))"

text \<open>The continuation after the awaited promise is fulfilled; a rejection skips it.\<close>

definition doRequest_end :: "string option \<Rightarrow> awaited \<Rightarrow> requests_state \<Rightarrow> requests_state" where
  "doRequest_end name aw s =
     (case (name, aw) of (Some n, Start h d) \<Rightarrow> requests_reducer (DoneRequest n) s | _ \<Rightarrow> s)"

lemma backoff_never_applied: "backoff_for s name = 0"
  by (simp add: backoff_for_def)

lemma backoff_nonneg: "0 \<le> next_backoff s"
  by (cases "truthy (rq_fetchError s)") (simp_all add: next_backoff_def decrementBackoff_def incrementBackoff_def)

section \<open>Concurrent callers\<close>

datatype promise = Pending | Fulfilled | Rejected

text \<open>
  The promises that were started, with the name, and whether the continuation of the caller
  that started it is still to run.
\<close>

record request_run =
  rr_state :: requests_state
  rr_next :: nat
  rr_promise :: "nat \<Rightarrow> promise"
  rr_owner :: "nat \<Rightarrow> string option"
  rr_open :: "nat \<Rightarrow> bool"

definition run_start :: request_run where
  "run_start = \<lparr>rr_state = requests_initialState, rr_next = 0, rr_promise = (\<lambda>_. Pending),
                rr_owner = (\<lambda>_. None), rr_open = (\<lambda>_. False)\<rparr>"

text \<open>A call by name with a request: it joins or starts.\<close>

definition call_request :: "string \<Rightarrow> request_run \<Rightarrow> request_run" where
  "call_request name u =
     (case doRequest_begin (rr_next u) (Some name) True (rr_state u) of
        (Start h d, s) \<Rightarrow> u\<lparr>rr_state := s, rr_next := Suc h, rr_owner := (rr_owner u)(h := Some name),
                             rr_open := (rr_open u)(h := True)\<rparr>
      | (_, s) \<Rightarrow> u\<lparr>rr_state := s\<rparr>)"

definition resume_starter :: "nat \<Rightarrow> request_run \<Rightarrow> request_run" where
  "resume_starter h u =
     u\<lparr>rr_state := doRequest_end (rr_owner u h) (Start h 0) (rr_state u), rr_open := (rr_open u)(h := False)\<rparr>"

inductive requests_step :: "request_run \<Rightarrow> request_run \<Rightarrow> bool" where
  call: "requests_step u (call_request name u)"
| settle: "h < rr_next u \<Longrightarrow> rr_promise u h = Pending \<Longrightarrow> v \<noteq> Pending \<Longrightarrow>
           requests_step u (u\<lparr>rr_promise := (rr_promise u)(h := v)\<rparr>)"
| resume: "rr_open u h \<Longrightarrow> rr_promise u h = Fulfilled \<Longrightarrow> requests_step u (resume_starter h u)"

inductive_cases requests_stepE [consumes 1, case_names call settle resume]: "requests_step u v"

text \<open>
  The invariant: the handles on record are those whose starter has not finished; handles not
  started yet are free.
\<close>

definition run_ok :: "request_run \<Rightarrow> bool" where
  "run_ok u \<longleftrightarrow>
     (\<forall>n h. oget (rq_fetching (rr_state u)) n = Some h \<longleftrightarrow> rr_open u h \<and> rr_owner u h = Some n)
     \<and> (\<forall>h. rr_open u h \<longrightarrow> rr_owner u h \<noteq> None \<and> h < rr_next u)
     \<and> (\<forall>h. rr_owner u h \<noteq> None \<longrightarrow> h < rr_next u)
     \<and> (\<forall>h < rr_next u. rr_owner u h \<noteq> None \<and> (rr_promise u h = Pending \<longrightarrow> rr_open u h))
     \<and> (\<forall>h \<ge> rr_next u. rr_promise u h = Pending)"

lemma call_request_cases:
  obtains (join) h where "oget (rq_fetching (rr_state u)) name = Some h" "call_request name u = u"
  | (start) "oget (rq_fetching (rr_state u)) name = None"
      "call_request name u = u\<lparr>rr_state := doSetFetching (rr_state u) name (Some (rr_next u)),
         rr_next := Suc (rr_next u), rr_owner := (rr_owner u)(rr_next u := Some name),
         rr_open := (rr_open u)(rr_next u := True)\<rparr>"
  by (cases "oget (rq_fetching (rr_state u)) name") (simp_all add: call_request_def doRequest_begin_def)

lemma run_okI:
  assumes "\<And>n h. oget (rq_fetching (rr_state u)) n = Some h \<longleftrightarrow> rr_open u h \<and> rr_owner u h = Some n"
    and "\<And>h. rr_open u h \<Longrightarrow> rr_owner u h \<noteq> None \<and> h < rr_next u"
    and "\<And>h. rr_owner u h \<noteq> None \<Longrightarrow> h < rr_next u"
    and "\<And>h. h < rr_next u \<Longrightarrow> rr_owner u h \<noteq> None"
    and "\<And>h. h < rr_next u \<Longrightarrow> rr_promise u h = Pending \<Longrightarrow> rr_open u h"
    and "\<And>h. rr_next u \<le> h \<Longrightarrow> rr_promise u h = Pending"
  shows "run_ok u"
  using assms unfolding run_ok_def by blast

lemma run_okD:
  assumes "run_ok u"
  shows "oget (rq_fetching (rr_state u)) n = Some h \<longleftrightarrow> rr_open u h \<and> rr_owner u h = Some n"
    and "rr_open u h \<Longrightarrow> rr_owner u h \<noteq> None \<and> h < rr_next u"
    and "rr_owner u h \<noteq> None \<Longrightarrow> h < rr_next u"
    and "h < rr_next u \<Longrightarrow> rr_owner u h \<noteq> None"
    and "h < rr_next u \<Longrightarrow> rr_promise u h = Pending \<Longrightarrow> rr_open u h"
    and "rr_next u \<le> h \<Longrightarrow> rr_promise u h = Pending"
  using assms unfolding run_ok_def by blast+

lemma run_ok_fresh:
  assumes "run_ok u"
  shows "\<not> rr_open u (rr_next u)" "rr_owner u (rr_next u) = None"
    "oget (rq_fetching (rr_state u)) n \<noteq> Some (rr_next u)"
  using run_okD(2,3) [OF assms, of "rr_next u"] run_okD(1) [OF assms, of n "rr_next u"] by auto

lemma run_ok_call:
  assumes "run_ok u"
  shows "run_ok (call_request name u)"
proof (cases rule: call_request_cases [of u name])
  case (join h)
  with assms show ?thesis by simp
next
  case start
  note D = run_okD [OF assms] and F = run_ok_fresh [OF assms]
  have none: "rr_open u h \<Longrightarrow> rr_owner u h \<noteq> Some name" for h
    using D(1) [of name h] start(1) by simp
  define v where "v = u\<lparr>rr_state := doSetFetching (rr_state u) name (Some (rr_next u)),
         rr_next := Suc (rr_next u), rr_owner := (rr_owner u)(rr_next u := Some name),
         rr_open := (rr_open u)(rr_next u := True)\<rparr>"
  have sel: "rr_next v = Suc (rr_next u)" "rr_owner v = (rr_owner u)(rr_next u := Some name)"
    "rr_open v = (rr_open u)(rr_next u := True)" "rr_promise v = rr_promise u"
    "rq_fetching (rr_state v) = oset name (rr_next u) (rq_fetching (rr_state u))"
    by (simp_all add: v_def doSetFetching_def)
  have "run_ok v"
  proof (rule run_okI, unfold sel)
    fix n h
    show "(oget (oset name (rr_next u) (rq_fetching (rr_state u))) n = Some h) =
      (((rr_open u)(rr_next u := True)) h \<and> ((rr_owner u)(rr_next u := Some name)) h = Some n)"
      using D(1) [of n h] none [of h] F by (cases "h = rr_next u"; cases "n = name") auto
  next
    fix h
    assume "Suc (rr_next u) \<le> h"
    then show "rr_promise u h = Pending" using D(6) [of h] by simp
  next
    fix h
    assume "h < Suc (rr_next u)" "rr_promise u h = Pending"
    then show "((rr_open u)(rr_next u := True)) h" using D(5) [of h] by (cases "h = rr_next u") simp_all
  next
    fix h
    assume "h < Suc (rr_next u)"
    then show "((rr_owner u)(rr_next u := Some name)) h \<noteq> None" using D(4) [of h] by (cases "h = rr_next u") simp_all
  next
    fix h
    assume "((rr_owner u)(rr_next u := Some name)) h \<noteq> None"
    then show "h < Suc (rr_next u)" using D(3) [of h] by (cases "h = rr_next u") simp_all
  next
    fix h
    assume "((rr_open u)(rr_next u := True)) h"
    then show "((rr_owner u)(rr_next u := Some name)) h \<noteq> None \<and> h < Suc (rr_next u)"
      using D(2) [of h] by (cases "h = rr_next u") simp_all
  qed
  then show ?thesis unfolding start(2) v_def .
qed

lemma run_ok_resume:
  assumes ok: "run_ok u" and op: "rr_open u h" and ful: "rr_promise u h = Fulfilled"
  shows "run_ok (resume_starter h u)"
proof -
  note D = run_okD [OF ok]
  obtain n where n: "rr_owner u h = Some n" using D(2) [OF op] by blast
  have at: "oget (rq_fetching (rr_state u)) n = Some h" using D(1) op n by simp
  have same: "rr_open u h' \<Longrightarrow> rr_owner u h' = Some n \<Longrightarrow> h' = h" for h'
    using D(1) [of n h'] at by simp
  define v where "v = resume_starter h u"
  have sel: "rr_next v = rr_next u" "rr_owner v = rr_owner u" "rr_promise v = rr_promise u"
    "rr_open v = (rr_open u)(h := False)"
    "rq_fetching (rr_state v) = odel n (rq_fetching (rr_state u))"
    by (simp_all add: v_def resume_starter_def doRequest_end_def n doClearFetching_def)
  have "run_ok v"
  proof (rule run_okI, unfold sel)
    fix n' h'
    show "(oget (odel n (rq_fetching (rr_state u))) n' = Some h') =
      (((rr_open u)(h := False)) h' \<and> rr_owner u h' = Some n')"
    proof (cases "h' = h")
      case True
      then show ?thesis using D(1) [of n' h] n by simp
    next
      case False
      then have "rr_open u h' \<Longrightarrow> rr_owner u h' \<noteq> Some n" using same by blast
      with False D(1) [of n' h'] show ?thesis by (cases "n' = n") simp_all
    qed
  next
    fix h'
    assume "((rr_open u)(h := False)) h'"
    then show "rr_owner u h' \<noteq> None \<and> h' < rr_next u" using D(2) [of h'] by (cases "h' = h") simp_all
  next
    fix h'
    assume "h' < rr_next u" "rr_promise u h' = Pending"
    then show "((rr_open u)(h := False)) h'" using D(5) [of h'] ful by (cases "h' = h") simp_all
  next
    fix h'
    assume "rr_owner u h' \<noteq> None"
    then show "h' < rr_next u" by (rule D(3))
  next
    fix h'
    assume "h' < rr_next u"
    then show "rr_owner u h' \<noteq> None" by (rule D(4))
  next
    fix h'
    assume "rr_next u \<le> h'"
    then show "rr_promise u h' = Pending" by (rule D(6))
  qed
  then show ?thesis unfolding v_def .
qed

lemma run_ok_settle:
  assumes ok: "run_ok u" and "h < rr_next u" "w \<noteq> Pending"
  shows "run_ok (u\<lparr>rr_promise := (rr_promise u)(h := w)\<rparr>)"
proof -
  note D = run_okD [OF ok]
  define v where "v = u\<lparr>rr_promise := (rr_promise u)(h := w)\<rparr>"
  have sel: "rr_next v = rr_next u" "rr_owner v = rr_owner u" "rr_open v = rr_open u"
    "rr_state v = rr_state u" "rr_promise v = (rr_promise u)(h := w)"
    by (simp_all add: v_def)
  have "run_ok v"
  proof (rule run_okI, unfold sel)
    show "(oget (rq_fetching (rr_state u)) n = Some h') = (rr_open u h' \<and> rr_owner u h' = Some n)" for n h'
      by (rule D(1))
    show "rr_open u h' \<Longrightarrow> rr_owner u h' \<noteq> None \<and> h' < rr_next u" for h' by (rule D(2))
    show "rr_owner u h' \<noteq> None \<Longrightarrow> h' < rr_next u" for h' by (rule D(3))
    show "h' < rr_next u \<Longrightarrow> rr_owner u h' \<noteq> None" for h' by (rule D(4))
  next
    fix h'
    assume "h' < rr_next u" "((rr_promise u)(h := w)) h' = Pending"
    then show "rr_open u h'" using D(5) [of h'] assms(3) by (cases "h' = h") simp_all
  next
    fix h'
    assume "rr_next u \<le> h'"
    then show "((rr_promise u)(h := w)) h' = Pending" using D(6) [of h'] assms(2) by (cases "h' = h") simp_all
  qed
  then show ?thesis unfolding v_def .
qed

lemma run_ok_step: "requests_step u v \<Longrightarrow> run_ok u \<Longrightarrow> run_ok v"
  by (induction rule: requests_step.induct) (simp_all add: run_ok_call run_ok_settle run_ok_resume)

definition requests_reachable :: "request_run \<Rightarrow> bool" where
  "requests_reachable u \<longleftrightarrow> requests_step\<^sup>*\<^sup>* run_start u"

lemma run_ok_start: "run_ok run_start"
  by (simp add: run_ok_def run_start_def requests_initialState_def)

lemma requests_reachable_ok: "requests_reachable u \<Longrightarrow> run_ok u"
  unfolding requests_reachable_def
  by (induction rule: rtranclp_induct) (auto intro: run_ok_start run_ok_step)

text \<open>A rejected request keeps its name for ever.\<close>

definition stuck :: "string \<Rightarrow> nat \<Rightarrow> request_run \<Rightarrow> bool" where
  "stuck n h u \<longleftrightarrow> run_ok u \<and> oget (rq_fetching (rr_state u)) n = Some h \<and> rr_promise u h = Rejected"

lemma stuck_step: "requests_step u v \<Longrightarrow> stuck n h u \<Longrightarrow> stuck n h v"
proof (induction rule: requests_step.induct)
  case (call u name)
  have "run_ok (call_request name u)" using call by (intro run_ok_call) (simp add: stuck_def)
  then show ?case
    using call by (cases rule: call_request_cases [of u name]; cases "n = name") (simp_all add: stuck_def doSetFetching_def)
next
  case (settle h' u v)
  then have "h' \<noteq> h" by (auto simp: stuck_def)
  with settle show ?case by (simp add: stuck_def run_ok_settle)
next
  case (resume u h')
  then have ok: "run_ok u" by (simp add: stuck_def)
  have ne: "h' \<noteq> h" using resume by (auto simp: stuck_def)
  obtain n' where n': "rr_owner u h' = Some n'" using run_okD(2) [OF ok resume(1)] by blast
  then have "oget (rq_fetching (rr_state u)) n' = Some h'" using run_okD(1) [OF ok] resume(1) by simp
  with ne have "n' \<noteq> n" using resume(3) by (auto simp: stuck_def)
  with n' resume run_ok_resume [OF ok resume(1,2)] show ?case
    by (simp add: stuck_def resume_starter_def doRequest_end_def doClearFetching_def)
qed

lemma stuck_run: "requests_step\<^sup>*\<^sup>* u v \<Longrightarrow> stuck n h u \<Longrightarrow> stuck n h v"
  by (induction rule: rtranclp_induct) (auto intro: stuck_step)

section \<open>The properties\<close>

lemma requests_reachable_start: "requests_reachable run_start"
  by (simp add: requests_reachable_def)

lemma requests_reachable_step: "requests_reachable u \<Longrightarrow> requests_step u v \<Longrightarrow> requests_reachable v"
  unfolding requests_reachable_def by (rule rtranclp.rtrancl_into_rtrancl)

lemma doRequest_joins:
  "oget (rq_fetching s) n = Some h \<Longrightarrow> doRequest_begin k (Some n) b s = (Join h, s)"
  by (simp add: doRequest_begin_def)

text \<open>C14: In every interleaving of callers, at most one request of a name is in flight: while its starter
  waits, every further doRequest of that name joins the same handle and leaves the store as it
  is, and once it is fulfilled and its starter resumes, the next call starts a new request, at once:
  the backoff that the reducer computes is never applied.\<close>

theorem single_flight:
  assumes "requests_reachable u" "rr_open u h" "rr_owner u h = Some n"
  shows "(\<forall>h'. rr_open u h' \<and> rr_owner u h' = Some n \<longleftrightarrow> h' = h)
    \<and> doRequest_begin k (Some n) b (rr_state u) = (Join h, rr_state u)
    \<and> (rr_promise u h = Fulfilled \<longrightarrow>
         fst (doRequest_begin k (Some n) True (rr_state (resume_starter h u))) = Start k 0)"
proof -
  have ok: "run_ok u" by (rule requests_reachable_ok [OF assms(1)])
  have at: "oget (rq_fetching (rr_state u)) n = Some h"
    using run_okD(1) [OF ok] assms(2,3) by simp
  have "rr_open u h' \<and> rr_owner u h' = Some n \<longleftrightarrow> h' = h" for h'
    using run_okD(1) [OF ok, of n h'] at by auto
  moreover have "fst (doRequest_begin k (Some n) True (rr_state (resume_starter h u))) = Start k 0"
    by (simp add: resume_starter_def doRequest_end_def assms(3) doClearFetching_def doRequest_begin_def
        backoff_never_applied)
  ultimately show ?thesis using doRequest_joins [OF at] by blast
qed

definition demo_flight :: request_run where
  "demo_flight = call_request ''pods'' run_start"

lemma demo_flight_reachable: "requests_reachable demo_flight"
  unfolding demo_flight_def by (rule requests_reachable_step [OF requests_reachable_start requests_step.call])

lemma demo_flight_open: "rr_open demo_flight 0" "rr_owner demo_flight 0 = Some ''pods''"
  "rr_promise demo_flight 0 = Pending" "rr_next demo_flight = 1"
  by code_simp+

theorem single_flight_witness:
  "doRequest_begin 1 (Some ''pods'') True (rr_state demo_flight) = (Join 0, rr_state demo_flight)"
  using single_flight [OF demo_flight_reachable demo_flight_open(1,2), of 1 True] by blast

text \<open>C15: A request that is rejected keeps its name for ever: whatever happens afterwards, every doRequest
  of that name awaits the same rejected promise and never sends the request again.\<close>

theorem rejected_is_stuck:
  assumes "requests_reachable u" "rr_open u h" "rr_owner u h = Some n" "rr_promise u h = Rejected"
    and "requests_step\<^sup>*\<^sup>* u v"
  shows "doRequest_begin k (Some n) b (rr_state v) = (Join h, rr_state v) \<and> rr_promise v h = Rejected"
proof -
  have ok: "run_ok u" by (rule requests_reachable_ok [OF assms(1)])
  have "oget (rq_fetching (rr_state u)) n = Some h" using run_okD(1) [OF ok] assms(2,3) by simp
  with ok assms(4) have "stuck n h u" by (simp add: stuck_def)
  with assms(5) have "stuck n h v" by (rule stuck_run)
  then show ?thesis by (simp add: stuck_def doRequest_joins)
qed

definition demo_failed :: request_run where
  "demo_failed = demo_flight\<lparr>rr_promise := (rr_promise demo_flight)(0 := Rejected)\<rparr>"

theorem rejected_is_stuck_witness:
  "doRequest_begin 9 (Some ''pods'') True (rr_state (call_request ''pods'' demo_failed))
     = (Join 0, rr_state (call_request ''pods'' demo_failed))"
proof -
  have "requests_step demo_flight demo_failed"
    unfolding demo_failed_def by (rule requests_step.settle) (simp_all add: demo_flight_open)
  then have r: "requests_reachable demo_failed" by (rule requests_reachable_step [OF demo_flight_reachable])
  have o: "rr_open demo_failed 0" "rr_owner demo_failed 0 = Some ''pods''" "rr_promise demo_failed 0 = Rejected"
    by (simp_all add: demo_failed_def demo_flight_open)
  have "requests_step\<^sup>*\<^sup>* demo_failed (call_request ''pods'' demo_failed)"
    by (rule r_into_rtranclp [of requests_step, OF requests_step.call])
  from rejected_is_stuck [OF r o this, of 9 True] show ?thesis by blast
qed

end
