(* ===== verification/Slices.thy ===== *)
theory Slices
  imports JsValue Comparators SessionSlice
begin

text \<open>
  The small slices of the store, \<^verbatim>\<open>src/state/reducers/\<close>: errors (with their actions),
  session, location, logs, terminal, metrics, templates, apimodels and usersettings. Those that
  a session invalidation resets interpret the locale \<open>session_slice\<close>.
\<close>

section \<open>Errors\<close>

text \<open>
  \<open>er_retries\<close> says whether the error has a retry action: the bound function clears the error
  and calls the retry given by the caller.
\<close>

record error_entry =
  er_id :: int
  er_object :: json
  er_severity :: json
  er_message :: json
  er_retryText :: json
  er_retries :: bool

record errors_state =
  ers_errors :: "error_entry list"
  ers_latest :: "error_entry option"

definition errors_initialState :: errors_state where
  "errors_initialState = \<lparr>ers_errors = [], ers_latest = None\<rparr>"

definition doAddError :: "error_entry \<Rightarrow> errors_state \<Rightarrow> errors_state" where
  "doAddError err s = s\<lparr>ers_errors := err # ers_errors s, ers_latest := Some err\<rparr>"

definition doClearErrors :: "int list \<Rightarrow> errors_state \<Rightarrow> errors_state" where
  "doClearErrors ids s = s\<lparr>ers_errors := filter (\<lambda>e. er_id e \<notin> set ids) (ers_errors s)\<rparr>"

datatype error_action =
    ErrInvalidate
  | AddError error_entry
  | ClearErrors "int list"
  | ClearLatest
  | ErrOther

fun errors_reducer :: "error_action \<Rightarrow> errors_state \<Rightarrow> errors_state" where
  "errors_reducer ErrInvalidate s = errors_initialState"
| "errors_reducer (AddError e) s = doAddError e s"
| "errors_reducer (ClearErrors ids) s = doClearErrors ids s"
| "errors_reducer ClearLatest s = s\<lparr>ers_latest := None\<rparr>"
| "errors_reducer ErrOther s = s"

interpretation errors: total_slice "\<lambda>a s. Some (errors_reducer a s)" errors_initialState ErrInvalidate
  by unfold_locales simp_all

text \<open>
  The action creator numbers the errors with a module variable, the first component here.
\<close>

definition addError ::
  "json \<Rightarrow> json \<Rightarrow> json \<Rightarrow> json \<Rightarrow> bool \<Rightarrow> int \<times> errors_state \<Rightarrow> int \<times> errors_state" where
  "addError error1 severity message retryText retryAction s =
     (let n = fst s + 1
      in (n, errors_reducer (AddError
           \<lparr>er_id = n, er_object = error1, er_severity = severity, er_message = message,
             er_retryText = retryText, er_retries = retryAction\<rparr>) (snd s)))"

definition clearErrors :: "error_entry list \<Rightarrow> int \<times> errors_state \<Rightarrow> int \<times> errors_state" where
  "clearErrors es s = (fst s, errors_reducer (ClearErrors (map er_id es)) (snd s))"

definition clearLatestError :: "int \<times> errors_state \<Rightarrow> int \<times> errors_state" where
  "clearLatestError s = (fst s, errors_reducer ClearLatest (snd s))"

text \<open>Pressing retry: the error is cleared before the caller's action \<open>k\<close> runs.\<close>

definition run_retry :: "error_entry \<Rightarrow> (int \<times> errors_state \<Rightarrow> int \<times> errors_state) \<Rightarrow>
    int \<times> errors_state \<Rightarrow> int \<times> errors_state" where
  "run_retry e k s = (if er_retries e then k (clearErrors [e] s) else s)"

section \<open>Session, location, logs and terminal\<close>

record session_state =
  ss_initialized :: bool
  ss_user :: json
  ss_loginMethod :: json
  ss_loginMethods :: json
  ss_isFetching :: bool
  ss_accessEvaluator :: bool
  ss_linkGenerator :: bool

definition session_initialState :: session_state where
  "session_initialState =
     \<lparr>ss_initialized = False, ss_user = JNull, ss_loginMethod = JNull, ss_loginMethods = JArr [],
      ss_isFetching = False, ss_accessEvaluator = False, ss_linkGenerator = False\<rparr>"

text \<open>\<open>Initialize\<close> carries the user and \<^verbatim>\<open>action.loginMethod\<close>; the two helper objects are present or not.\<close>

datatype session_action = Initialize json json | Logout | SInvalidate | SOther

fun session_reducer :: "session_action \<Rightarrow> session_state \<Rightarrow> session_state" where
  "session_reducer (Initialize user method1) s =
     s\<lparr>ss_user := user, ss_initialized := True, ss_loginMethod := method1,
       ss_accessEvaluator := True, ss_linkGenerator := True\<rparr>"
| "session_reducer Logout s = s\<lparr>ss_user := JNull, ss_loginMethod := JNull\<rparr>"
| "session_reducer SInvalidate s = s\<lparr>ss_user := JNull, ss_initialized := True\<rparr>"
| "session_reducer SOther s = s"

text \<open>
  \<^verbatim>\<open>initializeSession\<close> dispatches the method under the name \<^verbatim>\<open>authMethod\<close>, which the
  reducer does not read: it stores \<^verbatim>\<open>action.loginMethod\<close>, undefined.
\<close>

definition initializeSession_action :: "json \<Rightarrow> json \<Rightarrow> session_action" where
  "initializeSession_action user authMethod = Initialize user JUndef"

record location_state =
  lo_current :: json
  lo_previous :: json

definition location_initialState :: location_state where
  "location_initialState = \<lparr>lo_current = JNull, lo_previous = JNull\<rparr>"

datatype location_action = LInvalidate | LChange json | LOther

fun location_reducer :: "location_action \<Rightarrow> location_state \<Rightarrow> location_state" where
  "location_reducer LInvalidate s = location_initialState"
| "location_reducer (LChange payload) s = s\<lparr>lo_current := payload, lo_previous := lo_current s\<rparr>"
| "location_reducer LOther s = s"

interpretation location: total_slice "\<lambda>a s. Some (location_reducer a s)" location_initialState LInvalidate
  by unfold_locales simp_all

text \<open>\<open>podContainers\<close> is undefined until logs are selected.\<close>

record logs_state =
  lg_pods :: "string list"
  lg_containers :: "string list"
  lg_podContainers :: "string list option"

definition logs_initialState :: logs_state where
  "logs_initialState = \<lparr>lg_pods = [], lg_containers = [], lg_podContainers = None\<rparr>"

datatype logs_action = LogInvalidate | SelectLogsFor "string list" | LogOther

fun logs_reducer :: "logs_action \<Rightarrow> logs_state \<Rightarrow> logs_state" where
  "logs_reducer LogInvalidate s = logs_initialState"
| "logs_reducer (SelectLogsFor pcs) s = s\<lparr>lg_podContainers := Some pcs\<rparr>"
| "logs_reducer LogOther s = s"

interpretation logs: total_slice "\<lambda>a s. Some (logs_reducer a s)" logs_initialState LogInvalidate
  by unfold_locales simp_all

record terminal_state =
  te_pod :: json
  te_container :: json
  te_podContainer :: "string option"

definition terminal_initialState :: terminal_state where
  "terminal_initialState = \<lparr>te_pod = JNull, te_container = JNull, te_podContainer = None\<rparr>"

datatype terminal_action = TermInvalidate | SelectTerminalFor string | TermOther

fun terminal_reducer :: "terminal_action \<Rightarrow> terminal_state \<Rightarrow> terminal_state" where
  "terminal_reducer TermInvalidate s = terminal_initialState"
| "terminal_reducer (SelectTerminalFor pc) s = s\<lparr>te_podContainer := Some pc\<rparr>"
| "terminal_reducer TermOther s = s"

interpretation terminal: total_slice "\<lambda>a s. Some (terminal_reducer a s)" terminal_initialState TermInvalidate
  by unfold_locales simp_all

section \<open>Slices that survive the session: metrics, templates, API models, settings\<close>

text \<open>\<open>me_isFetching\<close> is undefined until the first request.\<close>

record metrics_state =
  me_cluster :: json
  me_namespace :: json
  me_node :: json
  me_pod :: json
  me_revision :: int
  me_isFetching :: "bool option"

definition metrics_initialState :: metrics_state where
  "metrics_initialState = \<lparr>me_cluster = JNull, me_namespace = JNull, me_node = JNull,
     me_pod = JNull, me_revision = 0, me_isFetching = None\<rparr>"

definition doComputeMetrics :: "metrics_state \<Rightarrow> json \<Rightarrow> metrics_state option" where
  "doComputeMetrics s metrics =
     (if truthy metrics then do {
        ns \<leftarrow> jget metrics ''namespace''; n \<leftarrow> jget metrics ''node'';
        c \<leftarrow> jget metrics ''cluster''; p \<leftarrow> jget metrics ''pod'';
        Some (s\<lparr>me_namespace := ns, me_node := n, me_cluster := c, me_pod := p,
                me_revision := me_revision s + 1\<rparr>)
      } else Some s)"

datatype metrics_action = ReceiveMetrics json | StartFetching | DoneFetching | MetricsOther

fun metrics_reducer :: "metrics_action \<Rightarrow> metrics_state \<Rightarrow> metrics_state option" where
  "metrics_reducer (ReceiveMetrics m) s = doComputeMetrics s m"
| "metrics_reducer StartFetching s = Some (s\<lparr>me_isFetching := Some True\<rparr>)"
| "metrics_reducer DoneFetching s = Some (s\<lparr>me_isFetching := Some False\<rparr>)"
| "metrics_reducer MetricsOther s = Some s"

text \<open>Templates by group, then by name.\<close>

type_synonym templates = "string obj obj"

datatype templates_action = ReceiveTemplates templates | TemplatesOther

fun templates_reducer :: "templates_action \<Rightarrow> templates \<Rightarrow> templates" where
  "templates_reducer (ReceiveTemplates t) s = t"
| "templates_reducer TemplatesOther s = s"

record apimodels_state =
  am_models :: json
  am_swagger :: json
  am_kinds :: json

definition apimodels_initialState :: apimodels_state where
  "apimodels_initialState = \<lparr>am_models = JNull, am_swagger = JNull, am_kinds = JNull\<rparr>"

definition put_kind :: "json \<Rightarrow> json obj \<Rightarrow> json obj option" where
  "put_kind kind m = do { n \<leftarrow> jget kind ''name''; Some (oset (to_str n) kind m) }"

definition doReceiveKinds :: "apimodels_state \<Rightarrow> json \<Rightarrow> apimodels_state option" where
  "doReceiveKinds s kinds = do {
     ks \<leftarrow> iter_of kinds;
     kindMap \<leftarrow> foldM put_kind ks [];
     Some (s\<lparr>am_kinds := JObj kindMap\<rparr>)
   }"

datatype apimodels_action = ReceiveModels json | ReceiveSwagger json | ReceiveKinds json | ModelsOther

fun apimodels_reducer :: "apimodels_action \<Rightarrow> apimodels_state \<Rightarrow> apimodels_state option" where
  "apimodels_reducer (ReceiveModels m) s = Some (s\<lparr>am_models := m\<rparr>)"
| "apimodels_reducer (ReceiveSwagger w) s = Some (s\<lparr>am_swagger := w\<rparr>)"
| "apimodels_reducer (ReceiveKinds ks) s = doReceiveKinds s ks"
| "apimodels_reducer ModelsOther s = Some s"

text \<open>
  The settings, and what \<^verbatim>\<open>localStorage\<close> holds for them. \<^verbatim>\<open>JSON.parse\<close> of what
  \<^verbatim>\<open>JSON.stringify\<close> wrote is the object itself.
\<close>

record settings =
  us_selectedNamespaces :: "bool obj"
  us_selectedKinds :: "bool obj"
  us_revision :: int

definition settings_initialState :: "settings option \<Rightarrow> settings" where
  "settings_initialState savedState =
     (case savedState of Some s \<Rightarrow> s
      | None \<Rightarrow> \<lparr>us_selectedNamespaces = [], us_selectedKinds = [], us_revision = 0\<rparr>)"

definition doSelect :: "bool obj option \<Rightarrow> bool obj option \<Rightarrow> bool \<Rightarrow>
    settings \<times> settings option \<Rightarrow> settings \<times> settings option" where
  "doSelect namespaces kinds save s =
     (let newState = \<lparr>us_selectedNamespaces = (case namespaces of Some n \<Rightarrow> n | None \<Rightarrow> us_selectedNamespaces (fst s)),
                      us_selectedKinds = (case kinds of Some k \<Rightarrow> k | None \<Rightarrow> us_selectedKinds (fst s)),
                      us_revision = us_revision (fst s) + 1\<rparr>
      in (newState, if save then Some newState else snd s))"

datatype settings_action =
    SelectNamespaces "bool obj option"
  | PutSettings "bool obj option" "bool obj option" bool
  | SettingsOther

fun settings_reducer :: "settings_action \<Rightarrow> settings \<times> settings option \<Rightarrow> settings \<times> settings option" where
  "settings_reducer (SelectNamespaces ns) s = doSelect ns None False s"
| "settings_reducer (PutSettings ns ks save) s = doSelect ns ks save s"
| "settings_reducer SettingsOther s = s"

section \<open>Errors are identified by their number\<close>

definition errors_ok :: "int \<times> errors_state \<Rightarrow> bool" where
  "errors_ok s \<longleftrightarrow> sorted_wrt (\<lambda>a b. er_id a > er_id b) (ers_errors (snd s))
     \<and> list_all (\<lambda>e. er_id e \<le> fst s) (ers_errors (snd s))"

inductive errors_step :: "int \<times> errors_state \<Rightarrow> int \<times> errors_state \<Rightarrow> bool" where
  add: "errors_step s (addError e sev m t b s)"
| clear: "errors_step s (clearErrors es s)"
| latest: "errors_step s (clearLatestError s)"
| invalidate: "errors_step s (fst s, errors_reducer ErrInvalidate (snd s))"

inductive_cases errors_stepE [consumes 1, case_names add clear latest invalidate]: "errors_step s t"

lemma errors_ok_step: "errors_step s t \<Longrightarrow> errors_ok s \<Longrightarrow> errors_ok t"
proof (induction rule: errors_step.induct)
  case (add s e sev m t b)
  then show ?case
    by (force simp: errors_ok_def addError_def doAddError_def Let_def list_all_iff)
qed (auto simp: errors_ok_def clearErrors_def clearLatestError_def doClearErrors_def sorted_wrt_filter
    list_all_iff errors_initialState_def)

definition errors_reachable :: "int \<times> errors_state \<Rightarrow> bool" where
  "errors_reachable s \<longleftrightarrow> errors_step\<^sup>*\<^sup>* (0, errors_initialState) s"

lemma errors_ok_init: "errors_ok (0, errors_initialState)"
  by (simp add: errors_ok_def errors_initialState_def)

lemma errors_reachable_ok: "errors_reachable s \<Longrightarrow> errors_ok s"
  unfolding errors_reachable_def
  by (induction rule: rtranclp_induct) (auto intro: errors_ok_init errors_ok_step)

lemma errors_ids_distinct: "errors_ok s \<Longrightarrow> distinct (map er_id (ers_errors (snd s)))"
  unfolding errors_ok_def distinct_map
  by (auto simp: sorted_wrt_iff_nth_less distinct_conv_nth inj_on_def in_set_conv_nth)
    (metis linorder_neqE_nat order_less_irrefl)+

text \<open>Clearing one error removes that error and no other.\<close>

lemma clear_one:
  assumes "errors_ok s" "e \<in> set (ers_errors (snd s))"
  shows "ers_errors (snd (clearErrors [e] s)) = remove1 e (ers_errors (snd s))"
proof -
  have d: "distinct (map er_id (ers_errors (snd s)))" by (rule errors_ids_distinct [OF assms(1)])
  then have inj: "inj_on er_id (set (ers_errors (snd s)))" by (simp add: distinct_map)
  have "filter (\<lambda>x. er_id x \<noteq> er_id e) (ers_errors (snd s)) = filter (\<lambda>x. x \<noteq> e) (ers_errors (snd s))"
    using inj assms(2) by (intro filter_cong) (auto dest: inj_onD)
  also have "\<dots> = remove1 e (ers_errors (snd s))"
    using d by (simp add: distinct_map distinct_remove1_removeAll removeAll_filter_not_eq eq_commute)
  finally show ?thesis by (simp add: clearErrors_def doClearErrors_def)
qed

lemma errors_reachable_step: "errors_reachable s \<Longrightarrow> errors_step s t \<Longrightarrow> errors_reachable t"
  unfolding errors_reachable_def by (rule rtranclp.rtrancl_into_rtrancl)

section \<open>The properties\<close>

text \<open>Every error on record has a number of its own, so pressing the retry of an error runs the
  caller's action on a list from which that error, and no other, is gone.\<close>

theorem retry_clears_one:
  assumes "errors_reachable s" "e \<in> set (ers_errors (snd s))" "er_retries e"
  shows "distinct (map er_id (ers_errors (snd s)))
    \<and> (\<exists>t. run_retry e k s = k t \<and> ers_errors (snd t) = remove1 e (ers_errors (snd s)) \<and> fst t = fst s)"
proof -
  have ok: "errors_ok s" by (rule errors_reachable_ok [OF assms(1)])
  show ?thesis
    using errors_ids_distinct [OF ok] clear_one [OF ok assms(2)] assms(3)
    by (intro conjI exI [of _ "clearErrors [e] s"]) (simp_all add: run_retry_def clearErrors_def)
qed

definition demo_errors :: "int \<times> errors_state" where
  "demo_errors = addError JNull (JStr ''error'') (JStr ''b'') JUndef False
     (addError JNull (JStr ''error'') (JStr ''a'') (JStr ''Try Again'') True (0, errors_initialState))"

theorem retry_clears_one_witness:
  "\<exists>t. run_retry (last (ers_errors (snd demo_errors))) id demo_errors = t
     \<and> map er_id (ers_errors (snd t)) = [2]"
proof -
  have "errors_reachable (0, errors_initialState)" by (simp add: errors_reachable_def)
  then have r: "errors_reachable demo_errors"
    unfolding demo_errors_def by (intro errors_reachable_step [OF _ errors_step.add])
  let ?e = "last (ers_errors (snd demo_errors))"
  have e: "?e \<in> set (ers_errors (snd demo_errors))" "er_retries ?e" by code_simp+
  have "map er_id (remove1 ?e (ers_errors (snd demo_errors))) = [2]" by code_simp
  with retry_clears_one [OF r e, of id] show ?thesis by auto
qed

text \<open>After the session is invalidated, what the errors, location, logs and terminal slices become
  depends only on the actions dispatched from then on: two users of one browser whose sessions
  began with different histories see the same.\<close>

theorem sessions_are_isolated:
  "foldM (\<lambda>a s. Some (errors_reducer a s)) (b1 @ ErrInvalidate # eas) e1
     = foldM (\<lambda>a s. Some (errors_reducer a s)) (b2 @ ErrInvalidate # eas) e2
   \<and> foldM (\<lambda>a s. Some (location_reducer a s)) (c1 @ LInvalidate # las) l1
     = foldM (\<lambda>a s. Some (location_reducer a s)) (c2 @ LInvalidate # las) l2
   \<and> foldM (\<lambda>a s. Some (logs_reducer a s)) (d1 @ LogInvalidate # gas) g1
     = foldM (\<lambda>a s. Some (logs_reducer a s)) (d2 @ LogInvalidate # gas) g2
   \<and> foldM (\<lambda>a s. Some (terminal_reducer a s)) (t1 @ TermInvalidate # tas) s1
     = foldM (\<lambda>a s. Some (terminal_reducer a s)) (t2 @ TermInvalidate # tas) s2"
  by (intro conjI errors.forgets location.forgets logs.forgets terminal.forgets)

end
