(* ===== verification/RateLimit.thy ===== *)
theory RateLimit
  imports Prelude
begin

text \<open>
  Two contracts of the watchers. \<open>rate_limit\<close>: an operation that lets an event of a key pass only
  when the last one that passed is more than \<open>gap\<close> milliseconds old; the events of a key that pass in any
  run are then spaced by the gap. \<open>retrying\<close>: an error handler that schedules a reconnection only
  while its count of tries is below a limit; the number of reconnections is then bounded.
\<close>

locale rate_limit =
  fixes handle :: "int \<Rightarrow> 'e \<Rightarrow> 's \<Rightarrow> (bool \<times> 's) option"
    and key :: "'e \<Rightarrow> 'k option"
    and last_seen :: "'s \<Rightarrow> 'k \<Rightarrow> int" and gap :: int
  assumes gap: "0 \<le> gap"
    and limited: "handle now e s = Some (b, t) \<Longrightarrow> key e = Some k \<Longrightarrow> b \<longleftrightarrow> gap < now - last_seen s k"
    and seen: "handle now e s = Some (b, t) \<Longrightarrow> key e' = Some j \<Longrightarrow>
      last_seen t j = (if b \<and> key e = Some j then now else last_seen s j)"
begin

text \<open>The times at which the events of the key \<open>j\<close> pass, in a run of times and events.\<close>

fun passed :: "'k \<Rightarrow> (int \<times> 'e) list \<Rightarrow> 's \<Rightarrow> int list option" where
  "passed j [] s = Some []"
| "passed j ((now, e) # es) s = do {
     (b, t) \<leftarrow> handle now e s;
     ts \<leftarrow> passed j es t;
     Some (if b \<and> key e = Some j then now # ts else ts)
   }"

lemma passed_after:
  "key e' = Some j \<Longrightarrow> passed j es s = Some ts \<Longrightarrow> sorted_wrt (\<lambda>a b. gap < b - a) (last_seen s j # ts)"
proof (induction es arbitrary: s ts)
  case Nil
  then show ?case by simp
next
  case (Cons p es)
  obtain now e where p: "p = (now, e)" by (cases p)
  from Cons.prems(2) obtain b t us where h: "handle now e s = Some (b, t)" "passed j es t = Some us"
    "ts = (if b \<and> key e = Some j then now # us else us)"
    by (auto simp: p bind_Some_iff)
  have IH: "sorted_wrt (\<lambda>a b. gap < b - a) (last_seen t j # us)" by (rule Cons.IH [OF Cons.prems(1) h(2)])
  have l: "last_seen t j = (if b \<and> key e = Some j then now else last_seen s j)"
    by (rule seen [OF h(1) Cons.prems(1)])
  show ?case
  proof (cases "b \<and> key e = Some j")
    case True
    then have "gap < now - last_seen s j" using limited [OF h(1)] by blast
    with IH l True gap h(3) show ?thesis by auto
  next
    case False
    with IH l h(3) show ?thesis by simp
  qed
qed

lemma spaced: "key e' = Some j \<Longrightarrow> passed j es s = Some ts \<Longrightarrow> sorted_wrt (\<lambda>a b. gap < b - a) ts"
  using passed_after by fastforce

end

locale retrying =
  fixes step :: "'e \<Rightarrow> 's \<Rightarrow> 's \<times> bool" and tries :: "'s \<Rightarrow> nat" and limit :: nat
  assumes schedules: "snd (step e s) \<Longrightarrow> tries s < limit \<and> tries (fst (step e s)) = Suc (tries s)"
    and keeps: "\<not> snd (step e s) \<Longrightarrow> tries s \<le> tries (fst (step e s))"
begin

text \<open>The reconnections scheduled in a run.\<close>

primrec scheduled :: "'e list \<Rightarrow> 's \<Rightarrow> nat" where
  "scheduled [] s = 0"
| "scheduled (e # es) s = (if snd (step e s) then 1 else 0) + scheduled es (fst (step e s))"

lemma scheduled_le: "scheduled es s \<le> limit - tries s"
proof (induction es arbitrary: s)
  case (Cons e es)
  have IH: "scheduled es (fst (step e s)) \<le> limit - tries (fst (step e s))" by (rule Cons.IH)
  show ?case
  proof (cases "snd (step e s)")
    case True
    with IH schedules [OF True] show ?thesis by simp linarith
  next
    case False
    with IH keeps [OF False] show ?thesis by simp
  qed
qed simp

end

end
