(* ===== verification/Watchers.thy ===== *)
theory Watchers
  imports JsValue RateLimit
begin

text \<open>
  The two watchers, \<^verbatim>\<open>src/utils/MultiResourceWatcher.js\<close> and
  \<^verbatim>\<open>src/utils/ResourceKindWatcher.js\<close>: messages of a web socket are throttled and queued, a timer
  drains the queue into the store, and an error of the socket reconnects a few times. Time is an
  argument (\<^verbatim>\<open>Date.now()\<close>), what is dispatched is a list of \<open>dispatched\<close> values.
\<close>

section \<open>Throttling\<close>

record watcher =
  w_throttled :: "int obj"
  w_lastPurge :: int
  w_events :: "json list"

definition multi_throttles :: "int obj" where
  "multi_throttles =
     [(''MODIFIED/Endpoints/kube-system/kube-controller-manager'', 10000),
      (''MODIFIED/Endpoints/kube-system/kube-scheduler'', 10000)]"

definition kind_throttles :: "int obj" where
  "kind_throttles = [(''Endpoints/MODIFIED'', 10000)]"

definition throttlePurgeInterval :: int where
  "throttlePurgeInterval = 2 * 60 * 1000"

text \<open>
  The entry \<open>t\<close> is deleted when it is older than \<^verbatim>\<open>throttles[t]\<close>; a comparison with
  \<^verbatim>\<open>undefined\<close> is false.
\<close>

definition purge_with :: "int obj \<Rightarrow> int \<Rightarrow> watcher \<Rightarrow> watcher" where
  "purge_with throttles now w =
     (if now - w_lastPurge w > throttlePurgeInterval
      then w\<lparr>w_throttled := filter (\<lambda>(t, lastSeen).
                \<not> (case oget throttles t of Some throttle \<Rightarrow> now - lastSeen > throttle | None \<Rightarrow> False))
                (w_throttled w),
             w_lastPurge := now\<rparr>
      else w)"

definition purgeThrottles_multi :: "int \<Rightarrow> watcher \<Rightarrow> watcher" where
  "purgeThrottles_multi = purge_with multi_throttles"

definition purgeThrottles_kind :: "int \<Rightarrow> watcher \<Rightarrow> watcher" where
  "purgeThrottles_kind = purge_with kind_throttles"

definition last_seen_at :: "watcher \<Rightarrow> string \<Rightarrow> int" where
  "last_seen_at w key = (case oget (w_throttled w) key of Some t \<Rightarrow> t | None \<Rightarrow> 0)"

text \<open>The body of the guard of \<^verbatim>\<open>applyThrottles\<close>, for a given throttle and key: does the event pass?\<close>

definition pass_throttle ::
  "(int \<Rightarrow> watcher \<Rightarrow> watcher) \<Rightarrow> int \<Rightarrow> string \<Rightarrow> int \<Rightarrow> watcher \<Rightarrow> bool \<times> watcher" where
  "pass_throttle purge throttle key now w =
     (let lastSeen = last_seen_at w key; w = purge now w
      in if now - lastSeen > throttle then (True, w\<lparr>w_throttled := oset key now (w_throttled w)\<rparr>)
         else (False, w))"

definition throttle_key :: "json \<Rightarrow> json \<Rightarrow> string option" where
  "throttle_key resource type1 = do {
     md \<leftarrow> jget resource ''metadata''; ns \<leftarrow> jget md ''namespace''; nm \<leftarrow> jget md ''name'';
     kind \<leftarrow> jget resource ''kind'';
     Some (to_str ns @ ''/'' @ to_str kind @ ''/'' @ to_str nm @ ''/'' @ to_str type1)
   }"

definition multi_throttle :: "json \<Rightarrow> json \<Rightarrow> int option option" where
  "multi_throttle resource type1 = do {
     kind \<leftarrow> jget resource ''kind'';
     md \<leftarrow> jget resource ''metadata''; nm \<leftarrow> jget md ''name'';
     let k = to_str type1 @ ''/'' @ to_str kind;
     Some (case oget multi_throttles (k @ ''/'' @ to_str nm @ ''/'' @ to_str nm) of
             Some n \<Rightarrow> Some n | None \<Rightarrow> oget multi_throttles k)
   }"

definition applyThrottles_multi :: "int \<Rightarrow> json \<Rightarrow> watcher \<Rightarrow> (bool \<times> watcher) option" where
  "applyThrottles_multi now data w = do {
     resource \<leftarrow> jget data ''object''; type1 \<leftarrow> jget data ''type'';
     throttle \<leftarrow> multi_throttle resource type1;
     (case throttle of
        None \<Rightarrow> Some (True, w)
      | Some n \<Rightarrow> do { key \<leftarrow> throttle_key resource type1;
                      Some (pass_throttle purgeThrottles_multi n key now w) })
   }"

definition applyThrottles_kind :: "int \<Rightarrow> json \<Rightarrow> watcher \<Rightarrow> (bool \<times> watcher) option" where
  "applyThrottles_kind now data w = do {
     resource \<leftarrow> jget data ''object''; type1 \<leftarrow> jget data ''type'';
     kind \<leftarrow> jget resource ''kind'';
     (case oget kind_throttles (to_str kind @ ''/'' @ to_str type1) of
        None \<Rightarrow> Some (True, w)
      | Some n \<Rightarrow> do { key \<leftarrow> throttle_key resource type1;
                      Some (pass_throttle purgeThrottles_kind n key now w) })
   }"

text \<open>\<open>data\<close> is the parsed message; a message that passes is an object, hence truthy.\<close>

definition enqueue :: "json \<Rightarrow> bool \<times> watcher \<Rightarrow> watcher" where
  "enqueue data r = (if fst r \<and> truthy data then (snd r)\<lparr>w_events := w_events (snd r) @ [data]\<rparr> else snd r)"

definition onEvent_multi :: "int \<Rightarrow> json \<Rightarrow> watcher \<Rightarrow> watcher option" where
  "onEvent_multi now data w = map_option (enqueue data) (applyThrottles_multi now data w)"

definition onEvent_kind :: "int \<Rightarrow> json \<Rightarrow> watcher \<Rightarrow> watcher option" where
  "onEvent_kind now data w = map_option (enqueue data) (applyThrottles_kind now data w)"

section \<open>Draining the queue\<close>

datatype dispatched = DispatchEvent json | DispatchPut json bool | DispatchRemove json

text \<open>What one queued event dispatches; \<open>Some None\<close> is the early return of an unknown type.\<close>

definition dispatch_event :: "json \<Rightarrow> dispatched option option" where
  "dispatch_event data = do {
     object \<leftarrow> jget data ''object'';
     kind \<leftarrow> (if truthy object then jget object ''kind'' else Some JUndef);
     if truthy object \<and> kind = JStr ''Event'' then Some (Some (DispatchEvent data))
     else do {
       type1 \<leftarrow> jget data ''type'';
       Some (if type1 = JStr ''ADDED'' then Some (DispatchPut object True)
             else if type1 = JStr ''MODIFIED'' then Some (DispatchPut object False)
             else if type1 = JStr ''DELETED'' then Some (DispatchRemove object)
             else None)
     }
   }"

text \<open>\<^verbatim>\<open>processEvents\<close>, the same text in both classes: what is dispatched, and the queue left.\<close>

fun processEvents :: "json list \<Rightarrow> (dispatched list \<times> json list) option" where
  "processEvents [] = Some ([], [])"
| "processEvents (data # q) = do {
     d \<leftarrow> dispatch_event data;
     (case d of
        None \<Rightarrow> Some ([], q)
      | Some x \<Rightarrow> do { (ds, q') \<leftarrow> processEvents q; Some (x # ds, q') })
   }"

definition processEvents_kind :: "json list \<Rightarrow> (dispatched list \<times> json list) option" where
  "processEvents_kind = processEvents"

text \<open>\<open>n\<close> ticks of the timer with no message in between.\<close>

fun ticks :: "nat \<Rightarrow> json list \<Rightarrow> (dispatched list \<times> json list) option" where
  "ticks 0 q = Some ([], q)"
| "ticks (Suc n) q = do {
     (ds, q1) \<leftarrow> processEvents q;
     (es, q2) \<leftarrow> ticks n q1;
     Some (ds @ es, q2)
   }"

section \<open>Sockets\<close>

text \<open>
  \<^verbatim>\<open>socket.onerror\<close> on a socket with \<open>tries\<close>: the new count, and whether a reload is scheduled (else the
  error is reported). A web socket fires \<^verbatim>\<open>error\<close> once.
\<close>

definition onerror :: "nat \<Rightarrow> nat \<times> bool" where
  "onerror tries = (if tries < 3 then (tries + 1, True) else (tries, False))"

text \<open>The tries of the sockets by url; \<^verbatim>\<open>initSocket\<close> takes over the count of the socket it replaces.\<close>

definition initSocket_kind :: "string \<Rightarrow> nat obj \<Rightarrow> nat obj" where
  "initSocket_kind url sockets =
     oset url (case oget sockets url of Some n \<Rightarrow> n | None \<Rightarrow> 0) sockets"

definition reload_kind :: "string \<Rightarrow> nat obj \<Rightarrow> nat obj" where
  "reload_kind url sockets = initSocket_kind url sockets"

definition onerror_kind :: "string \<Rightarrow> nat obj \<Rightarrow> nat obj \<times> bool" where
  "onerror_kind url sockets =
     (case oget sockets url of
        Some n \<Rightarrow> (oset url (fst (onerror n)) sockets, snd (onerror n))
      | None \<Rightarrow> (sockets, False))"

definition initSocket_multi :: "nat option \<Rightarrow> nat" where
  "initSocket_multi socket = (case socket of Some n \<Rightarrow> n | None \<Rightarrow> 0)"

definition reload_multi :: "nat option \<Rightarrow> nat option" where
  "reload_multi socket = Some (initSocket_multi socket)"

definition websocketUrl :: "string \<Rightarrow> string \<Rightarrow> json \<Rightarrow> json \<Rightarrow> json \<Rightarrow> string option" where
  "websocketUrl scheme host kubeKind resourceVersion ns = do {
     base \<leftarrow> jget kubeKind ''base''; plural \<leftarrow> jget kubeKind ''plural'';
     Some (scheme @ ''://'' @ host @ ''/proxy/'' @ to_str base @ ''/''
       @ (if truthy ns \<and> ns \<noteq> JStr ''*'' then ''namespaces/'' @ to_str ns @ ''/'' else [])
       @ to_str plural @ ''?watch=true&resourceVersion='' @ to_str resourceVersion)
   }"

definition initialize_kind ::
  "string \<Rightarrow> string \<Rightarrow> json \<Rightarrow> json \<Rightarrow> json list \<Rightarrow> int \<Rightarrow> (nat obj \<times> watcher) option" where
  "initialize_kind scheme host kubeKind resourceVersion namespaces now = do {
     urls \<leftarrow> foldM (\<lambda>ns us. map_option (\<lambda>u. us @ [u])
               (websocketUrl scheme host kubeKind (js_or resourceVersion (JNum 0)) ns)) namespaces [];
     Some (fold initSocket_kind urls [], \<lparr>w_throttled = [], w_lastPurge = now, w_events = []\<rparr>)
   }"

definition multi_url :: "string \<Rightarrow> string \<Rightarrow> json \<Rightarrow> string" where
  "multi_url scheme host maxResourceVersion =
     scheme @ ''://'' @ host @ ''/proxy/_/multiwatch?resourceVersion='' @ to_str maxResourceVersion"

definition initialize_multi :: "int \<Rightarrow> nat option \<Rightarrow> nat option \<times> watcher" where
  "initialize_multi now socket =
     (reload_multi socket, \<lparr>w_throttled = [], w_lastPurge = now, w_events = []\<rparr>)"

section \<open>The throttles as rate limits\<close>

lemma purge_keeps:
  assumes "oget throttles k = None"
  shows "oget (w_throttled (purge_with throttles now w)) k = oget (w_throttled w) k"
proof -
  have "oget (filter (\<lambda>(t, v). \<not> (case oget throttles t of Some n \<Rightarrow> now - v > n | None \<Rightarrow> False)) o1) k = oget o1 k"
    for o1 :: "int obj"
    using assms by (induction o1) auto
  then show ?thesis by (simp add: purge_with_def)
qed

text \<open>A key of an entry has three slashes, a key of the table of the kind watcher one.\<close>

lemma throttle_key_foreign: "throttle_key r t = Some k \<Longrightarrow> oget kind_throttles k = None"
proof -
  assume "throttle_key r t = Some k"
  then obtain a b c d where k: "k = a @ ''/'' @ b @ ''/'' @ c @ ''/'' @ d"
    by (auto simp: throttle_key_def bind_Some_iff)
  have "count_list k (CHR ''/'') \<ge> 3" by (simp add: k)
  then have "k \<noteq> ''Endpoints/MODIFIED''" by auto
  then show ?thesis by (simp add: kind_throttles_def)
qed

lemma last_seen_purge:
  "oget throttles k = None \<Longrightarrow> last_seen_at (purge_with throttles now w) k = last_seen_at w k"
  by (simp add: last_seen_at_def purge_keeps)

lemma pass_throttle_fst: "fst (pass_throttle p n k now w) \<longleftrightarrow> now - last_seen_at w k > n"
  by (simp add: pass_throttle_def Let_def)

lemma pass_throttle_seen:
  assumes "oget throttles j = None"
  shows "last_seen_at (snd (pass_throttle (purge_with throttles) n k now w)) j =
    (if j = k \<and> fst (pass_throttle (purge_with throttles) n k now w) then now else last_seen_at w j)"
  using last_seen_purge [OF assms, of now w]
  by (auto simp: pass_throttle_def Let_def) (auto simp: last_seen_at_def)

lemma last_seen_enqueue [simp]: "last_seen_at (enqueue data r) k = last_seen_at (snd r) k"
  by (simp add: enqueue_def last_seen_at_def)

text \<open>The key under which \<^verbatim>\<open>ResourceKindWatcher\<close> throttles a message.\<close>

definition throttled_as :: "json \<Rightarrow> string option" where
  "throttled_as data = do {
     resource \<leftarrow> jget data ''object''; type1 \<leftarrow> jget data ''type''; kind \<leftarrow> jget resource ''kind'';
     n \<leftarrow> oget kind_throttles (to_str kind @ ''/'' @ to_str type1);
     throttle_key resource type1
   }"

definition handle_kind :: "int \<Rightarrow> json \<Rightarrow> watcher \<Rightarrow> (bool \<times> watcher) option" where
  "handle_kind now data w = map_option (\<lambda>r. (fst r, enqueue data r)) (applyThrottles_kind now data w)"

lemma onEvent_handle: "onEvent_kind now data w = map_option snd (handle_kind now data w)"
  by (simp add: onEvent_kind_def handle_kind_def option.map_comp comp_def)

lemma throttled_as_foreign: "throttled_as data = Some k \<Longrightarrow> oget kind_throttles k = None"
  unfolding throttled_as_def bind_Some_iff by (blast dest: throttle_key_foreign)

lemma kind_throttle_value: "oget kind_throttles k = Some n \<Longrightarrow> n = 10000"
  by (auto simp: kind_throttles_def split: if_splits)

lemma handle_kind_cases:
  assumes "handle_kind now data w = Some (b, t)"
  obtains (free) "throttled_as data = None" "b" "t = enqueue data (True, w)"
  | (throttled) k where "throttled_as data = Some k"
      "b = fst (pass_throttle purgeThrottles_kind 10000 k now w)"
      "t = enqueue data (pass_throttle purgeThrottles_kind 10000 k now w)"
proof -
  from assms obtain r where r: "applyThrottles_kind now data w = Some r" "b = fst r" "t = enqueue data r"
    by (auto simp: handle_kind_def)
  from r(1) obtain resource type1 kind where c: "jget data ''object'' = Some resource"
    "jget data ''type'' = Some type1" "jget resource ''kind'' = Some kind"
    "(case oget kind_throttles (to_str kind @ ''/'' @ to_str type1) of
        None \<Rightarrow> Some (True, w)
      | Some n \<Rightarrow> do { key \<leftarrow> throttle_key resource type1;
                      Some (pass_throttle purgeThrottles_kind n key now w) }) = Some r"
    unfolding applyThrottles_kind_def bind_Some_iff by blast
  show ?thesis
  proof (cases "oget kind_throttles (to_str kind @ ''/'' @ to_str type1)")
    case None
    have "throttled_as data = None" unfolding throttled_as_def by (simp only: c(1-3) None Option.bind.simps)
    moreover have "r = (True, w)" using c(4) None by simp
    ultimately show ?thesis using free r(2,3) by simp
  next
    case (Some n)
    then have n: "n = 10000" by (rule kind_throttle_value)
    from c(4) Some obtain k where k: "throttle_key resource type1 = Some k"
      "r = pass_throttle purgeThrottles_kind n k now w" by (auto simp: bind_Some_iff)
    have "throttled_as data = Some k" unfolding throttled_as_def by (simp only: c(1-3) Some k(1) Option.bind.simps)
    with k(2) n r(2,3) show ?thesis using throttled by simp
  qed
qed

interpretation kind_limit: rate_limit handle_kind throttled_as last_seen_at 10000
proof
  fix now data w b t k
  assume "handle_kind now data w = Some (b, t)" "throttled_as data = Some k"
  then show "b \<longleftrightarrow> 10000 < now - last_seen_at w k"
    by (cases rule: handle_kind_cases) (simp_all add: pass_throttle_fst)
next
  fix now data w b t data' j
  assume h: "handle_kind now data w = Some (b, t)" and "throttled_as data' = Some j"
  then have "oget kind_throttles j = None" by (simp add: throttled_as_foreign)
  note seen = pass_throttle_seen [OF this, folded purgeThrottles_kind_def]
  from h show "last_seen_at t j = (if b \<and> throttled_as data = Some j then now else last_seen_at w j)"
    by (cases rule: handle_kind_cases) (auto simp: seen)
qed simp

text \<open>What happens to the sockets of a watch: one fails, or its reload is due.\<close>

datatype 'u socket_event = Fails 'u | Reloads 'u

definition tries_of :: "string \<Rightarrow> nat obj \<Rightarrow> nat" where
  "tries_of u sockets = (case oget sockets u of Some n \<Rightarrow> n | None \<Rightarrow> 0)"

text \<open>The new sockets, and whether a reconnection to \<open>u\<close> was scheduled.\<close>

fun kind_socket :: "string \<Rightarrow> string socket_event \<Rightarrow> nat obj \<Rightarrow> nat obj \<times> bool" where
  "kind_socket u (Fails url) sockets =
     (fst (onerror_kind url sockets), url = u \<and> snd (onerror_kind url sockets))"
| "kind_socket u (Reloads url) sockets = (reload_kind url sockets, False)"

fun multi_socket :: "unit socket_event \<Rightarrow> nat option \<Rightarrow> nat option \<times> bool" where
  "multi_socket (Fails _) socket =
     (case socket of Some n \<Rightarrow> (Some (fst (onerror n)), snd (onerror n)) | None \<Rightarrow> (None, False))"
| "multi_socket (Reloads _) socket = (reload_multi socket, False)"

interpretation kind_retry: retrying "kind_socket u" "tries_of u" 3 for u
proof
  fix e :: "string socket_event" and s
  assume "snd (kind_socket u e s)"
  then show "tries_of u s < 3 \<and> tries_of u (fst (kind_socket u e s)) = Suc (tries_of u s)"
    by (cases e) (auto simp: onerror_kind_def onerror_def tries_of_def split: option.splits if_splits)
next
  fix e :: "string socket_event" and s
  assume "\<not> snd (kind_socket u e s)"
  then show "tries_of u s \<le> tries_of u (fst (kind_socket u e s))"
    by (cases e) (auto simp: onerror_kind_def onerror_def tries_of_def reload_kind_def initSocket_kind_def
        split: option.splits if_splits)
qed

interpretation multi_retry: retrying multi_socket initSocket_multi 3
proof
  fix e :: "unit socket_event" and s
  assume "snd (multi_socket e s)"
  then show "initSocket_multi s < 3 \<and> initSocket_multi (fst (multi_socket e s)) = Suc (initSocket_multi s)"
    by (cases e) (auto simp: onerror_def initSocket_multi_def split: option.splits if_splits)
next
  fix e :: "unit socket_event" and s
  assume "\<not> snd (multi_socket e s)"
  then show "initSocket_multi s \<le> initSocket_multi (fst (multi_socket e s))"
    by (cases e) (auto simp: onerror_def initSocket_multi_def reload_multi_def split: option.splits if_splits)
qed

text \<open>The queue drains: unknown types cost one tick each, nothing else is lost or reordered.\<close>

definition known_events :: "json list \<Rightarrow> dispatched list" where
  "known_events q = List.map_filter (\<lambda>d. case dispatch_event d of Some x \<Rightarrow> x | None \<Rightarrow> None) q"

definition unknown_events :: "json list \<Rightarrow> json list" where
  "unknown_events q = filter (\<lambda>d. dispatch_event d = Some None) q"

lemma known_events_simps [simp]:
  "known_events [] = []"
  "known_events (d # q) = (case dispatch_event d of Some (Some x) \<Rightarrow> [x] | _ \<Rightarrow> []) @ known_events q"
  by (auto simp: known_events_def map_filter_simps split: option.splits)

lemma processEvents_result:
  assumes "list_all (\<lambda>d. dispatch_event d \<noteq> None) q"
  shows "\<exists>ds q'. processEvents q = Some (ds, q') \<and> known_events q = ds @ known_events q'
    \<and> length (unknown_events q') = length (unknown_events q) - 1
    \<and> (unknown_events q = [] \<longrightarrow> q' = []) \<and> list_all (\<lambda>d. dispatch_event d \<noteq> None) q'"
  using assms
proof (induction q)
  case Nil
  then show ?case by (simp add: unknown_events_def)
next
  case (Cons d q)
  then obtain x where x: "dispatch_event d = Some x" by auto
  show ?case
  proof (cases x)
    case None
    with x Cons.prems show ?thesis by (simp add: unknown_events_def)
  next
    case (Some y)
    with x Cons show ?thesis by (auto simp: unknown_events_def)
  qed
qed

lemma ticks_drain:
  "list_all (\<lambda>d. dispatch_event d \<noteq> None) q \<Longrightarrow> length (unknown_events q) < n \<Longrightarrow>
   ticks n q = Some (known_events q, [])"
proof (induction n arbitrary: q)
  case 0
  then show ?case by simp
next
  case (Suc n)
  obtain ds q' where r: "processEvents q = Some (ds, q')" "known_events q = ds @ known_events q'"
    "length (unknown_events q') = length (unknown_events q) - 1"
    "unknown_events q = [] \<longrightarrow> q' = []" "list_all (\<lambda>d. dispatch_event d \<noteq> None) q'"
    using processEvents_result [OF Suc.prems(1)] by blast
  have empty: "ticks m [] = Some ([], [])" for m by (induction m) simp_all
  show ?case
  proof (cases "unknown_events q = []")
    case True
    then show ?thesis using r empty by simp
  next
    case False
    then have "length (unknown_events q') < n" using r(3) Suc.prems(2) by (cases "unknown_events q") simp_all
    then have "ticks n q' = Some (known_events q', [])" by (rule Suc.IH [OF r(5)])
    then show ?thesis using r by simp
  qed
qed

section \<open>The throttle of MultiResourceWatcher\<close>

text \<open>
  \<^verbatim>\<open>applyThrottles\<close> of \<^verbatim>\<open>MultiResourceWatcher\<close> looks up \<^verbatim>\<open>type/kind/name/name\<close>, with the
  name in place of the namespace: on Kubernetes names, which hold no slash, no entry can match.
\<close>

lemma split_path4:
  "CHR ''/'' \<notin> set a \<Longrightarrow> CHR ''/'' \<notin> set b \<Longrightarrow> CHR ''/'' \<notin> set c \<Longrightarrow> CHR ''/'' \<notin> set d \<Longrightarrow>
   split_on (CHR ''/'') (a @ ''/'' @ b @ ''/'' @ c @ ''/'' @ d) = [a, b, c, d]"
  by (simp add: split_on_append)

lemma split_path2:
  "CHR ''/'' \<notin> set a \<Longrightarrow> CHR ''/'' \<notin> set b \<Longrightarrow> split_on (CHR ''/'') (a @ ''/'' @ b) = [a, b]"
  by (simp add: split_on_append)

lemma multi_table_split:
  "oget multi_throttles k \<noteq> None \<Longrightarrow>
   split_on (CHR ''/'') k = [''MODIFIED'', ''Endpoints'', ''kube-system'', ''kube-controller-manager'']
   \<or> split_on (CHR ''/'') k = [''MODIFIED'', ''Endpoints'', ''kube-system'', ''kube-scheduler'']"
  by (auto simp: multi_throttles_def split: if_splits)

text \<open>A watch message about a Kubernetes object.\<close>

definition watch_message :: "string \<Rightarrow> string \<Rightarrow> string \<Rightarrow> json \<Rightarrow> bool" where
  "watch_message type1 kind name data \<longleftrightarrow>
     (\<exists>resource md. jget data ''object'' = Some resource \<and> jget data ''type'' = Some (JStr type1)
        \<and> jget resource ''kind'' = Some (JStr kind) \<and> jget resource ''metadata'' = Some md
        \<and> jget md ''name'' = Some (JStr name)
        \<and> CHR ''/'' \<notin> set type1 \<and> CHR ''/'' \<notin> set kind \<and> CHR ''/'' \<notin> set name)"

lemma multi_never_throttles:
  assumes "watch_message type1 kind name data"
  shows "applyThrottles_multi now data w = Some (True, w)"
proof -
  from assms obtain resource md where m: "jget data ''object'' = Some resource"
    "jget data ''type'' = Some (JStr type1)" "jget resource ''kind'' = Some (JStr kind)"
    "jget resource ''metadata'' = Some md" "jget md ''name'' = Some (JStr name)"
    "CHR ''/'' \<notin> set type1" "CHR ''/'' \<notin> set kind" "CHR ''/'' \<notin> set name"
    unfolding watch_message_def by blast
  let ?p = "type1 @ ''/'' @ kind @ ''/'' @ name @ ''/'' @ name"
  have "\<not> (name = ''kube-system'' \<and> name = ''kube-controller-manager'')"
    "\<not> (name = ''kube-system'' \<and> name = ''kube-scheduler'')" by auto
  then have "oget multi_throttles ?p = None"
    using multi_table_split [of ?p] unfolding split_path4 [OF m(6-8) m(8)] list.inject by blast
  moreover have "oget multi_throttles (type1 @ ''/'' @ kind) = None"
    using multi_table_split [of "type1 @ ''/'' @ kind"]
    unfolding split_path2 [OF m(6,7)] list.inject by blast
  ultimately have "multi_throttle resource (JStr type1) = Some None"
    unfolding multi_throttle_def Let_def append_assoc by (simp only: m Option.bind.simps to_str.simps append_assoc option.case)
  then show ?thesis by (simp add: applyThrottles_multi_def m)
qed

section \<open>The properties\<close>

text \<open>C16: ResourceKindWatcher lets the modifications of one Endpoints object pass at most once in ten
  seconds, in every run of messages, even when the table of throttles is purged in between.\<close>

theorem kind_watcher_rate:
  assumes "throttled_as data = Some j" "kind_limit.passed j es w = Some ts"
  shows "sorted_wrt (\<lambda>a b. 10000 < b - a) ts"
  using assms by (rule kind_limit.spaced)

definition demo_modified :: json where
  "demo_modified = JObj [(''type'', JStr ''MODIFIED''), (''object'', JObj [(''kind'', JStr ''Endpoints''),
     (''metadata'', JObj [(''name'', JStr ''kube-scheduler''), (''namespace'', JStr ''kube-system'')])])]"

definition demo_watcher :: watcher where
  "demo_watcher = \<lparr>w_throttled = [], w_lastPurge = 0, w_events = []\<rparr>"

definition demo_times :: "(int \<times> json) list" where
  "demo_times = map (\<lambda>t. (t, demo_modified)) [200000, 205000, 210001]"

theorem kind_watcher_rate_witness:
  "\<exists>ts. kind_limit.passed ''kube-system/Endpoints/kube-scheduler/MODIFIED'' demo_times demo_watcher = Some ts
     \<and> ts = [200000, 210001] \<and> sorted_wrt (\<lambda>a b. 10000 < b - a) ts"
proof -
  let ?k = "''kube-system/Endpoints/kube-scheduler/MODIFIED''"
  have k: "throttled_as demo_modified = Some ?k" by code_simp
  have p: "kind_limit.passed ?k demo_times demo_watcher = Some [200000, 210001]"
    unfolding demo_times_def kind_limit.passed.simps list.map by code_simp
  show ?thesis using kind_watcher_rate [OF k p] p by blast
qed

text \<open>MultiResourceWatcher never throttles: whatever it has seen, every message about a Kubernetes
  object is queued, also those of the two objects that its table of throttles names.\<close>

theorem multi_watcher_unthrottled:
  assumes "watch_message type1 kind name data" "truthy data"
  shows "onEvent_multi now data w = Some (w\<lparr>w_events := w_events w @ [data]\<rparr>)"
  using multi_never_throttles [OF assms(1)] assms(2) by (simp add: onEvent_multi_def enqueue_def)

theorem multi_watcher_unthrottled_witness:
  "\<exists>w. onEvent_multi 1 demo_modified demo_watcher = Some w \<and> onEvent_multi 2 demo_modified w =
     Some (w\<lparr>w_events := [demo_modified, demo_modified]\<rparr>)"
proof -
  have m: "watch_message ''MODIFIED'' ''Endpoints'' ''kube-scheduler'' demo_modified" "truthy demo_modified"
    by (simp_all add: watch_message_def demo_modified_def)
  show ?thesis
    using multi_watcher_unthrottled [OF m] by (simp add: demo_watcher_def)
qed

text \<open>The timer drains the queue: with no message in between, one tick more than there are
  events of unknown types dispatches every other queued event, in the order of arrival, and leaves the
  queue empty.\<close>

theorem queue_drains:
  assumes "list_all (\<lambda>d. dispatch_event d \<noteq> None) q" "length (unknown_events q) < n"
  shows "ticks n q = Some (known_events q, [])"
  using assms by (rule ticks_drain)

definition demo_queue :: "json list" where
  "demo_queue = [JObj [(''type'', JStr ''ERROR''), (''object'', JObj [(''kind'', JStr ''Status'')])], demo_modified]"

theorem queue_drains_witness:
  "ticks 1 demo_queue = Some ([], [demo_modified])
   \<and> ticks 2 demo_queue = Some (known_events demo_queue, []) \<and> length (known_events demo_queue) = 1"
proof -
  have q: "list_all (\<lambda>d. dispatch_event d \<noteq> None) demo_queue" "length (unknown_events demo_queue) < 2"
    by code_simp+
  have "ticks 1 demo_queue = Some ([], [demo_modified])" "length (known_events demo_queue) = 1"
    by code_simp+
  with queue_drains [OF q] show ?thesis by blast
qed

text \<open>C17: However often the sockets of a watch fail and are reloaded, at most three reconnections to one
  url are ever scheduled, and at most three by MultiResourceWatcher: a reload hands its count of
  tries on to the new socket, and nothing resets it.\<close>

theorem reconnections_bounded:
  "kind_retry.scheduled u es sockets \<le> 3 - tries_of u sockets
   \<and> multi_retry.scheduled fs socket \<le> 3 - initSocket_multi socket"
  using kind_retry.scheduled_le multi_retry.scheduled_le by blast

end
