(* ===== verification/LogFollower.thy ===== *)
theory LogFollower
  imports JsValue RateLimit
begin

text \<open>
  Following the logs of containers, \<^verbatim>\<open>src/utils/LogFollower.js\<close>: the bounded buffer that all
  followers of a page share, and the follower of one container (its socket, the lines it formats,
  its retries and its end). Text decoding is a parameter: \<open>onEvent\<close> takes the decoded line.
\<close>

section \<open>The buffer\<close>

record log_buffer =
  lb_lines :: "string list"
  lb_maxSize :: nat
  lb_colorIndex :: nat
  lb_onPush :: "(string \<Rightarrow> bool) option"

definition new_buffer :: "nat \<Rightarrow> log_buffer" where
  "new_buffer maxSize = \<lparr>lb_lines = [], lb_maxSize = maxSize, lb_colorIndex = 0, lb_onPush = None\<rparr>"

definition defaultMaxSize :: nat where
  "defaultMaxSize = 2500"

definition accepts_line :: "log_buffer \<Rightarrow> string \<Rightarrow> bool" where
  "accepts_line b e = (case lb_onPush b of Some f \<Rightarrow> f e | None \<Rightarrow> True)"

definition log_push :: "string \<Rightarrow> log_buffer \<Rightarrow> log_buffer" where
  "log_push e b =
     (if \<not> accepts_line b e then b
      else (let lines = lb_lines b @ [e]; size = length lines
            in b\<lparr>lb_lines := (if size \<ge> lb_maxSize b then drop (size - lb_maxSize b) lines else lines)\<rparr>))"

definition colorCodes :: "string list" where
  "colorCodes = map (\<lambda>val. CHR 0x1B # ''[38;5;'' @ nat_str val @ ''m'') [153, 215, 230, 147, 14, 10, 11, 159, 255]"

definition logSuffix :: string where
  "logSuffix = CHR 0x1B # ''[0m''"

definition nextColor :: "log_buffer \<Rightarrow> string \<times> log_buffer" where
  "nextColor b =
     (let i = (lb_colorIndex b + 1) mod length colorCodes
      in (colorCodes ! i, b\<lparr>lb_colorIndex := i\<rparr>))"

section \<open>A follower\<close>

text \<open>
  \<open>lf_socket\<close> holds the tries of the socket, \<^term>\<open>None\<close> once destroyed. A destroyed follower has no
  buffer any more and its handlers are detached.
\<close>

record follower =
  lf_prefix :: string
  lf_url :: string
  lf_maxLines :: int
  lf_socket :: "nat option"

definition follower_url :: "string \<Rightarrow> string \<Rightarrow> json \<Rightarrow> json \<Rightarrow> json \<Rightarrow> int \<Rightarrow> string" where
  "follower_url protocol host namespace pod container maxLines =
     (if protocol = ''https:'' then ''wss'' else ''ws'') @ ''://'' @ host @ ''/proxy/api/v1/namespaces/''
     @ to_str namespace @ ''/pods/'' @ to_str pod @ ''/log?follow=true&container='' @ to_str container
     @ ''&tailLines='' @ int_str maxLines"

definition follow_initSocket :: "follower \<Rightarrow> follower" where
  "follow_initSocket f = f\<lparr>lf_socket := Some (case lf_socket f of Some n \<Rightarrow> n | None \<Rightarrow> 0)\<rparr>"

text \<open>The constructor takes two colours, and starts with the second; \<open>maxLines\<close> 0 or missing is 1500.\<close>

definition new_follower ::
  "string \<Rightarrow> string \<Rightarrow> json \<Rightarrow> json \<Rightarrow> json \<Rightarrow> int option \<Rightarrow> log_buffer \<Rightarrow> follower \<times> log_buffer" where
  "new_follower protocol host namespace pod container maxLines logs =
     (let n = (case maxLines of Some m \<Rightarrow> if m = 0 then 1500 else m | None \<Rightarrow> 1500);
          (c1, logs) = nextColor logs; (c2, logs) = nextColor logs
      in (follow_initSocket \<lparr>lf_prefix = c2,
             lf_url = follower_url protocol host namespace pod container n,
             lf_maxLines = n, lf_socket = None\<rparr>, logs))"

definition format_line :: "string \<Rightarrow> string \<Rightarrow> string" where
  "format_line prefix line =
     (let line = prefix @ line
      in if ends_with [CHR 0x0A] line then butlast line @ logSuffix else line @ logSuffix)"

definition follow_onEvent :: "follower \<Rightarrow> string \<Rightarrow> log_buffer \<Rightarrow> log_buffer" where
  "follow_onEvent f line logs =
     (if lf_socket f \<noteq> None \<and> line \<noteq> [] then log_push (format_line (lf_prefix f) line) logs else logs)"

definition follow_destroy :: "follower \<Rightarrow> follower" where
  "follow_destroy f = f\<lparr>lf_socket := None\<rparr>"

definition follow_reload :: "follower \<Rightarrow> follower" where
  "follow_reload f = (if lf_socket f \<noteq> None then follow_initSocket f else f)"

text \<open>\<open>onerror\<close> of the socket: what it does with the socket, and whether it schedules a reload or reports.\<close>

datatype error_outcome = Ignored | ReloadLater | Reported

definition follow_onerror :: "bool \<Rightarrow> follower \<Rightarrow> follower \<times> error_outcome" where
  "follow_onerror is_open f =
     (case lf_socket f of
        None \<Rightarrow> (f, Ignored)
      | Some tries \<Rightarrow>
          if is_open then (f, Ignored)
          else if tries < 3 then (f\<lparr>lf_socket := Some (tries + 1)\<rparr>, ReloadLater)
          else (follow_destroy (f\<lparr>lf_socket := Some 0\<rparr>), Reported))"

section \<open>The buffer keeps the last lines\<close>

definition last_n :: "nat \<Rightarrow> 'a list \<Rightarrow> 'a list" where
  "last_n n xs = drop (length xs - n) xs"

lemma last_n_snoc: "last_n n (last_n n xs @ [x]) = last_n n (xs @ [x])"
proof (cases "length xs \<le> n")
  case True
  then show ?thesis by (simp add: last_n_def)
next
  case False
  then have "length (last_n n xs) = n" by (simp add: last_n_def)
  with False show ?thesis
    by (cases n) (simp_all add: last_n_def drop_drop Suc_diff_Suc)
qed

lemma log_push_fields [simp]:
  "lb_maxSize (log_push e b) = lb_maxSize b" "lb_onPush (log_push e b) = lb_onPush b"
  "lb_colorIndex (log_push e b) = lb_colorIndex b"
  by (simp_all add: log_push_def Let_def)

lemma accepts_line_push [simp]: "accepts_line (log_push e b) = accepts_line b"
  by (simp add: accepts_line_def fun_eq_iff)

lemma log_push_lines:
  "lb_lines (log_push e b) =
     (if accepts_line b e then last_n (lb_maxSize b) (lb_lines b @ [e]) else lb_lines b)"
  by (simp add: log_push_def Let_def last_n_def)

lemma last_n_bound: "length (last_n n xs) \<le> n"
  by (simp add: last_n_def)

lemma pushes:
  "lb_lines b = last_n (lb_maxSize b) xs \<Longrightarrow>
   lb_lines (fold log_push es b) = last_n (lb_maxSize b) (xs @ filter (accepts_line b) es)"
proof (induction es arbitrary: b xs)
  case Nil
  then show ?case by simp
next
  case (Cons e es)
  show ?case
  proof (cases "accepts_line b e")
    case True
    with Cons.prems have "lb_lines (log_push e b) = last_n (lb_maxSize (log_push e b)) (xs @ [e])"
      by (simp add: log_push_lines last_n_snoc)
    from Cons.IH [OF this] True show ?thesis by simp
  next
    case False
    with Cons.prems have "lb_lines (log_push e b) = last_n (lb_maxSize (log_push e b)) xs"
      by (simp add: log_push_lines)
    from Cons.IH [OF this] False show ?thesis by simp
  qed
qed

section \<open>The properties\<close>

text \<open>The log buffer refines the list of all lines pushed so far: after any pushes it holds exactly the
  last maxSize of the lines that were accepted, in order, so it never holds more than maxSize.\<close>

theorem buffer_keeps_last:
  assumes "lb_lines b = last_n (lb_maxSize b) all"
  shows "lb_lines (fold log_push es b) = last_n (lb_maxSize b) (all @ filter (accepts_line b) es)
    \<and> length (lb_lines (fold log_push es b)) \<le> lb_maxSize b"
  using pushes [OF assms] last_n_bound by metis

theorem buffer_keeps_last_witness:
  "lb_lines (fold log_push [''a'', ''b'', ''c''] (new_buffer 2)) = [''b'', ''c'']"
proof -
  have "lb_lines (new_buffer 2) = last_n (lb_maxSize (new_buffer 2)) []" by (simp add: new_buffer_def last_n_def)
  from buffer_keeps_last [OF this, of "[''a'', ''b'', ''c'']"] show ?thesis
    by (simp add: new_buffer_def last_n_def accepts_line_def)
qed

lemma length_colorCodes [simp]: "length colorCodes = 9"
  by (simp add: colorCodes_def)

lemma distinct_colorCodes: "distinct colorCodes"
  by code_simp

lemma new_follower_color:
  "lf_prefix (fst (new_follower p h ns pod c m b)) = colorCodes ! ((lb_colorIndex b + 2) mod 9)"
  "lb_colorIndex (snd (new_follower p h ns pod c m b)) = (lb_colorIndex b + 2) mod 9"
  by (simp_all add: new_follower_def nextColor_def Let_def follow_initSocket_def mod_simps)

text \<open>The followers of a page: one for each namespace, pod and container, on one buffer.\<close>

fun follow_all ::
  "string \<Rightarrow> string \<Rightarrow> (json \<times> json \<times> json) list \<Rightarrow> log_buffer \<Rightarrow> follower list \<times> log_buffer" where
  "follow_all p h [] b = ([], b)"
| "follow_all p h ((ns, pod, c) # cs) b =
     (let (f, b) = new_follower p h ns pod c None b; (fs, b) = follow_all p h cs b in (f # fs, b))"

lemma follow_all_colors:
  "map lf_prefix (fst (follow_all p h cs b)) =
     map (\<lambda>i. colorCodes ! ((lb_colorIndex b + 2 * Suc i) mod 9)) [0..<length cs]"
proof (induction p h cs b rule: follow_all.induct)
  case (1 p h b)
  then show ?case by simp
next
  case (2 p h ns pod c cs b)
  obtain f b' where f: "new_follower p h ns pod c None b = (f, b')" by (cases "new_follower p h ns pod c None b")
  obtain fs b'' where fs: "follow_all p h cs b' = (fs, b'')" by (cases "follow_all p h cs b'")
  have c: "lf_prefix f = colorCodes ! ((lb_colorIndex b + 2) mod 9)" "lb_colorIndex b' = (lb_colorIndex b + 2) mod 9"
    using new_follower_color [of p h ns pod c None b] by (simp_all add: f)
  have "map lf_prefix fs = map (\<lambda>i. colorCodes ! ((lb_colorIndex b' + 2 * Suc i) mod 9)) [0..<length cs]"
    using 2 [OF f [symmetric] refl] fs by simp
  also have "\<dots> = map (\<lambda>i. colorCodes ! ((lb_colorIndex b + 2 * Suc i) mod 9)) [1..<Suc (length cs)]"
  proof -
    have "((lb_colorIndex b + 2) mod 9 + 2 * Suc i) mod 9 = (lb_colorIndex b + 2 * Suc (Suc i)) mod 9" for i
      unfolding mod_add_left_eq by (simp add: algebra_simps)
    then show ?thesis unfolding c(2) One_nat_def map_Suc_upt [symmetric] by (simp only: map_map comp_def)
  qed
  finally show ?case
    by (simp add: f fs c(1) upt_conv_Cons del: upt_Suc)
qed

lemma residues_distinct: "distinct (map (\<lambda>i. (c + 2 * Suc i) mod 9) [0..<9 :: nat])"
proof -
  have "list_all (\<lambda>d. distinct (map (\<lambda>i. (d + 2 * Suc i) mod 9) [0..<9 :: nat])) [0..<9]" by code_simp
  then have "distinct (map (\<lambda>i. (d + 2 * Suc i) mod 9) [0..<9 :: nat])" if "d < 9" for d :: nat
    using that by (simp only: list_all_iff set_upt atLeastLessThan_iff) simp
  from this [of "c mod 9"] show ?thesis by (simp only: mod_add_left_eq mod_less_divisor zero_less_numeral)
qed

lemma distinct_map_upt_less: "distinct (map f [0..<n]) \<Longrightarrow> m \<le> n \<Longrightarrow> distinct (map f [0..<m])"
  for n m :: nat
  unfolding distinct_map set_upt by (intro conjI distinct_upt) (erule conjE, erule inj_on_subset, simp)

lemma distinct_map_nth_colors:
  assumes "distinct is" "\<forall>i \<in> set is. i < 9"
  shows "distinct (map ((!) colorCodes) is)"
  unfolding distinct_map
proof
  show "inj_on ((!) colorCodes) (set is)"
    by (rule inj_on_nth [OF distinct_colorCodes]) (unfold length_colorCodes, rule assms(2))
qed (rule assms(1))

text \<open>Up to nine followers of one buffer mark their lines with pairwise different colours, wherever
  the colours of the buffer stand.\<close>

theorem follower_colors_distinct:
  assumes "length cs \<le> 9"
  shows "distinct (map lf_prefix (fst (follow_all p h cs b)))"
proof -
  let ?r = "\<lambda>i. (lb_colorIndex b + 2 * Suc i) mod 9"
  have "distinct (map ?r [0..<length cs])"
    by (rule distinct_map_upt_less [OF residues_distinct assms])
  then have "distinct (map ((!) colorCodes) (map ?r [0..<length cs]))"
    by (rule distinct_map_nth_colors) simp
  then show ?thesis by (simp only: follow_all_colors map_map comp_def)
qed

theorem follower_colors_distinct_witness:
  "distinct (map lf_prefix (fst (follow_all ''https:'' ''h''
      [(JStr ''ns'', JStr ''p'', JStr ''a''), (JStr ''ns'', JStr ''p'', JStr ''b'')] (new_buffer defaultMaxSize))))"
  by (rule follower_colors_distinct) simp

text \<open>What happens to a follower after its construction.\<close>

datatype follower_event = SocketError bool | ReloadDue | Destroy

fun follow_step :: "follower_event \<Rightarrow> follower \<Rightarrow> follower \<times> bool" where
  "follow_step (SocketError is_open) f =
     (fst (follow_onerror is_open f), snd (follow_onerror is_open f) = ReloadLater)"
| "follow_step ReloadDue f = (follow_reload f, False)"
| "follow_step Destroy f = (follow_destroy f, False)"

text \<open>A destroyed follower has used up its tries.\<close>

definition tries_used :: "follower \<Rightarrow> nat" where
  "tries_used f = (case lf_socket f of Some n \<Rightarrow> min n 3 | None \<Rightarrow> 3)"

lemma follow_destroyed: "lf_socket f = None \<Longrightarrow> lf_socket (fst (follow_step e f)) = None"
  by (cases e) (simp_all add: follow_onerror_def follow_reload_def follow_destroy_def)

lemma follow_destroyed_run:
  "lf_socket f = None \<Longrightarrow> lf_socket (fold (\<lambda>e f. fst (follow_step e f)) es f) = None"
  by (induction es arbitrary: f) (simp_all add: follow_destroyed)

lemma follow_schedules:
  "snd (follow_step e f) \<Longrightarrow> tries_used f < 3 \<and> tries_used (fst (follow_step e f)) = Suc (tries_used f)"
  by (cases e) (auto simp: follow_onerror_def tries_used_def split: option.splits if_splits)

interpretation follower_retry: retrying follow_step tries_used 3
proof
  fix e f
  assume "snd (follow_step e f)"
  then show "tries_used f < 3 \<and> tries_used (fst (follow_step e f)) = Suc (tries_used f)"
    by (rule follow_schedules)
next
  fix e f
  assume "\<not> snd (follow_step e f)"
  then show "tries_used f \<le> tries_used (fst (follow_step e f))"
    by (cases e) (auto simp: follow_onerror_def follow_destroy_def follow_reload_def follow_initSocket_def
        tries_used_def split: option.splits if_splits)
qed

lemma follow_reported:
  "snd (follow_onerror is_open f) = Reported \<Longrightarrow>
   lf_socket (fst (follow_onerror is_open f)) = None \<and> tries_used f = 3"
  by (auto simp: follow_onerror_def follow_destroy_def tries_used_def split: option.splits if_splits)

text \<open>When a follower reports an error it has retried three times, and it is dead: the Retry action
  that the report offers, a reload, and everything else that may happen leave it without a socket, and
  no further line of its container reaches the buffer. In no run is it reconnected more than three times.\<close>

theorem retry_after_report_is_dead:
  assumes "snd (follow_onerror is_open f) = Reported"
  shows "lf_socket (fold (\<lambda>e f. fst (follow_step e f)) es (follow_reload (fst (follow_onerror is_open f)))) = None
    \<and> follow_onEvent (fold (\<lambda>e f. fst (follow_step e f)) es (follow_reload (fst (follow_onerror is_open f)))) line logs = logs
    \<and> tries_used f = 3 \<and> follower_retry.scheduled es f = 0 \<and> follower_retry.scheduled es g \<le> 3"
proof -
  have d: "lf_socket (fst (follow_onerror is_open f)) = None" "tries_used f = 3"
    using follow_reported [OF assms] by simp_all
  then have "lf_socket (follow_reload (fst (follow_onerror is_open f))) = None" by (simp add: follow_reload_def)
  moreover have "follower_retry.scheduled es f = 0" "follower_retry.scheduled es g \<le> 3"
    using follower_retry.scheduled_le [of es f] follower_retry.scheduled_le [of es g] d(2) by simp_all
  ultimately show ?thesis using follow_destroyed_run d(2) by (simp add: follow_onEvent_def)
qed

definition demo_follower :: follower where
  "demo_follower = fst (new_follower ''https:'' ''h'' (JStr ''ns'') (JStr ''p'') (JStr ''c'') None (new_buffer 10))"

theorem retry_after_report_is_dead_witness:
  "\<exists>f. f = fold (\<lambda>e f. fst (follow_step e f)) [SocketError False, ReloadDue, SocketError False, ReloadDue,
       SocketError False, ReloadDue] demo_follower
     \<and> follow_onEvent (follow_reload (fst (follow_onerror False f))) ''x'' (new_buffer 10) = new_buffer 10"
proof -
  let ?f = "fold (\<lambda>e f. fst (follow_step e f)) [SocketError False, ReloadDue, SocketError False, ReloadDue,
       SocketError False, ReloadDue] demo_follower"
  have "snd (follow_onerror False ?f) = Reported" by code_simp
  from retry_after_report_is_dead [OF this, of "[]"] show ?thesis by simp
qed

end
