(* ===== verification/Links.thy ===== *)
theory Links
  imports Resource
begin

text \<open>
  Links to resources and kinds, \<^verbatim>\<open>src/utils/LinkGenerator.js\<close>, and the route that
  \<^verbatim>\<open>viewResource\<close> of \<^verbatim>\<open>src/state/actions/resources.js\<close> pushes. The table of kinds is the
  JSON object the server sent; \<^verbatim>\<open>query-string\<close> is the parameter \<open>stringify\<close>.
\<close>

text \<open>\<^verbatim>\<open>this.kubeKinds = this.kubeKinds || this.getState().apimodels.kinds\<close>\<close>

definition link_kinds :: "json \<Rightarrow> json \<Rightarrow> json" where
  "link_kinds cached kinds = js_or cached kinds"

text \<open>The parts of a key string, or of a resource or reference object.\<close>

definition link_parts :: "json \<Rightarrow> (json \<times> json \<times> json) option" where
  "link_parts resource =
     (case resource of
        JStr key \<Rightarrow>
          (let ps = map JStr (split_on (CHR ''/'') key);
               at = (\<lambda>i. if i < length ps then ps ! i else JUndef)
           in Some (at 0, at 1, at 2))
      | _ \<Rightarrow> do {
          ns0 \<leftarrow> jget resource ''namespace'';
          md \<leftarrow> jget resource ''metadata'';
          mdns \<leftarrow> (if truthy md then jget md ''namespace'' else Some (JBool False));
          name0 \<leftarrow> jget resource ''name'';
          name \<leftarrow> (if truthy name0 then Some name0 else jget md ''name'');
          kind \<leftarrow> jget resource ''kind'';
          Some (kind, js_or (js_or ns0 mdns) (JStr ''~''), name)
        })"

definition view_query :: "string \<Rightarrow> string" where
  "view_query view = (if view = [] then [] else ''?view='' @ view)"

definition resource_path :: "json \<Rightarrow> json \<times> json \<times> json \<Rightarrow> string \<Rightarrow> string" where
  "resource_path path parts view =
     (case parts of (kind, ns, name) \<Rightarrow>
        ''/'' @ to_str path @ ''/'' @ to_str ns @ ''/'' @ to_str kind @ ''/'' @ to_str name @ view_query view)"

definition linkForResource :: "json \<Rightarrow> json \<Rightarrow> string \<Rightarrow> string option" where
  "linkForResource kubeKinds resource view = do {
     parts \<leftarrow> link_parts resource;
     if \<not> truthy kubeKinds then Some ''#''
     else do {
       kubeKind \<leftarrow> jget kubeKinds (to_str (fst parts));
       if \<not> truthy kubeKind then Some ''#''
       else do {
         path \<leftarrow> jget kubeKind ''resourceGroup'';
         Some (resource_path path parts view)
       }
     }
   }"

definition viewResource_route :: "json \<Rightarrow> json \<Rightarrow> string \<Rightarrow> string option" where
  "viewResource_route kubeKinds resource view = do {
     parts \<leftarrow> link_parts resource;
     kubeKind \<leftarrow> jget kubeKinds (to_str (fst parts));
     group1 \<leftarrow> (if truthy kubeKind then jget kubeKind ''resourceGroup'' else Some kubeKind);
     Some (resource_path (js_or group1 (JStr ''workloads'')) parts view)
   }"

section \<open>Links to kinds\<close>

definition plural_name :: "string \<Rightarrow> string" where
  "plural_name kind =
     (if \<not> ends_with ''s'' kind then kind @ ''s''
      else if ends_with ''ss'' kind then kind @ ''es''
      else if ends_with ''eus'' kind then take (length kind - 2) kind @ ''i''
      else kind)"

definition ascii_lower :: "char \<Rightarrow> char" where
  "ascii_lower c = (let n = of_char c in if 65 \<le> n \<and> n \<le> (90 :: nat) then char_of (n + 32) else c)"

datatype query_value = QStr string | QArr "string list"

definition linkForKind ::
  "(query_value obj \<Rightarrow> string) \<Rightarrow> json \<Rightarrow> string \<Rightarrow> bool obj \<Rightarrow> string option" where
  "linkForKind stringify kubeKinds kind selectedNamespaces = do {
     kubeKind \<leftarrow> jget kubeKinds kind;
     group0 \<leftarrow> (if truthy kubeKind then jget kubeKind ''resourceGroup'' else Some kubeKind);
     let group1 = js_or group0 (JStr ''workloads'');
     let linkParams =
       (if strict_eq group1 (JStr ''cluster'')
        then [(''view'', QStr (map ascii_lower (plural_name kind)))]
        else [(''filters'', QArr ((''kind:'' @ kind) # map (\<lambda>ns. ''namespace:'' @ ns) (okeys selectedNamespaces)))]);
     Some (''/'' @ to_str group1 @ ''?'' @ stringify linkParams)
   }"

section \<open>The properties\<close>

text \<open>A table of kinds that knows a kind under a non-empty group.\<close>

definition kind_known :: "json \<Rightarrow> string \<Rightarrow> string \<Rightarrow> bool" where
  "kind_known kubeKinds kind group1 \<longleftrightarrow> group1 \<noteq> [] \<and>
     (\<exists>kk. truthy kubeKinds \<and> jget kubeKinds kind = Some kk \<and> truthy kk
        \<and> jget kk ''resourceGroup'' = Some (JStr group1))"

lemma link_parts_object:
  assumes "k8s_object kind name ns v"
  shows "link_parts v = Some (JStr kind, JStr (case ns of Some s \<Rightarrow> s | None \<Rightarrow> ''~''), JStr name)"
  using assms
  by (cases ns) (auto simp: k8s_object_def k8s_meta_def link_parts_def js_or_def)

lemma link_parts_key:
  assumes "CHR ''/'' \<notin> set kind" "CHR ''/'' \<notin> set name" "\<forall>s. ns = Some s \<longrightarrow> CHR ''/'' \<notin> set s"
  shows "link_parts (JStr (key_str kind ns name)) =
    Some (JStr kind, JStr (case ns of Some s \<Rightarrow> s | None \<Rightarrow> ''~''), JStr name)"
  using split_key_str [OF assms] by (simp add: link_parts_def Let_def)

text \<open>C22: A Kubernetes object and its key lead to the same place: for every table of kinds, the link
  and the route made from the object, and from the key that keyForResource gives it, are equal.\<close>

theorem key_and_object_link_alike:
  assumes "k8s_object kind name ns v" "keyForResource v JUndef = Some key"
    and "CHR ''/'' \<notin> set kind" "CHR ''/'' \<notin> set name" "\<forall>s. ns = Some s \<longrightarrow> CHR ''/'' \<notin> set s"
  shows "linkForResource kubeKinds key view = linkForResource kubeKinds v view
    \<and> viewResource_route kubeKinds key view = viewResource_route kubeKinds v view"
proof -
  have "key = JStr (key_str kind ns name)" using keyForResource_k8s [OF assms(1)] assms(2) by simp
  then have "link_parts key = link_parts v"
    using link_parts_object [OF assms(1)] link_parts_key [OF assms(3-5)] by simp
  then show ?thesis by (simp only: linkForResource_def viewResource_route_def)
qed

definition demo_node :: json where
  "demo_node = JObj [(''kind'', JStr ''Node''), (''metadata'', JObj [(''name'', JStr ''n1'')])]"

definition demo_kind_table :: json where
  "demo_kind_table = JObj [(''Node'', JObj [(''resourceGroup'', JStr ''cluster'')]),
                           (''Pod'', JObj [(''resourceGroup'', JStr ''workloads'')])]"

lemma demo_node_object: "k8s_object ''Node'' ''n1'' None demo_node"
  by (auto simp: k8s_object_def k8s_meta_def demo_node_def)

theorem key_and_object_link_alike_witness:
  "linkForResource demo_kind_table (JStr ''Node/~/n1'') ''config'' = linkForResource demo_kind_table demo_node ''config''
   \<and> linkForResource demo_kind_table demo_node ''config'' = Some ''/cluster/~/Node/n1?view=config''"
proof -
  have "keyForResource demo_node JUndef = Some (JStr ''Node/~/n1'')" by code_simp
  moreover have "linkForResource demo_kind_table demo_node ''config'' = Some ''/cluster/~/Node/n1?view=config''"
    by code_simp
  ultimately show ?thesis
    using key_and_object_link_alike [OF demo_node_object, of "JStr ''Node/~/n1''" demo_kind_table "''config''"] by simp
qed

text \<open>For a kind the table knows, the route that viewResource pushes is exactly the link that the
  LinkGenerator shows; the two differ only on unknown kinds, where one gives # and the other
  falls back to the workloads page.\<close>

theorem route_is_link:
  assumes "link_parts resource = Some (JStr kind, ns, name)" "truthy kubeKinds"
  shows "(kind_known kubeKinds kind g \<longrightarrow>
       viewResource_route kubeKinds resource view = linkForResource kubeKinds resource view
       \<and> linkForResource kubeKinds resource view = Some (resource_path (JStr g) (JStr kind, ns, name) view))
    \<and> (jget kubeKinds kind = Some JUndef \<longrightarrow> linkForResource kubeKinds resource view = Some ''#''
       \<and> viewResource_route kubeKinds resource view =
           Some (resource_path (JStr ''workloads'') (JStr kind, ns, name) view))"
  using assms by (auto simp: kind_known_def linkForResource_def viewResource_route_def js_or_def)

theorem route_is_link_witness:
  "linkForResource demo_kind_table (JStr ''Foo/ns/x'') '''' = Some ''#''
   \<and> viewResource_route demo_kind_table (JStr ''Foo/ns/x'') '''' = Some ''/workloads/ns/Foo/x''"
proof -
  have "link_parts (JStr ''Foo/ns/x'') = Some (JStr ''Foo'', JStr ''ns'', JStr ''x'')" by code_simp
  moreover have "truthy demo_kind_table" "jget demo_kind_table ''Foo'' = Some JUndef" by code_simp+
  moreover have "resource_path (JStr ''workloads'') (JStr ''Foo'', JStr ''ns'', JStr ''x'') '''' = ''/workloads/ns/Foo/x''"
    by code_simp
  ultimately show ?thesis
    using route_is_link [where kubeKinds = demo_kind_table and view = "[]" and g = "''workloads''"
        and resource = "JStr ''Foo/ns/x''" and kind = "''Foo''" and ns = "JStr ''ns''" and name = "JStr ''x''"]
    by simp
qed

end
