(* ===== verification/Access.thy ===== *)
theory Access
  imports Resource Filters
begin

text \<open>
  What the user may do with a resource, \<^verbatim>\<open>src/utils/AccessEvaluator.js\<close>: the cache of permissions
  by kind, by kind and namespace, and by resource, and the actions offered for a resource. The
  answers of the server's access reviews are arguments.
\<close>

section \<open>The actions offered\<close>

text \<open>\<^verbatim>\<open>v.length\<close>\<close>

definition js_length :: "json \<Rightarrow> json option" where
  "js_length v = (case v of JArr xs \<Rightarrow> Some (JNum (int (length xs)))
                  | JStr s \<Rightarrow> Some (JNum (int (length s))) | _ \<Rightarrow> jget v ''length'')"

definition js_gt0 :: "json \<Rightarrow> bool" where
  "js_gt0 v = (case to_num v of Some n \<Rightarrow> n > 0 | None \<Rightarrow> False)"

definition js_ge0 :: "json \<Rightarrow> bool" where
  "js_ge0 v = (case to_num v of Some n \<Rightarrow> n \<ge> 0 | None \<Rightarrow> False)"

definition is_number :: "json \<Rightarrow> bool" where
  "is_number v = (case v of JNum _ \<Rightarrow> True | _ \<Rightarrow> False)"

definition replicas_of :: "json \<Rightarrow> json option" where
  "replicas_of resource = do {
     st \<leftarrow> jget resource ''status'';
     v \<leftarrow> (if \<not> truthy st then Some st else do {
            a \<leftarrow> jget st ''readyReplicas''; b \<leftarrow> jget st ''replicas''; c \<leftarrow> jget st ''numberReady'';
            act \<leftarrow> jget st ''active'';
            d \<leftarrow> (if truthy act then js_length act else Some act);
            Some (js_or a (js_or b (js_or c (js_or (js_and (JBool (is_number act)) act) d))))
          });
     Some (js_or v (JNum (- 1)))
   }"

definition perm :: "string \<Rightarrow> json obj \<Rightarrow> bool" where
  "perm p permissions = truthy (lookup_prop permissions p)"

definition is_kind :: "string \<Rightarrow> json \<Rightarrow> bool option" where
  "is_kind k resource = map_option (\<lambda>v. v = JStr k) (jget resource ''kind'')"

definition canViewLogs :: "json obj \<Rightarrow> json \<Rightarrow> json \<Rightarrow> json option" where
  "canViewLogs permissions resource replicas =
     (if \<not> perm ''logs'' permissions then Some (JBool False)
      else if js_gt0 replicas then Some (JBool True)
      else do {
        pod \<leftarrow> is_kind ''Pod'' resource;
        if pod then Some (JBool True)
        else do {
          st \<leftarrow> jget resource ''status'';
          if \<not> truthy st then Some st
          else do { a \<leftarrow> jget st ''completionTime''; b \<leftarrow> jget st ''lastScheduleTime''; Some (js_or a b) }
        }
      })"

text \<open>\<open>statusSummary\<close> is the field the UI adds to the resource.\<close>

definition canViewTerminal :: "json obj \<Rightarrow> json \<Rightarrow> json \<Rightarrow> json \<Rightarrow> bool option" where
  "canViewTerminal permissions resource statusSummary replicas =
     (if \<not> perm ''exec'' permissions then Some False
      else if js_gt0 replicas then Some True
      else do { pod \<leftarrow> is_kind ''Pod'' resource; Some (pod \<and> statusSummary \<noteq> JStr ''complete'') })"

definition canDetach :: "json obj \<Rightarrow> json \<Rightarrow> json option" where
  "canDetach permissions resource =
     (if \<not> perm ''put'' permissions then Some (JBool False)
      else do {
        pod \<leftarrow> is_kind ''Pod'' resource;
        if \<not> pod then Some (JBool False)
        else do {
          md \<leftarrow> jget resource ''metadata'';
          an \<leftarrow> jget md ''annotations'';
          if \<not> truthy an then Some an
          else do { d \<leftarrow> jhas detachedOwnerRefsAnnotation an; Some (JBool (\<not> d)) }
        }
      })"

definition canSuspend :: "json obj \<Rightarrow> json \<Rightarrow> json \<Rightarrow> json option" where
  "canSuspend permissions resource replicas =
     (if \<not> perm ''put'' permissions then Some (JBool False)
      else if js_gt0 replicas then Some (JBool True)
      else do {
        sp \<leftarrow> jget resource ''spec'';
        if \<not> truthy sp then Some sp
        else do {
          has \<leftarrow> jhas ''suspend'' sp;
          if \<not> has then Some (JBool False)
          else do { s \<leftarrow> jget sp ''suspend''; Some (JBool (\<not> truthy s)) }
        }
      })"

definition getObjectAccess :: "json obj \<Rightarrow> json \<Rightarrow> json \<Rightarrow> json obj option" where
  "getObjectAccess permissions resource statusSummary = do {
     replicas \<leftarrow> replicas_of resource;
     logs \<leftarrow> canViewLogs permissions resource replicas;
     terminal \<leftarrow> canViewTerminal permissions resource statusSummary replicas;
     detach \<leftarrow> canDetach permissions resource;
     suspend \<leftarrow> canSuspend permissions resource replicas;
     Some [(''get'', JBool (perm ''get'' permissions)),
           (''edit'', JBool (perm ''put'' permissions)),
           (''delete'', JBool (perm ''delete'' permissions)),
           (''logs'', logs),
           (''terminal'', JBool terminal),
           (''detach'', detach),
           (''scale'', JBool (perm ''put'' permissions \<and> js_ge0 replicas)),
           (''suspend'', suspend)]
   }"

section \<open>The cache of permissions\<close>

type_synonym permissions = "json obj obj"

definition ensure :: "string \<Rightarrow> permissions \<Rightarrow> permissions" where
  "ensure k ps = (if ohas k ps then ps else oset k [] ps)"

definition entry :: "string \<Rightarrow> permissions \<Rightarrow> json obj" where
  "entry k ps = (case oget ps k of Some p \<Rightarrow> p | None \<Rightarrow> [])"

text \<open>
  The keys of the three entries: kind, kind and namespace (none for a resource without a
  namespace, whose namespace permissions are a fresh object), and the key of the resource.
\<close>

definition perm_keys :: "json \<Rightarrow> string \<Rightarrow> (string \<times> string option \<times> string) option" where
  "perm_keys resource key = do {
     kind \<leftarrow> jget resource ''kind'';
     md \<leftarrow> jget resource ''metadata'';
     ns \<leftarrow> (if truthy md then jget md ''namespace'' else Some md);
     Some (to_str kind, (if truthy ns then Some (to_str kind @ ''/'' @ to_str ns) else None), key)
   }"

definition merged_permissions :: "string \<times> string option \<times> string \<Rightarrow> permissions \<Rightarrow> json obj" where
  "merged_permissions ks ps =
     (case ks of (k, n, key) \<Rightarrow>
        ospread (ospread (entry k ps) (case n of Some nk \<Rightarrow> entry nk ps | None \<Rightarrow> [])) (entry key ps))"

definition complete_permissions :: "json obj \<Rightarrow> bool" where
  "complete_permissions p = list_all (\<lambda>a. ohas a p) [''get'', ''put'', ''delete'', ''logs'', ''exec'']"

text \<open>
  Up to the reviews: the permissions from the cache, or \<^term>\<open>None\<close> when the server is asked.
\<close>

definition getObjectPermissions :: "json \<Rightarrow> string \<Rightarrow> permissions \<Rightarrow> (json obj option \<times> permissions) option" where
  "getObjectPermissions resource key ps = do {
     ks \<leftarrow> perm_keys resource key;
     (case ks of (k, n, o1) \<Rightarrow>
        (let ps = ensure k ps; ps = (case n of Some nk \<Rightarrow> ensure nk ps | None \<Rightarrow> ps); ps = ensure o1 ps;
             p = merged_permissions ks ps
         in if complete_permissions p then Some (Some p, ps)
            else do { md \<leftarrow> jget resource ''metadata''; ns \<leftarrow> jget md ''namespace''; Some (None, ps) }))
   }"

text \<open>The three reviews that answer later, \<^verbatim>\<open>Object.assign\<close> into the entry (or into the fresh object).\<close>

definition review_answer :: "string option \<Rightarrow> json obj \<Rightarrow> permissions \<Rightarrow> permissions" where
  "review_answer k perms ps =
     (case k of Some e \<Rightarrow> oset e (ospread (entry e ps) perms) ps | None \<Rightarrow> ps)"

text \<open>The parameters of a review: \<^verbatim>\<open>namespace.replace(/~/, "")\<close> drops the first tilde.\<close>

fun drop_tilde :: "string \<Rightarrow> string" where
  "drop_tilde [] = []"
| "drop_tilde (c # s) = (if c = CHR ''~'' then s else c # drop_tilde s)"

definition accessReview_params :: "json \<Rightarrow> string \<Rightarrow> json \<Rightarrow> json obj" where
  "accessReview_params kind namespace name =
     [(''kind'', kind), (''namespace'', JStr (drop_tilde namespace)), (''name'', name)]"

section \<open>The properties\<close>

lemma access_fields:
  assumes "getObjectAccess permissions resource statusSummary = Some acc"
  obtains replicas logs terminal detach suspend where
    "replicas_of resource = Some replicas" "canViewLogs permissions resource replicas = Some logs"
    "canViewTerminal permissions resource statusSummary replicas = Some terminal"
    "canDetach permissions resource = Some detach" "canSuspend permissions resource replicas = Some suspend"
    "acc = [(''get'', JBool (perm ''get'' permissions)), (''edit'', JBool (perm ''put'' permissions)),
           (''delete'', JBool (perm ''delete'' permissions)), (''logs'', logs), (''terminal'', JBool terminal),
           (''detach'', detach), (''scale'', JBool (perm ''put'' permissions \<and> js_ge0 replicas)), (''suspend'', suspend)]"
  using assms unfolding getObjectAccess_def bind_Some_iff by blast

lemma logs_permission: "canViewLogs p r n = Some v \<Longrightarrow> truthy v \<Longrightarrow> perm ''logs'' p"
  and terminal_permission: "canViewTerminal p r s n = Some True \<Longrightarrow> perm ''exec'' p"
  and detach_permission: "canDetach p r = Some v \<Longrightarrow> truthy v \<Longrightarrow> perm ''put'' p"
  and suspend_permission: "canSuspend p r n = Some v \<Longrightarrow> truthy v \<Longrightarrow> perm ''put'' p"
  by (auto simp: canViewLogs_def canViewTerminal_def canDetach_def canSuspend_def split: if_splits)

text \<open>The permission each action rests on.\<close>

definition needs :: "string \<Rightarrow> string" where
  "needs action = (if action = ''get'' then ''get'' else if action = ''delete'' then ''delete''
     else if action = ''logs'' then ''logs'' else if action = ''terminal'' then ''exec'' else ''put'')"

text \<open>C23: No action is offered that the user's permissions do not allow.\<close>

theorem access_needs_permission:
  assumes "getObjectAccess permissions resource statusSummary = Some acc"
    and "oget acc action = Some v" "truthy v"
  shows "perm (needs action) permissions"
proof -
  from assms(1) obtain replicas logs terminal detach suspend where a:
    "canViewLogs permissions resource replicas = Some logs"
    "canViewTerminal permissions resource statusSummary replicas = Some terminal"
    "canDetach permissions resource = Some detach" "canSuspend permissions resource replicas = Some suspend"
    "acc = [(''get'', JBool (perm ''get'' permissions)), (''edit'', JBool (perm ''put'' permissions)),
           (''delete'', JBool (perm ''delete'' permissions)), (''logs'', logs), (''terminal'', JBool terminal),
           (''detach'', detach), (''scale'', JBool (perm ''put'' permissions \<and> js_ge0 replicas)), (''suspend'', suspend)]"
    by (rule access_fields)
  have t: "terminal \<Longrightarrow> perm ''exec'' permissions"
    using terminal_permission [of permissions resource statusSummary replicas] a(2) by simp
  from assms(2,3) show ?thesis
    using logs_permission [OF a(1)] t detach_permission [OF a(3)] suspend_permission [OF a(4)]
    unfolding a(5) by (auto simp: needs_def split: if_splits)
qed

definition demo_scaled :: json where
  "demo_scaled = JObj [(''kind'', JStr ''Deployment''), (''metadata'', JObj [(''name'', JStr ''d''), (''namespace'', JStr ''ns'')]),
     (''spec'', JObj [(''replicas'', JNum 0)]), (''status'', JObj [(''observedGeneration'', JNum 3)])]"

definition all_perms :: "json obj" where
  "all_perms = map (\<lambda>a. (a, JBool True)) [''get'', ''put'', ''delete'', ''logs'', ''exec'']"

lemma demo_access: "getObjectAccess all_perms demo_scaled JUndef =
  Some [(''get'', JBool True), (''edit'', JBool True), (''delete'', JBool True), (''logs'', JUndef),
        (''terminal'', JBool False), (''detach'', JBool False), (''scale'', JBool False), (''suspend'', JBool False)]"
  by code_simp

theorem access_needs_permission_witness: "perm ''put'' all_perms"
  using access_needs_permission [OF demo_access, of "''edit''" "JBool True"] by (simp add: needs_def)

lemma replicas_idle:
  assumes "jget resource ''status'' = Some (JObj st)"
    and "\<forall>k \<in> {''readyReplicas'', ''replicas'', ''numberReady'', ''active''}. \<not> truthy (lookup_prop st k)"
  shows "replicas_of resource = Some (JNum (- 1))"
  using assms by (simp add: replicas_of_def js_or_def js_and_def)

text \<open>A resource whose status counts no replicas cannot be scaled, whatever the permissions: a
  deployment scaled to zero is never offered to be scaled up again.\<close>

theorem idle_is_not_scalable:
  assumes "getObjectAccess permissions resource statusSummary = Some acc"
    and "jget resource ''status'' = Some (JObj st)"
    and "\<forall>k \<in> {''readyReplicas'', ''replicas'', ''numberReady'', ''active''}. \<not> truthy (lookup_prop st k)"
  shows "oget acc ''scale'' = Some (JBool False)"
proof -
  from assms(1) obtain replicas logs terminal detach suspend where a: "replicas_of resource = Some replicas"
    "acc = [(''get'', JBool (perm ''get'' permissions)), (''edit'', JBool (perm ''put'' permissions)),
           (''delete'', JBool (perm ''delete'' permissions)), (''logs'', logs), (''terminal'', JBool terminal),
           (''detach'', detach), (''scale'', JBool (perm ''put'' permissions \<and> js_ge0 replicas)), (''suspend'', suspend)]"
    by (rule access_fields)
  have "replicas = JNum (- 1)" using replicas_idle [OF assms(2,3)] a(1) by simp
  then show ?thesis by (simp add: a(2) js_ge0_def)
qed

theorem idle_is_not_scalable_witness:
  "\<exists>acc. getObjectAccess all_perms demo_scaled JUndef = Some acc \<and> oget acc ''scale'' = Some (JBool False)"
proof -
  have "jget demo_scaled ''status'' = Some (JObj [(''observedGeneration'', JNum 3)])" by code_simp
  from idle_is_not_scalable [OF demo_access this] demo_access show ?thesis by simp
qed

lemma entry_ensure [simp]: "entry k (ensure j ps) = entry k ps"
  by (simp add: entry_def ensure_def ohas_def split: option.splits)

text \<open>The answers of reviews, in the order in which they come back.\<close>

definition reviews :: "(string \<times> json obj) list \<Rightarrow> permissions \<Rightarrow> permissions" where
  "reviews rs ps = fold (\<lambda>(k, perms). review_answer (Some k) perms) rs ps"

lemma entry_reviews: "key \<notin> fst ` set rs \<Longrightarrow> entry key (reviews rs ps) = entry key ps"
  unfolding reviews_def by (induction rs arbitrary: ps) (auto simp: review_answer_def entry_def)

text \<open>The permissions of one resource override those of its namespace and of its kind: once its own
  review has answered all five verbs, every later request for it is served from the cache with
  that answer, without asking the server, whatever the reviews of its kind, its namespace and other
  resources answered before or answer afterwards.\<close>

theorem permissions_cached:
  assumes "perm_keys resource key = Some ks" "complete_permissions objectPerms" "key \<notin> fst ` set later"
  shows "\<exists>p ps'. getObjectPermissions resource key (reviews later (review_answer (Some key) objectPerms ps)) = Some (Some p, ps')
    \<and> (\<forall>a v. oget objectPerms a = Some v \<longrightarrow> oget p a = Some v)"
proof -
  let ?ps = "reviews later (review_answer (Some key) objectPerms ps)"
  obtain k n where ks: "ks = (k, n, key)"
    using assms(1) by (auto simp: perm_keys_def bind_Some_iff)
  define ps2 where "ps2 = ensure key (case n of Some nk \<Rightarrow> ensure nk (ensure k ?ps) | None \<Rightarrow> ensure k ?ps)"
  have e: "entry key ps2 = ospread (entry key ps) objectPerms"
    unfolding ps2_def using entry_reviews [OF assms(3)]
    by (cases n) (simp_all add: review_answer_def entry_def [of _ "oset _ _ _"])
  let ?p = "merged_permissions ks ps2"
  have p: "oget ?p a = Some v" if "oget objectPerms a = Some v" for a v
    using that unfolding merged_permissions_def ks prod.case e by simp
  then have "ohas a objectPerms \<Longrightarrow> ohas a ?p" for a by (fastforce simp: ohas_conv)
  then have c: "complete_permissions ?p" using assms(2) by (simp add: complete_permissions_def)
  have "getObjectPermissions resource key ?ps = Some (Some ?p, ps2)"
    using c unfolding getObjectPermissions_def assms(1) ks
    by (simp only: Option.bind.simps prod.case Let_def ps2_def [symmetric] if_True) 
  with p show ?thesis by blast
qed

theorem permissions_cached_witness:
  "\<exists>p ps'. getObjectPermissions demo_scaled ''Deployment/ns/d''
      (reviews [(''Deployment'', [(''put'', JBool False)])] (review_answer (Some ''Deployment/ns/d'') all_perms []))
       = Some (Some p, ps') \<and> oget p ''put'' = Some (JBool True)"
proof -
  have k: "perm_keys demo_scaled ''Deployment/ns/d'' = Some (''Deployment'', Some ''Deployment/ns'', ''Deployment/ns/d'')"
    by code_simp
  have c: "complete_permissions all_perms" and v: "oget all_perms ''put'' = Some (JBool True)" by code_simp+
  have l: "''Deployment/ns/d'' \<notin> fst ` set [(''Deployment'', [(''put'', JBool False)])]" by simp
  from permissions_cached [OF k c l] v show ?thesis by blast
qed

end
