(* ===== verification/Base64.thy ===== *)
theory Base64
  imports Prelude
begin

unbundle bit_operations_syntax

text \<open>
  \<^verbatim>\<open>decodeBase64\<close> of \<^verbatim>\<open>src/converters.js\<close>, which shows the data of secrets. Its output is a list of
  code units: the codes it computes may exceed a byte, and its last step, \<^verbatim>\<open>unescape\<close>,
  follows ECMAScript annex B. The encoder is the one of RFC 4648, for the round trip.
\<close>

section \<open>The decoder\<close>

definition keyStr :: string where
  "keyStr = ''ABCDEFGHIJKLMNOP'' @ ''QRSTUVWXYZabcdef'' @ ''ghijklmnopqrstuv'' @ ''wxyz0123456789+/'' @ ''=''"

text \<open>The characters the decoder keeps: \<^verbatim>\<open>/[^A-Za-z0-9+/=]/g\<close> is replaced by nothing.\<close>

definition in_alphabet :: "char \<Rightarrow> bool" where
  "in_alphabet c = (let n = of_char c :: nat in
     65 \<le> n \<and> n \<le> 90 \<or> 97 \<le> n \<and> n \<le> 122 \<or> 48 \<le> n \<and> n \<le> 57 \<or> n = 43 \<or> n = 47 \<or> n = 61)"

fun index_of :: "char \<Rightarrow> string \<Rightarrow> nat" where
  "index_of c [] = 0"
| "index_of c (x # s) = (if x = c then 0 else Suc (index_of c s))"

text \<open>
  \<^verbatim>\<open>keyStr.indexOf(input.charAt(i))\<close>: past the end \<^verbatim>\<open>charAt\<close> gives the empty string, which
  \<^verbatim>\<open>indexOf\<close> finds at 0. The characters left in the input all occur in \<^verbatim>\<open>keyStr\<close>.
\<close>

definition enc_at :: "string \<Rightarrow> nat \<Rightarrow> nat" where
  "enc_at input i = (if i < length input then index_of (input ! i) keyStr else 0)"

definition decode_quad :: "string \<Rightarrow> nat list" where
  "decode_quad input =
     (let enc1 = enc_at input 0; enc2 = enc_at input 1; enc3 = enc_at input 2; enc4 = enc_at input 3;
          chr1 = push_bit 2 enc1 OR drop_bit 4 enc2;
          chr2 = push_bit 4 (enc2 AND 15) OR drop_bit 2 enc3;
          chr3 = push_bit 6 (enc3 AND 3) OR enc4
      in [chr1] @ (if enc3 \<noteq> 64 then [chr2] else []) @ (if enc4 \<noteq> 64 then [chr3] else []))"

text \<open>The \<^verbatim>\<open>do \<dots> while\<close> loop runs at least once.\<close>

function decode_loop :: "string \<Rightarrow> nat list" where
  "decode_loop input =
     decode_quad input @ (if length input > 4 then decode_loop (drop 4 input) else [])"
  by pat_completeness auto
termination by (relation "measure length") auto

declare decode_loop.simps [simp del]

definition hex_val :: "nat \<Rightarrow> nat option" where
  "hex_val c =
     (if 48 \<le> c \<and> c \<le> 57 then Some (c - 48)
      else if 65 \<le> c \<and> c \<le> 70 then Some (c - 55)
      else if 97 \<le> c \<and> c \<le> 102 then Some (c - 87) else None)"

fun hex_number :: "nat list \<Rightarrow> nat option" where
  "hex_number [] = Some 0"
| "hex_number (c # cs) =
     (case (hex_val c, hex_number cs) of (Some d, Some n) \<Rightarrow> Some (d * 16 ^ length cs + n) | _ \<Rightarrow> None)"

text \<open>What a percent sign followed by \<open>s\<close> stands for: a code unit, and the number of units it takes of \<open>s\<close>.\<close>

definition percent_code :: "nat list \<Rightarrow> (nat \<times> nat) option" where
  "percent_code s =
     (if length s \<ge> 5 \<and> s ! 0 = 117 \<and> hex_number (take 4 (drop 1 s)) \<noteq> None
      then map_option (\<lambda>n. (n, 5)) (hex_number (take 4 (drop 1 s)))
      else if length s \<ge> 2 then map_option (\<lambda>n. (n, 2)) (hex_number (take 2 s))
      else None)"

function unescape :: "nat list \<Rightarrow> nat list" where
  "unescape [] = []"
| "unescape (c # s) =
     (if c = 37
      then (case percent_code s of Some (n, k) \<Rightarrow> n # unescape (drop k s) | None \<Rightarrow> c # unescape s)
      else c # unescape s)"
  by pat_completeness auto
termination by (relation "measure length") auto

definition decodeBase64 :: "string \<Rightarrow> nat list" where
  "decodeBase64 input = unescape (decode_loop (filter in_alphabet input))"

section \<open>The encoder of RFC 4648\<close>

definition b64 :: "nat \<Rightarrow> char" where
  "b64 n = keyStr ! n"

fun encodeBase64 :: "nat list \<Rightarrow> string" where
  "encodeBase64 [] = []"
| "encodeBase64 [a] = [b64 (a div 4), b64 (a mod 4 * 16), CHR ''='', CHR ''='']"
| "encodeBase64 [a, b] = [b64 (a div 4), b64 (a mod 4 * 16 + b div 16), b64 (b mod 16 * 4), CHR ''='']"
| "encodeBase64 (a # b # c # bs) =
     b64 (a div 4) # b64 (a mod 4 * 16 + b div 16) # b64 (b mod 16 * 4 + c div 64) # b64 (c mod 64)
     # encodeBase64 bs"

section \<open>The round trip\<close>

lemma index_b64_all: "list_all (\<lambda>n. index_of (b64 n) keyStr = n \<and> in_alphabet (b64 n)) [0..<65]"
  by code_simp

lemma index_b64 [simp]: "n < 65 \<Longrightarrow> index_of (b64 n) keyStr = n"
  and alphabet_b64 [simp]: "n < 65 \<Longrightarrow> in_alphabet (b64 n)"
  using index_b64_all unfolding list_all_iff set_upt by simp_all

lemma pad_simps [simp]: "index_of (CHR ''='') keyStr = 64" "in_alphabet (CHR ''='')"
  by code_simp+

lemma or_disjoint: "b < 2 ^ k \<Longrightarrow> push_bit k a OR b = a * 2 ^ k + b" for a b :: nat
proof -
  assume b: "b < 2 ^ k"
  have "push_bit k a + b = push_bit k a OR b"
  proof (rule disjunctive_add_eq_or)
    show "push_bit k a AND b = 0"
    proof (rule bit_eqI)
      fix n
      have "take_bit k b = b" using b by (simp add: take_bit_nat_eq_self)
      then have "bit b n \<Longrightarrow> n < k" by (metis bit_take_bit_iff)
      then show "bit (push_bit k a AND b) n \<longleftrightarrow> bit (0 :: nat) n"
        by (auto simp: bit_and_iff bit_push_bit_iff)
    qed
  qed
  then show ?thesis by (simp add: push_bit_eq_mult)
qed

lemma quad_values:
  assumes "e1 < 64" "e2 < 64" "e3 < 65" "e4 < 65"
  shows "decode_quad (b64 e1 # b64 e2 # b64 e3 # b64 e4 # s) =
    [e1 * 4 + e2 div 16] @ (if e3 \<noteq> 64 then [e2 mod 16 * 16 + e3 div 4] else [])
      @ (if e4 \<noteq> 64 then [push_bit 6 (e3 mod 4) OR e4] else [])"
proof -
  have a: "x AND 15 = x mod 16" "x AND 3 = x mod 4" for x :: nat
    using take_bit_eq_mask [of 4 x] take_bit_eq_mask [of 2 x] by (simp_all add: take_bit_eq_mod mask_eq_exp_minus_1)
  have "push_bit 2 e1 OR drop_bit 4 e2 = e1 * 4 + e2 div 16"
    using assms or_disjoint [of "drop_bit 4 e2" 2 e1] by (simp add: drop_bit_eq_div)
  moreover have "push_bit 4 (e2 AND 15) OR drop_bit 2 e3 = e2 mod 16 * 16 + e3 div 4" if "e3 \<noteq> 64"
    using assms that or_disjoint [of "drop_bit 2 e3" 4 "e2 mod 16"] by (simp add: a drop_bit_eq_div)
  ultimately show ?thesis
    using assms by (simp add: decode_quad_def enc_at_def Let_def a)
qed

lemma b64_pad: "CHR ''='' = b64 64"
  by code_simp

lemma sextets:
  fixes a b c :: nat
  assumes "a < 256"
  shows "a div 4 < 64" "a mod 4 * 16 < 64" "b < 256 \<Longrightarrow> a mod 4 * 16 + b div 16 < 64" "b mod 16 * 4 < 64"
    "c < 256 \<Longrightarrow> b mod 16 * 4 + c div 64 < 64" "c mod 64 < 64"
  using assms by auto

lemma alphabet_sextets [simp]: "n < 64 \<Longrightarrow> in_alphabet (b64 n)"
  by simp

lemma filter_encode: "list_all (\<lambda>b. b < 256) bs \<Longrightarrow> filter in_alphabet (encodeBase64 bs) = encodeBase64 bs"
proof (induction bs rule: encodeBase64.induct)
  case (2 a)
  then show ?case using sextets [of a] by simp
next
  case (3 a b)
  then show ?case using sextets(1) [of a] sextets(3,4) [of a b] by simp
next
  case (4 a b c bs)
  then show ?case using sextets(1) [of a] sextets(3) [of a b] sextets(5) [of a c b] sextets(6) [of a c] by simp
qed simp

lemma encode_not_Nil: "bs \<noteq> [] \<Longrightarrow> 4 \<le> length (encodeBase64 bs)"
  by (cases bs rule: encodeBase64.cases) simp_all

lemma quad_triple:
  assumes "a < 256" "b < 256" "c < 256"
  shows "decode_quad (b64 (a div 4) # b64 (a mod 4 * 16 + b div 16) # b64 (b mod 16 * 4 + c div 64) # b64 (c mod 64) # s) = [a, b, c]"
proof -
  have bounds: "a div 4 < 64" "a mod 4 * 16 + b div 16 < 64" "b mod 16 * 4 + c div 64 < 64" "c mod 64 < 64"
    using sextets assms by simp_all
  have c3: "push_bit 6 ((b mod 16 * 4 + c div 64) mod 4) OR c mod 64 = c"
    using or_disjoint [of "c mod 64" 6 "(b mod 16 * 4 + c div 64) mod 4"] assms(3) by auto
  have "a div 4 * 4 + (a mod 4 * 16 + b div 16) div 16 = a" using assms by auto
  moreover have "(a mod 4 * 16 + b div 16) mod 16 * 16 + (b mod 16 * 4 + c div 64) div 4 = b" using assms by auto
  ultimately show ?thesis
    using quad_values [of "a div 4" "a mod 4 * 16 + b div 16" "b mod 16 * 4 + c div 64" "c mod 64" s] bounds c3 by simp
qed

lemma decode_encode: "bs \<noteq> [] \<Longrightarrow> list_all (\<lambda>b. b < 256) bs \<Longrightarrow> decode_loop (encodeBase64 bs) = bs"
proof (induction bs rule: encodeBase64.induct)
  case 1
  then show ?case by simp
next
  case (2 a)
  then have "a div 4 * 4 + a mod 4 * 16 div 16 = a" by simp
  with 2 quad_values [of "a div 4" "a mod 4 * 16" 64 64 "[]"] show ?case
    using sextets [of a] by (subst decode_loop.simps) (simp add: b64_pad)
next
  case (3 a b)
  have q: "b64 (a div 4) # b64 (a mod 4 * 16 + b div 16) # b64 (b mod 16 * 4) # [b64 64] = encodeBase64 [a, b]"
    by (simp add: b64_pad)
  have bounds: "a div 4 < 64" "a mod 4 * 16 + b div 16 < 64" "b mod 16 * 4 < 64"
    using 3 sextets(1) [of a] sextets(3,4) [of a b] by simp_all
  have "a div 4 * 4 + (a mod 4 * 16 + b div 16) div 16 = a" using 3 by auto
  moreover have "(a mod 4 * 16 + b div 16) mod 16 * 16 + b mod 16 * 4 div 4 = b" using 3 by auto
  ultimately have "decode_quad (encodeBase64 [a, b]) = [a, b]"
    using quad_values [of "a div 4" "a mod 4 * 16 + b div 16" "b mod 16 * 4" 64 "[]"] bounds unfolding q by simp
  then show ?case by (subst decode_loop.simps) simp
next
  case (4 a b c bs)
  have "decode_quad (encodeBase64 (a # b # c # bs)) = [a, b, c]"
    using quad_triple 4 by simp
  moreover have "length (encodeBase64 (a # b # c # bs)) > 4 \<longleftrightarrow> bs \<noteq> []"
    using encode_not_Nil [of bs] by (cases bs) auto
  moreover have "drop 4 (encodeBase64 (a # b # c # bs)) = encodeBase64 bs" by simp
  ultimately show ?case using 4 by (subst decode_loop.simps) simp
qed

lemma unescape_plain: "37 \<notin> set bs \<Longrightarrow> unescape bs = bs"
  by (induction bs) auto

section \<open>The properties\<close>



text \<open>The two limits of the round trip: empty data shows as three NUL characters, and data in which a
  percent sign is followed by two hexadecimal digits shows the character they stand for instead.\<close>

theorem decode_distorts:
  assumes "h < 16" "l < 16" "list_all (\<lambda>b. b < 256) bs" "37 \<notin> set bs"
  shows "decodeBase64 [] = [0, 0, 0]
    \<and> decodeBase64 (encodeBase64 (37 # (if h < 10 then h + 48 else h + 87) # (if l < 10 then l + 48 else l + 87) # bs))
        = (h * 16 + l) # bs"
proof -
  have e: "decodeBase64 [] = [0, 0, 0]" by code_simp
  let ?d = "\<lambda>x :: nat. if x < 10 then x + 48 else x + 87"
  have hv: "hex_val (?d x) = Some x" if "x < 16" for x using that by (simp add: hex_val_def)
  have nu: "?d h \<noteq> 117" using assms(1) by simp
  have "percent_code (?d h # ?d l # bs) = Some (h * 16 + l, 2)"
    using nu hv [OF assms(1)] hv [OF assms(2)] by (simp only: percent_code_def nth_Cons_0) simp
  then have "unescape (37 # ?d h # ?d l # bs) = (h * 16 + l) # bs"
    using unescape_plain [OF assms(4)] by (simp only: unescape.simps option.case prod.case if_True) simp
  moreover have b: "list_all (\<lambda>b. b < 256) (37 # ?d h # ?d l # bs)" using assms by simp
  ultimately have "decodeBase64 (encodeBase64 (37 # ?d h # ?d l # bs)) = (h * 16 + l) # bs"
    using filter_encode [OF b] decode_encode [OF _ b] by (simp only: decodeBase64_def) simp
  with e show ?thesis by blast
qed

theorem decode_distorts_witness: "decodeBase64 (encodeBase64 [37, 52, 49, 10]) = [65, 10]"
  using decode_distorts [of 4 1 "[10]"] by simp

end
