(* ===== verification/Units.thy ===== *)
theory Units
  imports Complex_Main DateTime
begin

text \<open>
  The numeric functions of \<^verbatim>\<open>src/converters.js\<close>: durations, precision, units. Quantities are
  rationals: the conversions by powers of two are exact in JavaScript too, those by 1000 round
  there. \<^verbatim>\<open>humanize-duration\<close> is a parameter.
\<close>

section \<open>Durations\<close>

text \<open>A timestamp is a number or a string; \<^term>\<open>None\<close> is \<^verbatim>\<open>NaN\<close>.\<close>

definition timestamp_ms :: "json \<Rightarrow> int option" where
  "timestamp_ms t = (case t of JNum n \<Rightarrow> Some n | _ \<Rightarrow> date_parse t)"

definition durationInSeconds :: "json \<Rightarrow> json \<Rightarrow> int option" where
  "durationInSeconds fromTimestamp toTimestamp =
     num_minus (timestamp_ms toTimestamp) (timestamp_ms fromTimestamp)"

fun replace_first :: "string \<Rightarrow> string \<Rightarrow> string \<Rightarrow> string" where
  "replace_first p r [] = (if p = [] then r else [])"
| "replace_first p r (c # s) =
     (if starts_with p (c # s) then r @ drop (length p) (c # s) else c # replace_first p r s)"

definition toHumanizedAge :: "(int option \<Rightarrow> string) \<Rightarrow> int \<Rightarrow> json \<Rightarrow> string" where
  "toHumanizedAge humanize now timestampOrAge =
     (let age = (case timestampOrAge of
                   JStr s \<Rightarrow> num_minus (Some now) (date_parse timestampOrAge)
                 | _ \<Rightarrow> to_num timestampOrAge)
      in replace_first ''a few '' [] (humanize age))"

section \<open>Precision\<close>

text \<open>
  \<^verbatim>\<open>x.toFixed(places)\<close>: the integer nearest to \<^verbatim>\<open>x * 10^places\<close>, the larger of two, in
  decimal with that many digits after the point; the sign of a negative number is put in front.
\<close>

definition pad_left :: "nat \<Rightarrow> string \<Rightarrow> string" where
  "pad_left n s = replicate (n - length s) (CHR ''0'') @ s"

definition to_fixed :: "nat \<Rightarrow> rat \<Rightarrow> string" where
  "to_fixed places x =
     (let n = nat \<lfloor>\<bar>x\<bar> * 10 ^ places + 1 / 2\<rfloor>; s = pad_left (Suc places) (nat_str n);
          k = length s - places
      in (if x < 0 then ''-'' else []) @ take k s @ (if places = 0 then [] else ''.'' @ drop k s))"

text \<open>A number or a string.\<close>

datatype shown = Number rat | Text string

text \<open>The loop of \<^verbatim>\<open>fixPrecision\<close>: the marker and the decimals it stops with.\<close>

function precision_loop :: "rat \<Rightarrow> nat \<Rightarrow> rat \<Rightarrow> nat \<Rightarrow> rat \<times> nat" where
  "precision_loop number maxDecimals marker decimals =
     (if number < marker \<and> decimals \<le> maxDecimals
      then precision_loop number maxDecimals (marker / 10) (Suc decimals)
      else (marker, decimals))"
  by pat_completeness auto
termination by (relation "measure (\<lambda>(x, m, k, d). Suc m - d)") auto

declare precision_loop.simps [simp del]

definition fixPrecision :: "rat \<Rightarrow> nat \<Rightarrow> shown" where
  "fixPrecision number maxDecimals =
     (let (marker, decimals) = precision_loop number maxDecimals 10 0
      in if number < marker then Number (of_int \<lfloor>number + 1 / 2\<rfloor>)
         else Text (to_fixed decimals number))"

section \<open>Units\<close>

definition fixUnits :: "rat \<Rightarrow> string \<Rightarrow> rat \<times> string" where
  "fixUnits number units =
     (if number < 1 then
        (if units = ''gibibytes'' then (number * 1024, ''kibibytes'')
         else if units = ''kibibytes'' then (number * 1024, ''bytes'')
         else if units = ''cores'' then (number * 1000, ''millicores'')
         else (number, units))
      else (number, units))"

definition is_upper :: "char \<Rightarrow> bool" where
  "is_upper c = (let n = of_char c :: nat in 65 \<le> n \<and> n \<le> 90)"

text \<open>
  The match of \<^verbatim>\<open>/([0-9]+)([A-Z][iBb])/\<close> at the front of a string: a run of digits, then the two
  letters. A shorter run cannot match, since a digit is no letter.
\<close>

definition unit_match :: "string \<Rightarrow> (string \<times> string) option" where
  "unit_match s =
     (let ds = takeWhile is_digit s; r = dropWhile is_digit s
      in if ds \<noteq> [] then
           (case r of a # b # _ \<Rightarrow>
              if is_upper a \<and> (b = CHR ''i'' \<or> b = CHR ''B'' \<or> b = CHR ''b'') then Some (ds, [a, b]) else None
            | _ \<Rightarrow> None)
         else None)"

fun first_match :: "string \<Rightarrow> (string \<times> string) option" where
  "first_match [] = None"
| "first_match (c # s) = (case unit_match (c # s) of Some m \<Rightarrow> Some m | None \<Rightarrow> first_match s)"

definition parseUnits :: "string \<Rightarrow> (string \<times> string) option" where
  "parseUnits valueWithUnit = do {
     (n, u) \<leftarrow> first_match valueWithUnit;
     Some (n, if u = ''Gi'' then ''gibibytes'' else if u = ''Mi'' then ''mebibytes''
              else if u = ''Ki'' then ''kibibytes'' else u)
   }"

definition convert_unit :: "string \<Rightarrow> string \<Rightarrow> rat \<Rightarrow> rat" where
  "convert_unit bu tu v =
     (if bu = tu then v
      else if bu = ''bytes'' then
        (if tu = ''kibibytes'' then v / 1024
         else if tu = ''mebibytes'' then v / (1024 * 1024)
         else if tu = ''gibibytes'' then v / (1024 * 1024 * 1024) else v)
      else if bu = ''kibibytes'' then
        (if tu = ''bytes'' then v * 1024 else if tu = ''mebibytes'' then v / 1024 else v)
      else if bu = ''mebibytes'' then
        (if tu = ''kibibytes'' then v * 1024 else if tu = ''bytes'' then v * 1024 * 1024 else v)
      else if bu = ''gibibytes'' then
        (if tu = ''mebibytes'' then v * 1024 else if tu = ''kibibytes'' then v * 1024 * 1024
         else if tu = ''bytes'' then v * 1024 * 1024 * 1024 else v)
      else if bu = ''cores'' then (if tu = ''millicores'' then v * 1000 else v)
      else if bu = ''millicores'' then (if tu = ''cores'' then v / 1000 else v)
      else v)"

definition convert_all :: "string \<Rightarrow> string \<Rightarrow> rat \<Rightarrow> rat option" where
  "convert_all baseUnit targetUnit v =
     (let base = split_on (CHR ''/'') baseUnit; target = split_on (CHR ''/'') targetUnit
      in if length base \<noteq> length target then None
         else Some (fold (\<lambda>(bu, tu). convert_unit bu tu) (zip base target) v))"

definition convertUnits :: "rat \<Rightarrow> string \<Rightarrow> string \<Rightarrow> int option \<Rightarrow> shown" where
  "convertUnits value baseUnit targetUnit places =
     (case convert_all baseUnit targetUnit value of
        None \<Rightarrow> Number value
      | Some v \<Rightarrow> (case places of
            Some p \<Rightarrow> if p > - 1 then Text (to_fixed (nat p) v) else Number v
          | None \<Rightarrow> Number v))"

section \<open>What the conversions mean\<close>

text \<open>The quantity one unit stands for, in bytes or in millicores; a kind of unit for each.\<close>

definition unit_size :: "string \<Rightarrow> (nat \<times> rat) option" where
  "unit_size u =
     (if u = ''bytes'' then Some (0, 1) else if u = ''kibibytes'' then Some (0, 1024)
      else if u = ''mebibytes'' then Some (0, 1024 ^ 2) else if u = ''gibibytes'' then Some (0, 1024 ^ 3)
      else if u = ''millicores'' then Some (1, 1) else if u = ''cores'' then Some (1, 1000) else None)"

lemma unit_sizes:
  "unit_size u = Some (k, s) \<Longrightarrow> (u = ''bytes'' \<and> k = 0 \<and> s = 1) \<or> (u = ''kibibytes'' \<and> k = 0 \<and> s = 1024)
   \<or> (u = ''mebibytes'' \<and> k = 0 \<and> s = 1024 ^ 2) \<or> (u = ''gibibytes'' \<and> k = 0 \<and> s = 1024 ^ 3)
   \<or> (u = ''millicores'' \<and> k = 1 \<and> s = 1) \<or> (u = ''cores'' \<and> k = 1 \<and> s = 1000)"
  unfolding unit_size_def by (presburger | simp split: if_splits)+

lemma convert_unit_quantity:
  assumes "unit_size bu = Some (k, s)" "unit_size tu = Some (k, t)"
    and "\<not> (bu = ''kibibytes'' \<and> tu = ''gibibytes'')" "\<not> (bu = ''mebibytes'' \<and> tu = ''gibibytes'')"
  shows "convert_unit bu tu v * t = v * s"
  using unit_sizes [OF assms(1)] unit_sizes [OF assms(2)] assms(3,4)
  by (elim disjE) (simp_all add: convert_unit_def)

section \<open>The properties\<close>

text \<open>convertUnits keeps the quantity: between any two units of memory, or of cpu, the result in the
  target unit is the same amount as the value in the base unit, except that kibibytes and mebibytes
  are never turned into gibibytes: the number comes back unchanged.\<close>

theorem convertUnits_exact:
  assumes "unit_size bu = Some (k, s)" "unit_size tu = Some (k, t)"
  shows "\<exists>w. convertUnits v bu tu None = Number w
    \<and> (if tu = ''gibibytes'' \<and> bu \<in> {''kibibytes'', ''mebibytes''} then w = v else w * t = v * s)"
proof -
  have one: "split_on (CHR ''/'') u = [u]" if "unit_size u = Some (j, x)" for u j x
    using unit_sizes [OF that] by (elim disjE) simp_all
  have "convert_all bu tu v = Some (convert_unit bu tu v)"
    by (simp add: convert_all_def one [OF assms(1)] one [OF assms(2)])
  moreover have "tu = ''gibibytes'' \<Longrightarrow> bu \<in> {''kibibytes'', ''mebibytes''} \<Longrightarrow> convert_unit bu tu v = v"
    by (auto simp: convert_unit_def)
  ultimately show ?thesis
    using convert_unit_quantity [OF assms, of v] by (auto simp: convertUnits_def)
qed

theorem convertUnits_exact_witness:
  "convertUnits 3 ''gibibytes'' ''mebibytes'' None = Number 3072 \<and> convertUnits 3 ''kibibytes'' ''gibibytes'' None = Number 3"
proof -
  have u: "unit_size ''gibibytes'' = Some (0, 1024 ^ 3)" "unit_size ''mebibytes'' = Some (0, 1024 ^ 2)"
    "unit_size ''kibibytes'' = Some (0, 1024)" by (simp_all add: unit_size_def)
  from convertUnits_exact [OF u(1,2), of 3] convertUnits_exact [OF u(3,1), of 3] show ?thesis by auto
qed

text \<open>fixUnits turns small numbers into smaller units of the same amount for kibibytes and cores, but
  gibibytes into a number of mebibytes that it calls kibibytes, an amount 1024 times too small.\<close>

theorem fixUnits_amount:
  assumes "fixUnits number units = (n, u)" "unit_size units = Some (k, s)"
  shows "\<exists>t. unit_size u = Some (k, t)
    \<and> (if units = ''gibibytes'' \<and> number < 1 then n * t * 1024 = number * s else n * t = number * s)"
  using assms(1) unit_sizes [OF assms(2)]
  by (elim disjE) (auto simp: fixUnits_def unit_size_def split: if_splits)

theorem fixUnits_amount_witness: "fixUnits (1 / 2) ''gibibytes'' = (512, ''kibibytes'') \<and> (512 :: rat) * 1024 * 1024 = 1 / 2 * 1024 ^ 3"
proof -
  have f: "fixUnits (1 / 2) ''gibibytes'' = (512, ''kibibytes'')" by (simp add: fixUnits_def)
  have "unit_size ''gibibytes'' = Some (0, 1024 ^ 3)" by (simp add: unit_size_def)
  from fixUnits_amount [OF f this] f show ?thesis by (simp add: unit_size_def)
qed

lemma precision_loop_spec:
  "precision_loop x m (10 / 10 ^ d) d = (k, e) \<Longrightarrow> d \<le> Suc m \<Longrightarrow> k = 10 / 10 ^ e \<and> d \<le> e \<and> e \<le> Suc m
     \<and> (x < k \<longrightarrow> e = Suc m) \<and> (d < e \<longrightarrow> x < 10 * k)"
proof (induction x m "10 / 10 ^ d :: rat" d rule: precision_loop.induct)
  case (1 x m d)
  show ?case
  proof (cases "x < 10 / 10 ^ d \<and> d \<le> m")
    case True
    have q: "10 / 10 ^ d / 10 = (10 / 10 ^ Suc d :: rat)" by simp
    from True "1.prems"(1) have p: "precision_loop x m (10 / 10 ^ Suc d) (Suc d) = (k, e)"
      by (subst (asm) precision_loop.simps) (simp add: q)
    have IH: "k = 10 / 10 ^ e \<and> Suc d \<le> e \<and> e \<le> Suc m \<and> (x < k \<longrightarrow> e = Suc m) \<and> (Suc d < e \<longrightarrow> x < 10 * k)"
      by (rule "1.hyps" [OF True q p]) (use True in simp)
    have "x < 10 * k"
    proof (cases "e = Suc d")
      case True
      with IH \<open>x < 10 / 10 ^ d \<and> d \<le> m\<close> show ?thesis by simp
    next
      case False
      with IH show ?thesis by (metis le_neq_implies_less)
    qed
    with IH show ?thesis by (metis Suc_leD)
  next
    case False
    with "1.prems" show ?thesis by (subst (asm) precision_loop.simps) auto
  qed
qed

text \<open>fixPrecision returns for every number; it shows a number of at least 10 without decimals, a
  smaller one of order 10^-n with n + 1 decimals, up to one decimal more than the maximum that it was
  given, and rounds what is smaller still to an integer.\<close>

theorem fixPrecision_decimals:
  "\<exists>e \<le> Suc m. (if x < 10 / 10 ^ e then e = Suc m \<and> fixPrecision x m = Number (of_int \<lfloor>x + 1 / 2\<rfloor>)
      else fixPrecision x m = Text (to_fixed e x)) \<and> (0 < e \<longrightarrow> x < 10 / 10 ^ (e - 1))"
proof -
  obtain k e where l: "precision_loop x m 10 0 = (k, e)" by (cases "precision_loop x m 10 0")
  have s: "k = 10 / 10 ^ e \<and> e \<le> Suc m \<and> (x < k \<longrightarrow> e = Suc m) \<and> (0 < e \<longrightarrow> x < 10 * k)"
  proof -
    have "precision_loop x m (10 / 10 ^ 0) 0 = (k, e)" using l by simp
    from precision_loop_spec [OF this] show ?thesis by blast
  qed
  then have k: "k = 10 / 10 ^ e" and b: "0 < e \<longrightarrow> x < 10 * k" by blast+
  have "10 * k = 10 / 10 ^ (e - 1)" if "0 < e" using that k by (cases e) simp_all
  with b have "0 < e \<longrightarrow> x < 10 / 10 ^ (e - 1)" by metis
  moreover have "if x < k then e = Suc m \<and> fixPrecision x m = Number (of_int \<lfloor>x + 1 / 2\<rfloor>)
      else fixPrecision x m = Text (to_fixed e x)"
    using s unfolding fixPrecision_def l Let_def prod.case by metis
  ultimately show ?thesis using s unfolding k by blast
qed

lemma if_not: "(if c then a \<and> p else q) \<Longrightarrow> \<not> p \<Longrightarrow> q"
  by (cases c) simp_all

lemma fixPrecision_three: "fixPrecision (1 / 20) 2 = Text ''0.050''"
  by code_simp

theorem fixPrecision_decimals_witness:
  "\<exists>e. e \<le> 3 \<and> fixPrecision (1 / 20) 2 = Text (to_fixed e (1 / 20)) \<and> length (to_fixed e (1 / 20)) = 5"
proof -
  obtain e where e: "e \<le> Suc 2" "if 1 / 20 < (10 / 10 ^ e :: rat) then e = Suc 2 \<and> fixPrecision (1 / 20) 2 = Number (of_int \<lfloor>1 / 20 + 1 / 2 :: rat\<rfloor>)
      else fixPrecision (1 / 20) 2 = Text (to_fixed e (1 / 20))"
    using fixPrecision_decimals [of 2 "1 / 20"] by (elim exE conjE)
  have "fixPrecision (1 / 20) 2 \<noteq> Number y" for y
    unfolding fixPrecision_three by (rule shown.distinct(2))
  with e(2) have t: "fixPrecision (1 / 20) 2 = Text (to_fixed e (1 / 20))" by (rule if_not)
  then have "to_fixed e (1 / 20) = ''0.050''" unfolding fixPrecision_three shown.inject by (rule sym)
  then have "length (to_fixed e (1 / 20)) = 5" by simp
  with e(1) t show ?thesis by (intro exI [of _ e]) simp
qed

end
