(* ===== verification/Summary.thy ===== *)
theory Summary
  imports JsValue Units Counter
begin

text \<open>
  The dashboard's summaries, \<^verbatim>\<open>src/utils/summary-utils.js\<close>: the number of resources of each
  kind, and the usage of the cluster's resources summed over the selected namespaces, with the
  quotas. Metrics and quotas come from the project's own server as numbers; a missing number is
  \<^term>\<open>None\<close>.
\<close>

section \<open>Totals\<close>

definition add_count :: "string \<Rightarrow> int \<Rightarrow> int obj \<Rightarrow> int obj" where
  "add_count k n c = oset k ((case oget c k of Some m \<Rightarrow> m | None \<Rightarrow> 0) + n) c"

definition total_of :: "int obj \<Rightarrow> string \<Rightarrow> int" where
  "total_of c k = (case oget c k of Some m \<Rightarrow> m | None \<Rightarrow> 0)"

interpretation totals: counter add_count total_of
  by unfold_locales (simp add: add_count_def total_of_def)

definition total_visitor :: "bool obj \<Rightarrow> string \<times> json \<Rightarrow> int obj \<Rightarrow> int obj option" where
  "total_visitor selectedNamespaces kr counts = do {
     let resource = snd kr;
     sel \<leftarrow> (if selectedNamespaces = [] then Some True
             else do { md \<leftarrow> jget resource ''metadata''; ns \<leftarrow> jget md ''namespace'';
                       Some (ohas (to_str ns) selectedNamespaces) });
     if sel then do { kind \<leftarrow> jget resource ''kind''; Some (add_count (to_str kind) 1 counts) }
     else Some counts
   }"

definition calculateTotals :: "json obj \<Rightarrow> bool obj \<Rightarrow> int obj option" where
  "calculateTotals resources selectedNamespaces = foldM (total_visitor selectedNamespaces) resources []"

section \<open>Metrics\<close>

record stat =
  su_usage :: rat
  su_requestsUsage :: rat
  su_limitsUsage :: rat
  su_requestsTotal :: rat
  su_limitsTotal :: rat
  su_total :: rat
  su_units :: string
  su_ratio :: rat
  su_shareTotal :: bool

record usage =
  u_usage :: "rat option"
  u_total :: "rat option"

record quota =
  q_requests_used :: "rat option"
  q_limits_used :: "rat option"
  q_requests_total :: "rat option"
  q_limits_total :: "rat option"

definition or0 :: "rat option \<Rightarrow> rat" where
  "or0 v = (case v of Some x \<Rightarrow> x | None \<Rightarrow> 0)"

definition zero_stat :: "bool \<Rightarrow> stat" where
  "zero_stat share = \<lparr>su_usage = 0, su_requestsUsage = 0, su_limitsUsage = 0, su_requestsTotal = 0,
     su_limitsTotal = 0, su_total = 0, su_units = [], su_ratio = 0, su_shareTotal = share\<rparr>"

definition initial_stats :: "stat obj" where
  "initial_stats = [(''cpu'', zero_stat True), (''memory'', zero_stat True), (''disk'', zero_stat True),
     (''volumes'', zero_stat False), (''netRx'', zero_stat True), (''netTx'', zero_stat True)]"

definition statUnits :: "(string \<times> string) obj" where
  "statUnits = [(''cpu'', (''millicores'', ''cores'')), (''memory'', (''bytes'', ''gibibytes'')),
     (''disk'', (''bytes'', ''gibibytes'')), (''volumes'', (''bytes'', ''gibibytes'')),
     (''netRx'', (''bytes/sec'', ''kibibytes/sec'')), (''netTx'', (''bytes/sec'', ''kibibytes/sec''))]"

definition acc_usage :: "usage option \<Rightarrow> stat \<Rightarrow> stat" where
  "acc_usage u st =
     (case u of None \<Rightarrow> st
      | Some m \<Rightarrow> st\<lparr>su_usage := su_usage st + or0 (u_usage m),
                    su_total := (if su_shareTotal st then or0 (u_total m) else su_total st + or0 (u_total m))\<rparr>)"

definition acc_quota :: "quota option \<Rightarrow> stat \<Rightarrow> stat" where
  "acc_quota q st =
     (case q of None \<Rightarrow> st
      | Some m \<Rightarrow> st\<lparr>su_requestsUsage := su_requestsUsage st + or0 (q_requests_used m),
                    su_limitsUsage := su_limitsUsage st + or0 (q_limits_used m),
                    su_requestsTotal := su_requestsTotal st + or0 (q_requests_total m),
                    su_limitsTotal := su_limitsTotal st + or0 (q_limits_total m)\<rparr>)"

text \<open>\<open>stats[stat]\<close> exists whenever these are called: \<open>stat\<close> ranges over the keys of \<open>stats\<close>.\<close>

definition upd_stat :: "string \<Rightarrow> (stat \<Rightarrow> stat) \<Rightarrow> stat obj \<Rightarrow> stat obj" where
  "upd_stat s f stats = (case oget stats s of Some st \<Rightarrow> oset s (f st) stats | None \<Rightarrow> stats)"

definition accumulateStats :: "string \<Rightarrow> usage obj \<Rightarrow> stat obj \<Rightarrow> stat obj" where
  "accumulateStats s m stats = upd_stat s (acc_usage (oget m s)) stats"

definition applyQuota :: "string \<Rightarrow> quota obj \<Rightarrow> stat obj \<Rightarrow> stat obj" where
  "applyQuota s q stats = upd_stat s (acc_quota (oget q s)) stats"

definition conv :: "string \<times> string \<Rightarrow> rat \<Rightarrow> rat" where
  "conv u v = (case convertUnits v (fst u) (snd u) None of Number w \<Rightarrow> w | Text _ \<Rightarrow> v)"

definition finish_stat :: "string \<times> string \<Rightarrow> stat \<Rightarrow> stat" where
  "finish_stat u st =
     (let st = st\<lparr>su_ratio := (if su_total st = 0 then 0 else su_usage st / su_total st)\<rparr>;
          st = (if str_includes (snd u) ''/'' then st\<lparr>su_ratio := conv u (su_ratio st)\<rparr>
                else st\<lparr>su_usage := conv u (su_usage st), su_total := conv u (su_total st),
                        su_requestsUsage := conv u (su_requestsUsage st),
                        su_requestsTotal := conv u (su_requestsTotal st),
                        su_limitsUsage := conv u (su_limitsUsage st),
                        su_limitsTotal := conv u (su_limitsTotal st)\<rparr>)
      in st\<lparr>su_units := snd u\<rparr>)"

definition add_namespaces ::
  "bool obj \<Rightarrow> usage obj obj \<Rightarrow> stat obj \<Rightarrow> stat obj" where
  "add_namespaces selectedNamespaces namespaceMetrics stats =
     fold (\<lambda>(ns, m) stats. if selectedNamespaces = [] \<or> ohas ns selectedNamespaces
             then fold (\<lambda>s. accumulateStats s m) (okeys stats) stats else stats) namespaceMetrics stats"

definition add_quotas :: "bool obj \<Rightarrow> quota obj obj \<Rightarrow> stat obj \<Rightarrow> stat obj" where
  "add_quotas selectedNamespaces resourceQuotas stats =
     fold (\<lambda>(ns, q) stats. if ohas ns selectedNamespaces
             then fold (\<lambda>s. applyQuota s q) (okeys stats) stats else stats) resourceQuotas stats"

text \<open>\<open>clusterMetrics.disk\<close> is read when there are cluster metrics; without it the code throws.\<close>

definition calculateMetrics ::
  "usage obj option \<Rightarrow> usage obj obj option \<Rightarrow> bool obj \<Rightarrow> quota obj obj option \<Rightarrow> stat obj option" where
  "calculateMetrics clusterMetrics namespaceMetrics selectedNamespaces resourceQuotas =
     (let stats = (case resourceQuotas of Some q \<Rightarrow> add_quotas selectedNamespaces q initial_stats
                   | None \<Rightarrow> initial_stats)
      in case namespaceMetrics of
           None \<Rightarrow> Some stats
         | Some nm \<Rightarrow>
             (let stats = add_namespaces selectedNamespaces nm stats
              in do {
                   stats \<leftarrow> (case clusterMetrics of
                       None \<Rightarrow> Some stats
                     | Some cm \<Rightarrow> (case oget cm ''disk'' of
                           None \<Rightarrow> None
                         | Some d \<Rightarrow> Some (upd_stat ''disk'' (\<lambda>st. st\<lparr>su_total := or0 (u_total d)\<rparr>) stats)));
                   Some (map (\<lambda>(s, st). (s, case oget statUnits s of Some u \<Rightarrow> finish_stat u st | None \<Rightarrow> st)) stats)
                 }))"

section \<open>What the loops compute\<close>

lemma upd_stat_keys [simp]: "okeys (upd_stat s f stats) = okeys stats"
  by (auto simp: upd_stat_def okeys_oset ohas_def split: option.splits)

lemma oget_upd_stat: "oget (upd_stat s f stats) k = (if k = s then map_option f (oget stats k) else oget stats k)"
  by (auto simp: upd_stat_def split: option.splits)

lemma fold_upd_keys: "okeys (fold (\<lambda>s. upd_stat s (f s)) ks stats) = okeys stats"
  by (induction ks arbitrary: stats) simp_all

lemma fold_upd_stat:
  "distinct ks \<Longrightarrow> oget (fold (\<lambda>s. upd_stat s (f s)) ks stats) k =
     (if k \<in> set ks then map_option (f k) (oget stats k) else oget stats k)"
  by (induction ks arbitrary: stats) (auto simp: oget_upd_stat)

text \<open>Both loops over namespaces: an update of every statistic for every namespace that is let in.\<close>

lemma fold_namespaces:
  assumes "distinct (okeys stats)"
  shows "okeys (fold (\<lambda>(ns, m) stats. if P ns then fold (\<lambda>s. upd_stat s (f s m)) (okeys stats) stats else stats) nm stats) = okeys stats
    \<and> oget (fold (\<lambda>(ns, m) stats. if P ns then fold (\<lambda>s. upd_stat s (f s m)) (okeys stats) stats else stats) nm stats) k
      = map_option (fold (f k) (map snd (filter (\<lambda>(ns, m). P ns) nm))) (oget stats k)"
  using assms
proof (induction nm arbitrary: stats)
  case Nil
  then show ?case by (simp add: option.map_ident)
next
  case (Cons p nm)
  obtain ns m where p: "p = (ns, m)" by (cases p)
  let ?t = "fold (\<lambda>s. upd_stat s (f s m)) (okeys stats) stats"
  have k: "okeys ?t = okeys stats" by (rule fold_upd_keys)
  have g: "oget ?t k = map_option (f k m) (oget stats k)"
    using fold_upd_stat [OF Cons.prems, of "\<lambda>s. f s m" stats k] map_of_eq_None_iff [of stats k]
    by (cases "k \<in> set (okeys stats)") simp_all
  show ?case
    using Cons.IH [of ?t] Cons.IH [of stats] Cons.prems
    by (simp add: p k g option.map_comp comp_def)
qed

lemma usage_fold:
  "su_usage (fold (\<lambda>m. acc_usage (oget m k)) ms st) =
     su_usage st + sum_list (map (\<lambda>m. case oget m k of Some u \<Rightarrow> or0 (u_usage u) | None \<Rightarrow> 0) ms)"
  by (induction ms arbitrary: st) (auto simp: acc_usage_def split: option.split)

text \<open>The usage of one statistic over the namespaces that are selected (all, if none is).\<close>

definition selected_usage :: "bool obj \<Rightarrow> usage obj obj \<Rightarrow> string \<Rightarrow> rat" where
  "selected_usage sel nm k =
     sum_list (map (\<lambda>(ns, m). case oget m k of Some u \<Rightarrow> or0 (u_usage u) | None \<Rightarrow> 0)
       (filter (\<lambda>(ns, m). sel = [] \<or> ohas ns sel) nm))"

lemma distinct_initial: "distinct (okeys initial_stats)"
  by code_simp

lemma quota_usage: "su_usage (acc_quota q st) = su_usage st"
  by (simp add: acc_quota_def split: option.split)

lemma quotas_fold_usage: "su_usage (fold (\<lambda>q. acc_quota (oget q k)) qs st) = su_usage st"
  by (induction qs arbitrary: st) (simp_all add: quota_usage)

lemma quotas_usage:
  "okeys (add_quotas sel q initial_stats) = okeys initial_stats
   \<and> map_option su_usage (oget (add_quotas sel q initial_stats) k) = map_option su_usage (oget initial_stats k)"
  using fold_namespaces [OF distinct_initial, where P = "\<lambda>ns. ohas ns sel" and f = "\<lambda>s q. acc_quota (oget q s)" and nm = q and k = k]
  unfolding add_quotas_def applyQuota_def
  by (simp only: option.map_comp comp_def quotas_fold_usage)

lemma stat_factor:
  assumes "k \<in> {''cpu'', ''memory'', ''disk'', ''volumes''}"
  shows "\<exists>u. oget statUnits k = Some u \<and> \<not> str_includes (snd u) ''/''
    \<and> (\<forall>v. conv u v = v / (if k = ''cpu'' then 1000 else 1024 ^ 3))
    \<and> snd u = (if k = ''cpu'' then ''cores'' else ''gibibytes'')"
  using assms
  by (auto simp: statUnits_def conv_def convertUnits_def convert_all_def convert_unit_def starts_with_def)

lemma net_conv: "conv (''bytes/sec'', ''kibibytes/sec'') v = v / 1024" "str_includes ''kibibytes/sec'' ''/''"
  by (simp_all add: conv_def convertUnits_def convert_all_def convert_unit_def starts_with_def)

lemma calculateMetrics_cases:
  assumes "calculateMetrics cm (Some nm) sel rq = Some stats"
  obtains stats1 where
    "stats = map (\<lambda>(s, st). (s, case oget statUnits s of Some u \<Rightarrow> finish_stat u st | None \<Rightarrow> st)) stats1"
    "okeys stats1 = okeys initial_stats"
    "\<And>k. k \<in> set (okeys initial_stats) \<Longrightarrow> \<exists>st. oget stats1 k = Some st \<and> su_usage st = selected_usage sel nm k"
proof -
  define s0 where "s0 = (case rq of Some q \<Rightarrow> add_quotas sel q initial_stats | None \<Rightarrow> initial_stats)"
  have s0: "okeys s0 = okeys initial_stats"
    "\<And>k. map_option su_usage (oget s0 k) = map_option su_usage (oget initial_stats k)"
    using quotas_usage by (auto simp: s0_def split: option.split)
  define s1 where "s1 = add_namespaces sel nm s0"
  have d: "distinct (okeys s0)" unfolding s0(1) by (rule distinct_initial)
  have s1: "okeys s1 = okeys s0" "oget s1 k = map_option (fold (\<lambda>m. acc_usage (oget m k))
      (map snd (filter (\<lambda>(ns, m). sel = [] \<or> ohas ns sel) nm))) (oget s0 k)" for k
    using fold_namespaces [OF d, where P = "\<lambda>ns. sel = [] \<or> ohas ns sel" and f = "\<lambda>s m. acc_usage (oget m s)" and nm = nm and k = k]
    unfolding s1_def add_namespaces_def accumulateStats_def by blast+
  have zero: "k \<in> set (okeys initial_stats) \<Longrightarrow> map_option su_usage (oget initial_stats k) = Some 0" for k
    by (auto simp: initial_stats_def zero_stat_def)
  have u1: "\<exists>st. oget s1 k = Some st \<and> su_usage st = selected_usage sel nm k" if "k \<in> set (okeys initial_stats)" for k
  proof -
    note z = zero [OF that]
    obtain st where "oget s0 k = Some st" "su_usage st = 0"
      using s0(2) [of k] z by (cases "oget s0 k") auto
    then show ?thesis by (simp add: s1 usage_fold selected_usage_def split_def comp_def)
  qed
  from assms obtain s2 where s2: "s2 = s1 \<or> (\<exists>t. s2 = upd_stat ''disk'' (\<lambda>st. st\<lparr>su_total := t\<rparr>) s1)"
    "stats = map (\<lambda>(s, st). (s, case oget statUnits s of Some u \<Rightarrow> finish_stat u st | None \<Rightarrow> st)) s2"
    unfolding calculateMetrics_def s0_def [symmetric] Let_def option.case s1_def [symmetric]
    by (auto simp: bind_Some_iff split: option.splits)
  have "okeys s2 = okeys initial_stats" using s2(1) s1(1) s0(1) by auto
  moreover have "\<exists>st. oget s2 k = Some st \<and> su_usage st = selected_usage sel nm k" if "k \<in> set (okeys initial_stats)" for k
    using u1 [OF that] s2(1) by (auto simp: oget_upd_stat)
  ultimately show ?thesis using that s2(2) by blast
qed

section \<open>The properties\<close>

lemma calculateTotals_filter:
  "foldM (total_visitor sel) rs c = Some t \<Longrightarrow>
   t = fold (\<lambda>k. add_count k 1) (map (\<lambda>(k, b). to_str (the (jget b ''kind'')))
         (filter (\<lambda>(k, b). sel = [] \<or> (\<exists>md ns. jget b ''metadata'' = Some md \<and> jget md ''namespace'' = Some ns \<and> ohas (to_str ns) sel)) rs)) c"
proof (induction rs arbitrary: c)
  case Nil
  then show ?case by simp
next
  case (Cons r rs)
  obtain k b where r: "r = (k, b)" by (cases r)
  from Cons.prems obtain c1 where c1: "total_visitor sel (k, b) c = Some c1" "foldM (total_visitor sel) rs c1 = Some t"
    by (auto simp: r split: option.splits)
  have "c1 = (if sel = [] \<or> (\<exists>md ns. jget b ''metadata'' = Some md \<and> jget md ''namespace'' = Some ns \<and> ohas (to_str ns) sel)
      then add_count (to_str (the (jget b ''kind''))) 1 c else c)"
    using c1(1) by (auto simp: total_visitor_def bind_Some_iff Let_def split: if_splits)
  with Cons.IH [OF c1(2)] show ?case by (auto simp: r)
qed

text \<open>calculateTotals counts, for every kind, the resources of that kind in the selected namespaces,
  or all of them when none is selected.\<close>

theorem totals_count:
  assumes "calculateTotals resources sel = Some totals"
  shows "total_of totals kind = int (length (filter (\<lambda>(k, b). to_str (the (jget b ''kind'')) = kind
      \<and> (sel = [] \<or> (\<exists>md ns. jget b ''metadata'' = Some md \<and> jget md ''namespace'' = Some ns \<and> ohas (to_str ns) sel)))
      resources))"
  using calculateTotals_filter [OF assms [unfolded calculateTotals_def]]
  by (simp add: totals.read_fold_one total_of_def [of "[]"] count_list_eq_length_filter filter_map comp_def
      split_def conj_commute eq_commute)

definition demo_bodies :: "json obj" where
  "demo_bodies = [(''Pod/a/x'', JObj [(''kind'', JStr ''Pod''), (''metadata'', JObj [(''namespace'', JStr ''a'')])]),
                  (''Pod/b/y'', JObj [(''kind'', JStr ''Pod''), (''metadata'', JObj [(''namespace'', JStr ''b'')])])]"

theorem totals_count_witness:
  "\<exists>t. calculateTotals demo_bodies [(''a'', True)] = Some t \<and> total_of t ''Pod'' = 1"
proof -
  obtain t where t: "calculateTotals demo_bodies [(''a'', True)] = Some t" "total_of t ''Pod'' = 1"
  proof -
    have "map_option (\<lambda>t. total_of t ''Pod'') (calculateTotals demo_bodies [(''a'', True)]) = Some 1" by code_simp
    then show ?thesis using that by (cases "calculateTotals demo_bodies [(''a'', True)]") auto
  qed
  from totals_count [OF t(1), of "''Pod''"] t show ?thesis by blast
qed

text \<open>C25: The usage that the dashboard shows for cpu, memory, disk and volumes is the sum of the usage of
  the selected namespaces, in cores or gibibytes; for the network it is the sum in bytes, though the
  units read kibibytes/sec, and the ratio is divided by 1024.\<close>

theorem dashboard_usage:
  assumes "calculateMetrics cm (Some nm) sel rq = Some stats"
  shows "(\<forall>k \<in> {''cpu'', ''memory'', ''disk'', ''volumes''}. \<exists>st. oget stats k = Some st
      \<and> su_usage st = selected_usage sel nm k / (if k = ''cpu'' then 1000 else 1024 ^ 3)
      \<and> su_units st = (if k = ''cpu'' then ''cores'' else ''gibibytes'')
      \<and> su_ratio st = (if su_total st = 0 then 0 else su_usage st / su_total st))
    \<and> (\<forall>k \<in> {''netRx'', ''netTx''}. \<exists>st. oget stats k = Some st
      \<and> su_usage st = selected_usage sel nm k \<and> su_units st = ''kibibytes/sec''
      \<and> su_ratio st = (if su_total st = 0 then 0 else su_usage st / su_total st) / 1024)"
proof -
  from assms obtain stats1 where s:
    "stats = map (\<lambda>(s, st). (s, case oget statUnits s of Some u \<Rightarrow> finish_stat u st | None \<Rightarrow> st)) stats1"
    "okeys stats1 = okeys initial_stats"
    "\<And>k. k \<in> set (okeys initial_stats) \<Longrightarrow> \<exists>st. oget stats1 k = Some st \<and> su_usage st = selected_usage sel nm k"
    by (rule calculateMetrics_cases) blast
  have get: "oget stats k = map_option (\<lambda>st. case oget statUnits k of Some u \<Rightarrow> finish_stat u st | None \<Rightarrow> st) (oget stats1 k)" for k
    unfolding s(1) by (rule oget_map_values)
  show ?thesis
  proof (intro conjI ballI)
    fix k assume k: "k \<in> {''cpu'', ''memory'', ''disk'', ''volumes''}"
    then have "k \<in> set (okeys initial_stats)" by (auto simp: initial_stats_def)
    from s(3) [OF this] obtain st where st: "oget stats1 k = Some st" "su_usage st = selected_usage sel nm k" by blast
    obtain u where u: "oget statUnits k = Some u" "\<not> str_includes (snd u) ''/''"
      "\<And>v. conv u v = v / (if k = ''cpu'' then 1000 else 1024 ^ 3)"
      "snd u = (if k = ''cpu'' then ''cores'' else ''gibibytes'')"
      using stat_factor [OF k] by blast
    show "\<exists>st. oget stats k = Some st
      \<and> su_usage st = selected_usage sel nm k / (if k = ''cpu'' then 1000 else 1024 ^ 3)
      \<and> su_units st = (if k = ''cpu'' then ''cores'' else ''gibibytes'')
      \<and> su_ratio st = (if su_total st = 0 then 0 else su_usage st / su_total st)"
      by (rule exI [of _ "finish_stat u st"]) (simp add: get st u(1) finish_stat_def u(2,4) Let_def, simp add: u(3) starts_with_def)
  next
    fix k assume k: "k \<in> {''netRx'', ''netTx''}"
    then have "k \<in> set (okeys initial_stats)" by (auto simp: initial_stats_def)
    from s(3) [OF this] obtain st where st: "oget stats1 k = Some st" "su_usage st = selected_usage sel nm k" by blast
    have u: "oget statUnits k = Some (''bytes/sec'', ''kibibytes/sec'')" using k by (auto simp: statUnits_def)
    show "\<exists>st. oget stats k = Some st
      \<and> su_usage st = selected_usage sel nm k \<and> su_units st = ''kibibytes/sec''
      \<and> su_ratio st = (if su_total st = 0 then 0 else su_usage st / su_total st) / 1024"
      by (rule exI [of _ "finish_stat (''bytes/sec'', ''kibibytes/sec'') st"])
        (simp add: get st u finish_stat_def Let_def net_conv starts_with_def)
  qed
qed

definition demo_usage :: "usage obj obj" where
  "demo_usage = [(''a'', [(''cpu'', \<lparr>u_usage = Some 1500, u_total = Some 4000\<rparr>)]),
                 (''b'', [(''cpu'', \<lparr>u_usage = Some 500, u_total = Some 4000\<rparr>)])]"

theorem dashboard_usage_witness:
  "\<exists>stats st. calculateMetrics None (Some demo_usage) [] None = Some stats \<and> oget stats ''cpu'' = Some st \<and> su_usage st = 2"
proof -
  obtain stats where s: "calculateMetrics None (Some demo_usage) [] None = Some stats"
    by (simp add: calculateMetrics_def Let_def)
  have "selected_usage [] demo_usage ''cpu'' = 2000"
    by (simp add: selected_usage_def demo_usage_def or0_def)
  with dashboard_usage [OF s] s show ?thesis by fastforce
qed

end
