(* ===== verification/Store.thy ===== *)
theory Store
  imports ResourcesReach Events Slices Requests Links RequestUtils
begin

text \<open>
  The store that the action creators work on: all slices together, the address bar, and the effects
  that leave the program in order (navigation, a new watch, a request for metrics). An
  \<open>env\<close> holds what is not under the repository's control: js-yaml, query-string, the clock,
  and the fuel for traversals of ownership. Functions return \<^term>\<open>None\<close> when the code throws.
\<close>

record env =
  en_dump :: "json \<Rightarrow> string"
  en_load :: "string \<Rightarrow> json option"
  en_parse :: "string \<Rightarrow> json obj"
  en_stringify :: "json obj \<Rightarrow> string"
  en_fuel :: nat
  en_now :: int

datatype effect = Pushed string | Replaced string | WentBack | Watching "int option" | MetricsRequested

record world =
  wo_res :: rstate
  wo_events :: estate
  wo_errors :: "int \<times> errors_state"
  wo_session :: session_state
  wo_api :: apimodels_state
  wo_settings :: "settings \<times> settings option"
  wo_location :: location_state
  wo_logs :: logs_state
  wo_terminal :: terminal_state
  wo_path :: string
  wo_search :: string
  wo_out :: "effect list"

section \<open>Dispatching\<close>

definition on_res :: "env \<Rightarrow> raction \<Rightarrow> world \<Rightarrow> world option" where
  "on_res e a w =
     map_option (\<lambda>s. w\<lparr>wo_res := s\<rparr>) (resources_reducer (en_dump e) (en_fuel e) (en_now e) a (wo_res w))"

definition on_events :: "env \<Rightarrow> eaction \<Rightarrow> world \<Rightarrow> world option" where
  "on_events e a w =
     map_option (\<lambda>s. w\<lparr>wo_events := s\<rparr>) (events_reducer (en_fuel e) (st_heap (wo_res w)) a (wo_events w))"

definition on_logs :: "logs_action \<Rightarrow> world \<Rightarrow> world" where
  "on_logs a w = w\<lparr>wo_logs := logs_reducer a (wo_logs w)\<rparr>"

definition on_terminal :: "terminal_action \<Rightarrow> world \<Rightarrow> world" where
  "on_terminal a w = w\<lparr>wo_terminal := terminal_reducer a (wo_terminal w)\<rparr>"

definition emit :: "effect \<Rightarrow> world \<Rightarrow> world" where
  "emit x w = w\<lparr>wo_out := wo_out w @ [x]\<rparr>"

definition report :: "json \<Rightarrow> string \<Rightarrow> bool \<Rightarrow> world \<Rightarrow> world" where
  "report err message retry w =
     w\<lparr>wo_errors := addError err (JStr ''error'') (JStr message)
        (if retry then JStr ''Try Again'' else JUndef) retry (wo_errors w)\<rparr>"

text \<open>The thunk \<^verbatim>\<open>invalidateSession\<close>: every slice that knows the action, then the start page.\<close>

definition invalidateSession :: "env \<Rightarrow> world \<Rightarrow> world option" where
  "invalidateSession e w = do {
     w1 \<leftarrow> on_res e Invalidate w;
     w2 \<leftarrow> on_events e EInvalidate w1;
     Some (emit (Pushed ''/'')
       (w2\<lparr>wo_errors := (fst (wo_errors w2), errors_reducer ErrInvalidate (snd (wo_errors w2))),
           wo_session := session_reducer SInvalidate (wo_session w2),
           wo_location := location_reducer LInvalidate (wo_location w2),
           wo_logs := logs_reducer LogInvalidate (wo_logs w2),
           wo_terminal := terminal_reducer TermInvalidate (wo_terminal w2)\<rparr>))
   }"

definition the_kinds :: "world \<Rightarrow> json" where
  "the_kinds w = am_kinds (wo_api w)"

text \<open>\<^verbatim>\<open>JSON.parse\<close> of a resource: a new object in the heap.\<close>

definition alloc :: "json \<Rightarrow> rstate \<Rightarrow> ref \<times> rstate" where
  "alloc b s = (st_next s, s\<lparr>st_heap := (st_heap s)(st_next s \<mapsto> fresh_resource b), st_next := Suc (st_next s)\<rparr>)"

text \<open>\<^verbatim>\<open>resource.key = keyForResource(resource)\<close>\<close>

definition assign_key :: "ref \<Rightarrow> rstate \<Rightarrow> (string \<times> rstate) option" where
  "assign_key r s = do {
     x \<leftarrow> deref s r; kv \<leftarrow> keyForResource (r_body x) JUndef;
     Some (to_str kv, upd_res r (\<lambda>x. x\<lparr>r_key := Some (to_str kv)\<rparr>) s)
   }"

definition opt_res :: "rstate \<Rightarrow> ref option \<Rightarrow> resource option option" where
  "opt_res s ro = (case ro of None \<Rightarrow> Some None | Some r \<Rightarrow> map_option Some (deref s r))"

section \<open>The resources slice makes steps\<close>

text \<open>
  \<open>sim e w w'\<close>: the resources slice of \<open>w'\<close> is reached from that of \<open>w\<close> by steps of the
  slice's own transition system, so whatever holds in its reachable states is kept.
\<close>

definition sim :: "env \<Rightarrow> world \<Rightarrow> world \<Rightarrow> bool" where
  "sim e w w' \<longleftrightarrow> (resources_step (en_dump e) (en_fuel e))\<^sup>*\<^sup>* (wo_res w) (wo_res w')"

named_theorems sims \<open>operations of the store that make steps of the resources slice\<close>

lemma sim_refl [simp, intro]: "sim e w w"
  by (simp add: sim_def)

lemma sim_trans: "sim e a b \<Longrightarrow> sim e b c \<Longrightarrow> sim e a c"
  unfolding sim_def by (rule rtranclp_trans)

lemma sim_same: "wo_res w' = wo_res w \<Longrightarrow> sim e w w'"
  by (simp add: sim_def)

lemma sim_on_res: "on_res e a w = Some w' \<Longrightarrow> action_ok (wo_res w) a \<Longrightarrow> sim e w w'"
  by (auto simp: on_res_def sim_def intro!: r_into_rtranclp [where r = "resources_step (en_dump e) (en_fuel e)"] intro: resources_step.act)

lemma sim_on_events: "on_events e a w = Some w' \<Longrightarrow> sim e w w'"
  by (auto simp: on_events_def intro: sim_same)

lemma sim_quiet [simp]: "sim e w (on_logs a w)" "sim e w (on_terminal b w)" "sim e w (emit x w)"
  "sim e w (report err m t w)"
  by (simp_all add: on_logs_def on_terminal_def emit_def report_def sim_same)

lemma sim_quiet_iff [simp]:
  "sim e (on_logs a w) v = sim e w v" "sim e (on_terminal b w) v = sim e w v" "sim e (emit x w) v = sim e w v"
  "sim e (report err m t w) v = sim e w v" "sim e v (on_logs a w) = sim e v w"
  "sim e v (on_terminal b w) = sim e v w" "sim e v (emit x w) = sim e v w" "sim e v (report err m t w) = sim e v w"
  by (simp_all add: sim_def on_logs_def on_terminal_def emit_def report_def)

lemma sim_invalidate: "invalidateSession e w = Some w' \<Longrightarrow> sim e w w'"
proof -
  assume "invalidateSession e w = Some w'"
  then obtain w1 w2 where w: "on_res e Invalidate w = Some w1" "on_events e EInvalidate w1 = Some w2" "wo_res w' = wo_res w2"
    by (auto simp: invalidateSession_def bind_Some_iff emit_def)
  have "sim e w w1" by (rule sim_on_res [OF w(1)]) simp
  moreover have "sim e w1 w2" by (rule sim_on_events [OF w(2)])
  ultimately show ?thesis using w(3) by (simp add: sim_def)
qed

lemma steps_alloc: "alloc b s = (r, s') \<Longrightarrow> resources_step d f s s'"
  by (auto simp: alloc_def intro: resources_step.parse)

lemma steps_assign_key: "assign_key r s = Some (k, s') \<Longrightarrow> resources_step d f s s'"
  by (auto simp: assign_key_def bind_Some_iff intro: step_set_key)

text \<open>What holds in the reachable states of the slice holds of every world that is simulated.\<close>

lemma sim_reachable:
  "reachable (en_dump e) (en_fuel e) (wo_res w) \<Longrightarrow> sim e w w' \<Longrightarrow> reachable (en_dump e) (en_fuel e) (wo_res w')"
  unfolding reachable_def sim_def by (rule rtranclp_trans)

end
