(* ===== verification/Actions.thy ===== *)
theory Actions
  imports Store Comparators
begin

text \<open>
  The action creators of \<^verbatim>\<open>src/state/actions/resources.js\<close> that finish without waiting: putting a
  resource, selecting what hangs on it, filters and the address bar, navigation.
\<close>

section \<open>Selecting all that hangs on a resource\<close>

definition container_names :: "string \<Rightarrow> json \<Rightarrow> string list option" where
  "container_names name v =
     (case v of
        JArr cs \<Rightarrow> those (map (\<lambda>c. map_option (\<lambda>n. name @ ''/'' @ to_str n) (jget c ''name'')) cs)
      | _ \<Rightarrow> None)"

text \<open>One pod of the loop: the containers so far, and the terminal of the first pod.\<close>

definition select_pod :: "string \<times> ref \<Rightarrow> string list \<times> world \<Rightarrow> (string list \<times> world) option" where
  "select_pod np s = do {
     pod \<leftarrow> deref (wo_res (snd s)) (snd np);
     spec \<leftarrow> rget pod ''spec'';
     cs \<leftarrow> jget spec ''containers'';
     w \<leftarrow> (if fst s = [] then do {
             c \<leftarrow> (case cs of JArr (c # _) \<Rightarrow> jget c ''name'' | _ \<Rightarrow> None);
             Some (on_terminal (SelectTerminalFor (fst np @ ''/'' @ to_str c)) (snd s))
           } else Some (snd s));
     ic \<leftarrow> jget spec ''initContainers'';
     inits \<leftarrow> (if truthy ic then container_names (fst np) ic else Some []);
     mains \<leftarrow> container_names (fst np) cs;
     Some (fst s @ inits @ mains, w)
   }"

definition selectAllForResource :: "env \<Rightarrow> ref \<Rightarrow> ref obj \<Rightarrow> world \<Rightarrow> world option" where
  "selectAllForResource e resource pods w = do {
     (podContainers, w1) \<leftarrow> foldM select_pod pods ([], w);
     on_events e (ESelectFor (Some resource)) (on_logs (SelectLogsFor podContainers) w1)
   }"

section \<open>Putting a resource\<close>

text \<open>
  \<^verbatim>\<open>newResource.metadata.resourceVersion > maxResourceVersionByKind[newResource.kind] || 0\<close>: the
  comparison binds tighter than \<^verbatim>\<open>||\<close>, and one with \<^verbatim>\<open>undefined\<close> or \<^verbatim>\<open>NaN\<close> is false.
\<close>

definition is_newer :: "rstate \<Rightarrow> resource \<Rightarrow> bool option" where
  "is_newer s x = do {
     v \<leftarrow> metadata_of x ''resourceVersion'';
     kind \<leftarrow> kind_name x;
     Some (num_less (case oget (st_maxResourceVersionByKind s) kind of Some m \<Rightarrow> m | None \<Rightarrow> None) (to_num v))
   }"

text \<open>Does a change of \<open>r\<close> concern the selected resource?\<close>

definition concerns :: "env \<Rightarrow> rstate \<Rightarrow> ref \<Rightarrow> ref option \<Rightarrow> bool option" where
  "concerns e s r selected = do {
     x \<leftarrow> deref s r; y \<leftarrow> opt_res s selected;
     or_else (sameResource (Some x) y)
       (or_else (isResourceOwnedBy (en_fuel e) (st_heap s) (Some x) selected)
                (isResourceOwnedBy (en_fuel e) (st_heap s) y (Some r)))
   }"

text \<open>\<^verbatim>\<open>SELECT_RESOURCE\<close> for a resource, then all that hangs on it.\<close>

definition select_action :: "resource \<Rightarrow> raction option" where
  "select_action x = do {
     ns \<leftarrow> metadata_of x ''namespace''; kind \<leftarrow> kind_of x; name \<leftarrow> metadata_of x ''name'';
     Some (SelectResource ns kind name)
   }"

definition reselect_all :: "env \<Rightarrow> bool \<Rightarrow> ref \<Rightarrow> world \<Rightarrow> world option" where
  "reselect_all e hide_disabled resource w = do {
     x \<leftarrow> deref (wo_res w) resource;
     a \<leftarrow> select_action x;
     w1 \<leftarrow> on_res e a w;
     y \<leftarrow> deref (wo_res w1) resource;
     selectAllForResource e resource
       (if hide_disabled \<and> r_statusSummary y = JStr ''disabled'' then [] else st_pods (wo_res w1)) w1
   }"

definition putResource :: "env \<Rightarrow> ref \<Rightarrow> bool \<Rightarrow> world \<Rightarrow> world option" where
  "putResource e newResource isNew w = do {
     x \<leftarrow> deref (wo_res w) newResource;
     newer \<leftarrow> is_newer (wo_res w) x;
     if \<not> newer then Some w
     else do {
       w1 \<leftarrow> on_res e (PutResource newResource isNew (the_kinds w)) w;
       w2 \<leftarrow> on_events e (EReceive (st_resources (wo_res w1)) []) w1;
       touched \<leftarrow> concerns e (wo_res w2) newResource (st_resource (wo_res w2));
       if touched then do {
         resource \<leftarrow> st_resource (wo_res w2);
         reselect_all e True resource w2
       } else Some w2
     }
   }"

section \<open>Receiving, filtering, navigating\<close>

definition receiveResources :: "env \<Rightarrow> ref obj \<Rightarrow> world \<Rightarrow> world option" where
  "receiveResources e resources w = on_res e (ReceiveResources resources (the_kinds w)) w"

definition filterAll :: "env \<Rightarrow> world \<Rightarrow> world option" where
  "filterAll e w = on_res e FilterAll w"

definition viewResource :: "json \<Rightarrow> string \<Rightarrow> world \<Rightarrow> world option" where
  "viewResource resource view w =
     map_option (\<lambda>route. emit (Pushed route) w) (viewResource_route (the_kinds w) resource view)"

definition applyGlobalFilters :: "env \<Rightarrow> bool obj \<Rightarrow> bool obj option \<Rightarrow> world \<Rightarrow> world option" where
  "applyGlobalFilters e namespaces kinds w = on_res e (PutGlobalFilters namespaces kinds (the_kinds w)) w"

text \<open>The two actions of \<^verbatim>\<open>src/state/actions/usersettings.js\<close>.\<close>

definition selectNamespaces :: "env \<Rightarrow> bool obj \<Rightarrow> world \<Rightarrow> world option" where
  "selectNamespaces e namespaces w =
     applyGlobalFilters e namespaces None
       (w\<lparr>wo_settings := settings_reducer (SelectNamespaces (Some namespaces)) (wo_settings w)\<rparr>)"

definition updateSettings :: "env \<Rightarrow> bool obj \<Rightarrow> bool obj option \<Rightarrow> bool \<Rightarrow> world \<Rightarrow> world option" where
  "updateSettings e namespaces kinds save w =
     applyGlobalFilters e namespaces kinds
       (w\<lparr>wo_settings := settings_reducer (PutSettings (Some namespaces) kinds save) (wo_settings w)\<rparr>)"

text \<open>\<^verbatim>\<open>filterResource\<close> dispatches an action that no reducer handles.\<close>

definition filterResource :: "env \<Rightarrow> world \<Rightarrow> world option" where
  "filterResource e w = on_res e OtherAction w"

text \<open>\<^verbatim>\<open>xs.sort()\<close> on strings: by code units.\<close>

definition sort_strs :: "string list \<Rightarrow> string list" where
  "sort_strs = sort_by lex_cmp"

text \<open>The filters of the query, as \<^verbatim>\<open>updateFilterUrl\<close> normalises them for the comparison.\<close>

definition current_filters :: "json obj \<Rightarrow> json" where
  "current_filters query =
     (let v = lookup_prop query ''filters''
      in case v of
           JArr xs \<Rightarrow> JArr (sort_by (\<lambda>a b. lex_cmp (to_str a) (to_str b)) xs)
         | _ \<Rightarrow> if truthy v then JArr [v] else v)"

definition updateFilterUrl :: "env \<Rightarrow> world \<Rightarrow> world" where
  "updateFilterUrl e w =
     (let names = sort_strs (st_filterNames (wo_res w));
          query = en_parse e (wo_search w)
      in if arraysEqual (JArr (map JStr names)) (current_filters query) then w
         else (let query = (if names = [] then odel ''filters'' query
                            else oset ''filters'' (JArr (map JStr names)) query)
               in emit (Pushed (wo_path w @ (if query = [] then [] else ''?'' @ en_stringify e query))) w))"

definition addFilter_action :: "env \<Rightarrow> string \<Rightarrow> world \<Rightarrow> world option" where
  "addFilter_action e filter1 w = map_option (updateFilterUrl e) (on_res e (AddFilter filter1) w)"

definition removeFilter_action :: "env \<Rightarrow> string \<Rightarrow> int option \<Rightarrow> world \<Rightarrow> world option" where
  "removeFilter_action e filter1 index w = map_option (updateFilterUrl e) (on_res e (RemoveFilter filter1 index) w)"

text \<open>\<open>filterNames\<close> is undefined, one string, or a list: the list here.\<close>

definition setFilterNames :: "env \<Rightarrow> string list \<Rightarrow> world \<Rightarrow> world option" where
  "setFilterNames e filterNames w =
     (let current = sort_strs (st_filterNames (wo_res w)); new1 = sort_strs filterNames
      in map_option (updateFilterUrl e)
           (if length current \<noteq> length new1 \<or> current \<noteq> new1 then on_res e (SetFilterNames filterNames) w
            else Some w))"

text \<open>\<^verbatim>\<open>tryGoBack\<close> of \<^verbatim>\<open>src/state/actions/location.js\<close>.\<close>

definition tryGoBack :: "env \<Rightarrow> world \<Rightarrow> world option" where
  "tryGoBack e w = do {
     let cur = lo_current (wo_location w);
     let prev = lo_previous (wo_location w);
     back \<leftarrow> (if truthy prev then do {
                a \<leftarrow> jget cur ''pathname''; b \<leftarrow> jget prev ''pathname''; Some (\<not> strict_eq a b) }
              else Some False);
     if back then Some (emit WentBack w)
     else do {
       search \<leftarrow> jget cur ''search'';
       let query = en_parse e (to_str search);
       if lookup_prop query ''view'' = JStr ''edit'' then do {
         p \<leftarrow> jget cur ''pathname'';
         Some (emit (Replaced (to_str p @ ''?'' @ en_stringify e (oset ''view'' (JStr ''config'') query))) w)
       } else do {
         p \<leftarrow> jget cur ''pathname'';
         (case p of
            JStr path \<Rightarrow>
              if ends_with ''/new'' path
              then Some (emit (Replaced (''/'' @ (split_on (CHR ''/'') path ! 1))) w)
              else Some w
          | _ \<Rightarrow> None)
       }
     }
   }"

section \<open>Every action makes steps of the resources slice\<close>

lemma sim_select_pod: "select_pod np s = Some t \<Longrightarrow> sim e (snd s) (snd t)"
  by (auto simp: select_pod_def bind_Some_iff split: if_splits)

lemma sim_select_pods: "foldM select_pod pods s = Some t \<Longrightarrow> sim e (snd s) (snd t)"
  by (erule foldM_rel [where R = "\<lambda>s t. sim e (snd s) (snd t)"]) (auto intro: sim_trans sim_select_pod)

lemma sim_selectAll: "selectAllForResource e r pods w = Some w' \<Longrightarrow> sim e w w'"
proof -
  assume "selectAllForResource e r pods w = Some w'"
  then obtain pcs w1 where w1: "foldM select_pod pods ([], w) = Some (pcs, w1)"
    "on_events e (ESelectFor (Some r)) (on_logs (SelectLogsFor pcs) w1) = Some w'"
    by (auto simp: selectAllForResource_def bind_Some_iff)
  from sim_select_pods [OF w1(1)] sim_on_events [OF w1(2)] show ?thesis by (auto intro: sim_trans)
qed

lemma sim_reselect:
  assumes "reselect_all e b r w = Some w'"
  shows "sim e w w'"
proof -
  from assms obtain x where "\<exists>a. select_action x = Some a \<and> (\<exists>w1. on_res e a w = Some w1 \<and>
      (\<exists>pods. selectAllForResource e r pods w1 = Some w'))"
    unfolding reselect_all_def bind_Some_iff by blast
  then obtain a w1 pods where w: "select_action x = Some a" "on_res e a w = Some w1"
    "selectAllForResource e r pods w1 = Some w'" by blast
  have "action_ok (wo_res w) a" using w(1) by (auto simp: select_action_def bind_Some_iff)
  from sim_on_res [OF w(2) this] sim_selectAll [OF w(3)] show ?thesis by (rule sim_trans)
qed

lemma putResource_cases:
  assumes "putResource e r isNew w = Some w'"
  obtains (stale) x where "deref (wo_res w) r = Some x" "is_newer (wo_res w) x = Some False" "w' = w"
  | (newer) x w1 w2 where "deref (wo_res w) r = Some x" "is_newer (wo_res w) x = Some True"
      "on_res e (PutResource r isNew (the_kinds w)) w = Some w1"
      "on_events e (EReceive (st_resources (wo_res w1)) []) w1 = Some w2"
      "w' = w2 \<or> (\<exists>c. st_resource (wo_res w2) = Some c \<and> reselect_all e True c w2 = Some w')"
proof -
  from assms obtain x newer where x: "deref (wo_res w) r = Some x" "is_newer (wo_res w) x = Some newer"
    "(if \<not> newer then Some w else do {
       w1 \<leftarrow> on_res e (PutResource r isNew (the_kinds w)) w;
       w2 \<leftarrow> on_events e (EReceive (st_resources (wo_res w1)) []) w1;
       touched \<leftarrow> concerns e (wo_res w2) r (st_resource (wo_res w2));
       if touched then do { resource \<leftarrow> st_resource (wo_res w2); reselect_all e True resource w2 } else Some w2
     }) = Some w'"
    unfolding putResource_def bind_Some_iff by blast
  show thesis
  proof (cases newer)
    case False
    have "Some w = Some w'" using x(3) False by (simp only: not_False_eq_True if_True)
    then have "w' = w" by (simp only: option.inject)
    moreover have "is_newer (wo_res w) x = Some False" using x(2) False by (simp only:)
    ultimately show thesis using stale [OF x(1)] by blast
  next
    case True
    have "do {
       w1 \<leftarrow> on_res e (PutResource r isNew (the_kinds w)) w;
       w2 \<leftarrow> on_events e (EReceive (st_resources (wo_res w1)) []) w1;
       touched \<leftarrow> concerns e (wo_res w2) r (st_resource (wo_res w2));
       if touched then do { resource \<leftarrow> st_resource (wo_res w2); reselect_all e True resource w2 } else Some w2
     } = Some w'"
      using x(3) True by (simp only: not_True_eq_False if_False)
    then obtain w1 w2 t where w: "on_res e (PutResource r isNew (the_kinds w)) w = Some w1"
      "on_events e (EReceive (st_resources (wo_res w1)) []) w1 = Some w2"
      "(if t then do { resource \<leftarrow> st_resource (wo_res w2); reselect_all e True resource w2 } else Some w2) = Some w'"
      unfolding bind_Some_iff [of "on_res _ _ _"] bind_Some_iff [of "on_events _ _ _"] bind_Some_iff [of "concerns _ _ _ _"]
      by (elim exE conjE) (rule that)
    have "w' = w2 \<or> (\<exists>c. st_resource (wo_res w2) = Some c \<and> reselect_all e True c w2 = Some w')"
      using w(3) by (cases t) (simp_all add: bind_Some_iff)
    moreover have "is_newer (wo_res w) x = Some True" using x(2) True by (simp only:)
    ultimately show thesis using newer [OF x(1) _ w(1,2)] by blast
  qed
qed

lemma sim_putResource: "putResource e r isNew w = Some w' \<Longrightarrow> sim e w w'"
proof (erule putResource_cases)
  fix x w1 w2
  assume w: "on_res e (PutResource r isNew (the_kinds w)) w = Some w1"
    "on_events e (EReceive (st_resources (wo_res w1)) []) w1 = Some w2"
    "w' = w2 \<or> (\<exists>c. st_resource (wo_res w2) = Some c \<and> reselect_all e True c w2 = Some w')"
  have "sim e w w1" by (rule sim_on_res [OF w(1)]) simp
  moreover have "sim e w1 w2" by (rule sim_on_events [OF w(2)])
  moreover have "sim e w2 w'" using w(3) sim_reselect by auto
  ultimately show ?thesis by (blast intro: sim_trans)
qed simp

lemma sim_updateFilterUrl [simp]: "sim e v (updateFilterUrl e w) = sim e v w"
  by (simp add: updateFilterUrl_def Let_def)

lemma sim_filters:
  "addFilter_action e f w = Some w' \<Longrightarrow> has_colon f \<Longrightarrow> sim e w w'"
  "removeFilter_action e f i w = Some w' \<Longrightarrow> action_ok (wo_res w) (RemoveFilter f i) \<Longrightarrow> sim e w w'"
  "setFilterNames e fs w = Some w' \<Longrightarrow> list_all has_colon fs \<Longrightarrow> sim e w w'"
proof -
  have step: "map_option (updateFilterUrl e) (on_res e a w) = Some w' \<Longrightarrow> action_ok (wo_res w) a \<Longrightarrow> sim e w w'" for a
    using sim_on_res [of e a w] by (cases "on_res e a w") auto
  show "addFilter_action e f w = Some w' \<Longrightarrow> has_colon f \<Longrightarrow> sim e w w'"
    unfolding addFilter_action_def by (erule step) simp
  show "removeFilter_action e f i w = Some w' \<Longrightarrow> action_ok (wo_res w) (RemoveFilter f i) \<Longrightarrow> sim e w w'"
    unfolding removeFilter_action_def by (erule step)
  assume a: "setFilterNames e fs w = Some w'" "list_all has_colon fs"
  show "sim e w w'"
  proof (cases "length (sort_strs (st_filterNames (wo_res w))) \<noteq> length (sort_strs fs)
      \<or> sort_strs (st_filterNames (wo_res w)) \<noteq> sort_strs fs")
    case True
    with a(1) have "map_option (updateFilterUrl e) (on_res e (SetFilterNames fs) w) = Some w'"
      by (simp only: setFilterNames_def Let_def if_True)
    then show ?thesis by (rule step) (simp add: a(2))
  next
    case False
    with a(1) have "updateFilterUrl e w = w'"
      by (simp only: setFilterNames_def Let_def if_False option.map option.inject)
    then show ?thesis by (metis sim_refl sim_updateFilterUrl)
  qed
qed

lemma wo_res_settings [simp]: "wo_res (w\<lparr>wo_settings := s\<rparr>) = wo_res w"
  by simp

lemma sim_global:
  "applyGlobalFilters e ns ks w = Some w' \<Longrightarrow> sim e w w'"
  "selectNamespaces e ns w = Some w' \<Longrightarrow> sim e w w'"
  "updateSettings e ns ks b w = Some w' \<Longrightarrow> sim e w w'"
proof -
  have a: "applyGlobalFilters e ns ks w = Some w' \<Longrightarrow> sim e w w'" for ns ks w w'
    unfolding applyGlobalFilters_def by (erule sim_on_res) simp
  show "applyGlobalFilters e ns ks w = Some w' \<Longrightarrow> sim e w w'" by (rule a)
  show "selectNamespaces e ns w = Some w' \<Longrightarrow> sim e w w'"
    unfolding selectNamespaces_def by (drule a) (simp add: sim_def)
  show "updateSettings e ns ks b w = Some w' \<Longrightarrow> sim e w w'"
    unfolding updateSettings_def by (drule a) (simp add: sim_def)
qed

end
