(* ===== verification/Fetches.thy ===== *)
theory Fetches
  imports Actions
begin

text \<open>
  The action creators of \<^verbatim>\<open>src/state/actions/\<close> that talk to the server. Each is cut at its
  awaits: a \<open>_begin\<close> part computes the request from the store, an \<open>_end\<close> part takes the
  response and the store at that time, so that other actions may run in between.
\<close>

section \<open>Responses\<close>

record response =
  re_ok :: bool
  re_status :: int
  re_statusText :: string
  re_json :: json

text \<open>The code passes on the response object itself after a failure: it has a status but no payload.\<close>

definition resp_value :: "response \<Rightarrow> json" where
  "resp_value r = JObj [(''ok'', JBool (re_ok r)), (''status'', JNum (re_status r)), (''statusText'', JStr (re_statusText r))]"

definition result_of :: "response \<Rightarrow> json" where
  "result_of r = (if re_ok r then re_json r else resp_value r)"

text \<open>\<^verbatim>\<open>if (resp.status === 401) dispatch(invalidateSession())\<close>\<close>

definition check_401 :: "env \<Rightarrow> response \<Rightarrow> world \<Rightarrow> world option" where
  "check_401 e r w = (if \<not> re_ok r \<and> re_status r = 401 then invalidateSession e w else Some w)"

lemma sim_check_401: "check_401 e r w = Some w' \<Longrightarrow> sim e w w'"
  by (auto simp: check_401_def sim_invalidate split: if_splits)

section \<open>Urls\<close>

text \<open>The kind table's entry of a kind; reading a property of a missing entry throws.\<close>

definition collection_url :: "world \<Rightarrow> json \<Rightarrow> json \<Rightarrow> string option" where
  "collection_url w kind namespace = do {
     api \<leftarrow> jget (the_kinds w) (to_str kind);
     base \<leftarrow> jget api ''base''; plural \<leftarrow> jget api ''plural'';
     Some (''/proxy/'' @ to_str base @ ''/namespaces/'' @ to_str namespace @ ''/'' @ to_str plural)
   }"

definition object_url :: "world \<Rightarrow> json \<Rightarrow> json \<Rightarrow> json \<Rightarrow> string option" where
  "object_url w kind namespace name =
     map_option (\<lambda>u. u @ ''/'' @ to_str name) (collection_url w kind namespace)"

section \<open>Namespaces\<close>

definition fetchNamespaces_end :: "env \<Rightarrow> response \<Rightarrow> world \<Rightarrow> world option" where
  "fetchNamespaces_end e r w = do {
     w1 \<leftarrow> check_401 e r w;
     has \<leftarrow> jhas ''namespaces'' (result_of r);
     if has then do { ns \<leftarrow> jget (result_of r) ''namespaces''; on_res e (PutNamespaces ns) w1 } else Some w1
   }"

section \<open>All resources\<close>

definition maxReloadInterval :: int where
  "maxReloadInterval = 5000"

definition excludedFetch :: "string list" where
  "excludedFetch = [''APIService'', ''ComponentStatus'', ''ControllerRevision'', ''Event'']"

text \<open>Whether to fetch; the table of kinds is requested first when it is missing.\<close>

definition shouldFetchResources :: "env \<Rightarrow> bool \<Rightarrow> world \<Rightarrow> bool" where
  "shouldFetchResources e force w =
     (let shouldRefresh = force \<and> en_now e - st_lastLoaded (wo_res w) > maxReloadInterval;
          noResources = st_resources (wo_res w) = []
      in truthy (ss_user (wo_session w)) \<and> (noResources \<or> shouldRefresh))"

definition fetchResources_begin :: "env \<Rightarrow> world \<Rightarrow> world option" where
  "fetchResources_begin e w =
     on_res e (PutGlobalFilters (us_selectedNamespaces (fst (wo_settings w)))
                (Some (us_selectedKinds (fst (wo_settings w)))) JUndef) w"

text \<open>
  \<^verbatim>\<open>entryFilter(kubeKind)\<close>: the argument is the entry of the table, not the name of the kind, so the
  test for the excluded names is made on its text.
\<close>

definition entryFilter :: "(json \<Rightarrow> bool) option \<Rightarrow> json \<Rightarrow> bool" where
  "entryFilter filter1 kind =
     (to_str kind \<notin> set excludedFetch \<and> (case filter1 of Some f \<Rightarrow> f kind | None \<Rightarrow> True))"

definition strip_List :: "string \<Rightarrow> string" where
  "strip_List s = (if ends_with ''List'' s then take (length s - 4) s else s)"

text \<open>One item of a list: a new object, its key, its entry. The pair holds the resources and the slice.\<close>

definition receive_item :: "json \<Rightarrow> ref obj \<times> rstate \<Rightarrow> (ref obj \<times> rstate) option" where
  "receive_item b s =
     (let (r, s1) = alloc b (snd s)
      in do { (k, s2) \<leftarrow> assign_key r s1; Some (oset k r (fst s), s2) })"

definition event_item :: "json \<Rightarrow> json list \<Rightarrow> json list option" where
  "event_item b events = do { _ \<leftarrow> keyForResource b JUndef; Some (events @ [b]) }"

definition receive_list ::
  "json \<Rightarrow> (json \<Rightarrow> bool) option \<Rightarrow> json \<Rightarrow> (ref obj \<times> rstate) \<times> json list \<Rightarrow> ((ref obj \<times> rstate) \<times> json list) option" where
  "receive_list kubeKinds filter1 list1 s = do {
     kind \<leftarrow> jget list1 ''kind'';
     items \<leftarrow> jget list1 ''items'';
     (case kind of
        JStr k \<Rightarrow>
          (if strip_List k = ''Event'' then do {
             xs \<leftarrow> iter_of items;
             events \<leftarrow> foldM event_item xs (snd s);
             Some (fst s, events)
           } else do {
             kubeKind \<leftarrow> jget kubeKinds (strip_List k);
             if entryFilter filter1 kubeKind \<and> truthy items then do {
               rs \<leftarrow> foldM receive_item (case items of JArr xs \<Rightarrow> xs | _ \<Rightarrow> []) (fst s);
               Some (rs, snd s)
             } else Some s
           })
      | _ \<Rightarrow> None)
   }"

text \<open>What is reported when the answer is no list.\<close>

definition list_url :: string where
  "list_url = ''/proxy/_/resources/list''"

definition fetch_failed :: "env \<Rightarrow> response \<Rightarrow> world \<Rightarrow> world option" where
  "fetch_failed e r w =
     (if re_ok r then Some w
      else if re_status r = 401 \<or> re_status r = 403 then invalidateSession e w
      else if re_status r \<noteq> 404
      then Some (report (resp_value r) (''Failed to fetch '' @ list_url @ '': '' @ re_statusText r) True w)
      else Some w)"

definition watchResources :: "env \<Rightarrow> world \<Rightarrow> world option" where
  "watchResources e w =
     on_res e (SetWatches (case st_watches (wo_res w) of Some n \<Rightarrow> Suc n | None \<Rightarrow> 0))
       (emit (Watching (st_maxResourceVersion (wo_res w))) w)"

text \<open>The lists of the answer: the store with the new objects, the resources by key, the events.\<close>

definition received_batch ::
  "env \<Rightarrow> (json \<Rightarrow> bool) option \<Rightarrow> json \<Rightarrow> json \<Rightarrow> world \<Rightarrow> (world \<times> ref obj \<times> json list) option" where
  "received_batch e filter1 kubeKinds result w1 = do {
     has \<leftarrow> jhas ''lists'' result;
     ls0 \<leftarrow> jget result ''lists'';
     status \<leftarrow> jget result ''status'';
     message \<leftarrow> jget result ''message'';
     has_status \<leftarrow> jhas ''status'' result;
     if has \<and> truthy ls0 then do {
       ls \<leftarrow> iter_of ls0;
       (rs, evs) \<leftarrow> foldM (receive_list kubeKinds filter1) ls (([], wo_res w1), []);
       Some (w1\<lparr>wo_res := snd rs\<rparr>, fst rs, evs)
     } else if has_status \<and> \<not> strict_eq status (JNum 403)
     then Some (report result (''Failed to fetch '' @ list_url @ '': '' @ to_str status @ '' '' @ to_str message) True w1, [], [])
     else Some (w1, [], [])
   }"

definition fetchResources_end :: "env \<Rightarrow> (json \<Rightarrow> bool) option \<Rightarrow> json \<Rightarrow> response \<Rightarrow> world \<Rightarrow> world option" where
  "fetchResources_end e filter1 kubeKinds r w = do {
     w1 \<leftarrow> fetch_failed e r w;
     (w2, resources, events) \<leftarrow> received_batch e filter1 kubeKinds (result_of r) w1;
     w3 \<leftarrow> receiveResources e resources w2;
     w4 \<leftarrow> on_events e (EReceive resources events) w3;
     watchResources e (emit MetricsRequested w4)
   }"

text \<open>After the resources: select the one that was asked for, unless it is selected already.\<close>

definition fetchResource_end :: "env \<Rightarrow> json \<Rightarrow> json \<Rightarrow> json \<Rightarrow> world \<Rightarrow> world option" where
  "fetchResource_end e namespace kind name w = do {
     cur \<leftarrow> opt_res (wo_res w) (st_resource (wo_res w));
     matches \<leftarrow> (case cur of
                   None \<Rightarrow> Some False
                 | Some x \<Rightarrow> resourceMatchesParams (Some x)
                     (JObj [(''name'', name), (''kind'', kind), (''namespace'', namespace)]) True);
     if matches then Some w
     else do {
       w1 \<leftarrow> on_res e (SelectResource namespace kind name) w;
       (case st_resource (wo_res w1) of
          Some r \<Rightarrow> selectAllForResource e r (st_pods (wo_res w1)) w1
        | None \<Rightarrow> Some w1)
     }
   }"

section \<open>Contents of one resource\<close>

definition fetchResourceContents_url :: "json \<Rightarrow> json \<Rightarrow> json \<Rightarrow> world \<Rightarrow> string option" where
  "fetchResourceContents_url namespace kind name w = object_url w kind namespace name"

definition slashed :: "json \<Rightarrow> json \<Rightarrow> json \<Rightarrow> string" where
  "slashed kind namespace name = to_str kind @ ''/'' @ to_str namespace @ ''/'' @ to_str name"

text \<open>The editor is given the Kubernetes object of the selected resource.\<close>

definition fetchResourceContents_end ::
  "env \<Rightarrow> json \<Rightarrow> json \<Rightarrow> json \<Rightarrow> ref option \<Rightarrow> response \<Rightarrow> world \<Rightarrow> world option" where
  "fetchResourceContents_end e namespace kind name resource r w = do {
     w1 \<leftarrow> (if re_ok r then Some w
           else if re_status r = 401 then invalidateSession e w
           else Some (report (resp_value r)
             (''Failed to load contents for '' @ slashed kind namespace name @ '': '' @ re_statusText r) False w));
     x \<leftarrow> opt_res (wo_res w1) resource;
     on_res e (ReceiveResourceContents False (case x of Some y \<Rightarrow> r_body y | None \<Rightarrow> JNull)
                (if re_ok r then re_json r else JUndef) JUndef) w1
   }"

definition clearEditor :: "env \<Rightarrow> world \<Rightarrow> world option" where
  "clearEditor e w = on_res e (ReceiveResourceContents False JUndef JUndef JUndef) w"

text \<open>The url and the body of the patch.\<close>

definition updateResourceContents_begin ::
  "env \<Rightarrow> json \<Rightarrow> json \<Rightarrow> json \<Rightarrow> json \<Rightarrow> world \<Rightarrow> (string \<times> string) option" where
  "updateResourceContents_begin e namespace kind name contents w = do {
     resource \<leftarrow> (case st_resource (wo_res w) of
                    Some r \<Rightarrow> resource_value (en_fuel e) (st_heap (wo_res w)) r
                  | None \<Rightarrow> Some JNull);
     patch \<leftarrow> createPatch (en_load e) resource contents;
     url \<leftarrow> object_url w kind namespace name;
     Some (url, json_stringify patch)
   }"

text \<open>The body of the response is parsed whatever its status; the flag is success.\<close>

definition updateResourceContents_end ::
  "env \<Rightarrow> json \<Rightarrow> json \<Rightarrow> json \<Rightarrow> response \<Rightarrow> world \<Rightarrow> (bool \<times> world) option" where
  "updateResourceContents_end e namespace kind name r w = do {
     w1 \<leftarrow> check_401 e r w;
     let resource = re_json r;
     if \<not> truthy resource then Some (False, w1)
     else do {
       code \<leftarrow> jget resource ''code''; message \<leftarrow> jget resource ''message'';
       if truthy code
       then Some (False, report resource
              (''Failed to update contents for '' @ slashed kind namespace name @ '': '' @ to_str message) False w1)
       else do {
         w2 \<leftarrow> on_res e (SelectResource namespace kind name) w1;
         w3 \<leftarrow> on_res e (ReceiveResourceContents True resource resource JUndef) w2;
         Some (True, w3)
       }
     }
   }"

definition applyResourceChanges_end ::
  "env \<Rightarrow> json \<Rightarrow> json \<Rightarrow> json \<Rightarrow> response \<Rightarrow> world \<Rightarrow> world option" where
  "applyResourceChanges_end e namespace kind name r w = do {
     (success, w1) \<leftarrow> updateResourceContents_end e namespace kind name r w;
     if success then viewResource (JObj [(''name'', name), (''namespace'', namespace), (''kind'', kind)]) ''events'' w1
     else Some w1
   }"

section \<open>Scaling and detaching\<close>

text \<open>\<^verbatim>\<open>typeof replicas === 'string' ? parseInt(replicas, 10) : replicas\<close>; \<^verbatim>\<open>NaN\<close> prints as null.\<close>

definition replica_count :: "json \<Rightarrow> json" where
  "replica_count replicas =
     (case replicas of JStr s \<Rightarrow> (case parse_int s of Some n \<Rightarrow> JNum n | None \<Rightarrow> JNull) | _ \<Rightarrow> replicas)"

text \<open>
  After the contents are loaded: the resource with its new count, put into the store at once as a new
  object, and the value whose patch is then sent.
\<close>

definition scaleResource_mid :: "env \<Rightarrow> json \<Rightarrow> world \<Rightarrow> (json option \<times> world) option" where
  "scaleResource_mid e replicas w = do {
     let contents = ed_contents (st_editor (wo_res w));
     if \<not> truthy contents then Some (None, w)
     else do {
       resource \<leftarrow> (case contents of JStr t \<Rightarrow> createPost (en_load e) t | _ \<Rightarrow> None);
       spec \<leftarrow> jget resource ''spec'';
       a \<leftarrow> (if truthy spec then jhas ''replicas'' spec else Some False);
       b \<leftarrow> (if truthy spec then jhas ''readyReplicas'' spec else Some False);
       if \<not> (a \<or> b) then Some (None, w)
       else do {
         prev \<leftarrow> jget spec ''replicas'';
         spec1 \<leftarrow> jset ''replicas'' (replica_count replicas) spec;
         res1 \<leftarrow> jset ''spec'' spec1 resource;
         let down = num_less (to_num (replica_count replicas)) (to_num prev);
         let summary = JStr (''scaling '' @ (if down then ''down'' else ''up''));
         let (r, s) = alloc res1 (wo_res w);
         w1 \<leftarrow> putResource e r False (w\<lparr>wo_res := upd_res r (\<lambda>x. x\<lparr>r_statusSummary := summary\<rparr>) s\<rparr>);
         res2 \<leftarrow> jset ''statusSummary'' summary res1;
         Some (Some res2, w1)
       }
     }
   }"

text \<open>The body of the pod with its owners moved into an annotation, which is what is patched.\<close>

definition detachResource_body :: "json \<Rightarrow> json option" where
  "detachResource_body b = do {
     md \<leftarrow> jget b ''metadata'';
     has \<leftarrow> (if truthy md then jhas ''ownerReferences'' md else Some False);
     if \<not> has then Some b
     else do {
       refs \<leftarrow> jget md ''ownerReferences'';
       an \<leftarrow> jget md ''annotations'';
       an1 \<leftarrow> jset detachedOwnerRefsAnnotation (JStr (json_stringify refs)) (js_or an (JObj []));
       md1 \<leftarrow> jset ''annotations'' an1 md;
       md2 \<leftarrow> jset ''ownerReferences'' (JArr []) md1;
       jset ''metadata'' md2 b
     }
   }"

text \<open>The object of the store is changed in place before the patch is sent.\<close>

definition detachResource_begin :: "ref \<Rightarrow> world \<Rightarrow> world option" where
  "detachResource_begin r w = do {
     x \<leftarrow> deref (wo_res w) r; b \<leftarrow> detachResource_body (r_body x);
     Some (w\<lparr>wo_res := upd_res r (\<lambda>y. y\<lparr>r_body := b\<rparr>) (wo_res w)\<rparr>)
   }"

section \<open>Creating and removing\<close>

definition createResource_begin :: "env \<Rightarrow> string \<Rightarrow> world \<Rightarrow> (string \<times> string) option" where
  "createResource_begin e contents w = do {
     resource \<leftarrow> createPost (en_load e) contents;
     md \<leftarrow> jget resource ''metadata''; namespace \<leftarrow> jget md ''namespace''; kind \<leftarrow> jget resource ''kind'';
     url \<leftarrow> collection_url w kind namespace;
     Some (url, json_stringify resource)
   }"

text \<open>The created resource as the store has it afterwards is shown, if the store has it.\<close>

definition createResource_end :: "env \<Rightarrow> response \<Rightarrow> world \<Rightarrow> world option" where
  "createResource_end e r w = do {
     w1 \<leftarrow> check_401 e r w;
     let json1 = re_json r;
     if \<not> truthy json1 then Some w1
     else do {
       code \<leftarrow> jget json1 ''code'';
       if truthy code then do {
         reason \<leftarrow> jget json1 ''reason''; message \<leftarrow> jget json1 ''message'';
         Some (report json1 (to_str code @ '' '' @ to_str reason @ ''; '' @ to_str message) False w1)
       } else do {
         let (ref1, s1) = alloc json1 (wo_res w1);
         (k, s2) \<leftarrow> assign_key ref1 s1;
         w2 \<leftarrow> putResource e ref1 True (w1\<lparr>wo_res := s2\<rparr>);
         (case oget (st_resources (wo_res w2)) k of
            None \<Rightarrow> Some w2
          | Some r2 \<Rightarrow> do { y \<leftarrow> deref (wo_res w2) r2; viewResource (r_body y) ''events'' w2 })
       }
     }
   }"

text \<open>Does one of the resources to be removed concern the selected one?\<close>

fun any_concerns :: "env \<Rightarrow> rstate \<Rightarrow> ref option \<Rightarrow> ref list \<Rightarrow> bool option" where
  "any_concerns e s selected [] = Some False"
| "any_concerns e s selected (r # rs) = do {
     x \<leftarrow> deref s r; y \<leftarrow> opt_res s selected;
     c \<leftarrow> or_else (isResourceOwnedBy (en_fuel e) (st_heap s) (Some x) selected)
           (or_else (isResourceOwnedBy (en_fuel e) (st_heap s) y (Some r)) (sameResource y (Some x)));
     if c then Some True else any_concerns e s selected rs
   }"

text \<open>The keys are assigned; those the store knows are deleted on the server, one request each.\<close>

definition remove_known :: "ref \<Rightarrow> ref list \<times> rstate \<Rightarrow> (ref list \<times> rstate) option" where
  "remove_known r s = do {
     (k, s1) \<leftarrow> assign_key r (snd s);
     Some (if ohas k (st_resources s1) then fst s @ [r] else fst s, s1)
   }"

definition delete_url :: "world \<Rightarrow> ref \<Rightarrow> string option" where
  "delete_url w r = do {
     x \<leftarrow> deref (wo_res w) r;
     ns \<leftarrow> metadata_of x ''namespace''; name \<leftarrow> metadata_of x ''name''; kind \<leftarrow> kind_of x;
     object_url w kind ns name
   }"

definition removeResources_begin :: "ref list \<Rightarrow> world \<Rightarrow> (ref list \<times> string list \<times> world) option" where
  "removeResources_begin resources w = do {
     (rs, s) \<leftarrow> foldM remove_known resources ([], wo_res w);
     urls \<leftarrow> those (map (delete_url (w\<lparr>wo_res := s\<rparr>)) rs);
     Some (rs, urls, w\<lparr>wo_res := s\<rparr>)
   }"

text \<open>The answers that failed, as they come in.\<close>

definition delete_failed :: "env \<Rightarrow> ref \<times> response \<Rightarrow> world \<Rightarrow> world option" where
  "delete_failed e rr w =
     (if re_ok (snd rr) then Some w
      else if re_status (snd rr) = 401 then invalidateSession e w
      else if re_status (snd rr) \<noteq> 404 then do {
        x \<leftarrow> deref (wo_res w) (fst rr);
        Some (report (resp_value (snd rr)) (''Failed to remove '' @ key_name x @ '': '' @ re_statusText (snd rr)) True w)
      } else Some w)"

text \<open>Then, when all have come in, one action or report for each, in the order of the requests.\<close>

definition delete_done :: "env \<Rightarrow> ref \<times> response \<Rightarrow> world \<Rightarrow> world option" where
  "delete_done e rr w = do {
     code \<leftarrow> jget (result_of (snd rr)) ''code'';
     if truthy code \<and> \<not> strict_eq code (JNum 404) then do {
       reason \<leftarrow> jget (result_of (snd rr)) ''reason''; message \<leftarrow> jget (result_of (snd rr)) ''message'';
       Some (report (result_of (snd rr)) (to_str code @ '' '' @ to_str reason @ ''; '' @ to_str message) False w)
     } else on_res e (RemoveResource (fst rr)) w
   }"

definition removeResources_end ::
  "env \<Rightarrow> (ref \<times> response) list \<Rightarrow> (ref \<times> response) list \<Rightarrow> world \<Rightarrow> world option" where
  "removeResources_end e arrived results w = do {
     w1 \<leftarrow> foldM (delete_failed e) arrived w;
     foldM (delete_done e) results w1
   }"

text \<open>\<^verbatim>\<open>removeResource\<close> around both: the selection is renewed when it was concerned.\<close>

definition removeResource_begin :: "env \<Rightarrow> ref list \<Rightarrow> world \<Rightarrow> (bool \<times> ref list \<times> string list \<times> world) option" where
  "removeResource_begin e resources w = do {
     updateSelected \<leftarrow> any_concerns e (wo_res w) (st_resource (wo_res w)) resources;
     (rs, urls, w1) \<leftarrow> removeResources_begin resources w;
     Some (updateSelected, rs, urls, w1)
   }"

definition removeResource_end ::
  "env \<Rightarrow> bool \<Rightarrow> ref option \<Rightarrow> (ref \<times> response) list \<Rightarrow> (ref \<times> response) list \<Rightarrow> world \<Rightarrow> world option" where
  "removeResource_end e updateSelected resource arrived results w = do {
     w1 \<leftarrow> removeResources_end e arrived results w;
     if updateSelected then do { r \<leftarrow> resource; reselect_all e False r w1 } else Some w1
   }"

end
