(* ===== verification/Runs.thy ===== *)
theory Runs
  imports Fetches
begin

text \<open>
  Runs of the whole program: the action creators of \<open>Actions\<close> and the segments of
  \<open>Fetches\<close>, in any order, so that every interleaving at the awaits is a run. Each makes steps of
  the resources slice alone, hence what holds in the slice's reachable states holds throughout.
\<close>

inductive world_step :: "env \<Rightarrow> world \<Rightarrow> world \<Rightarrow> bool" for e :: env where
  parsed: "alloc b (wo_res w) = (r, s) \<Longrightarrow> world_step e w (w\<lparr>wo_res := s\<rparr>)"
| keyed_obj: "assign_key r (wo_res w) = Some (k, s) \<Longrightarrow> world_step e w (w\<lparr>wo_res := s\<rparr>)"
| put: "putResource e r isNew w = Some w' \<Longrightarrow> world_step e w w'"
| filter_all: "filterAll e w = Some w' \<Longrightarrow> world_step e w w'"
| view: "viewResource b v w = Some w' \<Longrightarrow> world_step e w w'"
| namespaces: "selectNamespaces e ns w = Some w' \<Longrightarrow> world_step e w w'"
| settings: "updateSettings e ns ks b w = Some w' \<Longrightarrow> world_step e w w'"
| add_filter: "addFilter_action e f w = Some w' \<Longrightarrow> has_colon f \<Longrightarrow> world_step e w w'"
| remove_filter: "removeFilter_action e f i w = Some w' \<Longrightarrow> action_ok (wo_res w) (RemoveFilter f i) \<Longrightarrow>
    world_step e w w'"
| set_filters: "setFilterNames e fs w = Some w' \<Longrightarrow> list_all has_colon fs \<Longrightarrow> world_step e w w'"
| moved: "on_res e (LocationChange p q) w = Some w' \<Longrightarrow> query_ok q \<Longrightarrow> world_step e w w'"
| went_back: "tryGoBack e w = Some w' \<Longrightarrow> world_step e w w'"
| logout: "invalidateSession e w = Some w' \<Longrightarrow> world_step e w w'"
| fetched_namespaces: "fetchNamespaces_end e a w = Some w' \<Longrightarrow> world_step e w w'"
| fetch: "fetchResources_begin e w = Some w' \<Longrightarrow> world_step e w w'"
| fetched: "fetchResources_end e f kk a w = Some w' \<Longrightarrow> world_step e w w'"
| fetched_one: "fetchResource_end e ns k n w = Some w' \<Longrightarrow> world_step e w w'"
| contents: "fetchResourceContents_end e ns k n r a w = Some w' \<Longrightarrow> world_step e w w'"
| closed: "clearEditor e w = Some w' \<Longrightarrow> world_step e w w'"
| updated: "updateResourceContents_end e ns k n a w = Some (b, w') \<Longrightarrow> world_step e w w'"
| applied: "applyResourceChanges_end e ns k n a w = Some w' \<Longrightarrow> world_step e w w'"
| scaled: "scaleResource_mid e c w = Some (v, w') \<Longrightarrow> world_step e w w'"
| detached: "detachResource_begin r w = Some w' \<Longrightarrow> world_step e w w'"
| created: "createResource_end e a w = Some w' \<Longrightarrow> world_step e w w'"
| removing: "removeResource_begin e rs w = Some (b, rs', urls, w') \<Longrightarrow> world_step e w w'"
| removed: "removeResource_end e b r arrived results w = Some w' \<Longrightarrow> world_step e w w'"

text \<open>The clock moves between the steps.\<close>

definition program_step :: "env \<Rightarrow> world \<Rightarrow> world \<Rightarrow> bool" where
  "program_step e w w' \<longleftrightarrow> (\<exists>now. world_step (e\<lparr>en_now := now\<rparr>) w w')"

section \<open>Parsed objects\<close>

lemma steps_upd:
  "(\<And>x. r_owned (f x) = r_owned x) \<Longrightarrow>
   (\<And>x. keyForResource (r_body (f x)) JUndef = keyForResource (r_body x) JUndef) \<Longrightarrow>
     resources_step d n s (upd_res r f s)"
  by (rule resources_step.edit)

lemma sim_stepI: "resources_step (en_dump e) (en_fuel e) (wo_res w) s \<Longrightarrow> sim e w (w\<lparr>wo_res := s\<rparr>)"
  by (simp add: sim_def r_into_rtranclp [where r = "resources_step (en_dump e) (en_fuel e)"])

lemma keyed_alloc: "alloc b s = (r, s') \<Longrightarrow> refs_ok s \<Longrightarrow> keyed s k q \<Longrightarrow> keyed s' k q"
  by (auto simp: alloc_def keyed_def body_of_def refs_ok_def)

lemma refs_alloc: "alloc b s = (r, s') \<Longrightarrow> refs_ok s \<Longrightarrow> refs_ok s'"
  by (auto simp: alloc_def fresh_resource_def intro!: refs_ok_alloc)

lemma assign_key_keyed:
  assumes "assign_key r s = Some (k, s')"
  shows "keyed s' k r" "keyed s j q \<Longrightarrow> keyed s' j q" "refs_ok s \<Longrightarrow> refs_ok s'"
proof -
  from assms obtain x kv where x: "st_heap s r = Some x" "keyForResource (r_body x) JUndef = Some kv"
    "k = to_str kv" "s' = upd_res r (\<lambda>x. x\<lparr>r_key := Some k\<rparr>) s"
    by (auto simp: assign_key_def bind_Some_iff deref_def)
  show "keyed s' k r" using x by (simp add: keyed_def body_of_def upd_res_def)
  show "keyed s j q \<Longrightarrow> keyed s' j q" unfolding x(4) by (subst keyed_same [OF same_bodies_upd]) simp_all
  show "refs_ok s \<Longrightarrow> refs_ok s'" unfolding x(4) by (rule refs_upd_key)
qed

text \<open>A batch under construction is a map by key of objects that are alive.\<close>

definition batch_inv :: "ref obj \<times> rstate \<Rightarrow> bool" where
  "batch_inv p \<longleftrightarrow> refs_ok (snd p) \<and> batch_ok (snd p) (fst p)"

lemma batch_ok_oset: "batch_ok s rs \<Longrightarrow> keyed s k r \<Longrightarrow> batch_ok s (oset k r rs)"
  by (auto simp: batch_ok_def list_all_iff dest: oset_in_set)

lemma batch_ok_mono: "batch_ok s rs \<Longrightarrow> (\<And>k r. keyed s k r \<Longrightarrow> keyed t k r) \<Longrightarrow> batch_ok t rs"
  by (auto simp: batch_ok_def list_all_iff)

lemma receive_item_ok:
  assumes "receive_item b p = Some q"
  shows "(resources_step d f)\<^sup>*\<^sup>* (snd p) (snd q)" "batch_inv p \<Longrightarrow> batch_inv q"
proof -
  obtain r s1 where a: "alloc b (snd p) = (r, s1)" by fastforce
  from assms obtain k s2 where k: "assign_key r s1 = Some (k, s2)" "q = (oset k r (fst p), s2)"
    by (auto simp: receive_item_def a bind_Some_iff)
  show "(resources_step d f)\<^sup>*\<^sup>* (snd p) (snd q)"
    using steps_alloc [OF a, of d f] steps_assign_key [OF k(1), of d f] k(2) by simp
  assume i: "batch_inv p"
  then have r1: "refs_ok s1" using refs_alloc [OF a] by (simp add: batch_inv_def)
  have "batch_ok s1 (fst p)"
    by (rule batch_ok_mono [of "snd p"]) (use i keyed_alloc [OF a] in \<open>auto simp: batch_inv_def\<close>)
  then have "batch_ok s2 (fst p)" by (rule batch_ok_mono) (rule assign_key_keyed(2) [OF k(1)])
  with assign_key_keyed(1,3) [OF k(1)] r1 show "batch_inv q"
    by (simp add: batch_inv_def k(2) batch_ok_oset)
qed

definition batch_rel :: "env \<Rightarrow> ref obj \<times> rstate \<Rightarrow> ref obj \<times> rstate \<Rightarrow> bool" where
  "batch_rel e p q \<longleftrightarrow> (resources_step (en_dump e) (en_fuel e))\<^sup>*\<^sup>* (snd p) (snd q) \<and> (batch_inv p \<longrightarrow> batch_inv q)"

lemma batch_rel_refl [simp]: "batch_rel e p p"
  by (simp add: batch_rel_def)

lemma batch_rel_trans: "batch_rel e p q \<Longrightarrow> batch_rel e q r \<Longrightarrow> batch_rel e p r"
  by (auto simp: batch_rel_def)

lemma batch_rel_items: "foldM receive_item xs p = Some q \<Longrightarrow> batch_rel e p q"
  by (erule foldM_rel [where R = "batch_rel e"])
    (auto intro: batch_rel_trans simp: batch_rel_def [of e _ ] receive_item_ok)

lemma batch_rel_list: "receive_list kk f l p = Some q \<Longrightarrow> batch_rel e (fst p) (fst q)"
proof -
  assume "receive_list kk f l p = Some q"
  then have "fst q = fst p \<or> (\<exists>xs. foldM receive_item xs (fst p) = Some (fst q))"
    unfolding receive_list_def bind_Some_iff
    by (elim exE conjE) (split json.split_asm, auto simp: bind_Some_iff split: if_split_asm)
  then show ?thesis by (elim disjE exE) (simp, rule batch_rel_items)
qed

lemma batch_rel_lists: "foldM (receive_list kk f) ls p = Some q \<Longrightarrow> batch_rel e (fst p) (fst q)"
  by (erule foldM_rel [where R = "\<lambda>p q. batch_rel e (fst p) (fst q)"])
    (auto intro: batch_rel_trans batch_rel_list)

section \<open>Each step of the program makes steps of the resources slice\<close>

lemma sim_fetch_failed: "fetch_failed e r w = Some w' \<Longrightarrow> sim e w w'"
  by (auto simp: fetch_failed_def sim_invalidate split: if_splits)

lemma sim_watchResources: "watchResources e w = Some w' \<Longrightarrow> sim e w w'"
  unfolding watchResources_def by (drule sim_on_res) simp_all

lemma sim_fetchNamespaces: "fetchNamespaces_end e r w = Some w' \<Longrightarrow> sim e w w'"
proof -
  assume "fetchNamespaces_end e r w = Some w'"
  then obtain w1 where w1: "check_401 e r w = Some w1" "w' = w1 \<or> (\<exists>ns. on_res e (PutNamespaces ns) w1 = Some w')"
    unfolding fetchNamespaces_end_def bind_Some_iff by (auto simp: bind_Some_iff split: if_splits)
  from w1(2) have "sim e w1 w'" by (auto intro: sim_on_res)
  with sim_check_401 [OF w1(1)] show ?thesis by (rule sim_trans)
qed

text \<open>The lists of the answer become a batch, whatever they hold.\<close>

lemma received_batch_ok:
  assumes "received_batch e f kk result w = Some (w', rs, evs)" "refs_ok (wo_res w)"
  shows "sim e w w'" "batch_ok (wo_res w') rs"
proof -
  from assms(1) consider "w' = w" "rs = []"
    | m t where "w' = report result m t w" "rs = []"
    | ls p where "foldM (receive_list kk f) ls (([], wo_res w), []) = Some p" "w' = w\<lparr>wo_res := snd (fst p)\<rparr>"
        "rs = fst (fst p)"
    unfolding received_batch_def by (auto simp: bind_Some_iff split: if_splits)
  then have "sim e w w' \<and> batch_ok (wo_res w') rs"
  proof cases
    case 3
    from batch_rel_lists [OF 3(1), of e] have "batch_rel e ([], wo_res w) (rs, wo_res w')"
      by (simp add: 3(2,3))
    then show ?thesis using assms(2) by (simp add: batch_rel_def batch_inv_def batch_ok_def sim_def)
  qed (auto simp: batch_ok_def)
  then show "sim e w w'" "batch_ok (wo_res w') rs" by auto
qed

lemma fetchResources_chain:
  assumes "fetchResources_end e f kk a w = Some w'"
  obtains w1 w2 rs evs w3 w4 where "fetch_failed e a w = Some w1"
    "received_batch e f kk (result_of a) w1 = Some (w2, rs, evs)"
    "receiveResources e rs w2 = Some w3" "on_events e (EReceive rs evs) w3 = Some w4"
    "watchResources e (emit MetricsRequested w4) = Some w'"
  using assms unfolding fetchResources_end_def bind_Some_iff by (elim exE conjE) (auto split: prod.splits simp: bind_Some_iff)

lemma refs_sim: "reachable (en_dump e) (en_fuel e) (wo_res w) \<Longrightarrow> sim e w w' \<Longrightarrow> refs_ok (wo_res w')"
  using sim_reachable reachable_refs_keys by blast

lemma sim_fetchResources:
  assumes "fetchResources_end e f kk a w = Some w'" "reachable (en_dump e) (en_fuel e) (wo_res w)"
  shows "sim e w w'"
proof -
  obtain w1 w2 rs evs w3 w4 where c: "fetch_failed e a w = Some w1"
    "received_batch e f kk (result_of a) w1 = Some (w2, rs, evs)"
    "receiveResources e rs w2 = Some w3" "on_events e (EReceive rs evs) w3 = Some w4"
    "watchResources e (emit MetricsRequested w4) = Some w'"
    by (rule fetchResources_chain [OF assms(1)])
  have s1: "sim e w w1" by (rule sim_fetch_failed [OF c(1)])
  note b = received_batch_ok [OF c(2) refs_sim [OF assms(2) s1]]
  have "action_ok (wo_res w2) (ReceiveResources rs (the_kinds w2))" using b(2) by (simp only: action_ok.simps)
  then have "sim e w2 w3" by (rule sim_on_res [OF c(3) [unfolded receiveResources_def]])
  moreover have "sim e w3 w4" by (rule sim_on_events [OF c(4)])
  moreover have "sim e w4 w'" using sim_watchResources [OF c(5)] by simp
  ultimately show ?thesis using s1 b(1) by (blast intro: sim_trans)
qed

lemma sim_fetchResource:
  assumes "fetchResource_end e ns k n w = Some w'"
  shows "sim e w w'"
proof -
  from assms consider "w' = w" | w1 where "on_res e (SelectResource ns k n) w = Some w1"
      "w' = w1 \<or> (\<exists>r. selectAllForResource e r (st_pods (wo_res w1)) w1 = Some w')"
    unfolding fetchResource_end_def bind_Some_iff
    by (elim exE conjE) (auto simp: bind_Some_iff split: if_splits option.splits)
  then show ?thesis
  proof cases
    case 2
    have "sim e w w1" by (rule sim_on_res [OF 2(1)]) simp
    then show ?thesis using 2(2) by (auto intro: sim_trans sim_selectAll)
  qed simp
qed

lemma sim_contents: "fetchResourceContents_end e ns k n r a w = Some w' \<Longrightarrow> sim e w w'"
proof -
  assume "fetchResourceContents_end e ns k n r a w = Some w'"
  then obtain w1 b c where w1: "w1 = w \<or> invalidateSession e w = Some w1 \<or> (\<exists>m. w1 = report (resp_value a) m False w)"
    "on_res e (ReceiveResourceContents False b c JUndef) w1 = Some w'"
    unfolding fetchResourceContents_end_def bind_Some_iff
    by (elim exE conjE) (auto split: if_splits)
  have "sim e w w1" using w1(1) by (auto intro: sim_invalidate)
  moreover have "sim e w1 w'" by (rule sim_on_res [OF w1(2)]) simp
  ultimately show ?thesis by (rule sim_trans)
qed

lemma sim_clearEditor: "clearEditor e w = Some w' \<Longrightarrow> sim e w w'"
  unfolding clearEditor_def by (erule sim_on_res) simp

lemma sim_update:
  assumes "updateResourceContents_end e ns k n a w = Some (b, w')"
  shows "sim e w w'"
proof -
  from assms obtain w1 where w1: "check_401 e a w = Some w1"
    "w' = w1 \<or> (\<exists>m. w' = report (re_json a) m False w1) \<or>
       (\<exists>w2. on_res e (SelectResource ns k n) w1 = Some w2 \<and>
          on_res e (ReceiveResourceContents True (re_json a) (re_json a) JUndef) w2 = Some w')"
    unfolding updateResourceContents_end_def Let_def bind_Some_iff
    by (elim exE conjE) (auto simp: bind_Some_iff split: if_splits)
  have "sim e w1 w'" using w1(2)
  proof (elim disjE exE conjE)
    fix w2 assume w2: "on_res e (SelectResource ns k n) w1 = Some w2"
      "on_res e (ReceiveResourceContents True (re_json a) (re_json a) JUndef) w2 = Some w'"
    from sim_on_res [OF w2(1)] sim_on_res [OF w2(2)] show ?thesis by (auto intro: sim_trans)
  qed simp_all
  with sim_check_401 [OF w1(1)] show ?thesis by (rule sim_trans)
qed

lemma sim_view: "viewResource b v w = Some w' \<Longrightarrow> sim e w w'"
  by (auto simp: viewResource_def)

lemma sim_apply: "applyResourceChanges_end e ns k n a w = Some w' \<Longrightarrow> sim e w w'"
  unfolding applyResourceChanges_end_def
  by (auto simp: bind_Some_iff dest!: sim_update split: if_splits dest: sim_view [of _ _ _ _ e] intro: sim_trans)

section \<open>Scaling, detaching, creating, removing\<close>

lemma keyForResource_obj:
  "keyForResource (JObj fs) JUndef =
     (let md = lookup_prop fs ''metadata'' in do {
        mdns \<leftarrow> (if truthy md then jget md ''namespace'' else Some md);
        name \<leftarrow> (if truthy (lookup_prop fs ''name'') then Some (lookup_prop fs ''name'') else jget md ''name'');
        Some (JStr (to_str (lookup_prop fs ''kind'') @ ''/'' @
          to_str (js_or (js_or (js_or (lookup_prop fs ''namespace'') mdns) JUndef) (JStr ''~'')) @ ''/'' @ to_str name))
      })"
  by (cases "lookup_prop fs ''metadata''") (simp_all add: keyForResource_def)

lemma key_of_detached:
  assumes "detachResource_body b = Some b'"
  shows "keyForResource b' JUndef = keyForResource b JUndef"
proof -
  from assms obtain md has where md: "jget b ''metadata'' = Some md"
    "(if truthy md then jhas ''ownerReferences'' md else Some False) = Some has"
    "(if \<not> has then Some b else do {
       refs \<leftarrow> jget md ''ownerReferences''; an \<leftarrow> jget md ''annotations'';
       an1 \<leftarrow> jset detachedOwnerRefsAnnotation (JStr (json_stringify refs)) (js_or an (JObj []));
       md1 \<leftarrow> jset ''annotations'' an1 md; md2 \<leftarrow> jset ''ownerReferences'' (JArr []) md1;
       jset ''metadata'' md2 b }) = Some b'"
    unfolding detachResource_body_def bind_Some_iff by blast
  show ?thesis
  proof (cases has)
    case True
    from md(2) True md(1) obtain fs where fs: "b = JObj fs" "lookup_prop fs ''metadata'' = md"
      by (cases b) (auto split: if_splits)
    from md(3) True consider "b' = JObj (oset ''metadata'' md fs)"
      | ms an1 where "md = JObj ms"
          "b' = JObj (oset ''metadata'' (JObj (oset ''ownerReferences'' (JArr []) (oset ''annotations'' an1 ms))) fs)"
      unfolding fs(1) by (cases md) (auto simp: bind_Some_iff)
    then show ?thesis using fs by cases (auto simp: keyForResource_obj)
  next
    case False
    with md(3) show ?thesis by simp
  qed
qed

lemma sim_detach: "detachResource_begin r w = Some w' \<Longrightarrow> sim e w w'"
proof -
  assume "detachResource_begin r w = Some w'"
  then obtain x b where x: "st_heap (wo_res w) r = Some x" "detachResource_body (r_body x) = Some b"
    "w' = w\<lparr>wo_res := upd_res r (\<lambda>y. y\<lparr>r_body := b\<rparr>) (wo_res w)\<rparr>"
    by (auto simp: detachResource_begin_def bind_Some_iff deref_def)
  let ?f = "\<lambda>y. if r_body y = r_body x then y\<lparr>r_body := b\<rparr> else y"
  have "upd_res r (\<lambda>y. y\<lparr>r_body := b\<rparr>) (wo_res w) = upd_res r ?f (wo_res w)"
    by (simp add: upd_res_def x(1))
  then have "resources_step (en_dump e) (en_fuel e) (wo_res w) (upd_res r (\<lambda>y. y\<lparr>r_body := b\<rparr>) (wo_res w))"
    using key_of_detached [OF x(2)] by (simp add: resources_step.edit)
  then show ?thesis unfolding x(3) by (rule sim_stepI)
qed

lemma sim_scale:
  assumes "scaleResource_mid e c w = Some (v, w')"
  shows "sim e w w'"
proof -
  from assms consider "w' = w"
    | b summary r s where "alloc b (wo_res w) = (r, s)"
        "putResource e r False (w\<lparr>wo_res := upd_res r (\<lambda>x. x\<lparr>r_statusSummary := summary\<rparr>) s\<rparr>) = Some w'"
    unfolding scaleResource_mid_def Let_def
    by (auto simp: bind_Some_iff split: if_split_asm prod.splits) (auto simp: alloc_def)
  then show ?thesis
  proof cases
    case 2
    let ?u = "upd_res r (\<lambda>x. x\<lparr>r_statusSummary := summary\<rparr>) s"
    have "sim e w (w\<lparr>wo_res := s\<rparr>)" by (rule sim_stepI [OF steps_alloc [OF 2(1)]])
    moreover have "sim e (w\<lparr>wo_res := s\<rparr>) (w\<lparr>wo_res := ?u\<rparr>)"
      using sim_stepI [of e "w\<lparr>wo_res := s\<rparr>" ?u] by (simp add: resources_step.edit)
    ultimately show ?thesis using sim_putResource [OF 2(2)] by (blast intro: sim_trans)
  qed simp
qed

lemma sim_create:
  assumes "createResource_end e a w = Some w'"
  shows "sim e w w'"
proof -
  from assms obtain w1 where w1: "check_401 e a w = Some w1"
    "w' = w1 \<or> (\<exists>m. w' = report (re_json a) m False w1) \<or>
      (\<exists>r s1 k s2 w2. alloc (re_json a) (wo_res w1) = (r, s1) \<and> assign_key r s1 = Some (k, s2) \<and>
         putResource e r True (w1\<lparr>wo_res := s2\<rparr>) = Some w2 \<and>
         (w' = w2 \<or> (\<exists>b. viewResource b ''events'' w2 = Some w')))"
    unfolding createResource_end_def Let_def bind_Some_iff
    by (elim exE conjE, auto simp: bind_Some_iff split: if_split_asm prod.splits option.splits, blast+)
  have "sim e w1 w'" using w1(2)
  proof (elim disjE exE conjE)
    fix r s1 k s2 w2
    assume a: "alloc (re_json a) (wo_res w1) = (r, s1)" "assign_key r s1 = Some (k, s2)"
      "putResource e r True (w1\<lparr>wo_res := s2\<rparr>) = Some w2"
    have "sim e w1 (w1\<lparr>wo_res := s1\<rparr>)" by (rule sim_stepI [OF steps_alloc [OF a(1)]])
    moreover have "sim e (w1\<lparr>wo_res := s1\<rparr>) (w1\<lparr>wo_res := s2\<rparr>)"
      using sim_stepI [of e "w1\<lparr>wo_res := s1\<rparr>"] steps_assign_key [OF a(2)] by simp
    ultimately have s: "sim e w1 w2" using sim_putResource [OF a(3)] by (blast intro: sim_trans)
    show "w' = w2 \<Longrightarrow> sim e w1 w'" using s by simp
    show "viewResource b ''events'' w2 = Some w' \<Longrightarrow> sim e w1 w'" for b
      using sim_trans [OF s sim_view] .
  qed simp_all
  with sim_check_401 [OF w1(1)] show ?thesis by (rule sim_trans)
qed

lemma sim_removing:
  assumes "removeResource_begin e rs w = Some (b, rs', urls, w')"
  shows "sim e w w'"
proof -
  from assms obtain s where s: "foldM remove_known rs ([], wo_res w) = Some (rs', s)" "w' = w\<lparr>wo_res := s\<rparr>"
    by (auto simp: removeResource_begin_def removeResources_begin_def bind_Some_iff split: prod.splits)
  have "(resources_step (en_dump e) (en_fuel e))\<^sup>*\<^sup>* (snd ([] :: ref list, wo_res w)) (snd (rs', s))"
    using s(1) by (rule foldM_rel)
      (auto simp: remove_known_def bind_Some_iff
        intro: rtranclp_trans steps_assign_key [THEN r_into_rtranclp [where r = "resources_step d f" for d f]])
  then show ?thesis by (simp add: sim_def s(2))
qed

lemma sim_delete_failed: "delete_failed e p w = Some w' \<Longrightarrow> sim e w w'"
  by (auto simp: delete_failed_def sim_invalidate bind_Some_iff split: if_splits)

lemma sim_delete_done: "delete_done e p w = Some w' \<Longrightarrow> sim e w w'"
proof -
  assume "delete_done e p w = Some w'"
  then consider m where "w' = report (result_of (snd p)) m False w" | "on_res e (RemoveResource (fst p)) w = Some w'"
    by (auto simp: delete_done_def bind_Some_iff split: if_splits)
  then show ?thesis
  proof cases
    case 2
    then show ?thesis by (rule sim_on_res) simp
  qed simp
qed

lemma sim_removed:
  assumes "removeResource_end e b r arrived results w = Some w'"
  shows "sim e w w'"
proof -
  from assms obtain w0 w1 where w: "foldM (delete_failed e) arrived w = Some w0"
    "foldM (delete_done e) results w0 = Some w1"
    "w' = w1 \<or> (\<exists>q. reselect_all e False q w1 = Some w')"
    by (auto simp: removeResource_end_def removeResources_end_def bind_Some_iff split: if_splits)
  have "sim e w w0" using w(1) by (rule foldM_rel) (auto intro: sim_trans sim_delete_failed)
  moreover have "sim e w0 w1" using w(2) by (rule foldM_rel) (auto intro: sim_trans sim_delete_done)
  moreover have "sim e w1 w'" using w(3) by (auto intro: sim_reselect)
  ultimately show ?thesis by (blast intro: sim_trans)
qed

lemma case_str_Some: "(case p of JStr x \<Rightarrow> f x | _ \<Rightarrow> None) = Some y \<longleftrightarrow> (\<exists>x. p = JStr x \<and> f x = Some y)"
  by (cases p) auto

lemma sim_back: "tryGoBack e w = Some w' \<Longrightarrow> sim e w w'"
proof -
  assume "tryGoBack e w = Some w'"
  then have "w' = w \<or> (\<exists>x. w' = emit x w)"
    unfolding tryGoBack_def Let_def
    by (auto simp: bind_Some_iff case_str_Some split: if_split_asm)
  then show ?thesis by auto
qed

lemma sim_world_step:
  assumes "world_step e w w'" "reachable (en_dump e) (en_fuel e) (wo_res w)"
  shows "sim e w w'"
  using assms(1)
proof cases
  case (fetched f kk a)
  then show ?thesis using assms(2) by (rule sim_fetchResources)
next
  case (moved p q)
  have "action_ok (wo_res w) (LocationChange p q)" using moved(2) by (simp only: action_ok.simps)
  then show ?thesis by (rule sim_on_res [OF moved(1)])
next
  case fetch
  then show ?thesis unfolding fetchResources_begin_def by (rule sim_on_res) simp
next
  case filter_all
  then show ?thesis unfolding filterAll_def by (rule sim_on_res) simp
qed (auto simp: sim_stepI steps_alloc steps_assign_key
    dest: sim_putResource sim_view [of _ _ _ _ e] sim_global sim_filters sim_back sim_invalidate sim_fetchNamespaces
      sim_fetchResource sim_contents sim_clearEditor sim_update sim_apply sim_scale [of e] sim_detach [of _ _ _ e]
      sim_create sim_removing sim_removed)

end
