(* ===== verification/ActionsClaims.thy ===== *)
theory ActionsClaims
  imports Runs Demo ResourcesLaws
begin

text \<open>
  Properties of the action creators: what they keep of the store, when a change reaches it at all,
  what they report and what they leave in the address bar.
\<close>

section \<open>A concrete store\<close>

definition demo_env :: env where
  "demo_env = \<lparr>en_dump = (\<lambda>_. ''''), en_load = (\<lambda>_. Some (JObj [(''kind'', JStr ''ReplicaSet''),
       (''metadata'', JObj [(''name'', JStr ''rs''), (''namespace'', JStr ''ns''), (''resourceVersion'', JStr ''9'')]),
       (''spec'', JObj [(''replicas'', JNum 1)])])),
     en_parse = (\<lambda>s. if s = ''?filters=a:b'' then [(''filters'', JStr ''a:b'')] else []),
     en_stringify = (\<lambda>_. ''filters=a:b''), en_fuel = 5, en_now = 0\<rparr>"

definition demo_world :: world where
  "demo_world = \<lparr>wo_res = initialState (\<lambda>_. None) 0, wo_events = events_initialState,
     wo_errors = (0, errors_initialState), wo_session = session_initialState,
     wo_api = apimodels_initialState\<lparr>am_kinds := demo_kinds\<rparr>, wo_settings = (settings_initialState None, None),
     wo_location = location_initialState, wo_logs = logs_initialState, wo_terminal = terminal_initialState,
     wo_path = ''/workloads'', wo_search = '''', wo_out = []\<rparr>"

definition demo_answer :: response where
  "demo_answer = \<lparr>re_ok = True, re_status = 200, re_statusText = ''OK'',
     re_json = JObj [(''lists'', JArr [JObj [(''kind'', JStr ''PodList''), (''items'', JArr [demo_pod])],
                                     JObj [(''kind'', JStr ''ReplicaSetList''), (''items'', JArr [demo_rs])]])]\<rparr>"

definition demo_refused :: response where
  "demo_refused = \<lparr>re_ok = False, re_status = 500, re_statusText = ''Error'', re_json = JObj []\<rparr>"

definition demo_fetched :: world where
  "demo_fetched = (case fetchResources_end demo_env None demo_kinds demo_answer demo_world of
     Some w \<Rightarrow> w | None \<Rightarrow> demo_world)"


section \<open>Runs\<close>




section \<open>Changes that reach the store\<close>

text \<open>C10: A change is dispatched only for a kind of which a version is known, and only with a greater
  version: otherwise the store is left as it was. So the first object of a kind that the last load did
  not have is never shown, and neither is any other while the known version is not a number.\<close>

theorem put_needs_newer_version:
  assumes "deref (wo_res w) r = Some x" "metadata_of x ''resourceVersion'' = Some v" "kind_name x = Some kind"
    and "\<not> (\<exists>m n. oget (st_maxResourceVersionByKind (wo_res w)) kind = Some (Some m) \<and> to_num v = Some n \<and> m < n)"
  shows "putResource e r isNew w = Some w"
proof -
  have "is_newer (wo_res w) x = Some False"
    using assms(2-4) by (auto simp: is_newer_def num_less_def split: option.splits)
  then show ?thesis by (simp add: putResource_def assms(1))
qed

theorem put_needs_newer_version_witness:
  "putResource demo_env 1 True demo_fetched = Some demo_fetched"
proof -
  have "map_option (\<lambda>x. (metadata_of x ''resourceVersion'', kind_name x)) (deref (wo_res demo_fetched) 1)
      = Some (Some (JStr ''7''), Some ''ReplicaSet'')" by code_simp
  then obtain x where x: "deref (wo_res demo_fetched) 1 = Some x"
    "metadata_of x ''resourceVersion'' = Some (JStr ''7'')" "kind_name x = Some ''ReplicaSet''" by auto
  have "oget (st_maxResourceVersionByKind (wo_res demo_fetched)) ''ReplicaSet'' = Some (Some 7)" by code_simp
  moreover have "to_num (JStr ''7'') = Some 7" by code_simp
  ultimately show ?thesis by (intro put_needs_newer_version [OF x]) auto
qed

lemma scale_cases:
  assumes "scaleResource_mid e c w = Some (v, w')"
  obtains (idle) "w' = w"
  | (scaled) t resource spec spec1 res1 summary where "createPost (en_load e) t = Some resource"
      "jget resource ''spec'' = Some spec" "truthy spec" "jset ''spec'' spec1 resource = Some res1"
      "putResource e (fst (alloc res1 (wo_res w))) False
         (w\<lparr>wo_res := upd_res (fst (alloc res1 (wo_res w))) (\<lambda>x. x\<lparr>r_statusSummary := summary\<rparr>)
            (snd (alloc res1 (wo_res w)))\<rparr>) = Some w'"
  using assms unfolding scaleResource_mid_def Let_def case_prod_unfold
  by (auto simp: bind_Some_iff case_str_Some split: if_split_asm)

text \<open>What \<^verbatim>\<open>createPost\<close> returns has no version.\<close>

lemma del_all_version: "del_all [''resourceVersion'', ''selfLink'', ''uid''] md = Some m \<Longrightarrow> jget m ''resourceVersion'' = Some JUndef"
  by (cases md) auto

lemma createPost_version:
  assumes "createPost load t = Some res" "jget res ''spec'' = Some spec" "truthy spec"
  shows "is_obj res" "meta_at res ''resourceVersion'' = Some JUndef"
proof -
  show o: "is_obj res" using assms(2,3) by (cases res) (auto split: if_splits)
  from assms(1) obtain v3 where v3: "modify_at ''metadata'' (del_all [''resourceVersion'', ''selfLink'', ''uid'']) v3 = Some res"
    unfolding createPost_def removeReadOnlyFields_def bind_Some_iff by blast
  then have "is_obj v3" using o by (auto simp: modify_at_def bind_Some_iff is_obj_jset)
  from modify_at_get(2) [OF v3 this] del_all_version show "meta_at res ''resourceVersion'' = Some JUndef"
    by (auto simp: meta_at_def)
qed

text \<open>Scaling puts the changed resource into the store at once, as immediate feedback, but the
  value it puts has lost its version: nothing is dispatched, and the store differs from before at most
  in an object that nothing refers to.\<close>

theorem scaling_shows_nothing:
  assumes "scaleResource_mid e replicas w = Some (v, w')"
  shows "\<exists>h n. w' = w\<lparr>wo_res := (wo_res w)\<lparr>st_next := n, st_heap := h\<rparr>\<rparr>
    \<and> (\<forall>r < st_next (wo_res w). h r = st_heap (wo_res w) r)"
  using assms
proof (cases rule: scale_cases)
  case idle
  then have "w' = w\<lparr>wo_res := (wo_res w)\<lparr>st_next := st_next (wo_res w), st_heap := st_heap (wo_res w)\<rparr>\<rparr>" by simp
  then show ?thesis by blast
next
  case (scaled t resource spec spec1 res1 summary)
  let ?x = "(fresh_resource res1)\<lparr>r_statusSummary := summary\<rparr>"
  let ?w = "w\<lparr>wo_res := (wo_res w)\<lparr>st_next := Suc (st_next (wo_res w)),
                                  st_heap := (st_heap (wo_res w))(st_next (wo_res w) \<mapsto> ?x)\<rparr>\<rparr>"
  have put: "putResource e (st_next (wo_res w)) False ?w = Some w'"
    using scaled(5) by (simp add: alloc_def upd_res_def)
  note post = createPost_version [OF scaled(1-3)]
  have "meta_at res1 ''resourceVersion'' = Some JUndef"
    using post jget_jset [OF scaled(4), of "''metadata''"] by (simp add: meta_at_def)
  then have v: "metadata_of ?x ''resourceVersion'' = Some JUndef"
    by (simp add: metadata_of_def rget_def meta_at_def fresh_resource_def)
  have "\<exists>kind. kind_name ?x = Some kind"
    using post(1) scaled(4) by (cases resource) (auto simp: kind_name_def kind_of_def rget_def fresh_resource_def)
  then obtain kind where "kind_name ?x = Some kind" ..
  have "w' = ?w"
  proof -
    have "is_newer (wo_res ?w) ?x = Some False"
      using v \<open>kind_name ?x = Some kind\<close> by (auto simp: is_newer_def num_less_def split: option.splits)
    moreover have "deref (wo_res ?w) (st_next (wo_res w)) = Some ?x" by (simp add: deref_def)
    ultimately have "putResource e (st_next (wo_res w)) False ?w = Some ?w" by (simp add: putResource_def)
    with put show ?thesis by simp
  qed
  moreover have "\<forall>r < st_next (wo_res w). ((st_heap (wo_res w))(st_next (wo_res w) \<mapsto> ?x)) r = st_heap (wo_res w) r"
    by simp
  ultimately show ?thesis by blast
qed

definition demo_editing :: world where
  "demo_editing = demo_fetched\<lparr>wo_res := (wo_res demo_fetched)\<lparr>st_editor :=
     (st_editor (wo_res demo_fetched))\<lparr>ed_contents := JStr ''kind: ReplicaSet''\<rparr>\<rparr>\<rparr>"

theorem scaling_shows_nothing_witness:
  "\<exists>v w'. scaleResource_mid demo_env (JStr ''3'') demo_editing = Some (Some v, w')
    \<and> st_resources (wo_res w') = st_resources (wo_res demo_editing)
    \<and> wo_events w' = wo_events demo_editing"
proof -
  have "map_option (\<lambda>p. fst p \<noteq> None) (scaleResource_mid demo_env (JStr ''3'') demo_editing) = Some True"
    by code_simp
  then obtain v w' where s: "scaleResource_mid demo_env (JStr ''3'') demo_editing = Some (Some v, w')" by auto
  from scaling_shows_nothing [OF s] show ?thesis using s by auto
qed

section \<open>Deletions\<close>

lemma doRemoveResource_keeps:
  assumes "doRemoveResource fuel now a s = Some t"
  shows "st_resources t = st_resources s"
    "deref s r = Some x \<Longrightarrow> \<exists>y. deref t r = Some y \<and> key_name y = key_name x \<and> (r_isDeleted x \<longrightarrow> r_isDeleted y)"
proof -
  have "st_resources t = st_resources s \<and>
      (\<forall>r x. deref s r = Some x \<longrightarrow>
        (\<exists>y. deref t r = Some y \<and> key_name y = key_name x \<and> (r_isDeleted x \<longrightarrow> r_isDeleted y)))"
    using assms
  proof (cases rule: doRemoveResource_cases)
    case (removed ax r' s2 s3 s4 kind sel)
    let ?s1 = "upd_res r' mark_deleted s"
    have heap3: "st_heap s3 = st_heap s2" "st_resources s3 = st_resources s2"
      using removed(4) by (auto simp: drop_pod_of_node_def bind_Some_iff split: if_splits)
    have "\<exists>y. deref t q = Some y \<and> key_name y = key_name x \<and> (r_isDeleted x \<longrightarrow> r_isDeleted y)"
      if x: "deref s q = Some x" for q x
    proof -
      obtain x1 where "st_heap ?s1 q = Some x1" "key_name x1 = key_name x" "r_isDeleted x \<longrightarrow> r_isDeleted x1"
        using x by (cases "q = r'") (auto simp: deref_def upd_res_def mark_deleted_def key_name_def)
      moreover from heap_frame_Some [OF frame_heap [OF frame_registerOwned [OF removed(3)]] this(1)]
      obtain x2 where "st_heap s3 q = Some x2" "same_identity x1 x2" unfolding heap3 by blast
      moreover from heap_frame_Some [OF frame_heap [OF frame_updateRelatedResources [OF removed(5)]] this(1)]
      obtain x4 where "st_heap s4 q = Some x4" "same_identity x2 x4" by blast
      ultimately show ?thesis
        by (auto simp: removed(8) deref_def drop_counts_def same_identity_def key_name_def)
    qed
    moreover have "st_resources t = st_resources s"
      using frame_fields(8) [OF frame_registerOwned [OF removed(3)]] heap3(2)
        frame_fields(8) [OF frame_updateRelatedResources [OF removed(5)]]
      by (simp add: removed(8) drop_counts_def upd_res_def)
    ultimately show ?thesis by blast
  qed auto
  then show "st_resources t = st_resources s"
    "deref s r = Some x \<Longrightarrow> \<exists>y. deref t r = Some y \<and> key_name y = key_name x \<and> (r_isDeleted x \<longrightarrow> r_isDeleted y)"
    by blast+
qed

text \<open>Whatever an answer says, dealing with it keeps the map, the keys and the marks of the deleted.\<close>

definition marks_kept :: "world \<Rightarrow> world \<Rightarrow> bool" where
  "marks_kept w w' \<longleftrightarrow> st_resources (wo_res w') = st_resources (wo_res w) \<and>
     (\<forall>r x. deref (wo_res w) r = Some x \<longrightarrow>
       (\<exists>y. deref (wo_res w') r = Some y \<and> key_name y = key_name x \<and> (r_isDeleted x \<longrightarrow> r_isDeleted y)))"

lemma marks_kept_refl [simp]: "marks_kept w w"
  by (simp add: marks_kept_def)

lemma marks_kept_trans: "marks_kept u v \<Longrightarrow> marks_kept v w \<Longrightarrow> marks_kept u w"
  unfolding marks_kept_def by (metis (no_types))

lemma marks_kept_report [simp]: "marks_kept w (report err m t w)"
  by (simp add: marks_kept_def report_def)

lemma marks_kept_remove: "on_res e (RemoveResource a) w = Some w' \<Longrightarrow> marks_kept w w'"
  unfolding on_res_def marks_kept_def
  by (auto dest: doRemoveResource_keeps(1)) (metis doRemoveResource_keeps(2))

lemma marks_kept_done: "delete_done e p w = Some w' \<Longrightarrow> marks_kept w w'"
  by (auto simp: delete_done_def bind_Some_iff split: if_splits intro: marks_kept_remove)

lemma marks_kept_failed: "delete_failed e p w = Some w' \<Longrightarrow> re_ok (snd p) \<or> re_status (snd p) \<noteq> 401 \<Longrightarrow> marks_kept w w'"
  by (auto simp: delete_failed_def bind_Some_iff split: if_splits)

lemma marks_kept_all_failed:
  assumes "foldM (delete_failed e) results w = Some w'" "\<forall>p \<in> set results. re_ok (snd p) \<or> re_status (snd p) \<noteq> 401"
  shows "marks_kept w w'"
  using assms(1) by (rule foldM_rel) (use assms(2) in \<open>auto intro: marks_kept_trans marks_kept_failed\<close>)

lemma marks_kept_all_done: "foldM (delete_done e) results w = Some w' \<Longrightarrow> marks_kept w w'"
  by (erule foldM_rel) (auto intro: marks_kept_trans marks_kept_done)

text \<open>C11: An answer to a deletion that reports no code of its own, or code 404, marks the resource as
  deleted; in particular every refusal does whose status is not 401, since the refused response has a
  status but no code: the resource disappears from the views although the server kept it.\<close>

theorem failed_deletion_removes:
  assumes "removeResources_end e arrived results w = Some w'"
    and "\<forall>p \<in> set arrived. re_ok (snd p) \<or> re_status (snd p) \<noteq> 401"
    and "(a, answer) \<in> set results" "deref (wo_res w) a = Some x" "oget (st_resources (wo_res w)) (key_name x) = Some r"
    and "\<not> re_ok answer \<or> jget (re_json answer) ''code'' \<in> {Some JUndef, Some (JNum 404)}"
  shows "\<exists>y. deref (wo_res w') r = Some y \<and> r_isDeleted y"
proof -
  from assms(1) obtain w0 where w0: "foldM (delete_failed e) arrived w = Some w0"
    "foldM (delete_done e) results w0 = Some w'" by (auto simp: removeResources_end_def bind_Some_iff)
  from assms(3) obtain before after where sp: "results = before @ (a, answer) # after"
    by (auto simp: in_set_conv_decomp)
  with w0(2) obtain w1 w2 where s: "foldM (delete_done e) before w0 = Some w1"
    "delete_done e (a, answer) w1 = Some w2" "foldM (delete_done e) after w2 = Some w'"
    by (auto simp: foldM_append bind_Some_iff split: option.splits)
  have k: "marks_kept w w1" using marks_kept_all_failed [OF w0(1) assms(2)] marks_kept_all_done [OF s(1)]
    by (rule marks_kept_trans)
  have "jget (result_of answer) ''code'' \<in> {Some JUndef, Some (JNum 404)}"
    using assms(6) by (auto simp: result_of_def resp_value_def)
  with s(2) have rm: "on_res e (RemoveResource a) w1 = Some w2"
    by (auto simp: delete_done_def)
  from k assms(4) obtain ax where ax: "deref (wo_res w1) a = Some ax" "key_name ax = key_name x"
    "oget (st_resources (wo_res w1)) (key_name ax) = Some r"
    using assms(5) unfolding marks_kept_def by metis
  from rm obtain t where t: "doRemoveResource (en_fuel e) (en_now e) a (wo_res w1) = Some t" "wo_res w2 = t"
    by (auto simp: on_res_def)
  from doRemoveResource_marks [OF t(1) ax(1,3)] obtain y where "deref (wo_res w2) r = Some y" "r_isDeleted y"
    unfolding t(2) by blast
  with marks_kept_all_done [OF s(3)] show ?thesis unfolding marks_kept_def by blast
qed

definition demo_kept :: world where
  "demo_kept = (case removeResources_end demo_env [(0, demo_refused)] [(0, demo_refused)] demo_fetched of Some w \<Rightarrow> w | None \<Rightarrow> demo_fetched)"

theorem failed_deletion_removes_witness:
  "okeys (st_resources (wo_res demo_kept)) = [''Pod/ns/p'', ''ReplicaSet/ns/rs'']
    \<and> (\<exists>y. deref (wo_res demo_kept) 0 = Some y \<and> r_isDeleted y)"
proof -
  have run: "removeResources_end demo_env [(0, demo_refused)] [(0, demo_refused)] demo_fetched = Some demo_kept"
    unfolding demo_kept_def by (rule some_case) code_simp
  have "map_option key_name (deref (wo_res demo_fetched) 0) = Some ''Pod/ns/p''" by code_simp
  then obtain x where x: "deref (wo_res demo_fetched) 0 = Some x" "key_name x = ''Pod/ns/p''" by auto
  have m: "oget (st_resources (wo_res demo_fetched)) ''Pod/ns/p'' = Some 0" by code_simp
  have "\<exists>y. deref (wo_res demo_kept) 0 = Some y \<and> r_isDeleted y"
  proof (rule failed_deletion_removes [OF run _ _ x(1)])
    show "oget (st_resources (wo_res demo_fetched)) (key_name x) = Some 0" using m x(2) by simp
    show "(0, demo_refused) \<in> set [(0, demo_refused)]" by simp
  qed (simp_all add: demo_refused_def)
  moreover have "okeys (st_resources (wo_res demo_kept)) = [''Pod/ns/p'', ''ReplicaSet/ns/rs'']" by code_simp
  ultimately show ?thesis by blast
qed

section \<open>Failures\<close>

lemma wo_errors_quiet [simp]:
  "wo_errors (emit x w) = wo_errors w" "wo_errors (w\<lparr>wo_res := s\<rparr>) = wo_errors w"
  by (simp_all add: emit_def)

lemma wo_errors_on: "on_res e a w = Some w' \<Longrightarrow> wo_errors w' = wo_errors w"
    "on_events e b w = Some w' \<Longrightarrow> wo_errors w' = wo_errors w"
  by (auto simp: on_res_def on_events_def)

lemma wo_out_on: "on_res e a w = Some w' \<Longrightarrow> wo_out w' = wo_out w"
    "on_events e b w = Some w' \<Longrightarrow> wo_out w' = wo_out w" "wo_out (report err m t w) = wo_out w"
  by (auto simp: on_res_def on_events_def report_def)

lemma wo_res_on_events: "on_events e b w = Some w' \<Longrightarrow> wo_res w' = wo_res w"
  by (auto simp: on_events_def)

text \<open>An empty batch: the map stays, what is computed from a batch is emptied.\<close>

lemma receive_nothing:
  assumes "receiveResources e [] w = Some w'"
  shows "st_resources (wo_res w') = st_resources (wo_res w)" "st_countsByKind (wo_res w') = []"
    "st_podCount (wo_res w') = 0" "st_podsByNode (wo_res w') = []" "st_problemResources (wo_res w') = []"
proof -
  from assms obtain t where t: "doReceiveResources (en_fuel e) (en_now e) [] (the_kinds w) (wo_res w) = Some t" "wo_res w' = t"
    by (auto simp: receiveResources_def on_res_def)
  show "st_resources (wo_res w') = st_resources (wo_res w)" "st_countsByKind (wo_res w') = []"
    "st_podCount (wo_res w') = 0" "st_podsByNode (wo_res w') = []" "st_problemResources (wo_res w') = []"
    using t(1) unfolding t(2) by (auto simp: doReceiveResources_def visitResources_def bind_Some_iff exclude_keys_def ospread_def)
qed

text \<open>C12: A load of the resources that the server refuses, other than for lack of a session, is reported
  twice, with different messages, and still ends as a successful one does, with an empty batch: the
  resources stay, while the counts, the pods by node and the problems that were computed from them are
  emptied, and a request for metrics and a new watch go out.\<close>

theorem failed_fetch_goes_on:
  assumes "fetchResources_end e f kk a w = Some w'" "\<not> re_ok a" "re_status a \<notin> {401, 403, 404}"
  shows "(\<exists>e1 e2. ers_errors (snd (wo_errors w')) = e2 # e1 # ers_errors (snd (wo_errors w))
      \<and> er_message e1 = JStr (''Failed to fetch '' @ list_url @ '': '' @ re_statusText a)
      \<and> er_message e2 = JStr (''Failed to fetch '' @ list_url @ '': '' @ int_str (re_status a) @ '' undefined'')
      \<and> er_object e1 = er_object e2)
    \<and> (\<exists>v. wo_out w' = wo_out w @ [MetricsRequested, Watching v])
    \<and> st_resources (wo_res w') = st_resources (wo_res w) \<and> st_countsByKind (wo_res w') = []
    \<and> st_podCount (wo_res w') = 0 \<and> st_podsByNode (wo_res w') = [] \<and> st_problemResources (wo_res w') = []"
proof -
  let ?m1 = "''Failed to fetch '' @ list_url @ '': '' @ re_statusText a"
  let ?m2 = "''Failed to fetch '' @ list_url @ '': '' @ int_str (re_status a) @ '' undefined''"
  let ?r = "report (resp_value a) ?m2 True (report (resp_value a) ?m1 True w)"
  obtain w1 w2 rs evs w3 w4 where c: "fetch_failed e a w = Some w1"
    "received_batch e f kk (result_of a) w1 = Some (w2, rs, evs)"
    "receiveResources e rs w2 = Some w3" "on_events e (EReceive rs evs) w3 = Some w4"
    "watchResources e (emit MetricsRequested w4) = Some w'"
    by (rule fetchResources_chain [OF assms(1)])
  have "w1 = report (resp_value a) ?m1 True w" using c(1) assms(2,3) by (simp add: fetch_failed_def)
  moreover have "result_of a = resp_value a" using assms(2) by (simp add: result_of_def)
  ultimately have w2: "w2 = ?r" "rs = []"
    using c(2) assms(3) by (simp_all add: received_batch_def resp_value_def ohas_def)
  let ?w5 = "emit (Watching (st_maxResourceVersion (wo_res w4))) (emit MetricsRequested w4)"
  have w5: "on_res e (SetWatches (case st_watches (wo_res w4) of Some n \<Rightarrow> Suc n | None \<Rightarrow> 0)) ?w5 = Some w'"
    using c(5) by (simp add: watchResources_def emit_def)
  have eq: "wo_errors w4 = wo_errors ?r" "wo_out w4 = wo_out w" "wo_res w4 = wo_res w3"
    using wo_errors_on(1) [OF c(3) [unfolded receiveResources_def]] wo_errors_on(2) [OF c(4)]
      wo_out_on(1) [OF c(3) [unfolded receiveResources_def]] wo_out_on(2) [OF c(4)] wo_res_on_events [OF c(4)]
    by (simp_all add: w2 wo_out_on(3))
  have "wo_errors w' = wo_errors ?r" using wo_errors_on(1) [OF w5] eq(1) by simp
  moreover have "\<exists>v. wo_out w' = wo_out w @ [MetricsRequested, Watching v]"
    using wo_out_on(1) [OF w5] eq(2) by (simp add: emit_def)
  moreover have "\<exists>n. wo_res w' = (wo_res w3)\<lparr>st_watches := Some n\<rparr>"
    using w5 eq(3) by (auto simp: on_res_def emit_def)
  ultimately show ?thesis
    using receive_nothing [OF c(3) [unfolded w2(2)]] w2(1)
    by (auto simp: report_def addError_def doAddError_def Let_def)
qed

definition demo_failed :: world where
  "demo_failed = (case fetchResources_end demo_env None demo_kinds demo_refused demo_fetched of
     Some w \<Rightarrow> w | None \<Rightarrow> demo_world)"

theorem failed_fetch_goes_on_witness:
  "okeys (st_resources (wo_res demo_failed)) = [''Pod/ns/p'', ''ReplicaSet/ns/rs'']
    \<and> st_countsByKind (wo_res demo_fetched) \<noteq> [] \<and> st_countsByKind (wo_res demo_failed) = []"
proof -
  have run: "fetchResources_end demo_env None demo_kinds demo_refused demo_fetched = Some demo_failed"
    unfolding demo_failed_def by (rule some_case) code_simp
  have "okeys (st_resources (wo_res demo_fetched)) = [''Pod/ns/p'', ''ReplicaSet/ns/rs'']"
    "st_countsByKind (wo_res demo_fetched) \<noteq> []" by code_simp+
  then show ?thesis using failed_fetch_goes_on [OF run] by (simp add: demo_refused_def)
qed

end
