(* ===== verification/Columns.thy ===== *)
theory Columns
  imports Resource Units Summary
begin

text \<open>
  The cells of the resource tables, \<^verbatim>\<open>src/utils/resource-column-utils.js\<close>: what a cell shows and
  the value it is sorted by. The utilisation of a resource that owns pods is the mean over the pods
  that a traversal of ownership meets. \<open>podMetrics\<close> is the JSON value the server sent, or null.
\<close>

section \<open>Utilisation\<close>

text \<open>\<^term>\<open>None\<close> is \<^verbatim>\<open>NaN\<close>.\<close>

definition fixed_text :: "nat \<Rightarrow> rat option \<Rightarrow> string" where
  "fixed_text places v = (case v of Some x \<Rightarrow> to_fixed places x | None \<Rightarrow> ''NaN'')"

definition rat_add :: "rat option \<Rightarrow> rat option \<Rightarrow> rat option" where
  "rat_add a b = (case (a, b) of (Some x, Some y) \<Rightarrow> Some (x + y) | _ \<Rightarrow> None)"

text \<open>
  \<^verbatim>\<open>podMetrics[podKey]\<close> of a resource, and its usage of one metric in the target unit; the inner
  \<^term>\<open>None\<close> is a pod without metrics.
\<close>

definition pod_usage ::
  "string \<Rightarrow> string \<times> string \<Rightarrow> json \<Rightarrow> resource \<Rightarrow> rat option option option" where
  "pod_usage metric units podMetrics x = do {
     ns \<leftarrow> metadata_of x ''namespace''; name \<leftarrow> metadata_of x ''name'';
     podStats \<leftarrow> jget podMetrics (to_str ns @ ''/'' @ to_str name);
     if truthy podStats then do {
       m \<leftarrow> jget podStats metric; u \<leftarrow> jget m ''usage'';
       Some (Some (map_option (\<lambda>n. conv units (of_int n)) (to_num u)))
     } else Some None
   }"

text \<open>The loop over the owned resources: the total and the number of pods with metrics.\<close>

fun usage_loop ::
  "nat \<Rightarrow> heap \<Rightarrow> (resource \<Rightarrow> rat option option option) \<Rightarrow> ref list \<Rightarrow> rat option \<times> nat \<Rightarrow> (rat option \<times> nat) option" where
  "usage_loop fuel h usage_of [] acc = Some acc"
| "usage_loop 0 h usage_of (r # q) acc = None"
| "usage_loop (Suc fuel) h usage_of (r # q) acc = do {
     x \<leftarrow> h r;
     (case r_owned x of
        Some o1 \<Rightarrow> usage_loop fuel h usage_of (q @ map snd o1) acc
      | None \<Rightarrow> do {
          u \<leftarrow> usage_of x;
          usage_loop fuel h usage_of q
            (case u of Some v \<Rightarrow> (rat_add (fst acc) v, Suc (snd acc)) | None \<Rightarrow> acc)
        })
   }"

text \<open>The text of a utilisation, if there is one.\<close>

definition utilization ::
  "nat \<Rightarrow> heap \<Rightarrow> string \<Rightarrow> string \<times> string \<Rightarrow> nat \<Rightarrow> json \<Rightarrow> resource \<Rightarrow> string option option" where
  "utilization fuel h metric units places podMetrics x =
     (if \<not> truthy podMetrics then Some None
      else do {
        kind \<leftarrow> kind_of x;
        if strict_eq kind (JStr ''Pod'')
        then map_option (map_option (fixed_text places)) (pod_usage metric units podMetrics x)
        else (case r_owned x of
                None \<Rightarrow> Some None
              | Some o1 \<Rightarrow> do {
                  (total, count) \<leftarrow> usage_loop fuel h (pod_usage metric units podMetrics) (map snd o1) (Some 0, 0);
                  Some (if count \<noteq> 0 then Some (fixed_text places (map_option (\<lambda>t. t / of_nat count) total))
                        else None)
                })
      })"

definition cpu_utilized :: "nat \<Rightarrow> heap \<Rightarrow> json \<Rightarrow> resource \<Rightarrow> string option option" where
  "cpu_utilized fuel h = utilization fuel h ''cpu'' (''millicores'', ''cores'') 2"

definition mem_utilized :: "nat \<Rightarrow> heap \<Rightarrow> json \<Rightarrow> resource \<Rightarrow> string option option" where
  "mem_utilized fuel h = utilization fuel h ''memory'' (''bytes'', ''gibibytes'') 1"

definition disk_utilized :: "nat \<Rightarrow> heap \<Rightarrow> json \<Rightarrow> resource \<Rightarrow> string option option" where
  "disk_utilized fuel h = utilization fuel h ''disk'' (''bytes'', ''gibibytes'') 1"

definition utilized :: "string \<Rightarrow> nat \<Rightarrow> heap \<Rightarrow> json \<Rightarrow> resource \<Rightarrow> string option option" where
  "utilized column = (if column = ''cpu_utilized'' then cpu_utilized
     else if column = ''mem_utilized'' then mem_utilized else disk_utilized)"

section \<open>Cells\<close>

text \<open>A cell is a value, the icon of a status, or the icon of the actions.\<close>

datatype cell = CellValue json | StatusIcon json | ActionsIcon

definition replica_controllers :: "string list" where
  "replica_controllers = [''Deployment'', ''ReplicaSet'', ''ReplicationController'']"

text \<open>The count of the \<^verbatim>\<open>pods\<close> column, if the kind has one.\<close>

definition ready_pods :: "resource \<Rightarrow> json option option" where
  "ready_pods x = do {
     kind \<leftarrow> kind_of x;
     if kind \<in> set (map JStr replica_controllers) then do {
       st \<leftarrow> rget x ''status''; n \<leftarrow> jget st ''readyReplicas''; Some (Some (js_or n (JNum 0)))
     } else if strict_eq kind (JStr ''StatefulSet'') then do {
       st \<leftarrow> rget x ''status''; n \<leftarrow> jget st ''replicas''; Some (Some (js_or n (JNum 0)))
     } else Some None
   }"

definition age_of :: "int \<Rightarrow> json \<Rightarrow> json" where
  "age_of now created = (case num_minus (Some now) (date_parse created) of Some n \<Rightarrow> JNum n | None \<Rightarrow> JUndef)"

definition renderResourceCell ::
  "nat \<Rightarrow> heap \<Rightarrow> (int option \<Rightarrow> string) \<Rightarrow> int \<Rightarrow> string \<Rightarrow> resource \<Rightarrow> json \<Rightarrow> cell option" where
  "renderResourceCell fuel h humanize now column x podMetrics =
     (if column = ''name'' then map_option CellValue (metadata_of x ''name'')
      else if column = ''namespace'' then map_option CellValue (metadata_of x ''namespace'')
      else if column = ''kind'' then map_option CellValue (kind_of x)
      else if column = ''actions'' then Some ActionsIcon
      else if column = ''age'' then
        map_option (\<lambda>t. CellValue (JStr (toHumanizedAge humanize now (age_of now t)))) (metadata_of x ''creationTimestamp'')
      else if column = ''status'' then Some (StatusIcon (r_statusSummary x))
      else if column = ''pods'' then do {
        n \<leftarrow> ready_pods x;
        (case n of
           None \<Rightarrow> Some (CellValue (JStr []))
         | Some v \<Rightarrow> do {
             spec \<leftarrow> rget x ''spec''; total \<leftarrow> jget spec ''replicas'';
             Some (CellValue (JStr (to_str v @ '' / '' @ to_str total)))
           })
      } else if column \<in> {''cpu_utilized'', ''mem_utilized'', ''disk_utilized''} then
        map_option (\<lambda>t. CellValue (JStr (case t of Some s \<Rightarrow> s | None \<Rightarrow> []))) (utilized column fuel h podMetrics x)
      else Some (CellValue (JStr [])))"

definition getResourceCellValue ::
  "nat \<Rightarrow> heap \<Rightarrow> string \<Rightarrow> resource \<Rightarrow> json \<Rightarrow> json option" where
  "getResourceCellValue fuel h column x podMetrics =
     (if column = ''id'' then Some (case r_key x of Some k \<Rightarrow> JStr k | None \<Rightarrow> JUndef)
      else if column = ''name'' then metadata_of x ''name''
      else if column = ''namespace'' then metadata_of x ''namespace''
      else if column = ''kind'' then kind_of x
      else if column = ''age'' then metadata_of x ''creationTimestamp''
      else if column = ''status'' then Some (r_statusSummary x)
      else if column = ''pods'' then
        map_option (\<lambda>n. case n of Some v \<Rightarrow> v | None \<Rightarrow> JNum (- 1)) (ready_pods x)
      else if column \<in> {''cpu_utilized'', ''mem_utilized'', ''disk_utilized''} then
        map_option (\<lambda>t. case t of Some s \<Rightarrow> JStr s | None \<Rightarrow> JNum (- 1)) (utilized column fuel h podMetrics x)
      else Some (JStr []))"

section \<open>The loop computes the mean over the pods\<close>

text \<open>\<open>W x\<close> lists the nodes that a traversal from \<open>x\<close> meets, each as often as it is met.\<close>

lemma walk_paths:
  assumes W: "\<And>x. W x = add_mset x (\<Sum>y\<leftarrow>ch x. W y)"
  shows "walk n ch q = Some vs \<Longrightarrow> mset vs = (\<Sum>y\<leftarrow>q. W y)"
proof (induction n arbitrary: q vs)
  case 0
  then show ?case by (cases q) auto
next
  case (Suc n)
  show ?case
  proof (cases q)
    case (Cons x q')
    with Suc.prems obtain ws where ws: "walk n ch (q' @ ch x) = Some ws" "vs = x # ws" by auto
    from Suc.IH [OF ws(1)] ws(2) Cons W [of x] show ?thesis by simp
  qed (use Suc.prems in auto)
qed

text \<open>A resource that a traversal treats as a pod: it owns nothing.\<close>

definition is_leaf :: "heap \<Rightarrow> ref \<Rightarrow> bool" where
  "is_leaf h r \<longleftrightarrow> (case h r of Some x \<Rightarrow> r_owned x = None | None \<Rightarrow> False)"

text \<open>The pods among the nodes whose usage \<open>g\<close> is known.\<close>

definition known_usage :: "heap \<Rightarrow> (ref \<Rightarrow> rat option) \<Rightarrow> ref multiset \<Rightarrow> ref multiset" where
  "known_usage h g M = filter_mset (\<lambda>r. is_leaf h r \<and> g r \<noteq> None) M"

lemma usage_loop_walk:
  assumes "walk n (owned_refs h) q = Some vs"
    and "\<forall>r \<in> set vs. \<exists>x. h r = Some x \<and> (r_owned x = None \<longrightarrow> f x = Some (map_option Some (g r)))"
  shows "usage_loop n h f q (Some t, k) =
    Some (Some (t + (\<Sum>r\<in>#known_usage h g (mset vs). the (g r))), k + size (known_usage h g (mset vs)))"
  using assms
proof (induction n arbitrary: q vs t k)
  case 0
  then show ?case by (cases q) (auto simp: known_usage_def)
next
  case (Suc n)
  show ?case
  proof (cases q)
    case Nil
    with Suc.prems show ?thesis by (auto simp: known_usage_def)
  next
    case (Cons r q')
    with Suc.prems obtain ws where ws: "walk n (owned_refs h) (q' @ owned_refs h r) = Some ws" "vs = r # ws" by auto
    with Suc.prems obtain x where x: "h r = Some x" "r_owned x = None \<longrightarrow> f x = Some (map_option Some (g r))" by auto
    have rest: "\<forall>r \<in> set ws. \<exists>x. h r = Some x \<and> (r_owned x = None \<longrightarrow> f x = Some (map_option Some (g r)))"
      using Suc.prems(2) ws(2) by auto
    show ?thesis
    proof (cases "r_owned x")
      case None
      then have "owned_refs h r = []" by (simp add: owned_refs_def owned_of_def x(1))
      with Suc.IH [OF _ rest, of q'] ws x None Cons show ?thesis
        by (cases "g r") (simp_all add: known_usage_def is_leaf_def rat_add_def add.assoc)
    next
      case (Some o1)
      then have "owned_refs h r = map snd o1" by (simp add: owned_refs_def owned_of_def x(1))
      with Suc.IH [OF _ rest, of "q' @ map snd o1"] ws x Some Cons show ?thesis
        by (simp add: known_usage_def is_leaf_def)
    qed
  qed
qed

text \<open>
  The metric, units and decimals of the three columns.
\<close>

definition column_metric :: "string \<Rightarrow> (string \<times> (string \<times> string) \<times> nat) option" where
  "column_metric column =
     (if column = ''cpu_utilized'' then Some (''cpu'', (''millicores'', ''cores''), 2)
      else if column = ''mem_utilized'' then Some (''memory'', (''bytes'', ''gibibytes''), 1)
      else if column = ''disk_utilized'' then Some (''disk'', (''bytes'', ''gibibytes''), 1) else None)"

lemma utilized_metric:
  "column_metric column = Some (metric, units, places) \<Longrightarrow>
     utilized column fuel h = utilization fuel h metric units places"
  by (auto simp: column_metric_def utilized_def cpu_utilized_def mem_utilized_def disk_utilized_def
      split: if_splits)

text \<open>C35: On acyclic ownership the utilisation of a resource that owns others is the mean over the pods
  below it whose metrics are known, each counted once for every chain of ownership that leads to it,
  to the column's number of decimals. The table shows that text and sorts by it; with no known pod
  the cell is empty and sorts as -1.\<close>

theorem utilization_is_mean:
  assumes "acyclic_owned h" "h r = Some x" "r_owned x = Some o1" "kind_of x = Some k" "k \<noteq> JStr ''Pod''"
    and "truthy pm" "column_metric column = Some (metric, units, places)"
    and "\<And>y. W y = add_mset y (\<Sum>z\<leftarrow>owned_refs h y. W z)"
    and "\<forall>y \<in># (\<Sum>z\<leftarrow>owned_refs h r. W z). \<exists>x'. h y = Some x' \<and>
           (r_owned x' = None \<longrightarrow> pod_usage metric units pm x' = Some (map_option Some (g y)))"
  defines "L \<equiv> known_usage h g (\<Sum>z\<leftarrow>owned_refs h r. W z)"
  shows "\<exists>n0. \<forall>n \<ge> n0.
    (if L = {#}
     then renderResourceCell n h hum now column x pm = Some (CellValue (JStr []))
        \<and> getResourceCellValue n h column x pm = Some (JNum (- 1))
     else (let text = to_fixed places ((\<Sum>y\<in>#L. the (g y)) / of_nat (size L))
           in renderResourceCell n h hum now column x pm = Some (CellValue (JStr text))
            \<and> getResourceCellValue n h column x pm = Some (JStr text)))"
proof -
  obtain n0 where n0: "\<And>m. m \<ge> n0 \<Longrightarrow> \<exists>vs. walk m (owned_refs h) (owned_refs h r) = Some vs"
    using owned.walk_terminates [OF assms(1)] by blast
  have refs: "owned_refs h r = map snd o1" by (simp add: owned_refs_def owned_of_def assms(2,3))
  have "column \<in> {''cpu_utilized'', ''mem_utilized'', ''disk_utilized''}"
    using assms(7) by (auto simp: column_metric_def split: if_splits)
  then have cell: "renderResourceCell n h hum now column x pm =
      map_option (\<lambda>t. CellValue (JStr (case t of Some s \<Rightarrow> s | None \<Rightarrow> []))) (utilized column n h pm x)"
    "getResourceCellValue n h column x pm =
      map_option (\<lambda>t. case t of Some s \<Rightarrow> JStr s | None \<Rightarrow> JNum (- 1)) (utilized column n h pm x)" for n
    unfolding renderResourceCell_def getResourceCellValue_def by auto
  have "utilized column n h pm x =
      Some (if L = {#} then None else Some (to_fixed places ((\<Sum>y\<in>#L. the (g y)) / of_nat (size L))))"
    if "n \<ge> n0" for n
  proof -
    from n0 [OF that] obtain vs where vs: "walk n (owned_refs h) (owned_refs h r) = Some vs" by blast
    have m: "mset vs = (\<Sum>z\<leftarrow>owned_refs h r. W z)" by (rule walk_paths [OF assms(8) vs])
    have "\<forall>y \<in> set vs. \<exists>x'. h y = Some x' \<and>
        (r_owned x' = None \<longrightarrow> pod_usage metric units pm x' = Some (map_option Some (g y)))"
      using assms(9) unfolding m [symmetric] by simp
    from usage_loop_walk [OF vs this, of 0 0]
    have "usage_loop n h (pod_usage metric units pm) (map snd o1) (Some 0, 0) =
        Some (Some (\<Sum>y\<in>#L. the (g y)), size L)"
      unfolding L_def m refs by simp
    then show ?thesis
      using assms(3-6) unfolding utilized_metric [OF assms(7)] utilization_def
      by (simp add: fixed_text_def)
  qed
  then show ?thesis unfolding cell by (intro exI [of _ n0]) (auto simp: Let_def)
qed

definition demo_obj :: "string \<Rightarrow> string \<Rightarrow> json" where
  "demo_obj kind name = JObj [(''kind'', JStr kind), (''metadata'', JObj [(''name'', JStr name), (''namespace'', JStr ''ns'')])]"

definition demo_owner :: heap where
  "demo_owner = [0 \<mapsto> (fresh_resource (demo_obj ''ReplicaSet'' ''rs''))\<lparr>r_owned := Some [(''p'', 1), (''q'', 2)]\<rparr>,
                 1 \<mapsto> fresh_resource (demo_obj ''Pod'' ''p''), 2 \<mapsto> fresh_resource (demo_obj ''Pod'' ''q'')]"

definition demo_metrics :: json where
  "demo_metrics = JObj [(''ns/p'', JObj [(''cpu'', JObj [(''usage'', JNum 500)])]),
                        (''ns/q'', JObj [(''cpu'', JObj [(''usage'', JNum 1000)])])]"

theorem utilization_is_mean_witness:
  "\<exists>n0. \<forall>n \<ge> n0. getResourceCellValue n demo_owner ''cpu_utilized''
     ((fresh_resource (demo_obj ''ReplicaSet'' ''rs''))\<lparr>r_owned := Some [(''p'', 1), (''q'', 2)]\<rparr>) demo_metrics
       = Some (JStr ''0.75'')"
proof -
  let ?x = "(fresh_resource (demo_obj ''ReplicaSet'' ''rs''))\<lparr>r_owned := Some [(''p'', 1), (''q'', 2)]\<rparr>"
  let ?W = "\<lambda>y :: ref. if y = 0 then {#0, 1, 2#} else {#y#}"
  let ?g = "\<lambda>y :: ref. if y = 1 then Some (1 / 2 :: rat) else Some 1"
  have refs: "owned_refs demo_owner y = (if y = 0 then [1, 2] else [])" for y
    by (simp add: owned_refs_def owned_of_def demo_owner_def fresh_resource_def)
  have ac: "acyclic_owned demo_owner"
  proof -
    have "edges (owned_refs demo_owner) \<subseteq> less_than" by (auto simp: refs split: if_splits)
    then have "acyclic (edges (owned_refs demo_owner))" by (rule acyclic_subset [OF wf_acyclic [OF wf_less_than]])
    then show ?thesis by (simp add: acyclic_owned_def demo_owner_def)
  qed
  have p: "pod_usage ''cpu'' (''millicores'', ''cores'') demo_metrics (fresh_resource (demo_obj ''Pod'' ''p'')) = Some (Some (Some (1 / 2)))"
    "pod_usage ''cpu'' (''millicores'', ''cores'') demo_metrics (fresh_resource (demo_obj ''Pod'' ''q'')) = Some (Some (Some 1))"
    by code_simp+
  let ?L = "known_usage demo_owner ?g (\<Sum>z\<leftarrow>owned_refs demo_owner 0. ?W z)"
  have S: "(\<Sum>z\<leftarrow>owned_refs demo_owner 0. ?W z) = {#1, 2#}" by (simp add: refs)
  have "is_leaf demo_owner 1" "is_leaf demo_owner 2"
    by (simp_all add: is_leaf_def demo_owner_def fresh_resource_def)
  then have L: "?L = {#1, 2#}" unfolding S by (simp add: known_usage_def) (rule exI [of _ "1 / 2"], simp)
  have "\<exists>n0. \<forall>n \<ge> n0. (if ?L = {#}
     then renderResourceCell n demo_owner (\<lambda>_. []) 0 ''cpu_utilized'' ?x demo_metrics = Some (CellValue (JStr []))
        \<and> getResourceCellValue n demo_owner ''cpu_utilized'' ?x demo_metrics = Some (JNum (- 1))
     else (let text = to_fixed 2 ((\<Sum>y\<in>#?L. the (?g y)) / of_nat (size ?L))
           in renderResourceCell n demo_owner (\<lambda>_. []) 0 ''cpu_utilized'' ?x demo_metrics = Some (CellValue (JStr text))
            \<and> getResourceCellValue n demo_owner ''cpu_utilized'' ?x demo_metrics = Some (JStr text)))"
  proof (rule utilization_is_mean [OF ac, where W = ?W and g = ?g])
    show "kind_of ?x = Some (JStr ''ReplicaSet'')" by code_simp
    show "column_metric ''cpu_utilized'' = Some (''cpu'', (''millicores'', ''cores''), 2)" by (simp add: column_metric_def)
    show "\<forall>y \<in># (\<Sum>z\<leftarrow>owned_refs demo_owner 0. ?W z). \<exists>x'. demo_owner y = Some x' \<and>
           (r_owned x' = None \<longrightarrow> pod_usage ''cpu'' (''millicores'', ''cores'') demo_metrics x' = Some (map_option Some (?g y)))"
      unfolding S using p by (simp add: demo_owner_def)
    show "?W y = add_mset y (\<Sum>z\<leftarrow>owned_refs demo_owner y. ?W z)" for y by (simp add: refs)
    show "demo_owner 0 = Some ?x" by (simp add: demo_owner_def)
  qed (simp_all add: demo_metrics_def)
  moreover have "to_fixed 2 ((\<Sum>y\<in>#?L. the (?g y)) / of_nat (size ?L)) = ''0.75''"
    unfolding L by (simp add: to_fixed_def pad_left_def) code_simp
  ultimately show ?thesis unfolding L Let_def by simp blast
qed

end
