(* ===== verification/Table.thy ===== *)
theory Table
  imports Collation JsValue Units
begin

text \<open>
  The sortable table of all resource pages, \<^verbatim>\<open>src/components/filter-table/FilterTable.js\<close> and the
  headers of its columns, \<^verbatim>\<open>TableSortLabel.js\<close>: the comparators, the state, and what a selection of
  rows reports. Rows are any type; \<open>cell\<close> is the page's \<^verbatim>\<open>getCellValue\<close>. A comparator may throw (\<^term>\<open>None\<close>) or return
  \<^verbatim>\<open>NaN\<close> (\<^term>\<open>Some None\<close>), which sorting takes for 0. Of numbers only the sign matters.
\<close>

section \<open>Comparators\<close>

type_synonym 'r comparison = "'r \<Rightarrow> 'r \<Rightarrow> int option option"

datatype order = Asc | Desc

record column =
  co_id :: string
  co_isNumeric :: bool
  co_comparator :: "(json \<Rightarrow> json \<Rightarrow> int option) option"

definition frac_val :: "string \<Rightarrow> rat" where
  "frac_val ds = of_int (digits_val ds) / 10 ^ length ds"

text \<open>\<^verbatim>\<open>parseFloat\<close> of a text in decimal notation.\<close>

definition parse_float_str :: "string \<Rightarrow> rat option" where
  "parse_float_str s =
     (let neg = starts_with ''-'' s; t = (if neg then tl s else s);
          whole = takeWhile is_digit t; rest = dropWhile is_digit t;
          frac = (case rest of c # u \<Rightarrow> if c = CHR ''.'' then takeWhile is_digit u else [] | [] \<Rightarrow> [])
      in if whole = [] \<and> frac = [] then None
         else Some ((if neg then - 1 else 1) * (of_int (digits_val whole) + frac_val frac)))"

definition parse_float :: "json \<Rightarrow> rat option" where
  "parse_float v = (case v of JNum n \<Rightarrow> Some (of_int n) | _ \<Rightarrow> parse_float_str (to_str v))"

definition sign_of :: "rat \<Rightarrow> int" where
  "sign_of x = (if x < 0 then - 1 else if x > 0 then 1 else 0)"

definition direction :: "order \<Rightarrow> int" where
  "direction d = (case d of Asc \<Rightarrow> 1 | Desc \<Rightarrow> - 1)"

text \<open>The comparison of ids on equal values, \<^verbatim>\<open>getCellValue(idColumn, a) - getCellValue(idColumn, b)\<close>.\<close>

definition by_id :: "(string \<Rightarrow> 'r \<Rightarrow> json) \<Rightarrow> string \<Rightarrow> 'r \<Rightarrow> 'r \<Rightarrow> int option" where
  "by_id cell idColumn a b =
     (case (to_num (cell idColumn a), to_num (cell idColumn b)) of (Some m, Some n) \<Rightarrow> Some (m - n) | _ \<Rightarrow> None)"

definition defaultSortNumeric :: "(string \<Rightarrow> 'r \<Rightarrow> json) \<Rightarrow> string \<Rightarrow> string \<Rightarrow> order \<Rightarrow> 'r comparison" where
  "defaultSortNumeric cell idColumn column d a b =
     (if strict_eq (cell column a) (cell column b) then Some (by_id cell idColumn a b)
      else Some (case (parse_float (cell column a), parse_float (cell column b)) of
             (Some x, Some y) \<Rightarrow> Some (direction d * sign_of (x - y)) | _ \<Rightarrow> None))"

text \<open>\<^verbatim>\<open>aVal.localeCompare(bVal)\<close> needs a string on the left.\<close>

definition defaultSortString :: "(string \<Rightarrow> 'r \<Rightarrow> json) \<Rightarrow> string \<Rightarrow> string \<Rightarrow> order \<Rightarrow> 'r comparison" where
  "defaultSortString cell idColumn column d a b =
     (if strict_eq (cell column a) (cell column b) then Some (by_id cell idColumn a b)
      else (case cell column a of
              JStr x \<Rightarrow> Some (Some (direction d * lex_cmp x (to_str (cell column b))))
            | _ \<Rightarrow> None))"

definition reverseComparator :: "'r comparison \<Rightarrow> 'r comparison" where
  "reverseComparator c a b = map_option (map_option (\<lambda>n. - 1 * n)) (c a b)"

definition column_comparator :: "(string \<Rightarrow> 'r \<Rightarrow> json) \<Rightarrow> string \<Rightarrow> column \<Rightarrow> order \<Rightarrow> 'r comparison" where
  "column_comparator cell idColumn col d =
     (case co_comparator col of
        None \<Rightarrow> if co_isNumeric col then defaultSortNumeric cell idColumn (co_id col) d
                else defaultSortString cell idColumn (co_id col) d
      | Some c \<Rightarrow>
          (let asc = (\<lambda>a b. Some (c (cell (co_id col) a) (cell (co_id col) b)))
           in case d of Asc \<Rightarrow> asc | Desc \<Rightarrow> reverseComparator asc))"

text \<open>The comparators by column id; a later column of the same id wins.\<close>

definition buildComparators ::
  "column list \<Rightarrow> string \<Rightarrow> (string \<Rightarrow> 'r \<Rightarrow> json) \<Rightarrow> (order \<Rightarrow> 'r comparison) obj" where
  "buildComparators cols idColumn cell =
     fold (\<lambda>col. oset (co_id col) (column_comparator cell idColumn col)) cols []"

section \<open>Sorting\<close>

text \<open>\<^verbatim>\<open>data.sort(cmp)\<close>: stable; a comparator that throws ends it.\<close>

definition as_order :: "int option \<Rightarrow> int" where
  "as_order c = (case c of Some n \<Rightarrow> n | None \<Rightarrow> 0)"

fun insert_m :: "'r comparison \<Rightarrow> 'r \<Rightarrow> 'r list \<Rightarrow> 'r list option" where
  "insert_m cmp x [] = Some [x]"
| "insert_m cmp x (y # ys) = do {
     c \<leftarrow> cmp x y;
     if as_order c \<le> 0 then Some (x # y # ys) else map_option (Cons y) (insert_m cmp x ys)
   }"

fun sort_m :: "'r comparison \<Rightarrow> 'r list \<Rightarrow> 'r list option" where
  "sort_m cmp [] = Some []"
| "sort_m cmp (x # xs) = do { ys \<leftarrow> sort_m cmp xs; insert_m cmp x ys }"

text \<open>An id without comparator makes the property access throw.\<close>

definition defaultSort ::
  "(order \<Rightarrow> 'r comparison) obj \<Rightarrow> string \<Rightarrow> order option \<Rightarrow> 'r list \<Rightarrow> 'r list option" where
  "defaultSort comparators column_id order1 data = do {
     c \<leftarrow> oget comparators column_id;
     sort_m (c (case order1 of Some d \<Rightarrow> d | None \<Rightarrow> Asc)) data
   }"

section \<open>State\<close>

record 'r table =
  ta_orderBy :: "string option"
  ta_order :: "order option"
  ta_data :: "'r list"

text \<open>
  \<open>old\<close> is the state before, absent in the constructor. \<^verbatim>\<open>this.selection\<close> is never assigned, so the
  state's selection stays empty. Columns are looked up by the property named \<^verbatim>\<open>idColumn\<close>, which no
  page sets: it is \<open>id\<close>. A column to order by that the table lacks makes the sort throw.
\<close>

definition propsToState ::
  "column list \<Rightarrow> string option \<Rightarrow> order option \<Rightarrow> (order \<Rightarrow> 'r comparison) obj \<Rightarrow> 'r list \<Rightarrow> 'r table option \<Rightarrow> 'r table option" where
  "propsToState cols initialOrderBy initialOrder comparators data old =
     (let orderBy = (case old of Some t \<Rightarrow> (case ta_orderBy t of Some c \<Rightarrow> Some c | None \<Rightarrow> initialOrderBy)
                     | None \<Rightarrow> initialOrderBy);
          order1 = (case old of Some t \<Rightarrow> (case ta_order t of Some d \<Rightarrow> Some d | None \<Rightarrow> initialOrder)
                    | None \<Rightarrow> initialOrder)
      in case (orderBy, order1) of
           (Some c, Some d) \<Rightarrow>
             if c \<in> set (map co_id cols)
             then map_option (\<lambda>rows. \<lparr>ta_orderBy = orderBy, ta_order = order1, ta_data = rows\<rparr>)
                    (defaultSort comparators c (Some d) data)
             else None
         | _ \<Rightarrow> Some \<lparr>ta_orderBy = orderBy, ta_order = order1, ta_data = data\<rparr>)"

text \<open>The handler of a column's header: the data is sorted in place, then the order is recorded.\<close>

definition createSortHandler ::
  "column list \<Rightarrow> (order \<Rightarrow> 'r comparison) obj \<Rightarrow> string \<Rightarrow> order \<Rightarrow> 'r table \<Rightarrow> 'r table option" where
  "createSortHandler cols comparators columnId d t =
     (if columnId \<in> set (map co_id cols)
      then map_option (\<lambda>rows. t\<lparr>ta_orderBy := Some columnId, ta_order := Some d, ta_data := rows\<rparr>)
             (defaultSort comparators columnId (Some d) (ta_data t))
      else None)"

definition stateChanged :: "'r table \<Rightarrow> 'r table \<Rightarrow> bool" where
  "stateChanged next1 t \<longleftrightarrow> ta_orderBy next1 \<noteq> ta_orderBy t \<or> ta_order next1 \<noteq> ta_order t"

text \<open>The selection material-ui reports: all rows, none, or the indices of some.\<close>

datatype selection = AllRows | NoRows | Rows "nat list"

definition handleRowSelection ::
  "string \<Rightarrow> (string \<Rightarrow> 'r \<Rightarrow> json) \<Rightarrow> selection \<Rightarrow> 'r table \<Rightarrow> bool obj option" where
  "handleRowSelection idColumn cell sel t =
     (case sel of
        AllRows \<Rightarrow> Some (fold (\<lambda>r. oset (to_str (cell idColumn r)) True) (ta_data t) [])
      | NoRows \<Rightarrow> Some []
      | Rows is \<Rightarrow>
          foldM (\<lambda>i ids. if i < length (ta_data t)
                   then Some (oset (to_str (cell idColumn (ta_data t ! i))) True ids) else None) is [])"

definition handleCellClick :: "column list \<Rightarrow> nat \<Rightarrow> int \<Rightarrow> 'r table \<Rightarrow> (nat \<times> int \<times> 'r option \<times> column option) option" where
  "handleCellClick cols row col t =
     (if col \<ge> 0 then Some (row, col, if row < length (ta_data t) then Some (ta_data t ! row) else None,
                          if nat col < length cols then Some (cols ! nat col) else None)
      else None)"

section \<open>Column headers\<close>

text \<open>The state of a header; no order is the empty text.\<close>

record sort_label =
  sl_active :: bool
  sl_order :: "order option"

definition new_label :: "bool \<Rightarrow> order option \<Rightarrow> sort_label" where
  "new_label active order1 = \<lparr>sl_active = active, sl_order = if active then order1 else None\<rparr>"

text \<open>Changed properties (\<open>active\<close>, \<open>order\<close>) reset the state.\<close>

definition label_receives :: "bool \<times> order option \<Rightarrow> bool \<times> order option \<Rightarrow> sort_label \<Rightarrow> sort_label" where
  "label_receives props next1 l = (if next1 \<noteq> props then new_label (fst next1) (snd next1) else l)"

text \<open>A click: the order handed to the table, and the new state; nothing unless the column is sortable.\<close>

definition onRequestSort :: "bool \<Rightarrow> order option \<Rightarrow> sort_label \<Rightarrow> order option option \<times> sort_label" where
  "onRequestSort sortable order1 l =
     (if sortable then
        (let next1 = (if sl_active l \<or> order1 = None
                      then Some (if sl_order l = Some Asc then Desc else Asc) else order1)
         in (Some next1, \<lparr>sl_active = True, sl_order = next1\<rparr>))
      else (None, l))"

text \<open>
  The table never passes \<open>order\<close>, so it is ascending: further clicks alternate, and a table that
  starts with a descending column has its first click sort it descending again.
\<close>

lemma clicks_alternate:
  "onRequestSort True (Some Asc) \<lparr>sl_active = True, sl_order = Some d\<rparr>
     = (Some (Some (case d of Asc \<Rightarrow> Desc | Desc \<Rightarrow> Asc)),
        \<lparr>sl_active = True, sl_order = Some (case d of Asc \<Rightarrow> Desc | Desc \<Rightarrow> Asc)\<rparr>)"
  by (cases d) (simp_all add: onRequestSort_def Let_def)

lemma initial_descending_stays:
  "fst (onRequestSort True (Some Asc) (new_label True (Some Asc))) = Some (Some Desc)"
  by (simp add: onRequestSort_def new_label_def Let_def)

section \<open>Sorting with a comparator that does not throw\<close>

lemma insert_m_total:
  "(\<And>y. y \<in> set ys \<Longrightarrow> \<exists>r. cmp x y = Some r \<and> as_order r = c x y) \<Longrightarrow> insert_m cmp x ys = Some (insert_by c x ys)"
proof (induction ys)
  case (Cons y ys)
  then obtain r where r: "cmp x y = Some r" "as_order r = c x y" by (metis list.set_intros(1))
  from Cons have "insert_m cmp x ys = Some (insert_by c x ys)" by simp
  with r show ?case by simp
qed simp

lemma sort_m_total:
  "(\<And>x y. x \<in> set xs \<Longrightarrow> y \<in> set xs \<Longrightarrow> \<exists>r. cmp x y = Some r \<and> as_order r = c x y) \<Longrightarrow>
     sort_m cmp xs = Some (sort_by c xs)"
proof (induction xs)
  case (Cons x xs)
  then have "sort_m cmp xs = Some (sort_by c xs)" by simp
  moreover have "insert_m cmp x (sort_by c xs) = Some (insert_by c x (sort_by c xs))"
    by (rule insert_m_total) (use Cons.prems in auto)
  ultimately show ?case by simp
qed simp

lemma sign_of_le: "sign_of x \<le> 0 \<longleftrightarrow> x \<le> 0" "0 \<le> sign_of x \<longleftrightarrow> 0 \<le> x"
  by (auto simp: sign_of_def)

text \<open>The comparator of a numeric column, for rows whose values are the numbers \<open>f\<close>.\<close>

definition number_cmp :: "order \<Rightarrow> ('r \<Rightarrow> rat) \<Rightarrow> 'r \<Rightarrow> 'r \<Rightarrow> int" where
  "number_cmp d f a b = direction d * sign_of (f a - f b)"

lemma number_cmp_le: "number_cmp d f a b \<le> 0 \<longleftrightarrow> (case d of Asc \<Rightarrow> f a \<le> f b | Desc \<Rightarrow> f b \<le> f a)"
  by (auto simp: number_cmp_def direction_def sign_of_le split: order.split)

lemma number_cmp_lawful: "comparator (number_cmp d f)"
proof
  fix x y z :: 'a
  show "number_cmp d f x y \<le> 0 \<or> number_cmp d f y x \<le> 0"
    by (cases d) (auto simp: number_cmp_le)
  show "number_cmp d f x y \<le> 0 \<Longrightarrow> number_cmp d f y z \<le> 0 \<Longrightarrow> number_cmp d f x z \<le> 0"
    by (cases d) (auto simp: number_cmp_le)
qed

text \<open>C36: Sorting by a numeric column whose cells are numbers gives the same rows in the order asked for,
  and rows with equal numbers keep their order, ascending or descending.\<close>

theorem table_sorts_numbers:
  assumes "oget (buildComparators cols idColumn cell) (co_id col) = Some (column_comparator cell idColumn col)"
    and "co_comparator col = None" "co_isNumeric col"
    and "\<forall>r \<in> set data. parse_float (cell (co_id col) r) = Some (f r)"
    and "\<forall>r \<in> set data. to_num (cell idColumn r) = None"
  shows "\<exists>rows. defaultSort (buildComparators cols idColumn cell) (co_id col) (Some d) data = Some rows
    \<and> mset rows = mset data
    \<and> sorted_wrt (\<lambda>a b. case d of Asc \<Rightarrow> f a \<le> f b | Desc \<Rightarrow> f b \<le> f a) rows
    \<and> (\<forall>v. filter (\<lambda>r. f r = v) rows = filter (\<lambda>r. f r = v) data)"
proof -
  have "\<exists>r. column_comparator cell idColumn col d a b = Some r \<and> as_order r = number_cmp d f a b"
    if ab: "a \<in> set data" "b \<in> set data" for a b
  proof (cases "strict_eq (cell (co_id col) a) (cell (co_id col) b)")
    case True
    have "Some (f a) = Some (f b)" using assms(4) ab strict_eq_imp_eq [OF True] by metis
    then show ?thesis using True assms(2,3,5) ab
      by (simp add: column_comparator_def defaultSortNumeric_def by_id_def as_order_def number_cmp_def sign_of_def)
  next
    case False
    then show ?thesis using assms(2-4) ab
      by (simp add: column_comparator_def defaultSortNumeric_def as_order_def number_cmp_def)
  qed
  then have s: "sort_m (column_comparator cell idColumn col d) data = Some (sort_by (number_cmp d f) data)"
    by (rule sort_m_total)
  have "sorted_wrt (\<lambda>a b. number_cmp d f a b \<le> 0) (sort_by (number_cmp d f) data)"
    by (rule comparator.sorted_sort_by [OF number_cmp_lawful])
  moreover have "filter (\<lambda>r. f r = v) (sort_by (number_cmp d f) data) = filter (\<lambda>r. f r = v) data" for v
    by (rule filter_sort_by) (simp add: number_cmp_def sign_of_def)
  ultimately show ?thesis using s by (simp add: defaultSort_def assms(1) number_cmp_le)
qed

definition demo_column :: column where
  "demo_column = \<lparr>co_id = ''n'', co_isNumeric = True, co_comparator = None\<rparr>"

definition demo_cell :: "string \<Rightarrow> string \<times> json \<Rightarrow> json" where
  "demo_cell c r = (if c = ''n'' then snd r else JStr (fst r))"

theorem table_sorts_numbers_witness:
  "defaultSort (buildComparators [demo_column] ''id'' demo_cell) ''n'' (Some Desc)
     [(''a'', JStr ''9.50''), (''b'', JStr ''10.25''), (''c'', JNum (- 1))]
   = Some [(''b'', JStr ''10.25''), (''a'', JStr ''9.50''), (''c'', JNum (- 1))]"
proof -
  let ?data = "[(''a'', JStr ''9.50''), (''b'', JStr ''10.25''), (''c'', JNum (- 1))]"
  let ?f = "\<lambda>r. case parse_float (snd r) of Some x \<Rightarrow> x | None \<Rightarrow> 0"
  have "map (\<lambda>r. parse_float (demo_cell ''n'' r)) ?data = map (\<lambda>r. Some (?f r)) ?data"
    "list_all (\<lambda>r. to_num (demo_cell ''id'' r) = None) ?data" by code_simp+
  then have "\<exists>rows. defaultSort (buildComparators [demo_column] ''id'' demo_cell) (co_id demo_column) (Some Desc) ?data = Some rows
    \<and> mset rows = mset ?data
    \<and> sorted_wrt (\<lambda>a b. case Desc of Asc \<Rightarrow> ?f a \<le> ?f b | Desc \<Rightarrow> ?f b \<le> ?f a) rows
    \<and> (\<forall>v. filter (\<lambda>r. ?f r = v) rows = filter (\<lambda>r. ?f r = v) ?data)"
    by (intro table_sorts_numbers)
      (simp_all add: demo_column_def buildComparators_def list_all_iff oget_oset)
  moreover have "defaultSort (buildComparators [demo_column] ''id'' demo_cell) ''n'' (Some Desc) ?data
      = Some [(''b'', JStr ''10.25''), (''a'', JStr ''9.50''), (''c'', JNum (- 1))]" by code_simp
  ultimately show ?thesis by simp
qed

end
