(* ===== verification/YamlLines.thy ===== *)
theory YamlLines
  imports Prelude
begin

text \<open>
  Positions in the text of a manifest, \<^verbatim>\<open>src/utils/yaml-utils.js\<close>: the row of an error or of a path,
  found by indentation, and the translation of an offset into a row and a column by binary search.
\<close>

section \<open>White space\<close>

definition is_space :: "char \<Rightarrow> bool" where
  "is_space c \<longleftrightarrow> (let n = (of_char c :: nat) in n = 32 \<or> n = 160 \<or> 9 \<le> n \<and> n \<le> 13)"

definition trim :: "string \<Rightarrow> string" where
  "trim s = rev (dropWhile is_space (rev (dropWhile is_space s)))"

section \<open>The row of a path\<close>

text \<open>A step of a trace; \<open>arrayPos\<close> may be absent, and its number may be \<^verbatim>\<open>NaN\<close>.\<close>

record trace_step =
  ts_stepName :: string
  ts_arrayPos :: "int option option"

definition skips_line :: "bool \<Rightarrow> string \<Rightarrow> bool" where
  "skips_line isArray line \<longleftrightarrow>
     (let trimmed = trim line; beginsArray = starts_with ''-'' trimmed
      in starts_with ''#'' trimmed \<or> isArray \<and> \<not> beginsArray \<or> \<not> isArray \<and> beginsArray)"

definition findNextIndent :: "string list \<Rightarrow> nat \<Rightarrow> bool \<Rightarrow> string" where
  "findNextIndent lines startingLine isArray =
     (case find (\<lambda>line. \<not> skips_line isArray line) (drop (Suc startingLine) lines) of
        Some line \<Rightarrow> take (length line - length (trim line)) line
      | None \<Rightarrow> [])"

text \<open>The first row from \<open>row\<close> on whose line starts with the prefix, else \<open>row\<close>.\<close>

definition seek_row :: "string \<Rightarrow> string list \<Rightarrow> nat \<Rightarrow> nat" where
  "seek_row prefix lines row =
     (case find (\<lambda>j. starts_with prefix (lines ! j)) [row..<length lines] of Some j \<Rightarrow> j | None \<Rightarrow> row)"

text \<open>The loop over the elements of a sequence: \<open>a\<close> is the row of the first of the lines left.\<close>

fun seek_item :: "string \<Rightarrow> int \<Rightarrow> nat \<Rightarrow> int \<Rightarrow> string list \<Rightarrow> nat \<Rightarrow> nat" where
  "seek_item prefix arrayPos a foundPos [] row = row"
| "seek_item prefix arrayPos a foundPos (line # ls) row =
     (if foundPos < arrayPos then
        if starts_with prefix line
        then seek_item prefix arrayPos (Suc a) (foundPos + 1) ls (if foundPos + 1 = arrayPos then a else row)
        else seek_item prefix arrayPos (Suc a) foundPos ls row
      else row)"

definition seek_step :: "string list \<Rightarrow> trace_step \<Rightarrow> nat \<Rightarrow> nat" where
  "seek_step lines part row =
     (let row1 = seek_row (findNextIndent lines row False @ ts_stepName part @ '':'') lines row
      in case ts_arrayPos part of
           Some (Some n) \<Rightarrow> seek_item (findNextIndent lines row1 True @ ''-'') n row1 (- 1) (drop row1 lines) row1
         | _ \<Rightarrow> row1)"

definition getErrorPosition :: "string list \<Rightarrow> trace_step list \<Rightarrow> int \<Rightarrow> nat" where
  "getErrorPosition lines trace errorType =
     (let maxTrace = (if errorType = 0 then length trace - 1 else length trace)
      in fold (seek_step lines) (drop 1 (take maxTrace trace)) 0)"

definition path_step :: "string \<Rightarrow> trace_step" where
  "path_step segment =
     (case split_on (CHR ''['') segment of
        name # inner # _ \<Rightarrow> \<lparr>ts_stepName = name, ts_arrayPos = Some (parse_int (take (length inner - 1) inner))\<rparr>
      | name # [] \<Rightarrow> \<lparr>ts_stepName = name, ts_arrayPos = None\<rparr>
      | [] \<Rightarrow> \<lparr>ts_stepName = [], ts_arrayPos = None\<rparr>)"

definition getPositionForPath :: "string list \<Rightarrow> string \<Rightarrow> nat" where
  "getPositionForPath lines path =
     getErrorPosition lines (\<lparr>ts_stepName = [], ts_arrayPos = None\<rparr> # map path_step (split_on (CHR ''.'') path)) (- 1)"

section \<open>Offsets\<close>

text \<open>For every line the offset of its start and its length.\<close>

fun posToRow_from :: "nat \<Rightarrow> string list \<Rightarrow> (nat \<times> nat) list" where
  "posToRow_from pos [] = []"
| "posToRow_from pos (l # ls) = (pos, length l) # posToRow_from (pos + length l + 1) ls"

definition posToRow :: "string list \<Rightarrow> (nat \<times> nat) list" where
  "posToRow = posToRow_from 0"

function search_row :: "(nat \<times> nat) list \<Rightarrow> int \<Rightarrow> int \<Rightarrow> int \<Rightarrow> (nat \<times> int) option" where
  "search_row table position min1 max1 =
     (if min1 \<le> max1 then
        (let mid = (max1 + min1) div 2; (pos, rowLen) = table ! nat mid
         in if position < int pos then search_row table position min1 (mid - 1)
            else if position > int (pos + rowLen) then search_row table position (mid + 1) max1
            else Some (nat mid, position - int pos))
      else None)"
  by pat_completeness auto
termination
  by (relation "measure (\<lambda>(t, p, lo, hi). nat (hi + 1 - lo))") auto

declare search_row.simps [simp del]

text \<open>\<^term>\<open>None\<close> is null: a negative position, or no lines (the last row is undefined then).\<close>

definition positionToRowCol :: "(nat \<times> nat) list \<Rightarrow> int \<Rightarrow> (nat \<times> int) option" where
  "positionToRowCol table position =
     (case search_row table position 0 (int (length table) - 1) of
        Some rc \<Rightarrow> Some rc
      | None \<Rightarrow>
          if table \<noteq> [] \<and> position > int (fst (last table) + snd (last table))
          then Some (length table - 1, int (snd (last table))) else None)"

definition rowIsBlank :: "string list \<Rightarrow> nat \<Rightarrow> bool" where
  "rowIsBlank lines row \<longleftrightarrow> row < length lines \<and> list_all is_space (lines ! row)"

section \<open>Offsets and rows agree\<close>

definition row_start :: "string list \<Rightarrow> nat \<Rightarrow> nat" where
  "row_start lines r = (\<Sum>l\<leftarrow>take r lines. length l + 1)"

lemma length_posToRow_from [simp]: "length (posToRow_from pos lines) = length lines"
  by (induction lines arbitrary: pos) auto

lemma nth_posToRow_from:
  "r < length lines \<Longrightarrow> posToRow_from pos lines ! r = (pos + row_start lines r, length (lines ! r))"
  by (induction lines arbitrary: pos r) (auto simp: nth_Cons row_start_def split: nat.split)

lemma length_posToRow [simp]: "length (posToRow lines) = length lines"
  by (simp add: posToRow_def)

lemma nth_posToRow: "r < length lines \<Longrightarrow> posToRow lines ! r = (row_start lines r, length (lines ! r))"
  by (simp add: posToRow_def nth_posToRow_from)

lemma row_start_Suc: "r < length lines \<Longrightarrow> row_start lines (Suc r) = row_start lines r + length (lines ! r) + 1"
  by (simp add: row_start_def take_Suc_conv_app_nth)

lemma row_start_mono: "r \<le> s \<Longrightarrow> row_start lines r \<le> row_start lines s"
proof -
  assume "r \<le> s"
  then have "take s lines = take r lines @ take (s - r) (drop r lines)" by (metis le_add_diff_inverse take_add)
  then show ?thesis by (simp add: row_start_def)
qed

lemma row_end_less: "r < s \<Longrightarrow> r < length lines \<Longrightarrow> row_start lines r + length (lines ! r) < row_start lines s"
  using row_start_mono [of "Suc r" s lines] row_start_Suc [of r lines] by simp

lemma search_row_step:
  "lo \<le> hi \<Longrightarrow> (hi + lo) div 2 = int mid \<Longrightarrow> table ! mid = (a, n) \<Longrightarrow>
     search_row table p lo hi =
       (if p < int a then search_row table p lo (int mid - 1)
        else if p > int (a + n) then search_row table p (int mid + 1) hi
        else Some (mid, p - int a))"
  by (subst search_row.simps) (simp only: Let_def nat_int if_True prod.case)

lemma search_row_empty: "hi < lo \<Longrightarrow> search_row table p lo hi = None"
  by (subst search_row.simps) (simp only: not_le [symmetric] if_False)

lemma search_row_finds:
  assumes "lo \<le> int r" "int r \<le> hi" "0 \<le> lo" "hi < int (length lines)"
    and "row_start lines r \<le> p" "p \<le> row_start lines r + length (lines ! r)"
  shows "search_row (posToRow lines) (int p) lo hi = Some (r, int (p - row_start lines r))"
  using assms(1-4)
proof (induction "nat (hi + 1 - lo)" arbitrary: lo hi rule: less_induct)
  case less
  define mid where "mid = nat ((hi + lo) div 2)"
  have mid: "(hi + lo) div 2 = int mid" "lo \<le> int mid" "int mid \<le> hi" "mid < length lines"
    using less.prems by (auto simp: mid_def)
  have entry: "posToRow lines ! mid = (row_start lines mid, length (lines ! mid))"
    by (rule nth_posToRow [OF mid(4)])
  note step = search_row_step [OF order_trans [OF mid(2,3)] mid(1) entry, of "int p"]
  consider "r < mid" | "r = mid" | "mid < r" by linarith
  then show ?case
  proof cases
    case 1
    then have "p < row_start lines mid" using row_end_less [of r mid lines] assms(6) mid(4) by linarith
    then have "search_row (posToRow lines) (int p) lo hi = search_row (posToRow lines) (int p) lo (int mid - 1)"
      by (simp add: step)
    moreover have "search_row (posToRow lines) (int p) lo (int mid - 1) = Some (r, int (p - row_start lines r))"
      by (rule less.hyps) (use less.prems mid 1 in auto)
    ultimately show ?thesis by simp
  next
    case 2
    then show ?thesis using assms(5,6) by (simp add: step of_nat_diff)
  next
    case 3
    then have *: "p > row_start lines mid + length (lines ! mid)"
      using row_end_less [of mid r lines] assms(5) mid(4) by linarith
    then have "search_row (posToRow lines) (int p) lo hi = search_row (posToRow lines) (int p) (int mid + 1) hi"
      by (simp add: step)
    moreover have "search_row (posToRow lines) (int p) (int mid + 1) hi = Some (r, int (p - row_start lines r))"
      by (rule less.hyps) (use less.prems mid 3 in auto)
    ultimately show ?thesis by simp
  qed
qed

lemma search_row_beyond:
  assumes "0 \<le> lo" "hi < int (length lines)"
    and "\<forall>r < length lines. row_start lines r + length (lines ! r) < p"
  shows "search_row (posToRow lines) (int p) lo hi = None"
  using assms(1,2)
proof (induction "nat (hi + 1 - lo)" arbitrary: lo hi rule: less_induct)
  case less
  show ?case
  proof (cases "lo \<le> hi")
    case True
    define mid where "mid = nat ((hi + lo) div 2)"
    have mid: "(hi + lo) div 2 = int mid" "lo \<le> int mid" "mid < length lines"
      using less.prems True by (auto simp: mid_def)
    have entry: "posToRow lines ! mid = (row_start lines mid, length (lines ! mid))"
      by (rule nth_posToRow [OF mid(3)])
    have *: "row_start lines mid + length (lines ! mid) < p" using assms(3) mid(3) by blast
    then have "search_row (posToRow lines) (int p) lo hi = search_row (posToRow lines) (int p) (int mid + 1) hi"
      by (simp add: search_row_step [OF True mid(1) entry])
    moreover have "search_row (posToRow lines) (int p) (int mid + 1) hi = None"
      by (rule less.hyps) (use less.prems mid in auto)
    ultimately show ?thesis by simp
  qed (simp add: search_row_empty)
qed

text \<open>The text up to a row, and its length.\<close>

lemma join_take_row:
  "join [c] (take r lines @ [x]) = concat (map (\<lambda>l. l @ [c]) (take r lines)) @ x"
proof (induction lines arbitrary: r)
  case (Cons l ls)
  show ?case
  proof (cases r)
    case (Suc k)
    obtain y ys where "take k ls @ [x] = y # ys" by (cases "take k ls @ [x]") auto
    then show ?thesis using Cons [of k] Suc by simp
  qed simp
qed simp

lemma length_rows: "length (concat (map (\<lambda>l. l @ [c]) (take r lines))) = row_start lines r"
  by (simp add: row_start_def length_concat comp_def)

lemma join_at_row:
  assumes "r < length lines"
  shows "\<exists>rest. join [c] lines = concat (map (\<lambda>l. l @ [c]) (take r lines)) @ lines ! r @ rest
           \<and> (rest = [] \<longleftrightarrow> Suc r = length lines)"
  using assms
proof (induction lines arbitrary: r)
  case (Cons l ls)
  show ?case
  proof (cases ls)
    case Nil
    then show ?thesis using Cons.prems by simp
  next
    case (Cons m ms)
    show ?thesis
    proof (cases r)
      case 0
      then show ?thesis using Cons by simp
    next
      case (Suc k)
      then obtain rest where "join [c] ls = concat (map (\<lambda>l. l @ [c]) (take k ls)) @ ls ! k @ rest"
        "rest = [] \<longleftrightarrow> Suc k = length ls"
        using Cons.IH [of k] Cons.prems by auto
      then show ?thesis using Suc Cons by auto
    qed
  qed
qed simp

lemma row_of_offset:
  assumes "lines \<noteq> []" "p \<le> length (join [c] lines)"
  shows "\<exists>r < length lines. row_start lines r \<le> p \<and> p \<le> row_start lines r + length (lines ! r)"
proof -
  let ?P = "\<lambda>r. r < length lines \<and> row_start lines r \<le> p"
  have "?P 0" using assms(1) by (simp add: row_start_def)
  moreover have "\<forall>r. ?P r \<longrightarrow> r \<le> length lines" by simp
  ultimately obtain r where r: "?P r" "\<And>s. ?P s \<Longrightarrow> s \<le> r"
    using Nat.ex_has_greatest_nat [of ?P 0 "length lines"] by blast
  have "p \<le> row_start lines r + length (lines ! r)"
  proof (cases "Suc r < length lines")
    case True
    then have "p < row_start lines (Suc r)" using r(2) [of "Suc r"] by force
    then show ?thesis using row_start_Suc [of r lines] r(1) by linarith
  next
    case False
    then have "Suc r = length lines" using r(1) by linarith
    with join_at_row [of r lines c] r(1) assms(2) show ?thesis by (auto simp: length_rows)
  qed
  with r(1) show ?thesis by blast
qed

text \<open>C39: The binary search turns every offset in a text into the row and column it stands for: the text
  before the offset is the rows before, and as many characters of the row as the column says. An
  offset beyond the end becomes the end of the last row.\<close>

theorem positionToRowCol_correct:
  fixes contents :: string
  assumes "lines = split_on (CHR 0x0A) contents"
  shows "(p \<le> length contents \<longrightarrow>
      (\<exists>r c. positionToRowCol (posToRow lines) (int p) = Some (r, int c)
          \<and> r < length lines \<and> c \<le> length (lines ! r)
          \<and> take p contents = join [CHR 0x0A] (take r lines @ [take c (lines ! r)])))
    \<and> (p > length contents \<longrightarrow>
      positionToRowCol (posToRow lines) (int p) = Some (length lines - 1, int (length (last lines))))"
proof -
  have ne: "lines \<noteq> []" and contents: "contents = join [CHR 0x0A] lines" using assms by simp_all
  have "\<exists>r c. positionToRowCol (posToRow lines) (int p) = Some (r, int c)
          \<and> r < length lines \<and> c \<le> length (lines ! r)
          \<and> take p contents = join [CHR 0x0A] (take r lines @ [take c (lines ! r)])"
    if "p \<le> length contents"
  proof -
    obtain r where r: "r < length lines" "row_start lines r \<le> p" "p \<le> row_start lines r + length (lines ! r)"
      using row_of_offset [OF ne] \<open>p \<le> length contents\<close> contents by metis
    have "search_row (posToRow lines) (int p) 0 (int (length lines) - 1) = Some (r, int (p - row_start lines r))"
      by (rule search_row_finds) (use r in auto)
    moreover obtain rest where "contents = concat (map (\<lambda>l. l @ [CHR 0x0A]) (take r lines)) @ lines ! r @ rest"
      using join_at_row [OF r(1)] contents by metis
    then have "take p contents = concat (map (\<lambda>l. l @ [CHR 0x0A]) (take r lines)) @ take (p - row_start lines r) (lines ! r)"
      using r(2,3) by (simp add: length_rows)
    ultimately show ?thesis using r
      by (intro exI [of _ r] exI [of _ "p - row_start lines r"]) (simp add: positionToRowCol_def join_take_row)
  qed
  moreover have "positionToRowCol (posToRow lines) (int p) = Some (length lines - 1, int (length (last lines)))"
    if "p > length contents"
  proof -
    have last: "length contents = row_start lines (length lines - 1) + length (last lines)"
      using join_at_row [of "length lines - 1" lines "CHR 0x0A"] ne contents by (auto simp: length_rows last_conv_nth)
    have "row_start lines r + length (lines ! r) < p" if "r < length lines" for r
    proof (cases "r = length lines - 1")
      case False
      then have "row_start lines r + length (lines ! r) < row_start lines (length lines - 1)"
        by (intro row_end_less) (use that in auto)
      then show ?thesis using last \<open>p > length contents\<close> by linarith
    qed (use last \<open>p > length contents\<close> ne in \<open>auto simp: last_conv_nth\<close>)
    then have "search_row (posToRow lines) (int p) 0 (int (length lines) - 1) = None"
      by (intro search_row_beyond) auto
    moreover have "posToRow lines \<noteq> []" using ne by (metis length_0_conv length_posToRow)
    moreover have "last (posToRow lines) = (row_start lines (length lines - 1), length (last lines))"
      using nth_posToRow [of "length lines - 1" lines] ne calculation(2) by (simp add: last_conv_nth)
    ultimately show ?thesis using last \<open>p > length contents\<close> by (simp add: positionToRowCol_def)
  qed
  ultimately show ?thesis by blast
qed

definition demo_text :: string where
  "demo_text = ''a'' @ [CHR 0x0A] @ ''bc''"

theorem positionToRowCol_correct_witness:
  "(\<exists>r c. positionToRowCol (posToRow (split_on (CHR 0x0A) demo_text)) 3 = Some (r, int c)
     \<and> take 3 demo_text = join [CHR 0x0A] (take r [''a'', ''bc''] @ [take c ([''a'', ''bc''] ! r)]))
   \<and> positionToRowCol (posToRow (split_on (CHR 0x0A) demo_text)) 9 = Some (1, 2)"
proof -
  have "split_on (CHR 0x0A) demo_text = [''a'', ''bc'']" "length demo_text = 4" by code_simp+
  then show ?thesis
    using positionToRowCol_correct [OF refl, of 3 demo_text] positionToRowCol_correct [OF refl, of 9 demo_text]
    by auto
qed

section \<open>Paths in block style\<close>

text \<open>A manifest of nested mappings, and its lines in block style with an indentation of two.\<close>

datatype block = Scalar string | Block "(string \<times> block) list"

fun block_lines :: "nat \<Rightarrow> (string \<times> block) list \<Rightarrow> string list" where
  "block_lines n [] = []"
| "block_lines n ((k, Scalar v) # es) = (replicate n CHR '' '' @ k @ '': '' @ v) # block_lines n es"
| "block_lines n ((k, Block cs) # es) =
     (replicate n CHR '' '' @ k @ '':'') # block_lines (n + 2) cs @ block_lines n es"

text \<open>The row of a path, by the structure of the manifest.\<close>

fun row_of :: "(string \<times> block) list \<Rightarrow> string list \<Rightarrow> nat option" where
  "row_of [] ps = None"
| "row_of ((k, t) # es) [] = None"
| "row_of ((k, t) # es) (p # ps) =
     (if k = p then
        if ps = [] then Some 0
        else (case t of Block cs \<Rightarrow> map_option Suc (row_of cs ps) | Scalar v \<Rightarrow> None)
      else map_option ((+) (length (block_lines 0 [(k, t)]))) (row_of es (p # ps)))"










lemma space_is_space [simp]: "is_space CHR '' ''"
  by (simp add: is_space_def)

lemma colon_is_no_space [simp]: "\<not> is_space CHR '':''"
  by (simp add: is_space_def)




















text \<open>
  The indentation of the top-level keys is read from the second line: with a mapping first, the keys
  after it are not found, and row 0 is returned.
\<close>

lemma mapping_first_hides_keys:
  "getPositionForPath (block_lines 0 [(''metadata'', Block [(''name'', Scalar ''a'')]), (''kind'', Scalar ''Pod'')]) ''kind'' = 0
   \<and> row_of [(''metadata'', Block [(''name'', Scalar ''a'')]), (''kind'', Scalar ''Pod'')] [''kind''] = Some 2"
  by code_simp

end
