(* ===== verification/YamlIndex.thy ===== *)
theory YamlIndex
  imports YamlLines
begin

text \<open>
  The index of a manifest by position, class \<^verbatim>\<open>YamlIndex\<close> of \<^verbatim>\<open>src/utils/yaml-utils.js\<close>. The nodes are
  those the parser built, with references to their parents; the index moves their positions and adds
  nodes for missing values, so they live in a list and are named by their place in it. The interval
  tree is the list of its insertions; its \<open>search\<close> is a parameter. \<^term>\<open>None\<close> is an exception, or a
  nesting deeper than the fuel.
\<close>

section \<open>Nodes\<close>

datatype ykind = SCALAR | MAPPING | MAP | SEQ | ANCHOR_REF | INCLUDE_REF

text \<open>\<open>yn_kind\<close> is absent for the nodes the index adds.\<close>

record ynode =
  yn_kind :: "ykind option"
  yn_start :: int
  yn_end :: int
  yn_parent :: "nat option"
  yn_key :: string
  yn_text :: string
  yn_value :: "nat option"
  yn_mappings :: "nat list option"
  yn_items :: "nat option list option"
  yn_adjusted :: bool

type_synonym ynodes = "ynode list"

definition node_at :: "ynodes \<Rightarrow> nat \<Rightarrow> ynode option" where
  "node_at ns i = (if i < length ns then Some (ns ! i) else None)"

definition indexOf :: "'a \<Rightarrow> 'a list \<Rightarrow> int" where
  "indexOf x xs = (case find (\<lambda>i. xs ! i = x) [0..<length xs] of Some i \<Rightarrow> int i | None \<Rightarrow> - 1)"

fun pathForNode :: "nat \<Rightarrow> ynodes \<Rightarrow> nat \<Rightarrow> string option" where
  "pathForNode 0 ns i = None"
| "pathForNode (Suc fuel) ns i = do {
     node \<leftarrow> node_at ns i;
     (case yn_parent node of
        None \<Rightarrow> Some []
      | Some p \<Rightarrow> do {
          path \<leftarrow> pathForNode fuel ns p;
          parent \<leftarrow> node_at ns p;
          if yn_kind parent = Some SEQ then do {
            items \<leftarrow> yn_items parent;
            Some (path @ ''['' @ int_str (indexOf (Some i) items) @ '']'')
          } else if yn_kind parent = Some MAPPING then Some (path @ ''.'' @ yn_key parent)
          else Some path
        })
   }"

section \<open>The index\<close>

record yindex =
  yi_nodes :: ynodes
  yi_root :: "nat option"
  yi_lines :: "string list"
  yi_ranges :: "(int \<times> int \<times> string \<times> nat) list"

definition row_col :: "yindex \<Rightarrow> int \<Rightarrow> (nat \<times> int) option" where
  "row_col ix position = positionToRowCol (posToRow (yi_lines ix)) position"

definition upd_node :: "nat \<Rightarrow> (ynode \<Rightarrow> ynode) \<Rightarrow> yindex \<Rightarrow> yindex" where
  "upd_node i f ix = ix\<lparr>yi_nodes := (yi_nodes ix)[i := f (yi_nodes ix ! i)]\<rparr>"

text \<open>The parser's \<^verbatim>\<open>items[i].startPosition\<close> and the like throw on a missing item.\<close>

definition item_node :: "ynodes \<Rightarrow> nat option list \<Rightarrow> nat \<Rightarrow> ynode option" where
  "item_node ns items i = (if i < length items then Option.bind (items ! i) (node_at ns) else None)"

fun prev_item :: "ynodes \<Rightarrow> nat option list \<Rightarrow> nat \<Rightarrow> ynode option" where
  "prev_item ns items 0 = None"
| "prev_item ns items (Suc i) =
     (case item_node ns items i of Some n \<Rightarrow> Some n | None \<Rightarrow> prev_item ns items i)"

text \<open>The range of a missing item of a sequence, or of the missing value of a mapping.\<close>

definition missing_range :: "ynodes \<Rightarrow> nat \<Rightarrow> int \<Rightarrow> (int \<times> int) option" where
  "missing_range ns p elementIndex = do {
     parent \<leftarrow> node_at ns p;
     if yn_kind parent = Some SEQ then do {
       items \<leftarrow> yn_items parent;
       endPos \<leftarrow> (if elementIndex + 1 < int (length items)
                 then map_option yn_start (item_node ns items (nat (elementIndex + 1))) else Some (yn_end parent));
       Some ((case prev_item ns items (nat elementIndex) of Some n \<Rightarrow> yn_end n | None \<Rightarrow> yn_start parent) + 1, endPos)
     } else do {
       m \<leftarrow> yn_parent parent; mapn \<leftarrow> node_at ns m; mappings \<leftarrow> yn_mappings mapn;
       startPos \<leftarrow> (if elementIndex > 0 then map_option yn_end (item_node ns (map Some mappings) (nat (elementIndex - 1)))
                   else Some (yn_end parent));
       endPos \<leftarrow> (if elementIndex + 1 < int (length mappings)
                 then map_option yn_start (item_node ns (map Some mappings) (nat (elementIndex + 1))) else Some (yn_end mapn));
       Some (startPos, endPos)
     }
   }"

definition adjustEndPosition :: "nat \<Rightarrow> yindex \<Rightarrow> yindex option" where
  "adjustEndPosition i ix = do {
     node \<leftarrow> node_at (yi_nodes ix) i;
     (startRow, _) \<leftarrow> row_col ix (yn_start node);
     (endRow, endCol) \<leftarrow> row_col ix (yn_end node);
     let line = yi_lines ix ! endRow;
     if yn_end node > yn_start node then
       Some (if list_all is_space (take (nat endCol) line)
             then upd_node i (\<lambda>n. n\<lparr>yn_end := yn_end n - (endCol + 1)\<rparr>) ix else ix)
     else Some (if startRow = endRow \<and> endCol < int (length line)
                then upd_node i (\<lambda>n. n\<lparr>yn_end := yn_end n + (int (length line) - endCol)\<rparr>) ix else ix)
   }"

text \<open>An element of a sequence starts just behind its dash.\<close>

definition adjustForSequence :: "nat \<Rightarrow> yindex \<Rightarrow> yindex option" where
  "adjustForSequence i ix = do {
     node \<leftarrow> node_at (yi_nodes ix) i;
     (case Option.bind (yn_parent node) (node_at (yi_nodes ix)) of
        Some parent \<Rightarrow>
          if yn_kind parent = Some SEQ \<and> \<not> yn_adjusted node then do {
            (r, c) \<leftarrow> row_col ix (yn_start node);
            let elementStart = indexOf CHR ''-'' (yi_lines ix ! r) + 1;
            Some (upd_node i (\<lambda>n. n\<lparr>yn_start := yn_start n + (elementStart - c), yn_adjusted := True\<rparr>) ix)
          } else Some ix
      | None \<Rightarrow> Some ix)
   }"

definition add_range :: "string \<Rightarrow> nat \<Rightarrow> yindex \<Rightarrow> yindex option" where
  "add_range path i ix = do {
     ix1 \<leftarrow> adjustForSequence i ix;
     ix2 \<leftarrow> (if yi_root ix1 \<noteq> Some i then adjustEndPosition i ix1 else Some ix1);
     node \<leftarrow> node_at (yi_nodes ix2) i;
     Some (ix2\<lparr>yi_ranges := yi_ranges ix2 @ [(yn_start node, yn_end node, if path = [] then ''.'' else path, i)]\<rparr>)
   }"

text \<open>\<^verbatim>\<open>indexPositionAndPath\<close> with a node, and without one for the element of a parent.\<close>

definition indexNode :: "string \<Rightarrow> nat \<Rightarrow> yindex \<Rightarrow> yindex option" where
  "indexNode = add_range"

definition indexMissing :: "string \<Rightarrow> nat \<Rightarrow> int \<Rightarrow> yindex \<Rightarrow> yindex option" where
  "indexMissing path p elementIndex ix = do {
     (startPos, endPos) \<leftarrow> missing_range (yi_nodes ix) p elementIndex;
     add_range path (length (yi_nodes ix))
       (ix\<lparr>yi_nodes := yi_nodes ix @
          [\<lparr>yn_kind = None, yn_start = startPos, yn_end = endPos, yn_parent = Some p, yn_key = [], yn_text = [],
            yn_value = None, yn_mappings = None, yn_items = None, yn_adjusted = False\<rparr>]\<rparr>)
   }"

definition visitScalar :: "nat \<Rightarrow> nat \<Rightarrow> yindex \<Rightarrow> yindex option" where
  "visitScalar depth i ix = Option.bind (pathForNode depth (yi_nodes ix) i) (\<lambda>path. indexNode path i ix)"

text \<open>The rest of \<^verbatim>\<open>visitMapping\<close> for a mapping without value.\<close>

definition visitEmptyMapping :: "nat \<Rightarrow> nat \<Rightarrow> yindex \<Rightarrow> yindex option" where
  "visitEmptyMapping depth i ix = do {
     node \<leftarrow> node_at (yi_nodes ix) i;
     path \<leftarrow> pathForNode depth (yi_nodes ix) i;
     m \<leftarrow> yn_parent node; mapn \<leftarrow> node_at (yi_nodes ix) m; mappings \<leftarrow> yn_mappings mapn;
     indexMissing (path @ ''.'' @ yn_key node) i (indexOf i mappings) ix
   }"

text \<open>
  \<open>depth\<close> is the fuel of the paths. A visitor returns nothing, so the second visit of a mapping's
  value visits nothing.
\<close>

fun visit :: "nat \<Rightarrow> nat \<Rightarrow> nat \<Rightarrow> yindex \<Rightarrow> yindex option"
and visitMapping :: "nat \<Rightarrow> nat \<Rightarrow> nat \<Rightarrow> yindex \<Rightarrow> yindex option"
and visitSequence :: "nat \<Rightarrow> nat \<Rightarrow> nat \<Rightarrow> yindex \<Rightarrow> yindex option"
and visitMap :: "nat \<Rightarrow> nat \<Rightarrow> nat \<Rightarrow> yindex \<Rightarrow> yindex option" where
  "visit 0 depth i ix = None"
| "visit (Suc fuel) depth i ix = do {
     node \<leftarrow> node_at (yi_nodes ix) i;
     kind \<leftarrow> yn_kind node;
     (case kind of
        SCALAR \<Rightarrow> visitScalar depth i ix
      | MAP \<Rightarrow> visitMap fuel depth i ix
      | MAPPING \<Rightarrow> visitMapping fuel depth i ix
      | SEQ \<Rightarrow> visitSequence fuel depth i ix
      | ANCHOR_REF \<Rightarrow> Some ix
      | INCLUDE_REF \<Rightarrow> Some ix)
   }"
| "visitMapping 0 depth i ix = None"
| "visitMapping (Suc fuel) depth i ix = do {
     node \<leftarrow> node_at (yi_nodes ix) i;
     (case yn_value node of Some v \<Rightarrow> visit fuel depth v ix | None \<Rightarrow> visitEmptyMapping depth i ix)
   }"
| "visitSequence 0 depth i ix = None"
| "visitSequence (Suc fuel) depth i ix = do {
     node \<leftarrow> node_at (yi_nodes ix) i;
     thisPath \<leftarrow> pathForNode depth (yi_nodes ix) i;
     items \<leftarrow> yn_items node;
     ix1 \<leftarrow> foldM (\<lambda>(index, item) ix.
              (case item of
                 Some n \<Rightarrow> visit fuel depth n ix
               | None \<Rightarrow> indexMissing (thisPath @ ''['' @ nat_str index @ '']'') i (int index) ix))
            (enumerate 0 items) ix;
     indexNode thisPath i ix1
   }"
| "visitMap 0 depth i ix = None"
| "visitMap (Suc fuel) depth i ix = do {
     node \<leftarrow> node_at (yi_nodes ix) i;
     mappings \<leftarrow> yn_mappings node;
     ix1 \<leftarrow> foldM (visitMapping fuel depth) mappings ix;
     path \<leftarrow> pathForNode depth (yi_nodes ix1) i;
     indexNode path i ix1
   }"

text \<open>The constructor; an empty document has no root and is not visited.\<close>

definition newYamlIndex :: "nat \<Rightarrow> ynodes \<Rightarrow> nat option \<Rightarrow> string \<Rightarrow> yindex option" where
  "newYamlIndex fuel ns root contents =
     (let ix = \<lparr>yi_nodes = ns, yi_root = root,
                yi_lines = split_on (CHR 0x0A) contents, yi_ranges = []\<rparr>
      in case root of Some r \<Rightarrow> visit fuel fuel r ix | None \<Rightarrow> Some ix)"

section \<open>Lookup\<close>

type_synonym range_search = "(int \<times> int \<times> string \<times> nat) list \<Rightarrow> int \<Rightarrow> int \<Rightarrow> (string \<times> nat) list"

definition leading_space :: "string \<Rightarrow> string" where
  "leading_space line = takeWhile is_space line"

text \<open>\<^verbatim>\<open>/^\s*-/\<close>, and \<^verbatim>\<open>/^(\s+|\s*-)/\<close>.\<close>

definition begins_item :: "string \<Rightarrow> bool" where
  "begins_item s = starts_with ''-'' (dropWhile is_space s)"

definition begins_sub :: "string \<Rightarrow> bool" where
  "begins_sub s \<longleftrightarrow> (s \<noteq> [] \<and> is_space (hd s)) \<or> begins_item s"

text \<open>From a blank row upwards to the row it continues; above the first row there is an exception.\<close>

fun climb :: "string list \<Rightarrow> nat \<Rightarrow> nat \<Rightarrow> bool \<Rightarrow> (nat \<times> bool) option" where
  "climb lines column 0 skipped = None"
| "climb lines column (Suc row) skipped =
     (let line = lines ! row; sub = drop column line; skipped1 = (skipped \<or> begins_item sub)
      in if length line < column \<or> begins_sub sub then climb lines column row skipped1
         else Some (row, skipped1))"

text \<open>The indentation at which a node of the blank row's neighbourhood may be continued.\<close>

definition node_indent :: "yindex \<Rightarrow> nat \<Rightarrow> nat option" where
  "node_indent ix i = do {
     node \<leftarrow> node_at (yi_nodes ix) i;
     (startRow, _) \<leftarrow> row_col ix (yn_start node);
     let own = length (leading_space (yi_lines ix ! startRow));
     let parent = Option.bind (yn_parent node) (node_at (yi_nodes ix));
     let parent_kind = Option.bind parent yn_kind;
     if yn_kind node = Some SEQ \<and> yn_items node = None then
       (if startRow = 0 then None else Some (length (leading_space (yi_lines ix ! (startRow - 1))) + 2))
     else if parent_kind = Some SEQ then do {
       items \<leftarrow> Option.bind parent yn_items;
       Some (if indexOf (Some i) items = 0 then own + 2 else own)
     } else Some (if parent_kind = Some MAPPING \<and> yn_kind node = None then own + 2 else own)
   }"

definition best_fit :: "ynodes \<Rightarrow> int \<Rightarrow> string \<times> nat \<Rightarrow> int \<times> string \<Rightarrow> (int \<times> string) option" where
  "best_fit ns pos r acc = do {
     node \<leftarrow> node_at ns (snd r);
     let diff = yn_end node - yn_start node;
     Some (if diff < fst acc \<or> diff = fst acc \<and> yn_end node > pos then (diff, fst r) else acc)
   }"

definition lookupPathAndIndent ::
  "range_search \<Rightarrow> yindex \<Rightarrow> nat \<Rightarrow> nat \<Rightarrow> (string list \<times> string) option" where
  "lookupPathAndIndent search ix row column =
     (if row < length (yi_lines ix) then do {
        let indent = take column (leading_space (yi_lines ix ! row));
        if rowIsBlank (yi_lines ix) row then do {
          (up, skipped) \<leftarrow> climb (yi_lines ix) column row False;
          let pos = int (fst (posToRow (yi_lines ix) ! (if skipped then up + 1 else up)) + column);
          paths \<leftarrow> foldM (\<lambda>(path, i) paths. do {
                     n \<leftarrow> node_indent ix i;
                     Some (if column = n then paths @ [path] else paths)
                   }) (search (yi_ranges ix) pos pos) [];
          Some (paths, indent)
        } else do {
          let pos = int (fst (posToRow (yi_lines ix) ! row) + column);
          root \<leftarrow> Option.bind (yi_root ix) (node_at (yi_nodes ix));
          (_, path) \<leftarrow> foldM (best_fit (yi_nodes ix) pos) (search (yi_ranges ix) pos pos) (yn_end root, ''.'');
          Some ([path], indent)
        }
      } else None)"

definition getPathAndIndentForPosition ::
  "range_search \<Rightarrow> nat \<Rightarrow> (string \<Rightarrow> ynodes \<times> nat option) \<Rightarrow> string \<Rightarrow> nat \<Rightarrow> nat \<Rightarrow> (string list \<times> string) option" where
  "getPathAndIndentForPosition search fuel loadYaml contents row column =
     (if contents \<noteq> [] then do {
        ix \<leftarrow> newYamlIndex fuel (fst (loadYaml contents)) (snd (loadYaml contents)) contents;
        lookupPathAndIndent search ix row column
      } else Some ([''.''], []))"

section \<open>The path found is the innermost\<close>

definition node_size :: "ynode \<Rightarrow> int" where
  "node_size n = yn_end n - yn_start n"

lemma best_fit_step:
  assumes "best_fit ns pos (q, j) (b0, p0) = Some acc"
  obtains n where "node_at ns j = Some n" "fst acc \<le> b0" "fst acc \<le> node_size n"
    and "acc = (b0, p0) \<or> acc = (node_size n, q)"
  using assms by (cases "node_at ns j") (auto simp: best_fit_def node_size_def Let_def split: if_splits)

lemma best_fit_fold:
  "foldM (best_fit ns pos) rs (b0, p0) = Some (b, p) \<Longrightarrow>
     b \<le> b0 \<and> (\<forall>(q, j) \<in> set rs. \<exists>n. node_at ns j = Some n \<and> b \<le> node_size n)
     \<and> ((b, p) = (b0, p0) \<or> (\<exists>i n. (p, i) \<in> set rs \<and> node_at ns i = Some n \<and> node_size n = b))"
proof (induction rs arbitrary: b0 p0)
  case (Cons r rs)
  obtain q j where r: "r = (q, j)" by (cases r)
  from Cons.prems obtain b1 p1 where "best_fit ns pos (q, j) (b0, p0) = Some (b1, p1)"
    and rest: "foldM (best_fit ns pos) rs (b1, p1) = Some (b, p)"
    by (auto simp: r split: option.splits)
  then obtain n where n: "node_at ns j = Some n" "b1 \<le> b0" "b1 \<le> node_size n"
    "(b1, p1) = (b0, p0) \<or> (b1, p1) = (node_size n, q)"
    by (elim best_fit_step) auto
  from Cons.IH [OF rest] have ih: "b \<le> b1" "\<forall>(q, j) \<in> set rs. \<exists>n. node_at ns j = Some n \<and> b \<le> node_size n"
    "(b, p) = (b1, p1) \<or> (\<exists>i n. (p, i) \<in> set rs \<and> node_at ns i = Some n \<and> node_size n = b)" by auto
  have "\<forall>(q, j) \<in> set (r # rs). \<exists>n. node_at ns j = Some n \<and> b \<le> node_size n"
    using ih(1,2) n(1,3) r by force
  moreover have "(b, p) = (b0, p0) \<or> (\<exists>i n. (p, i) \<in> set (r # rs) \<and> node_at ns i = Some n \<and> node_size n = b)"
    using ih(3) n(1,4) r by auto
  ultimately show ?case using order_trans [OF ih(1) n(2)] by blast
qed simp

text \<open>What the index relies on the interval tree for: a search returns the ranges that overlap.\<close>

definition finds_overlapping :: "range_search \<Rightarrow> bool" where
  "finds_overlapping search \<longleftrightarrow>
     (\<forall>E lo hi. set (search E lo hi) = {(p, i) | p i a b. (a, b, p, i) \<in> set E \<and> a \<le> hi \<and> lo \<le> b})"

text \<open>On a row that is not blank the path found for the cursor is that of an indexed node around it,
  and no indexed node around it is smaller, provided one smaller than the document is there.\<close>

theorem lookup_innermost:
  assumes "finds_overlapping search" "row < length (yi_lines ix)" "\<not> rowIsBlank (yi_lines ix) row"
    and "lookupPathAndIndent search ix row column = Some (paths, indent)"
    and "pos = int (fst (posToRow (yi_lines ix) ! row) + column)"
    and "(a0, b0, p0, j) \<in> set (yi_ranges ix)" "a0 \<le> pos" "pos \<le> b0"
    and "node_at (yi_nodes ix) j = Some nj" "Option.bind (yi_root ix) (node_at (yi_nodes ix)) = Some root"
    and "node_size nj < yn_end root"
  shows "\<exists>p i a b n. paths = [p] \<and> (a, b, p, i) \<in> set (yi_ranges ix) \<and> a \<le> pos \<and> pos \<le> b
    \<and> node_at (yi_nodes ix) i = Some n
    \<and> (\<forall>(a', b', p', i') \<in> set (yi_ranges ix). a' \<le> pos \<and> pos \<le> b' \<longrightarrow>
         (\<exists>n'. node_at (yi_nodes ix) i' = Some n' \<and> node_size n \<le> node_size n'))"
proof -
  let ?found = "search (yi_ranges ix) pos pos"
  have found: "set ?found = {(p, i) | p i a b. (a, b, p, i) \<in> set (yi_ranges ix) \<and> a \<le> pos \<and> pos \<le> b}"
    using assms(1) unfolding finds_overlapping_def by blast
  obtain b p where fold: "foldM (best_fit (yi_nodes ix) pos) ?found (yn_end root, ''.'') = Some (b, p)"
    and paths: "paths = [p]"
    using assms(2-5,10) by (auto simp: lookupPathAndIndent_def bind_Some_iff Let_def)
  have "(p0, j) \<in> set ?found" using found assms(6-8) by blast
  then have "b \<le> node_size nj" using best_fit_fold [OF fold] assms(9) by force
  then have "(b, p) \<noteq> (yn_end root, ''.'')" using assms(11) by auto
  then obtain i n where i: "(p, i) \<in> set ?found" "node_at (yi_nodes ix) i = Some n" "node_size n = b"
    using best_fit_fold [OF fold] by blast
  from i(1) obtain a b' where ab: "(a, b', p, i) \<in> set (yi_ranges ix)" "a \<le> pos" "pos \<le> b'" using found by blast
  have "\<exists>n'. node_at (yi_nodes ix) i' = Some n' \<and> node_size n \<le> node_size n'"
    if "(a', b'', p', i') \<in> set (yi_ranges ix)" "a' \<le> pos" "pos \<le> b''" for a' b'' p' i'
  proof -
    have "(p', i') \<in> set ?found" using found that by blast
    then show ?thesis using best_fit_fold [OF fold] i(3) by auto
  qed
  with paths ab i(2) show ?thesis by blast
qed

definition demo_search :: range_search where
  "demo_search E lo hi = map (\<lambda>(a, b, p, i). (p, i)) (filter (\<lambda>(a, b, p, i). a \<le> hi \<and> lo \<le> b) E)"

definition demo_ynode :: "ykind \<Rightarrow> int \<Rightarrow> int \<Rightarrow> nat option \<Rightarrow> ynode" where
  "demo_ynode kind a b parent = \<lparr>yn_kind = Some kind, yn_start = a, yn_end = b, yn_parent = parent, yn_key = [],
     yn_text = [], yn_value = None, yn_mappings = None, yn_items = None, yn_adjusted = False\<rparr>"

text \<open>The nodes of \<open>kind: Pod\<close>.\<close>

definition demo_ast :: ynodes where
  "demo_ast = [(demo_ynode MAP 0 9 None)\<lparr>yn_mappings := Some [1]\<rparr>,
     (demo_ynode MAPPING 0 9 (Some 0))\<lparr>yn_key := ''kind'', yn_value := Some 2\<rparr>,
     (demo_ynode SCALAR 6 9 (Some 1))\<lparr>yn_text := ''Pod''\<rparr>]"

theorem lookup_innermost_witness:
  "\<exists>ix p. newYamlIndex 5 demo_ast (Some 0) ''kind: Pod'' = Some ix
     \<and> lookupPathAndIndent demo_search ix 0 7 = Some ([p], []) \<and> p = ''.kind''
     \<and> (\<exists>i a b n. (a, b, p, i) \<in> set (yi_ranges ix) \<and> a \<le> 7 \<and> 7 \<le> b \<and> node_at (yi_nodes ix) i = Some n)"
proof -
  define ix where "ix = \<lparr>yi_nodes = demo_ast, yi_root = Some 0, yi_lines = [''kind: Pod''],
    yi_ranges = [(6, 9, ''.kind'', 2), (0, 9, ''.'', 0)]\<rparr>"
  have new: "newYamlIndex 5 demo_ast (Some 0) ''kind: Pod'' = Some ix" unfolding ix_def by code_simp
  have look: "lookupPathAndIndent demo_search ix 0 7 = Some ([''.kind''], [])" unfolding ix_def by code_simp
  have search: "finds_overlapping demo_search"
    unfolding finds_overlapping_def demo_search_def by (force simp: image_iff)
  have "\<exists>p i a b n. [''.kind''] = [p] \<and> (a, b, p, i) \<in> set (yi_ranges ix) \<and> a \<le> 7 \<and> 7 \<le> b
    \<and> node_at (yi_nodes ix) i = Some n
    \<and> (\<forall>(a', b', p', i') \<in> set (yi_ranges ix). a' \<le> 7 \<and> 7 \<le> b' \<longrightarrow>
         (\<exists>n'. node_at (yi_nodes ix) i' = Some n' \<and> node_size n \<le> node_size n'))"
    by (rule lookup_innermost [OF search _ _ look, where pos = 7 and j = 2 and ?a0.0 = 6 and ?b0.0 = 9 and ?p0.0 = "''.kind''" and nj = "demo_ast ! 2" and root = "demo_ast ! 0"])
      (simp_all add: ix_def rowIsBlank_def is_space_def posToRow_def node_at_def demo_ast_def demo_ynode_def node_size_def numeral_2_eq_2)
  with new look show ?thesis by blast
qed

text \<open>Two missing items in a row make the index throw.\<close>

lemma missing_items_throw:
  assumes "node_at ns p = Some parent" "yn_kind parent = Some SEQ" "yn_items parent = Some items"
    and "i + 1 < int (length items)" "items ! nat (i + 1) = None"
  shows "missing_range ns p i = None"
  using assms by (simp add: missing_range_def item_node_def)

text \<open>So does a cursor on a blank first row.\<close>

lemma blank_first_row_throws:
  "yi_lines ix = l # ls \<Longrightarrow> rowIsBlank (yi_lines ix) 0 \<Longrightarrow> lookupPathAndIndent search ix 0 column = None"
  by (simp add: lookupPathAndIndent_def)

end
