(* ===== verification/Completer.thy ===== *)
theory Completer
  imports YamlIndex JsValue Links Units
begin

text \<open>
  Completion in the manifest editor, \<^verbatim>\<open>src/utils/ManifestAutocompleter.js\<close>: what may stand at a
  path of the document, from the schema of its kind (\<open>definitions\<close> of the server's swagger document).
  A node of the document is its place in the parser's list; \<^term>\<open>None\<close> as a result is an exception.
\<close>

section \<open>The document\<close>

text \<open>\<^verbatim>\<open>m.value.value || m.value.items\<close>: null stands for a key that is absent or has no value.\<close>

datatype mapping_value = MvNull | MvUndef | MvText string | MvOther

definition value_of_node :: "ynode \<Rightarrow> mapping_value" where
  "value_of_node v =
     (if yn_kind v = Some SCALAR \<and> yn_text v \<noteq> [] then MvText (yn_text v)
      else if yn_kind v = Some ANCHOR_REF \<and> yn_value v \<noteq> None then MvOther
      else if yn_items v \<noteq> None then MvOther else MvUndef)"

definition mappings_of :: "ynodes \<Rightarrow> nat option \<Rightarrow> nat list option" where
  "mappings_of ns ast = do { i \<leftarrow> ast; node \<leftarrow> node_at ns i; yn_mappings node }"

definition find_mapping :: "ynodes \<Rightarrow> string \<Rightarrow> nat list \<Rightarrow> ynode option" where
  "find_mapping ns key ms =
     Option.bind (find (\<lambda>m. map_option yn_key (node_at ns m) = Some key) ms) (node_at ns)"

definition getMappingValue :: "ynodes \<Rightarrow> nat option \<Rightarrow> string \<Rightarrow> mapping_value" where
  "getMappingValue ns ast key =
     (case mappings_of ns ast of
        Some ms \<Rightarrow>
          (case Option.bind (Option.bind (find_mapping ns key ms) yn_value) (node_at ns) of
             Some v \<Rightarrow> value_of_node v | None \<Rightarrow> MvNull)
      | None \<Rightarrow> MvNull)"

text \<open>The outer \<^term>\<open>None\<close> is the exception of an element of something that is no sequence.\<close>

definition subAST :: "ynodes \<Rightarrow> nat option \<Rightarrow> string \<Rightarrow> nat option \<Rightarrow> nat option option" where
  "subAST ns ast part arrayPos =
     (case mappings_of ns ast of
        None \<Rightarrow> Some ast
      | Some ms \<Rightarrow>
          (let mapping = Option.bind (find_mapping ns part ms) yn_value
           in case (Option.bind mapping (node_at ns), arrayPos) of
                (Some node, Some n) \<Rightarrow>
                  map_option (\<lambda>items. if n < length items then items ! n else None) (yn_items node)
              | _ \<Rightarrow> Some mapping))"

definition isFirstArrayElement :: "ynodes \<Rightarrow> nat option \<Rightarrow> bool" where
  "isFirstArrayElement ns doc \<longleftrightarrow>
     (case do { i \<leftarrow> doc; node \<leftarrow> node_at ns i; p \<leftarrow> yn_parent node; parent \<leftarrow> node_at ns p; yn_items parent } of
        Some items \<Rightarrow> items = [] | None \<Rightarrow> False)"

section \<open>The schema\<close>

definition is_word_char :: "char \<Rightarrow> bool" where
  "is_word_char c \<longleftrightarrow> is_digit c \<or> is_upper c \<or> c = CHR ''_'' \<or> (97 \<le> (of_char c :: nat) \<and> (of_char c :: nat) \<le> 122)"

text \<open>\<^verbatim>\<open>/(\w+)(?:\[(\d+)\]|\s*)/\<close>: a word, and the number in brackets behind it if there is one.\<close>

definition match_part :: "string \<Rightarrow> (string \<times> nat option) option" where
  "match_part s =
     (let t = dropWhile (\<lambda>c. \<not> is_word_char c) s; word = takeWhile is_word_char t; rest = dropWhile is_word_char t;
          digits = takeWhile is_digit (tl rest)
      in if t = [] then None
         else Some (word, if starts_with ''['' rest \<and> digits \<noteq> [] \<and> starts_with '']'' (dropWhile is_digit (tl rest))
                          then Some (nat (digits_val digits)) else None))"

definition defForKind :: "json \<Rightarrow> json \<Rightarrow> string \<Rightarrow> json option" where
  "defForKind kubeKinds definitions kind = do {
     k \<leftarrow> jget kubeKinds kind;
     if truthy k then do {
       version \<leftarrow> jget k ''version'';
       (case version of
          JStr v \<Rightarrow> do {
            let parts = join ''.'' (map (\<lambda>b. hd (split_on (CHR ''.'') b)) (split_on (CHR ''/'') v));
            let base = (if str_includes parts ''.'' then parts else ''core.'' @ parts);
            def \<leftarrow> jget definitions (''io.k8s.api.'' @ base @ ''.'' @ kind);
            ref \<leftarrow> jget def ''$ref'';
            (case ref of
               JStr r \<Rightarrow> if r \<noteq> [] then jget definitions (replace_first ''#/definitions/'' [] r) else Some def
             | _ \<Rightarrow> Some def)
          }
        | _ \<Rightarrow> None)
     } else Some JNull
   }"

definition getObjectDef :: "json \<Rightarrow> json \<Rightarrow> ynodes \<Rightarrow> nat option \<Rightarrow> json option" where
  "getObjectDef kubeKinds definitions ns doc =
     (case getMappingValue ns doc ''kind'' of
        MvText kind \<Rightarrow> defForKind kubeKinds definitions kind
      | MvOther \<Rightarrow> Some JNull | MvNull \<Rightarrow> Some JNull | MvUndef \<Rightarrow> Some JUndef)"

section \<open>Completions\<close>

definition completion_of :: "string \<Rightarrow> string \<times> json \<Rightarrow> string option" where
  "completion_of indent kv = do {
     type \<leftarrow> jget (snd kv) ''type''; ref \<leftarrow> jget (snd kv) ''$ref'';
     Some (if strict_eq type (JStr ''array'') then fst kv @ '':'' @ [CHR 0x0A] @ indent @ ''- ''
           else if strict_eq type (JStr ''object'') \<or> truthy ref then fst kv @ '':'' @ [CHR 0x0A] @ indent @ ''  ''
           else fst kv @ '': '')
   }"

definition map_m :: "('a \<Rightarrow> 'b option) \<Rightarrow> 'a list \<Rightarrow> 'b list option" where
  "map_m f xs = foldM (\<lambda>x ys. map_option (\<lambda>y. ys @ [y]) (f x)) xs []"

definition entries_of :: "json \<Rightarrow> (string \<times> json) list option" where
  "entries_of v = (case v of JObj fs \<Rightarrow> Some fs | JUndef \<Rightarrow> None | JNull \<Rightarrow> None | _ \<Rightarrow> Some [])"

definition propsToCompletions :: "ynodes \<Rightarrow> json \<Rightarrow> nat option \<Rightarrow> string \<Rightarrow> string list option" where
  "propsToCompletions ns properties doc indent = do {
     props \<leftarrow> entries_of properties;
     map_m (completion_of indent) (filter (\<lambda>(key, val). getMappingValue ns doc key = MvNull) props)
   }"

definition root_props :: json where
  "root_props = JObj [(''kind'', JObj [(''type'', JStr ''string'')]), (''apiVersion'', JObj [(''type'', JStr ''string'')]),
     (''metadata'', JObj [(''type'', JStr ''object'')])]"

text \<open>\<open>contents\<close> tells whether there is a document; reading the kind of a missing root throws.\<close>

definition completionsForRoot :: "json \<Rightarrow> json \<Rightarrow> string \<Rightarrow> ynodes \<Rightarrow> nat option \<Rightarrow> string \<Rightarrow> string list option" where
  "completionsForRoot kubeKinds definitions contents ns doc indent = do {
     def \<leftarrow> (if contents = [] then Some JNull
            else do {
              i \<leftarrow> doc; node \<leftarrow> node_at ns i;
              if yn_kind node = Some SCALAR then Some JNull
              else (case getMappingValue ns doc ''kind'' of
                      MvText kind \<Rightarrow> defForKind kubeKinds definitions kind
                    | MvUndef \<Rightarrow> defForKind kubeKinds definitions ''undefined''
                    | _ \<Rightarrow> Some JNull)
            });
     if truthy def then do { props \<leftarrow> jget def ''properties''; propsToCompletions ns props doc indent }
     else propsToCompletions ns root_props None []
   }"

text \<open>One part of a path: the document's node and the schema below it, and whether it is a sequence.\<close>

definition descend ::
  "json \<Rightarrow> ynodes \<Rightarrow> string \<Rightarrow> nat option \<times> json \<times> bool \<Rightarrow> (nat option \<times> json \<times> bool) option" where
  "descend definitions ns text s = do {
     (part, arrayPos) \<leftarrow> match_part text;
     doc1 \<leftarrow> subAST ns (fst s) part arrayPos;
     let def = fst (snd s);
     props \<leftarrow> jget def ''properties'';
     if truthy props then do {
       prop \<leftarrow> jget props part;
       ptype \<leftarrow> jget prop ''type'';
       let isArray = strict_eq ptype (JStr ''array'');
       type \<leftarrow> (if isArray then do {
                 items \<leftarrow> jget prop ''items''; ref \<leftarrow> jget items ''$ref''; itype \<leftarrow> jget items ''type'';
                 Some (js_or ref itype)
               } else map_option (js_or ptype) (jget prop ''$ref''));
       (case type of
          JStr t \<Rightarrow>
            if starts_with ''#/definitions'' t
            then map_option (\<lambda>d. (doc1, d, isArray)) (jget definitions (drop 14 t))
            else Some (doc1, type, isArray)
        | _ \<Rightarrow> None)
     } else Some (doc1, def, snd (snd s))
   }"

text \<open>
  The state of the loop over the paths: the document, the indentation and the completions so far.
  The loop over the parts of a path moves the document, and later paths start where it ended.
\<close>

definition complete_path ::
  "json \<Rightarrow> json \<Rightarrow> string list \<Rightarrow> string \<Rightarrow> ynodes \<Rightarrow> string \<Rightarrow>
   nat option \<times> string \<times> (string \<times> string) list \<Rightarrow> (nat option \<times> string \<times> (string \<times> string) list) option" where
  "complete_path kubeKinds definitions kinds contents ns path s =
     (let doc = fst s; indent = fst (snd s); acc = snd (snd s) in
      if path = ''.'' then
        map_option (\<lambda>cs. (doc, indent, acc @ map (\<lambda>c. (c, path)) cs))
          (completionsForRoot kubeKinds definitions contents ns doc indent)
      else if path = ''.kind'' then Some (doc, indent, acc @ map (\<lambda>c. (c, path)) kinds)
      else if path = ''.apiVersion'' then
        (case getMappingValue ns doc ''kind'' of
           MvText kind \<Rightarrow> do {
             k \<leftarrow> jget kubeKinds kind;
             if truthy k then do {
               base \<leftarrow> jget k ''base'';
               (case base of
                  JStr b \<Rightarrow> Some (doc, indent, acc @ [(join ''/'' (drop 1 (split_on (CHR ''/'') b)), path)])
                | _ \<Rightarrow> None)
             } else Some s
           }
         | _ \<Rightarrow> Some s)
      else do {
        def \<leftarrow> getObjectDef kubeKinds definitions ns doc;
        if truthy def then do {
          (doc1, def1, isArray) \<leftarrow> foldM (descend definitions ns) (split_on (CHR ''.'') (drop 1 path)) (doc, def, False);
          props \<leftarrow> jget def1 ''properties'';
          if truthy props then do {
            let indent1 = (if isArray \<and> (doc1 = None \<or> isFirstArrayElement ns doc1) then indent @ ''  '' else indent);
            cs \<leftarrow> propsToCompletions ns props doc1 indent1;
            Some (doc1, indent1, acc @ map (\<lambda>c. (c, path)) cs)
          } else Some (doc1, indent, acc @ map (\<lambda>c. (c, path))
              (if def1 = JStr ''boolean'' then [''true'', ''false'']
               else if def1 = JStr ''string'' then [[CHR 39, CHR 39]]
               else if def1 \<in> {JStr ''number'', JStr ''integer''} then [''1''] else []))
        } else Some s
      })"

definition completionsForPath ::
  "json \<Rightarrow> json \<Rightarrow> string list \<Rightarrow> string \<Rightarrow> ynodes \<times> nat option \<Rightarrow> string list \<Rightarrow> string \<Rightarrow> (string \<times> string) list option" where
  "completionsForPath kubeKinds definitions kinds contents ast paths indent =
     map_option (snd \<circ> snd)
       (foldM (complete_path kubeKinds definitions kinds contents (fst ast)) paths
          (if contents = [] then None else snd ast, indent, []))"

text \<open>The kinds of a resource group, from the constructor.\<close>

definition kinds_of_group :: "json \<Rightarrow> string \<Rightarrow> string list option" where
  "kinds_of_group kubeKinds resourceGroup = do {
     ks \<leftarrow> entries_of kubeKinds;
     foldM (\<lambda>(name, kind) acc. do {
       g \<leftarrow> jget kind ''resourceGroup'';
       Some (if strict_eq g (JStr resourceGroup) then acc @ [name] else acc)
     }) ks []
   }"

definition filterByPrefix :: "(string \<times> string) list \<Rightarrow> string \<Rightarrow> (string \<times> string) list" where
  "filterByPrefix completions prefix =
     filter (\<lambda>(completion, path). starts_with (map ascii_lower prefix) (map ascii_lower completion)) completions"

text \<open>A completion as the editor shows it: the caption, the text to insert, and the path.\<close>

definition getCompletions ::
  "range_search \<Rightarrow> nat \<Rightarrow> (string \<Rightarrow> ynodes \<times> nat option) \<Rightarrow> json \<Rightarrow> json \<Rightarrow> string list \<Rightarrow>
   string \<Rightarrow> nat \<times> nat \<Rightarrow> string \<Rightarrow> (string \<times> string \<times> string) list option" where
  "getCompletions search fuel loadYaml kubeKinds definitions kinds contents pos prefix = do {
     (paths, indent) \<leftarrow> getPathAndIndentForPosition search fuel loadYaml contents (fst pos) (snd pos);
     cs \<leftarrow> completionsForPath kubeKinds definitions kinds contents (loadYaml contents) paths indent;
     Some (map (\<lambda>(c, path). (hd (split_on (CHR '':'') c), c, path)) (filterByPrefix cs prefix))
   }"

section \<open>What is offered\<close>

lemma map_m_append:
  "foldM (\<lambda>x ys. map_option (\<lambda>y. ys @ [y]) (f x)) xs acc = map_option ((@) acc) (map_m f xs)"
proof (induction xs arbitrary: acc)
  case Nil
  then show ?case by (simp add: map_m_def)
next
  case (Cons x xs)
  show ?case
  proof (cases "f x")
    case (Some y)
    then show ?thesis using Cons [of "acc @ [y]"] Cons [of "[y]"]
      by (simp add: map_m_def option.map_comp comp_def)
  qed (simp add: map_m_def)
qed

lemma map_m_Cons: "map_m f (x # xs) = (case f x of None \<Rightarrow> None | Some y \<Rightarrow> map_option (Cons y) (map_m f xs))"
proof (cases "f x")
  case (Some y)
  have "(@) [y] = Cons y" by auto
  with Some map_m_append [of f xs "[y]"] show ?thesis by (simp add: map_m_def)
qed (simp add: map_m_def)

lemma map_m_total: "\<forall>x \<in> set xs. f x = Some (g x) \<Longrightarrow> map_m f xs = Some (map g xs)"
  by (induction xs) (auto simp: map_m_Cons, simp add: map_m_def)

lemma completion_of_object:
  "\<exists>rest. completion_of indent (k, JObj fs) = Some (k @ '':'' @ rest)"
  by (auto simp: completion_of_def)

lemma later_paths_lost:
  "getMappingValue ns doc ''kind'' = MvNull \<Longrightarrow> path \<notin> {''.'', ''.kind'', ''.apiVersion''} \<Longrightarrow>
     complete_path kubeKinds definitions kinds contents ns path (doc, indent, acc) = Some (doc, indent, acc)"
  by (simp add: complete_path_def getObjectDef_def Let_def)

lemma caption_of: "CHR '':'' \<notin> set k \<Longrightarrow> hd (split_on (CHR '':'') (k @ '':'' @ rest)) = k"
  using split_on_append [of "CHR '':''" k rest] by simp

lemma ascii_lower_colon: "ascii_lower CHR '':'' = CHR '':''"
  by code_simp

lemma ascii_lower_not_colon: "c \<noteq> CHR '':'' \<Longrightarrow> ascii_lower c \<noteq> CHR '':''"
proof (cases "65 \<le> (of_char c :: nat) \<and> (of_char c :: nat) \<le> 90")
  case True
  then have "(of_char (ascii_lower c) :: nat) = of_char c + 32"
    by (simp add: ascii_lower_def of_char_of take_bit_eq_mod)
  then have "(of_char (ascii_lower c) :: nat) \<noteq> of_char (CHR '':'')" using True by simp
  then show ?thesis by metis
qed (auto simp: ascii_lower_def Let_def)

lemma starts_with_before_colon:
  assumes "CHR '':'' \<notin> set p"
  shows "starts_with p (k @ CHR '':'' # rest) \<longleftrightarrow> starts_with p k"
proof
  assume "starts_with p (k @ CHR '':'' # rest)"
  then obtain t where t: "k @ CHR '':'' # rest = p @ t" by (auto simp: starts_with_conv)
  have "length p \<le> length k"
  proof (rule ccontr)
    assume "\<not> length p \<le> length k"
    then have "length k < length p" by simp
    then have "p ! length k = (k @ CHR '':'' # rest) ! length k" by (metis t nth_append)
    then show False using assms \<open>length k < length p\<close> by (metis nth_append_length nth_mem)
  qed
  then show "starts_with p k" using t by (metis append_eq_append_conv_if append_take_drop_id starts_with_conv)
qed (auto simp: starts_with_conv)

lemma prefix_of_completion:
  assumes "CHR '':'' \<notin> set typed"
  shows "starts_with (map ascii_lower typed) (map ascii_lower (k @ '':'' @ rest))
    \<longleftrightarrow> starts_with (map ascii_lower typed) (map ascii_lower k)"
proof -
  have "CHR '':'' \<notin> set (map ascii_lower typed)" using assms ascii_lower_not_colon by force
  from starts_with_before_colon [OF this, of "map ascii_lower k" "map ascii_lower rest"]
  show ?thesis by (simp add: ascii_lower_colon)
qed

text \<open>At the top level of a manifest whose kind has a schema the editor offers, in the order of the
  schema, exactly the properties that have no value yet and start with what was typed.\<close>

theorem root_captions:
  assumes "getPathAndIndentForPosition search fuel loadYaml contents (fst pos) (snd pos) = Some ([''.''], indent)"
    and "contents \<noteq> []" "loadYaml contents = (ns, Some doc)" "node_at ns doc = Some node" "yn_kind node = Some MAP"
    and "getMappingValue ns (Some doc) ''kind'' = MvText kind"
    and "defForKind kubeKinds definitions kind = Some def" "truthy def" "jget def ''properties'' = Some (JObj props)"
    and "\<forall>(k, v) \<in> set props. CHR '':'' \<notin> set k \<and> (\<exists>fs. v = JObj fs)" "CHR '':'' \<notin> set typed"
  shows "\<exists>cs. getCompletions search fuel loadYaml kubeKinds definitions kinds contents pos typed = Some cs
    \<and> map fst cs = filter (\<lambda>k. getMappingValue ns (Some doc) k = MvNull
                            \<and> starts_with (map ascii_lower typed) (map ascii_lower k)) (map fst props)"
proof -
  let ?unset = "filter (\<lambda>(key, val). getMappingValue ns (Some doc) key = MvNull) props"
  let ?text = "\<lambda>kv. the (completion_of indent kv)"
  have tx: "completion_of indent kv = Some (?text kv) \<and> (\<exists>rest. ?text kv = fst kv @ '':'' @ rest) \<and> CHR '':'' \<notin> set (fst kv)"
    if "kv \<in> set props" for kv
  proof -
    obtain k v where kv: "kv = (k, v)" by (cases kv)
    with bspec [OF assms(10) that] obtain fs where "v = JObj fs" "CHR '':'' \<notin> set k" by auto
    with kv show ?thesis using completion_of_object [of indent k fs] by auto
  qed
  have "map_m (completion_of indent) ?unset = Some (map ?text ?unset)"
    by (rule map_m_total) (use tx in auto)
  then have "completionsForRoot kubeKinds definitions contents ns (Some doc) indent = Some (map ?text ?unset)"
    using assms(2-9) by (simp add: completionsForRoot_def propsToCompletions_def entries_of_def)
  then have all: "completionsForPath kubeKinds definitions kinds contents (ns, Some doc) [''.''] indent
      = Some (map (\<lambda>kv. (?text kv, ''.'')) ?unset)"
    using assms(2) by (simp add: completionsForPath_def complete_path_def comp_def Let_def)
  let ?sel = "\<lambda>k. starts_with (map ascii_lower typed) (map ascii_lower k)"
  let ?cs = "map (\<lambda>(c, path). (hd (split_on (CHR '':'') c), c, path)) (filterByPrefix (map (\<lambda>kv. (?text kv, ''.'')) ?unset) typed)"
  have g: "getCompletions search fuel loadYaml kubeKinds definitions kinds contents pos typed = Some ?cs"
    using assms(1,3) all by (simp add: getCompletions_def)
  have m1: "map fst ?cs = map (\<lambda>kv. hd (split_on (CHR '':'') (?text kv))) (filter (\<lambda>kv. ?sel (?text kv)) ?unset)"
    by (simp add: filterByPrefix_def filter_map comp_def split_beta)
  have m2: "filter (\<lambda>kv. ?sel (?text kv)) ?unset = filter (\<lambda>kv. ?sel (fst kv)) ?unset"
    using tx prefix_of_completion [OF assms(11)] by (intro filter_cong refl) (metis (no_types, lifting) mem_Collect_eq set_filter)
  have m3: "map (\<lambda>kv. hd (split_on (CHR '':'') (?text kv))) (filter (\<lambda>kv. ?sel (fst kv)) ?unset)
      = map fst (filter (\<lambda>kv. ?sel (fst kv)) ?unset)"
    using tx caption_of by (intro map_cong refl) (metis (no_types, lifting) mem_Collect_eq set_filter)
  have m4: "map fst (filter (\<lambda>kv. ?sel (fst kv)) ?unset)
      = filter (\<lambda>k. getMappingValue ns (Some doc) k = MvNull \<and> ?sel k) (map fst props)"
    by (simp add: filter_map comp_def split_beta conj_commute)
  show ?thesis by (intro exI [of _ ?cs] conjI g) (simp only: m1 m2 m3 m4)
qed

definition completion_kinds :: json where
  "completion_kinds = JObj [(''Pod'', JObj [(''version'', JStr ''v1''), (''base'', JStr ''api/v1'')])]"

definition demo_props :: "(string \<times> json) list" where
  "demo_props = [(''apiVersion'', JObj [(''type'', JStr ''string'')]), (''kind'', JObj [(''type'', JStr ''string'')]),
     (''spec'', JObj [(''$ref'', JStr ''#/definitions/PodSpec'')])]"

definition demo_definitions :: json where
  "demo_definitions = JObj [(''io.k8s.api.core.v1.Pod'', JObj [(''properties'', JObj demo_props)])]"

theorem root_captions_witness:
  "\<exists>cs. getCompletions demo_search 5 (\<lambda>_. (demo_ast, Some 0)) completion_kinds demo_definitions [] ''kind: Pod'' (0, 2) ''A'' = Some cs
     \<and> map fst cs = [''apiVersion'']"
proof -
  have "\<exists>cs. getCompletions demo_search 5 (\<lambda>_. (demo_ast, Some 0)) completion_kinds demo_definitions [] ''kind: Pod'' (0, 2) ''A'' = Some cs
    \<and> map fst cs = filter (\<lambda>k. getMappingValue demo_ast (Some 0) k = MvNull
                            \<and> starts_with (map ascii_lower ''A'') (map ascii_lower k)) (map fst demo_props)"
  proof (rule root_captions)
    show "getPathAndIndentForPosition demo_search 5 (\<lambda>_. (demo_ast, Some 0)) ''kind: Pod'' (fst (0, 2)) (snd (0, 2)) = Some ([''.''], [])"
      by code_simp
    show "getMappingValue demo_ast (Some 0) ''kind'' = MvText ''Pod''" by code_simp
    show "defForKind completion_kinds demo_definitions ''Pod'' = Some (JObj [(''properties'', JObj demo_props)])" by code_simp
    show "node_at demo_ast 0 = Some (demo_ast ! 0)" "yn_kind (demo_ast ! 0) = Some MAP"
      by (simp_all add: node_at_def demo_ast_def demo_ynode_def)
  qed (simp_all add: demo_props_def)
  moreover have "filter (\<lambda>k. getMappingValue demo_ast (Some 0) k = MvNull
      \<and> starts_with (map ascii_lower ''A'') (map ascii_lower k)) (map fst demo_props) = [''apiVersion'']"
    by code_simp
  ultimately show ?thesis by simp
qed

end
