(* ===== verification/Validator.thy ===== *)
theory Validator
  imports YamlLines JsValue Resource
begin

text \<open>
  Validation in the manifest editor, \<^verbatim>\<open>src/utils/ManifestValidator.js\<close>: the errors shown beside the
  text. The yaml parser, the schema validator and the page's \<open>detectVariables\<close> are parameters.
\<close>

section \<open>Messages\<close>

text \<open>What the schema validator reports: \<^verbatim>\<open>errorType\<close> is 0 for a missing field, 1 for an unexpected one,
  2 for one of the wrong type.\<close>

record schema_error =
  se_errorType :: int
  se_trace :: "trace_step list"
  se_typeIs :: string
  se_typeShouldBe :: string

datatype message =
    CannotChange string json
  | InvalidValue string json
  | Required string "string option"
  | WrongType string string string
  | NotExpected string
  | NeedsValues "string list"
  | PlainText string

text \<open>An entry beside a row; messages of the code's own carry the key of their element.\<close>

record marker =
  mk_row :: int
  mk_column :: int
  mk_key :: string
  mk_message :: message

definition step_text :: "trace_step \<Rightarrow> string" where
  "step_text part = ts_stepName part @
     (case ts_arrayPos part of None \<Rightarrow> []
      | Some p \<Rightarrow> ''['' @ (case p of Some n \<Rightarrow> int_str n | None \<Rightarrow> ''NaN'') @ '']'')"

definition path_text :: "trace_step list \<Rightarrow> string" where
  "path_text parts = fold (\<lambda>part path. (if path \<noteq> [] then path @ ''.'' else path) @ step_text part) parts []"

text \<open>The key and the message of an error; a trace without a last step makes it throw.\<close>

definition getHtmlForError :: "schema_error \<Rightarrow> (string \<times> message) option" where
  "getHtmlForError e =
     (let trace = se_trace e;
          maxTrace = (if se_errorType e > 0 then length trace else length trace - 1);
          path = path_text (drop 1 (take maxTrace trace))
      in if se_errorType e = 0 then
           (if trace = [] then None
            else Some (path @ ''.'' @ step_text (last trace),
                  Required (ts_stepName (last trace)) (if length trace = 2 then None else Some path)))
         else Some (path, if se_errorType e = 2 then WrongType path (se_typeShouldBe e) (se_typeIs e)
                          else NotExpected path))"

definition own_marker :: "nat \<Rightarrow> string \<Rightarrow> message \<Rightarrow> marker" where
  "own_marker row ref message =
     \<lparr>mk_row = int row, mk_column = 0, mk_key = ''err-text-'' @ ref, mk_message = message\<rparr>"

section \<open>Checks\<close>

text \<open>
  A check gives its entries or throws; the entries made before an exception stay. The flag says
  whether all checks ran.
\<close>

fun run_checks :: "marker list option list \<Rightarrow> marker list \<times> bool" where
  "run_checks [] = ([], True)"
| "run_checks (None # cs) = ([], False)"
| "run_checks (Some es # cs) = (es @ fst (run_checks cs), snd (run_checks cs))"

definition check_kind :: "string list \<Rightarrow> json \<Rightarrow> json \<Rightarrow> marker list option" where
  "check_kind lines orig resource = do {
     a \<leftarrow> jget orig ''kind''; b \<leftarrow> jget resource ''kind'';
     Some (if strict_eq a b then []
           else [own_marker (getPositionForPath lines ''kind'') ''kind'' (CannotChange ''kind'' a)])
   }"

definition check_meta :: "string list \<Rightarrow> json \<Rightarrow> string \<Rightarrow> json \<Rightarrow> marker list option" where
  "check_meta lines orig field resource = do {
     md \<leftarrow> jget resource ''metadata''; omd \<leftarrow> jget orig ''metadata'';
     same \<leftarrow> (if truthy md then do { a \<leftarrow> jget omd field; b \<leftarrow> jget md field; Some (strict_eq a b) } else Some False);
     if same then Some []
     else do {
       a \<leftarrow> jget omd field;
       let ref = ''metadata.'' @ field;
       Some [own_marker (getPositionForPath lines ref) ref (CannotChange ref a)]
     }
   }"

definition identity_checks :: "string list \<Rightarrow> json option \<Rightarrow> json \<Rightarrow> marker list option list" where
  "identity_checks lines orig resource =
     (case orig of
        None \<Rightarrow> []
      | Some o1 \<Rightarrow> [check_kind lines o1 resource, check_meta lines o1 ''namespace'' resource,
                   check_meta lines o1 ''name'' resource])"

text \<open>The model of a kind: the first definition whose name ends with it, else a guess.\<close>

definition model_for :: "string list \<Rightarrow> string \<Rightarrow> string \<Rightarrow> string" where
  "model_for definitions base kind =
     (case find (ends_with (''.'' @ kind)) definitions of
        Some type \<Rightarrow> type
      | None \<Rightarrow> ''io.k8s.apimachinery.pkg.'' @ map (\<lambda>c. if c = CHR ''/'' then CHR ''.'' else c) base @ ''.'' @ kind)"

definition schema_marker :: "string list \<Rightarrow> schema_error \<Rightarrow> marker option" where
  "schema_marker lines e = do {
     (key, message) \<leftarrow> getHtmlForError e;
     Some \<lparr>mk_row = int (getErrorPosition lines (se_trace e) (se_errorType e)), mk_column = 0, mk_key = key, mk_message = message\<rparr>
   }"

text \<open>Numbers are accepted where text is expected.\<close>

definition is_shown :: "schema_error \<Rightarrow> bool" where
  "is_shown e \<longleftrightarrow> \<not> (se_typeIs e = ''number'' \<and> se_typeShouldBe e = ''string'')"

text \<open>\<open>'kind' in resource\<close> throws on null; \<open>validateModel\<close> may reject.\<close>

definition schema_checks ::
  "json \<Rightarrow> string list \<Rightarrow> (json \<Rightarrow> string \<Rightarrow> schema_error list option) \<Rightarrow> string list \<Rightarrow> json \<Rightarrow> marker list option list" where
  "schema_checks kubeKinds definitions validateModel lines resource =
     (case resource of
        JNull \<Rightarrow> [None]
      | JObj fs \<Rightarrow>
          (case oget fs ''kind'' of
             None \<Rightarrow> []
           | Some k \<Rightarrow>
               (case jget kubeKinds (to_str k) of
                  None \<Rightarrow> [None]
                | Some kind \<Rightarrow>
                    if truthy kind then
                      (case jget kind ''base'' of
                         Some (JStr base) \<Rightarrow>
                           (case validateModel resource (model_for definitions base (to_str k)) of
                              Some errors \<Rightarrow> map (map_option (\<lambda>m. [m]) \<circ> schema_marker lines) (filter is_shown errors)
                            | None \<Rightarrow> [None])
                       | _ \<Rightarrow> [None])
                    else [Some [own_marker (getPositionForPath lines ''kind'') ''kind'' (InvalidValue ''kind'' k)]]))
      | _ \<Rightarrow> [])"

section \<open>Validation\<close>

text \<open>The parser's answer: a value, or an error with its place.\<close>

datatype loaded = Loaded json | YamlError int int string

definition variable_markers :: "(string \<Rightarrow> string list) option \<Rightarrow> bool \<Rightarrow> string list \<Rightarrow> marker list" where
  "variable_markers detectVariables testVariables lines =
     (case detectVariables of
        Some f \<Rightarrow>
          if testVariables then
            concat (map (\<lambda>(i, line). let vars = f line in
                      if vars \<noteq> [] then [\<lparr>mk_row = int i, mk_column = 0, mk_key = [], mk_message = NeedsValues vars\<rparr>] else [])
                    (enumerate 0 lines))
          else []
      | None \<Rightarrow> [])"

text \<open>\<open>thrown\<close> is the text of an exception that is not the parser's.\<close>

definition validate ::
  "(string \<Rightarrow> loaded) \<Rightarrow> (json \<Rightarrow> string \<Rightarrow> schema_error list option) \<Rightarrow> json \<Rightarrow> string list \<Rightarrow>
   (string \<Rightarrow> string list) option \<Rightarrow> json option \<Rightarrow> string \<Rightarrow> string \<Rightarrow> bool \<Rightarrow> marker list \<times> json" where
  "validate safeLoad validateModel kubeKinds definitions detectVariables orig thrown contents testVariables =
     (let lines = (if contents = [] then [] else split_on (CHR 0x0A) contents);
          vars = variable_markers detectVariables testVariables lines
      in case safeLoad contents of
           YamlError line column reason \<Rightarrow>
             (vars @ [\<lparr>mk_row = line, mk_column = column, mk_key = [], mk_message = PlainText reason\<rparr>], JUndef)
         | Loaded resource \<Rightarrow>
             (let (entries, all_ran) = run_checks (identity_checks lines orig resource
                     @ schema_checks kubeKinds definitions validateModel lines resource)
              in (vars @ entries @
                  (if all_ran then [] else [\<lparr>mk_row = 0, mk_column = 0, mk_key = [], mk_message = PlainText thrown\<rparr>]),
                  resource)))"

section \<open>A manifest without errors is the same object\<close>

lemma run_checks_append:
  "run_checks (xs @ ys) = (if snd (run_checks xs) then (fst (run_checks xs) @ fst (run_checks ys), snd (run_checks ys))
                           else run_checks xs)"
  by (induction xs rule: run_checks.induct) auto

lemma run_checks_clean: "run_checks cs = ([], True) \<longleftrightarrow> (\<forall>c \<in> set cs. c = Some [])"
  by (induction cs rule: run_checks.induct) (auto simp: prod_eq_iff)

text \<open>Without errors everything was checked, and no check made an entry.\<close>

lemma validate_clean:
  assumes "validate safeLoad validateModel kubeKinds definitions detectVariables orig thrown contents testVariables = ([], r)"
  shows "safeLoad contents = Loaded r"
    and "c \<in> set (identity_checks (if contents = [] then [] else split_on (CHR 0x0A) contents) orig r) \<Longrightarrow> c = Some []"
    and "c \<in> set (schema_checks kubeKinds definitions validateModel
           (if contents = [] then [] else split_on (CHR 0x0A) contents) r) \<Longrightarrow> c = Some []"
proof -
  let ?lines = "if contents = [] then [] else split_on (CHR 0x0A) contents"
  show load: "safeLoad contents = Loaded r"
    using assms by (auto simp: validate_def Let_def split: loaded.splits prod.splits)
  let ?cs = "identity_checks ?lines orig r @ schema_checks kubeKinds definitions validateModel ?lines r"
  have "run_checks ?cs = ([], True)"
    using assms load by (cases "run_checks ?cs") (auto simp: validate_def Let_def split: if_splits)
  then have "\<forall>c \<in> set ?cs. c = Some []" by (simp only: run_checks_clean)
  then show "c \<in> set (identity_checks ?lines orig r) \<Longrightarrow> c = Some []"
    and "c \<in> set (schema_checks kubeKinds definitions validateModel ?lines r) \<Longrightarrow> c = Some []"
    by auto
qed

lemma check_meta_clean:
  "check_meta lines orig field resource = Some [] \<Longrightarrow>
     \<exists>md omd v. jget resource ''metadata'' = Some md \<and> truthy md \<and> jget orig ''metadata'' = Some omd
       \<and> jget omd field = Some v \<and> jget md field = Some v"
  by (auto simp: check_meta_def bind_Some_iff Let_def split: if_splits dest: strict_eq_imp_eq)

text \<open>C38: A manifest that is edited in place of an object and validates without errors names a kind of the
  cluster and has the key of that object: saving it cannot reach another one.\<close>

theorem validated_keeps_key:
  assumes "k8s_object kind name ns orig"
    and "validate safeLoad validateModel kubeKinds definitions detectVariables (Some orig) thrown contents testVariables = ([], r)"
    and "jget r ''name'' = Some JUndef" "jget r ''namespace'' = Some JUndef"
  shows "keyForResource r JUndef = Some (JStr (key_str kind ns name))
    \<and> (\<exists>k. jget kubeKinds kind = Some k \<and> truthy k)"
proof -
  let ?lines = "if contents = [] then [] else split_on (CHR 0x0A) contents"
  obtain fs md where orig: "orig = JObj fs" "oget fs ''kind'' = Some (JStr kind)"
    "oget fs ''metadata'' = Some (JObj md)" "k8s_meta name ns md"
    using assms(1) by (auto simp: k8s_object_def)
  note clean = validate_clean [OF assms(2)]
  have ident: "check_kind ?lines orig r = Some []" "check_meta ?lines orig ''namespace'' r = Some []"
    "check_meta ?lines orig ''name'' r = Some []"
    using clean(2) by (auto simp: identity_checks_def)
  have kind: "jget r ''kind'' = Some (JStr kind)"
    using ident(1) orig(1,2) by (auto simp: check_kind_def bind_Some_iff split: if_splits dest: strict_eq_imp_eq)
  obtain rmd where rmd: "jget r ''metadata'' = Some rmd" "truthy rmd"
    "jget rmd ''namespace'' = Some (lookup_prop md ''namespace'')" "jget rmd ''name'' = Some (JStr name)"
    using check_meta_clean [OF ident(2)] check_meta_clean [OF ident(3)] orig by (auto simp: k8s_meta_def)
  obtain rfs where r: "r = JObj rfs" using kind by (cases r) auto
  have "keyForResource r JUndef = Some (JStr (key_str kind ns name))"
    using kind rmd assms(3,4) orig(4) r
    by (cases ns) (auto simp: keyForResource_def key_str_def js_or_def k8s_meta_def)
  moreover have "\<exists>k. jget kubeKinds kind = Some k \<and> truthy k"
  proof (rule ccontr)
    assume "\<not> (\<exists>k. jget kubeKinds kind = Some k \<and> truthy k)"
    moreover have "oget rfs ''kind'' = Some (JStr kind)" using kind r by (auto split: option.splits)
    ultimately have "\<exists>c \<in> set (schema_checks kubeKinds definitions validateModel ?lines r). c \<noteq> Some []"
      using r by (auto simp: schema_checks_def split: option.splits)
    then show False using clean(3) by blast
  qed
  ultimately show ?thesis by blast
qed

definition manifest_pod :: json where
  "manifest_pod = JObj [(''kind'', JStr ''Pod''), (''metadata'', JObj [(''namespace'', JStr ''n''), (''name'', JStr ''a'')])]"

theorem validated_keeps_key_witness:
  "keyForResource manifest_pod JUndef = Some (JStr ''Pod/n/a'')"
proof -
  have "keyForResource manifest_pod JUndef = Some (JStr (key_str ''Pod'' (Some ''n'') ''a''))
    \<and> (\<exists>k. jget (JObj [(''Pod'', JObj [(''base'', JStr ''api/v1'')])]) ''Pod'' = Some k \<and> truthy k)"
  proof (rule validated_keeps_key)
    show "k8s_object ''Pod'' ''a'' (Some ''n'') manifest_pod"
      by (simp add: k8s_object_def manifest_pod_def k8s_meta_def)
    show "validate (\<lambda>_. Loaded manifest_pod) (\<lambda>_ _. Some []) (JObj [(''Pod'', JObj [(''base'', JStr ''api/v1'')])]) [] None
        (Some manifest_pod) [] ''kind: Pod'' False = ([], manifest_pod)" by code_simp
  qed (simp_all add: manifest_pod_def)
  then show ?thesis by (simp add: key_str_def)
qed

text \<open>The text of an error the parser marks is the only entry, apart from missing variables.\<close>

lemma yaml_error_is_shown:
  "safeLoad contents = YamlError line column reason \<Longrightarrow>
     validate safeLoad validateModel kubeKinds definitions None orig thrown contents testVariables
       = ([\<lparr>mk_row = line, mk_column = column, mk_key = [], mk_message = PlainText reason\<rparr>], JUndef)"
  by (simp add: validate_def variable_markers_def)

text \<open>An empty document throws when it replaces an object, and is accepted when it is new.\<close>

lemma empty_document:
  "safeLoad contents = Loaded JUndef \<Longrightarrow>
     validate safeLoad validateModel kubeKinds definitions None None thrown contents testVariables = ([], JUndef)"
  by (simp add: validate_def variable_markers_def identity_checks_def schema_checks_def)

end
