(* ===== verification/Pages.thy ===== *)
theory Pages
  imports Owners Access Columns
begin

text \<open>
  The page of the workloads, \<^verbatim>\<open>src/components/WorkloadsPage.js\<close> with \<^verbatim>\<open>RowActionMenu.js\<close>,
  \<^verbatim>\<open>MultiResourceActionButton.js\<close>, \<^verbatim>\<open>ConfirmationDialog.js\<close> and \<^verbatim>\<open>ScaleDialog.js\<close>: which rows it
  shows, what its handlers do to the state of the component and which actions they dispatch. A React
  handler reads the state from before; its updates are applied together. \<^term>\<open>None\<close> is an exception.
\<close>

section \<open>State\<close>

text \<open>
  An element of a list of chosen resources: an object of the store, \<^verbatim>\<open>undefined\<close> for a key that the
  store lacks, or the event that a button hands to its handler.
\<close>

datatype target = Chosen ref | Missing | TapEvent

datatype command =
    ViewResource target string
  | RemoveResources "target list"
  | ScaleTo target json
  | DetachFirst "target list"

record page =
  pg_actionsOpen :: bool
  pg_deleteOpen :: bool
  pg_scaleOpen :: bool
  pg_suspendOpen :: bool
  pg_detachOpen :: bool
  pg_hoveredRow :: int
  pg_hovered :: "ref option"
  pg_access :: "json obj option"
  pg_selected :: "target list"
  pg_openTerminal :: bool
  pg_selectedIds :: "string list"
  pg_deleteEnabled :: bool
  pg_suspendEnabled :: bool
  pg_deleteDisabled :: bool
  pg_suspendDisabled :: bool
  pg_actionsClicked :: bool


text \<open>What the page is given: the heap, the store's resources by key, and the table of kinds.\<close>

record page_props =
  pp_heap :: heap
  pp_resources :: "ref obj"
  pp_kinds :: "json obj"

section \<open>Rows\<close>

text \<open>\<open>kinds\<close> is what the page remembers of the group's kinds; it is computed while that is empty.\<close>

definition page_kinds :: "string \<Rightarrow> json obj \<Rightarrow> json obj option \<Rightarrow> json obj option" where
  "page_kinds group1 kubeKinds kinds =
     (case kinds of
        Some (k # ks) \<Rightarrow> Some (k # ks)
      | _ \<Rightarrow> kindsByResourceGroup kubeKinds (JStr group1))"

definition is_row :: "heap \<Rightarrow> json obj \<Rightarrow> json obj \<Rightarrow> ref \<Rightarrow> bool option" where
  "is_row h kubeKinds kinds r = do {
     x \<leftarrow> h r;
     if r_isFiltered x then Some False
     else map_option (\<lambda>k. ohas (to_str k) kinds \<or> \<not> ohas (to_str k) kubeKinds) (kind_of x)
   }"

definition resourcesToRows :: "page_props \<Rightarrow> json obj option \<Rightarrow> (ref list \<times> json obj) option" where
  "resourcesToRows props remembered = do {
     kinds \<leftarrow> page_kinds ''workloads'' (pp_kinds props) remembered;
     rows \<leftarrow> filterM (is_row (pp_heap props) (pp_kinds props) kinds) (map snd (pp_resources props));
     Some (rows, kinds)
   }"

section \<open>Handlers\<close>

type_synonym handler = "page \<Rightarrow> (page \<times> command list) option"

definition handleActionsRequestClose :: "page \<Rightarrow> page" where
  "handleActionsRequestClose w = w\<lparr>pg_actionsOpen := False, pg_hoveredRow := - 1, pg_hovered := None\<rparr>"


definition handleRowSelection_page :: "page_props \<Rightarrow> string list \<Rightarrow> page \<Rightarrow> page option" where
  "handleRowSelection_page props ids w =
     (if pg_actionsClicked w then Some w
      else map_option (\<lambda>suspend.
             w\<lparr>pg_selectedIds := ids, pg_deleteEnabled := ids \<noteq> [], pg_suspendEnabled := suspend,
               pg_deleteDisabled := ids = [], pg_suspendDisabled := \<not> suspend\<rparr>)
             (anySelectedWithReplicas (pp_heap props) (pp_resources props) ids))"



definition lookup_target :: "page_props \<Rightarrow> string \<Rightarrow> target" where
  "lookup_target props i = (case oget (pp_resources props) i of Some r \<Rightarrow> Chosen r | None \<Rightarrow> Missing)"

text \<open>
  The argument of \<^verbatim>\<open>handleDelete\<close> is a resource only if it has a kind: the event of the button has
  none, and the menu passes \<^verbatim>\<open>hoveredResources\<close>, which is always null.
\<close>

definition handleDelete :: "page_props \<Rightarrow> target option \<Rightarrow> handler" where
  "handleDelete props arg w =
     (let rs = (case arg of
                  Some (Chosen r) \<Rightarrow> [Chosen r]
                | _ \<Rightarrow> map (lookup_target props) (pg_selectedIds w))
      in Some (w\<lparr>pg_selected := rs, pg_deleteOpen := True, pg_actionsOpen := False\<rparr>, []))"

definition has_replicas :: "page_props \<Rightarrow> string \<Rightarrow> target option option" where
  "has_replicas props i = do {
     r \<leftarrow> oget (pp_resources props) i; x \<leftarrow> pp_heap props r; sp \<leftarrow> rget x ''spec'';
     has \<leftarrow> jhas ''replicas'' sp;
     n \<leftarrow> jget sp ''replicas'';
     Some (if has \<and> js_gt0 n then Some (Chosen r) else None)
   }"

text \<open>Any argument is taken for a resource here, the event of the button as well.\<close>

definition handleSuspend :: "page_props \<Rightarrow> target option \<Rightarrow> handler" where
  "handleSuspend props arg w = do {
     rs \<leftarrow> (case arg of
             Some t \<Rightarrow> Some [t]
           | None \<Rightarrow> foldM (\<lambda>i acc. map_option (\<lambda>t. case t of Some x \<Rightarrow> acc @ [x] | None \<Rightarrow> acc) (has_replicas props i))
                       (pg_selectedIds w) []);
     Some (w\<lparr>pg_selected := rs, pg_suspendOpen := True, pg_actionsOpen := False\<rparr>, [])
   }"

definition handleScale :: handler where
  "handleScale w = Some (w\<lparr>pg_scaleOpen := True, pg_actionsOpen := False\<rparr>, [])"

definition handleDetach :: "page_props \<Rightarrow> target option \<Rightarrow> handler" where
  "handleDetach props arg w =
     (let rs = (case arg of Some t \<Rightarrow> [t] | None \<Rightarrow> map (lookup_target props) (pg_selectedIds w))
      in Some (w\<lparr>pg_selected := rs, pg_detachOpen := True, pg_actionsOpen := False\<rparr>, []))"

definition handleRequestCloseDetach :: "page \<Rightarrow> page" where
  "handleRequestCloseDetach w = w\<lparr>pg_detachOpen := False, pg_selected := []\<rparr>"



text \<open>\<^verbatim>\<open>detachResource\<close> takes one resource.\<close>

definition handleConfirmDetach :: "page_props \<Rightarrow> handler" where
  "handleConfirmDetach props w = do {
     w1 \<leftarrow> handleRowSelection_page props [] (w\<lparr>pg_selected := [], pg_detachOpen := False\<rparr>);
     Some (w1, [DetachFirst (take 1 (pg_selected w))])
   }"





definition componentDidUpdate :: "page \<Rightarrow> page" where
  "componentDidUpdate w = (if pg_actionsOpen w then w else w\<lparr>pg_actionsClicked := False\<rparr>)"

section \<open>The menu of a row\<close>

definition orderedActions :: "string list" where
  "orderedActions = [''logs'', ''terminal'', ''suspend'', ''scale'', ''detach'', ''edit'', ''get'', ''delete'']"

text \<open>The entries of the menu: the text and the name of the handler.\<close>

definition menu_entries :: "json obj \<Rightarrow> (string \<times> string) list" where
  "menu_entries access =
     concat (map (\<lambda>action.
       if \<not> perm action access then []
       else if action = ''get'' then (if perm ''edit'' access then [] else [(''yaml'', ''edit'')])
       else [(action, action)]) orderedActions)"

definition hovered_target :: "page \<Rightarrow> target option" where
  "hovered_target w = map_option Chosen (pg_hovered w)"

definition view_hovered :: "string \<Rightarrow> handler" where
  "view_hovered view w = Some (w, [ViewResource (case pg_hovered w of Some r \<Rightarrow> Chosen r | None \<Rightarrow> Missing) view])"

definition menu_handler :: "page_props \<Rightarrow> string \<Rightarrow> handler" where
  "menu_handler props name =
     (if name = ''logs'' then view_hovered ''logs''
      else if name = ''terminal'' then view_hovered ''terminal''
      else if name = ''suspend'' then (\<lambda>w. handleSuspend props (hovered_target w) w)
      else if name = ''scale'' then handleScale
      else if name = ''edit'' then view_hovered ''edit''
      else if name = ''delete'' then handleDelete props None
      else if name = ''detach'' then (\<lambda>w. handleDetach props (hovered_target w) w)
      else (\<lambda>w. None))"

text \<open>\<^verbatim>\<open>closeAndHandle\<close>: the menu closes and its handler runs; no handler sets what closing sets otherwise.\<close>

definition closeAndHandle :: "page_props \<Rightarrow> string \<Rightarrow> handler" where
  "closeAndHandle props name w = map_option (\<lambda>(w1, cs). (handleActionsRequestClose w1, cs)) (menu_handler props name w)"

section \<open>Rendering\<close>

text \<open>
  What is on the screen: the menu, the resources each open dialog lists, and the resource of the
  scale dialog.
\<close>

record view =
  vi_menu :: "(string \<times> string) list option"
  vi_delete :: "target list option"
  vi_suspend :: "target list option"
  vi_detach :: "target list option"
  vi_scale :: "ref option"

text \<open>A dialog shows the key of each resource; one that is missing or no resource makes it throw.\<close>

definition dialog_ok :: "heap \<Rightarrow> target list \<Rightarrow> bool" where
  "dialog_ok h ts \<longleftrightarrow> list_all (\<lambda>t. case t of Chosen r \<Rightarrow> (case h r of Some x \<Rightarrow> r_key x \<noteq> None | None \<Rightarrow> False) | _ \<Rightarrow> False) ts"

definition scale_shown :: "heap \<Rightarrow> page \<Rightarrow> ref option" where
  "scale_shown h w =
     (if pg_scaleOpen w then
        Option.bind (pg_hovered w) (\<lambda>r. Option.bind (h r) (\<lambda>x.
          case rget x ''spec'' of
            Some sp \<Rightarrow> if truthy sp \<and> jhas ''replicas'' sp = Some True then Some r else None
          | None \<Rightarrow> None))
      else None)"

definition render_page :: "heap \<Rightarrow> page \<Rightarrow> view option" where
  "render_page h w =
     (if (pg_deleteOpen w \<or> pg_suspendOpen w \<or> pg_detachOpen w) \<and> \<not> dialog_ok h (pg_selected w) then None
      else Some \<lparr>vi_menu = (case pg_access w of
                              Some a \<Rightarrow> if pg_hovered w \<noteq> None then Some (menu_entries a) else None | None \<Rightarrow> None),
                 vi_delete = (if pg_deleteOpen w then Some (pg_selected w) else None),
                 vi_suspend = (if pg_suspendOpen w then Some (pg_selected w) else None),
                 vi_detach = (if pg_detachOpen w then Some (pg_selected w) else None),
                 vi_scale = scale_shown h w\<rparr>)"

text \<open>The part of \<^verbatim>\<open>shouldComponentUpdate\<close> about the state; \<^verbatim>\<open>detachOpen\<close> is not in it.\<close>

definition page_changed :: "page \<Rightarrow> page \<Rightarrow> bool" where
  "page_changed a b \<longleftrightarrow> pg_actionsOpen a \<noteq> pg_actionsOpen b \<or> pg_hoveredRow a \<noteq> pg_hoveredRow b
     \<or> pg_deleteOpen a \<noteq> pg_deleteOpen b \<or> pg_suspendOpen a \<noteq> pg_suspendOpen b \<or> pg_scaleOpen a \<noteq> pg_scaleOpen b"

section \<open>The page in use\<close>

type_synonym screen = "page \<times> view"

text \<open>An update: the component is rendered again when its state differs in what it looks at.\<close>

definition settle :: "heap \<Rightarrow> screen \<Rightarrow> page \<Rightarrow> screen option" where
  "settle h s w =
     (if page_changed (fst s) w then map_option (\<lambda>v. (componentDidUpdate w, v)) (render_page h w)
      else Some (w, snd s))"





text \<open>
  At most one dialog over a list is open, and the menu belongs to a hovered row. The delete and
  suspend dialogs show the state; so does an open detach dialog, but a closed one may still be shown.
\<close>

definition page_ok :: "page \<Rightarrow> bool" where
  "page_ok w \<longleftrightarrow> (pg_deleteOpen w \<longrightarrow> \<not> pg_suspendOpen w \<and> \<not> pg_detachOpen w)
     \<and> (pg_suspendOpen w \<longrightarrow> \<not> pg_detachOpen w)
     \<and> pg_actionsOpen w = (pg_hovered w \<noteq> None) \<and> (pg_hovered w \<noteq> None \<longrightarrow> pg_access w \<noteq> None)"

definition view_ok :: "page \<Rightarrow> view \<Rightarrow> bool" where
  "view_ok w v \<longleftrightarrow> vi_delete v = (if pg_deleteOpen w then Some (pg_selected w) else None)
     \<and> vi_suspend v = (if pg_suspendOpen w then Some (pg_selected w) else None)
     \<and> (pg_detachOpen w \<longrightarrow> vi_detach v = Some (pg_selected w))
     \<and> (pg_deleteOpen w \<or> pg_suspendOpen w \<longrightarrow> vi_detach v = None)
     \<and> (vi_menu v \<noteq> None) = (pg_hovered w \<noteq> None)"




lemma didUpdate_ok [simp]: "page_ok (componentDidUpdate w) = page_ok w" "view_ok (componentDidUpdate w) v = view_ok w v"
  by (simp_all add: componentDidUpdate_def page_ok_def view_ok_def)





















section \<open>Where the page does not do what was asked\<close>

text \<open>The delete entry of a row's menu asks for the selected rows and not for the row of the menu.\<close>

lemma menu_delete_ignores_row:
  "closeAndHandle props ''delete'' w = Some (w1, cs) \<Longrightarrow> pg_selected w1 = map (lookup_target props) (pg_selectedIds w)"
  by (auto simp: closeAndHandle_def menu_handler_def handleDelete_def handleActionsRequestClose_def)

text \<open>The button that suspends hands its event to the handler, and the dialog cannot be rendered.\<close>

lemma suspend_button_throws:
  "handleSuspend props (Some TapEvent) w = Some (w1, cs) \<Longrightarrow> render_page h w1 = None"
  by (auto simp: handleSuspend_def render_page_def dialog_ok_def)

text \<open>The scale entry forgets the row before its dialog is rendered, so the dialog does not appear.\<close>

lemma menu_scale_shows_nothing:
  "closeAndHandle props ''scale'' w = Some (w1, cs) \<Longrightarrow> pg_scaleOpen w1 \<and> scale_shown h w1 = None"
  by (auto simp: closeAndHandle_def menu_handler_def handleScale_def handleActionsRequestClose_def scale_shown_def)

text \<open>A closed detach dialog stays on the screen, and confirming it again detaches \<^verbatim>\<open>undefined\<close>.\<close>

lemma detach_dialog_stays:
  "settle h (w, v) (handleRequestCloseDetach w) = Some (handleRequestCloseDetach w, v)"
  "handleConfirmDetach props (handleRequestCloseDetach w) = Some (w1, cs) \<Longrightarrow> cs = [DetachFirst []]"
  by (auto simp: settle_def page_changed_def handleRequestCloseDetach_def handleConfirmDetach_def bind_Some_iff)

end
