(* ===== verification/NodesTab.thy ===== *)
theory NodesTab
  imports Demo Access Columns
begin

text \<open>
  The table of nodes, \<^verbatim>\<open>src/components/cluster/NodesTab.js\<close>: which nodes it lists, the labels worth
  showing, and the cells, whose pods and containers come from the \<^verbatim>\<open>podsByNode\<close> of the resources
  slice. The metrics come from the project's server as numbers.
\<close>

section \<open>Nodes and labels\<close>

definition includedLabels :: "string list" where
  "includedLabels = [zoneLabel, regionLabel, instanceTypeLabel, roleLabel]"

text \<open>One node of the loop that collects, for each label, the values it has.\<close>

definition collect_labels :: "heap \<Rightarrow> ref \<Rightarrow> bool obj obj \<Rightarrow> bool obj obj option" where
  "collect_labels h r allLabels = do {
     x \<leftarrow> h r;
     labels \<leftarrow> metadata_of x ''labels'';
     foldM (\<lambda>key acc. do {
         v \<leftarrow> jget labels key;
         Some (oset key (oset (to_str v) True (case oget acc key of Some o1 \<Rightarrow> o1 | None \<Rightarrow> [])) acc)
       }) (keys_in labels) allLabels
   }"

definition is_node :: "heap \<Rightarrow> ref \<Rightarrow> bool option" where
  "is_node h r = do { x \<leftarrow> h r; k \<leftarrow> kind_of x; Some (strict_eq k (JStr ''Node'')) }"

record node_rows =
  nr_nodes :: "ref list"
  nr_rows :: "ref list"
  nr_labels :: "bool obj"

definition interesting :: "bool obj obj \<Rightarrow> bool obj" where
  "interesting allLabels =
     map (\<lambda>(k, vs). (k, True)) (filter (\<lambda>(k, vs). length vs > 1 \<and> k \<in> set includedLabels) allLabels)"

definition extractNodes :: "heap \<Rightarrow> ref obj \<Rightarrow> node_rows option" where
  "extractNodes h resources = do {
     nodes \<leftarrow> filterM (is_node h) (map snd resources);
     allLabels \<leftarrow> foldM (collect_labels h) nodes [];
     rows \<leftarrow> filterM (\<lambda>r. map_option (\<lambda>x. \<not> r_isFiltered x) (h r)) nodes;
     Some \<lparr>nr_nodes = nodes, nr_rows = rows, nr_labels = interesting allLabels\<rparr>
   }"

section \<open>Cells\<close>

record node_stat =
  ns_usage :: rat
  ns_total :: rat
  ns_ratio :: rat

datatype node_cell =
    NodeValue json
  | NodeNumber rat
  | NodeNaN
  | NodeText string
  | NodePercent string
  | NodeChips "(string \<times> json) list"
  | NodeIcon json

text \<open>\<^verbatim>\<open>Math.round(100 * usage / total) + '%'\<close>, for numbers that are not negative.\<close>

definition percent :: "node_stat \<Rightarrow> string" where
  "percent m =
     (if ns_total m = 0 then (if ns_usage m = 0 then ''NaN'' else ''Infinity'')
      else int_str \<lfloor>100 * ns_usage m / ns_total m + 1 / 2\<rfloor>) @ ''%''"

text \<open>
  \<^verbatim>\<open>nodeMetrics[row.metadata.name]\<close>, if there are metrics for the name. The inner
  \<^term>\<open>None\<close> is a node without them; a missing metric makes the reads below throw.
\<close>

definition node_metric ::
  "node_stat obj obj option \<Rightarrow> string \<Rightarrow> string \<Rightarrow> node_stat option option" where
  "node_metric nodeMetrics name metric =
     (case nodeMetrics of
        None \<Rightarrow> Some None
      | Some nm \<Rightarrow> (case oget nm name of
            None \<Rightarrow> Some None
          | Some m \<Rightarrow> (case oget m metric of None \<Rightarrow> None | Some st \<Rightarrow> Some (Some st))))"

text \<open>The pods of a node that are not filtered out.\<close>

definition unfiltered :: "heap \<Rightarrow> ref list \<Rightarrow> ref list option" where
  "unfiltered h = filterM (\<lambda>r. map_option (\<lambda>x. \<not> r_isFiltered x) (h r))"

definition pods_on :: "heap \<Rightarrow> ref obj obj \<Rightarrow> string \<Rightarrow> ref list option" where
  "pods_on h podsByNode name =
     (case oget podsByNode name of None \<Rightarrow> Some [] | Some pods \<Rightarrow> unfiltered h (map snd pods))"

text \<open>\<^verbatim>\<open>pod.spec.containers.length\<close> as a number, and the sum over pods; \<^term>\<open>None\<close> inside is \<^verbatim>\<open>NaN\<close>.\<close>

definition container_count :: "heap \<Rightarrow> ref \<Rightarrow> int option option" where
  "container_count h r = do {
     x \<leftarrow> h r; sp \<leftarrow> rget x ''spec''; cs \<leftarrow> jget sp ''containers''; n \<leftarrow> js_length cs;
     Some (to_num n)
   }"

definition node_containers :: "heap \<Rightarrow> ref list \<Rightarrow> int option option" where
  "node_containers h rs =
     foldM (\<lambda>r acc. map_option (\<lambda>n. case (acc, n) of (Some a, Some b) \<Rightarrow> Some (a + b) | _ \<Rightarrow> None) (container_count h r)) rs (Some 0)"

definition int_cell :: "int option \<Rightarrow> node_cell" where
  "int_cell v = (case v of Some n \<Rightarrow> NodeNumber (of_int n) | None \<Rightarrow> NodeNaN)"

record nodes_props =
  np_heap :: heap
  np_metrics :: "node_stat obj obj option"
  np_podsByNode :: "ref obj obj"

text \<open>Name of the row, as a property name.\<close>

definition row_name :: "resource \<Rightarrow> string option" where
  "row_name x = map_option to_str (metadata_of x ''name'')"

definition hostname_of :: "resource \<Rightarrow> json option" where
  "hostname_of x = do { labels \<leftarrow> metadata_of x ''labels''; jget labels hostnameLabel }"

text \<open>\<^verbatim>\<open>key.split('/').pop()\<close>\<close>

definition after_slash :: "string \<Rightarrow> string" where
  "after_slash key = last (split_on (CHR ''/'') key)"

definition label_chips :: "bool obj \<Rightarrow> json \<Rightarrow> (string \<times> json) list option" where
  "label_chips labelsOfInterest labels =
     (if labels = JUndef \<or> labels = JNull then None
      else Some (map (\<lambda>k. (after_slash k, case jget labels k of Some v \<Rightarrow> v | None \<Rightarrow> JUndef))
                  (filter (\<lambda>k. ohas k labelsOfInterest) (keys_in labels))))"

definition pods_cell :: "nodes_props \<Rightarrow> string \<Rightarrow> string \<Rightarrow> node_cell option" where
  "pods_cell props column name = do {
     rs \<leftarrow> pods_on (np_heap props) (np_podsByNode props) name;
     if column = ''pods'' then Some (NodeNumber (of_nat (length rs)))
     else map_option int_cell (node_containers (np_heap props) rs)
   }"

text \<open>The metric of a column.\<close>

definition column_stat :: "string \<Rightarrow> string option" where
  "column_stat column =
     (if column \<in> {''mem_utilized'', ''mem_total''} then Some ''memory''
      else if column \<in> {''cpu_utilized'', ''cpu_total''} then Some ''cpu''
      else if column \<in> {''disk_utilized'', ''disk_total''} then Some ''disk''
      else None)"

definition metric_cell :: "string \<Rightarrow> node_stat option \<Rightarrow> node_cell" where
  "metric_cell column m =
     (if column \<in> {''mem_utilized'', ''cpu_utilized'', ''disk_utilized''} then
        NodePercent (case m of Some st \<Rightarrow> percent st | None \<Rightarrow> [])
      else if column = ''cpu_total'' then
        (case m of Some st \<Rightarrow> NodeNumber (conv (''millicores'', ''cores'') (ns_total st)) | None \<Rightarrow> NodeText [])
      else NodeText (to_fixed (if column = ''mem_total'' then 2 else 1)
              (case m of Some st \<Rightarrow> conv (''bytes'', ''gibibytes'') (ns_total st) | None \<Rightarrow> 0) @ '' Gi''))"

definition renderCell_node ::
  "nodes_props \<Rightarrow> bool obj \<Rightarrow> (int option \<Rightarrow> string) \<Rightarrow> int \<Rightarrow> string \<Rightarrow> resource \<Rightarrow> node_cell option" where
  "renderCell_node props labelsOfInterest humanize now column x = do {
     name \<leftarrow> row_name x;
     if column = ''hostname'' then map_option NodeValue (hostname_of x)
     else if column = ''namespace'' then map_option NodeValue (metadata_of x ''namespace'')
     else if column = ''kind'' then map_option NodeValue (kind_of x)
     else if column = ''labels'' then do {
       labels \<leftarrow> metadata_of x ''labels''; map_option NodeChips (label_chips labelsOfInterest labels)
     }
     else if column_stat column \<noteq> None then
       map_option (metric_cell column) (node_metric (np_metrics props) name (the (column_stat column)))
     else if column \<in> {''pods'', ''containers''} then pods_cell props column name
     else if column = ''age'' then
       map_option (\<lambda>t. NodeText (toHumanizedAge humanize now (age_of now t))) (metadata_of x ''creationTimestamp'')
     else if column = ''status'' then Some (NodeIcon (r_statusSummary x))
     else Some (NodeText [])
   }"

definition getCellValue_node :: "nodes_props \<Rightarrow> string \<Rightarrow> resource \<Rightarrow> node_cell option" where
  "getCellValue_node props column x = do {
     name \<leftarrow> row_name x;
     if column = ''id'' then Some (NodeValue (case r_key x of Some k \<Rightarrow> JStr k | None \<Rightarrow> JUndef))
     else if column = ''hostname'' then map_option NodeValue (hostname_of x)
     else if column_stat column \<noteq> None then
       map_option (\<lambda>m. NodeNumber (case m of
            Some st \<Rightarrow> (if column \<in> {''mem_utilized'', ''cpu_utilized'', ''disk_utilized''} then ns_ratio st else ns_total st)
          | None \<Rightarrow> - 1)) (node_metric (np_metrics props) name (the (column_stat column)))
     else if column \<in> {''pods'', ''containers''} then pods_cell props column name
     else if column = ''kind'' then map_option NodeValue (kind_of x)
     else if column = ''age'' then map_option NodeValue (metadata_of x ''creationTimestamp'')
     else if column = ''status'' then Some (NodeValue (r_statusSummary x))
     else Some (NodeText [])
   }"

section \<open>The labels of interest\<close>

text \<open>The node \<open>r\<close> has the label \<open>k\<close> with the text \<open>v\<close>.\<close>

definition has_label :: "heap \<Rightarrow> ref \<Rightarrow> string \<Rightarrow> string \<Rightarrow> bool" where
  "has_label h r k v \<longleftrightarrow> (case h r of None \<Rightarrow> False | Some x \<Rightarrow>
     (case metadata_of x ''labels'' of None \<Rightarrow> False | Some labels \<Rightarrow>
        k \<in> set (keys_in labels) \<and> map_option to_str (jget labels k) = Some v))"

definition has_value :: "bool obj obj \<Rightarrow> string \<Rightarrow> string \<Rightarrow> bool" where
  "has_value m k v \<longleftrightarrow> (case oget m k of None \<Rightarrow> False | Some vs \<Rightarrow> ohas v vs)"

definition wf_values :: "bool obj obj \<Rightarrow> bool" where
  "wf_values m \<longleftrightarrow> wf_obj m \<and> (\<forall>k vs. oget m k = Some vs \<longrightarrow> wf_obj vs)"

lemma add_value:
  assumes "acc' = oset key (oset s True (case oget acc key of Some o1 \<Rightarrow> o1 | None \<Rightarrow> [])) acc"
  shows "has_value acc' k v \<longleftrightarrow> has_value acc k v \<or> k = key \<and> v = s"
    and "wf_values acc \<Longrightarrow> wf_values acc'"
  using assms by (auto simp: has_value_def wf_values_def split: option.splits)

lemma label_loop:
  assumes "foldM (\<lambda>key acc. do { v \<leftarrow> jget labels key;
         Some (oset key (oset (to_str v) True (case oget acc key of Some o1 \<Rightarrow> o1 | None \<Rightarrow> [])) acc) }) ks acc = Some acc'"
  shows "(has_value acc' k v \<longleftrightarrow> has_value acc k v \<or> k \<in> set ks \<and> map_option to_str (jget labels k) = Some v)
    \<and> (wf_values acc \<longrightarrow> wf_values acc')"
  using assms
proof (induction ks arbitrary: acc)
  case (Cons key ks)
  then obtain w where w: "jget labels key = Some w"
    "foldM (\<lambda>key acc. do { v \<leftarrow> jget labels key;
         Some (oset key (oset (to_str v) True (case oget acc key of Some o1 \<Rightarrow> o1 | None \<Rightarrow> [])) acc) }) ks
      (oset key (oset (to_str w) True (case oget acc key of Some o1 \<Rightarrow> o1 | None \<Rightarrow> [])) acc) = Some acc'"
    by (auto split: option.splits bind_splits)
  show ?case
    using Cons.IH [OF w(2)] w(1) add_value [OF refl, where acc = acc and key = key and s = "to_str w"] by auto
qed simp

lemma collect_loop:
  assumes "foldM (collect_labels h) rs acc = Some acc'"
  shows "(has_value acc' k v \<longleftrightarrow> has_value acc k v \<or> (\<exists>r \<in> set rs. has_label h r k v)) \<and> (wf_values acc \<longrightarrow> wf_values acc')"
  using assms
proof (induction rs arbitrary: acc)
  case (Cons r rs)
  then obtain u where u: "collect_labels h r acc = Some u" "foldM (collect_labels h) rs u = Some acc'"
    by (auto split: option.splits)
  from u(1) obtain x labels where x: "h r = Some x" "metadata_of x ''labels'' = Some labels"
    and l: "foldM (\<lambda>key acc. do { v \<leftarrow> jget labels key;
         Some (oset key (oset (to_str v) True (case oget acc key of Some o1 \<Rightarrow> o1 | None \<Rightarrow> [])) acc) }) (keys_in labels) acc = Some u"
    by (auto simp: collect_labels_def bind_Some_iff)
  have "has_label h r k v \<longleftrightarrow> k \<in> set (keys_in labels) \<and> map_option to_str (jget labels k) = Some v"
    by (simp add: has_label_def x)
  with label_loop [OF l] Cons.IH [OF u(2)] show ?case by auto
qed simp

lemma several_values:
  assumes "wf_obj vs"
  shows "length vs > 1 \<longleftrightarrow> (\<exists>v w. v \<noteq> w \<and> ohas v vs \<and> ohas w vs)"
proof -
  have "length vs = card (set (okeys vs))"
    using assms distinct_card [of "okeys vs"] by (simp add: wf_obj_def)
  moreover have "(1 < card S) \<longleftrightarrow> (\<exists>v w. v \<noteq> w \<and> v \<in> S \<and> w \<in> S)" if "finite S" for S :: "string set"
    using that card_le_Suc0_iff_eq [OF that] by (metis One_nat_def linorder_not_less)
  ultimately show ?thesis by (simp add: ohas_okeys)
qed

lemma interesting_iff:
  assumes "wf_values m"
  shows "ohas k (interesting m) \<longleftrightarrow> k \<in> set includedLabels \<and> (\<exists>v w. v \<noteq> w \<and> has_value m k v \<and> has_value m k w)"
proof -
  have "ohas k (interesting m) \<longleftrightarrow> (\<exists>vs. (k, vs) \<in> set m \<and> length vs > 1) \<and> k \<in> set includedLabels"
    unfolding ohas_okeys interesting_def by (force simp: image_iff)
  also have "\<dots> \<longleftrightarrow> (\<exists>vs. oget m k = Some vs \<and> length vs > 1) \<and> k \<in> set includedLabels"
    using assms by (simp add: wf_values_def wf_obj_in_set)
  also have "\<dots> \<longleftrightarrow> (\<exists>vs. oget m k = Some vs \<and> (\<exists>v w. v \<noteq> w \<and> ohas v vs \<and> ohas w vs)) \<and> k \<in> set includedLabels"
    using assms several_values by (meson wf_values_def)
  finally show ?thesis by (cases "oget m k") (simp_all add: has_value_def conj_commute)
qed

text \<open>
  The table lists the nodes that the filters let through, in the order of the store, and shows a label
  when it is one of the four and two nodes, listed or not, differ in its value.
\<close>

lemma labels_of_interest:
  assumes "extractNodes h resources = Some nr"
  shows "nr_nodes nr = filter (\<lambda>r. is_node h r = Some True) (map snd resources)"
    and "nr_rows nr = filter (\<lambda>r. \<exists>x. h r = Some x \<and> \<not> r_isFiltered x) (nr_nodes nr)"
    and "ohas k (nr_labels nr) \<longleftrightarrow> k \<in> set includedLabels \<and>
       (\<exists>r1 \<in> set (nr_nodes nr). \<exists>r2 \<in> set (nr_nodes nr). \<exists>v w. v \<noteq> w \<and> has_label h r1 k v \<and> has_label h r2 k w)"
proof -
  from assms obtain m where n: "filterM (is_node h) (map snd resources) = Some (nr_nodes nr)"
    and m: "foldM (collect_labels h) (nr_nodes nr) [] = Some m"
    and r: "filterM (\<lambda>r. map_option (\<lambda>x. \<not> r_isFiltered x) (h r)) (nr_nodes nr) = Some (nr_rows nr)"
    and l: "nr_labels nr = interesting m"
    by (auto simp: extractNodes_def bind_Some_iff)
  show "nr_nodes nr = filter (\<lambda>r. is_node h r = Some True) (map snd resources)"
    by (rule filterM_SomeD [OF n])
  show "nr_rows nr = filter (\<lambda>r. \<exists>x. h r = Some x \<and> \<not> r_isFiltered x) (nr_nodes nr)"
    using filterM_SomeD [OF r] by simp
  have none: "\<not> has_value [] k v" for k v by (simp add: has_value_def)
  have wf: "wf_values []" by (simp add: wf_values_def)
  note c = collect_loop [OF m]
  have "wf_values m" using c wf by simp
  then show "ohas k (nr_labels nr) \<longleftrightarrow> k \<in> set includedLabels \<and>
       (\<exists>r1 \<in> set (nr_nodes nr). \<exists>r2 \<in> set (nr_nodes nr). \<exists>v w. v \<noteq> w \<and> has_label h r1 k v \<and> has_label h r2 k w)"
    unfolding l interesting_iff [OF \<open>wf_values m\<close>] using c none by (metis (no_types))
qed

section \<open>The pods of a node after a load\<close>

definition ref_key :: "rstate \<Rightarrow> ref \<Rightarrow> string" where
  "ref_key s r = (case deref s r of Some x \<Rightarrow> key_name x | None \<Rightarrow> [])"

definition ref_node :: "rstate \<Rightarrow> ref \<Rightarrow> string" where
  "ref_node s r = (case do { b \<leftarrow> body_of s r; sp \<leftarrow> jget b ''spec''; jget sp ''nodeName'' } of Some n \<Rightarrow> to_str n | None \<Rightarrow> [])"

definition place_pod :: "rstate \<Rightarrow> ref \<Rightarrow> ref obj obj \<Rightarrow> ref obj obj" where
  "place_pod s r m = oset (ref_node s r)
     (oset (ref_key s r) r (case oget m (ref_node s r) of Some o1 \<Rightarrow> o1 | None \<Rightarrow> [])) m"

text \<open>The references are the same, with the same bodies and keys.\<close>

definition same_objects :: "rstate \<Rightarrow> rstate \<Rightarrow> bool" where
  "same_objects s t \<longleftrightarrow> heap_frame (st_heap s) (st_heap t)"

lemma same_objects_trans [trans]: "same_objects s t \<Longrightarrow> same_objects t u \<Longrightarrow> same_objects s u"
  by (auto simp: same_objects_def intro: heap_frame_trans)

lemma same_objects_frame: "frame s t \<Longrightarrow> same_objects s t"
  by (simp add: same_objects_def frame_heap)

lemma same_objects_heap: "st_heap t = st_heap s \<Longrightarrow> same_objects s t"
  by (simp add: same_objects_def)

lemma same_objects_reads:
  assumes "same_objects s t"
  shows "ref_key t r = ref_key s r" "ref_node t r = ref_node s r" "ref_is_pod t r = ref_is_pod s r"
    "counted t r = counted s r" "place_pod t r = place_pod s r"
proof -
  have b: "body_of t r = body_of s r"
    using assms heap_frame_None [of "st_heap s" "st_heap t" r] heap_frame_Some [of "st_heap s" "st_heap t" r]
    by (cases "st_heap s r") (auto simp: same_objects_def body_of_def same_identity_def)
  show k: "ref_key t r = ref_key s r"
    using assms heap_frame_None [of "st_heap s" "st_heap t" r] heap_frame_Some [of "st_heap s" "st_heap t" r]
    by (cases "st_heap s r") (auto simp: same_objects_def ref_key_def deref_def key_name_def same_identity_def)
  show n: "ref_node t r = ref_node s r" by (simp add: ref_node_def b)
  show "ref_is_pod t r = ref_is_pod s r" "counted t r = counted s r"
    by (simp_all add: ref_is_pod_def counted_def ref_kind_def b)
  show "place_pod t r = place_pod s r" by (simp add: place_pod_def k n fun_eq_iff)
qed

lemma same_objects_version: "updateVersionByKind r s = Some t \<Longrightarrow> same_objects s t \<and> st_podsByNode t = st_podsByNode s"
  by (auto simp: updateVersionByKind_def bind_Some_iff Let_def same_objects_def)

lemma same_objects_count: "updateResourceCounts r s = Some t \<Longrightarrow> same_objects s t \<and> st_podsByNode t = st_podsByNode s"
  by (auto simp: updateResourceCounts_def bind_Some_iff Let_def same_objects_def)

lemma updatePodCount_places:
  assumes "updatePodCount r s = Some t"
  shows "same_objects s t \<and> st_podsByNode t = (if ref_is_pod s r then place_pod s r (st_podsByNode s) else st_podsByNode s)"
proof -
  from assms obtain x kind where x: "deref s r = Some x" "kind_of x = Some kind"
    by (auto simp: updatePodCount_def bind_Some_iff)
  have b: "body_of s r = Some (r_body x)" using x by (simp add: body_of_def deref_def)
  show ?thesis
  proof (cases "kind = JStr ''Pod''")
    case True
    with x assms obtain sp node where n: "rget x ''spec'' = Some sp" "jget sp ''nodeName'' = Some node"
      "t = s\<lparr>st_podCount := st_podCount s + 1, st_podsByNode := oset (to_str node) (oset (key_name x) r
         (case oget (st_podsByNode s) (to_str node) of Some o1 \<Rightarrow> o1 | None \<Rightarrow> [])) (st_podsByNode s)\<rparr>"
      by (auto simp: updatePodCount_def bind_Some_iff Let_def)
    then have "ref_node s r = to_str node" "ref_key s r = key_name x"
      by (simp_all add: ref_node_def ref_key_def b x rget_def [symmetric])
    with n(3) x True show ?thesis by (simp add: place_pod_def same_objects_def ref_is_pod_deref)
  next
    case False
    with x assms show ?thesis by (simp add: updatePodCount_def ref_is_pod_deref same_objects_def)
  qed
qed

text \<open>What the first steps of the visitor leave alone.\<close>

lemma frame_visited:
  assumes "registerOwned fuel now False r (upd_res r (\<lambda>x. x\<lparr>r_statusSummary := status\<rparr>) s) = Some s2"
    "updateRelatedResources False r s2 = Some s3"
  shows "frame s s3"
proof -
  have "frame s (upd_res r (\<lambda>x. x\<lparr>r_statusSummary := status\<rparr>) s)"
    by (rule frame_upd_res) (simp add: same_identity_def)
  also note frame_registerOwned [OF assms(1)]
  also note frame_updateRelatedResources [OF assms(2)]
  finally show ?thesis .
qed

lemma receive_visitor_places:
  assumes "receive_visitor fuel now kk r s = Some t"
  shows "same_objects s t \<and> st_podsByNode t =
    (if counted s r \<and> ref_is_pod s r then place_pod s r (st_podsByNode s) else st_podsByNode s)"
  using assms
proof (cases rule: receive_visitor_cases)
  case (excluded x kind status s2)
  have "\<not> counted s r" using excluded ref_kind_deref by (simp add: counted_def)
  moreover have f: "frame s t" by (rule frame_visited [OF excluded(4,5)])
  ultimately show ?thesis by (simp add: same_objects_frame frame_fields)
next
  case (indexed x kind status g s2 s3 s4 s5 s6 s7)
  have c: "counted s r" using indexed ref_kind_deref by (simp add: counted_def)
  note frame_visited [OF indexed(4,5)]
  also note frame_updateProblemResources [OF indexed(6)]
  also note frame_filter_and_complete [OF indexed(7)]
  finally have f: "frame s s5" .
  have s6: "same_objects s s6" "st_podsByNode s6 = st_podsByNode s"
    using same_objects_trans [OF same_objects_frame [OF f]] same_objects_version [OF indexed(8)] frame_fields(16) [OF f] by auto
  show ?thesis
    using c s6 updatePodCount_places [OF indexed(9)] same_objects_count [OF indexed(10)] same_objects_reads [OF s6(1)]
    by (auto intro: same_objects_trans)
qed

lemma receive_loop_places:
  assumes "foldM (receive_visitor fuel now kk) rs s = Some t"
  shows "same_objects s t
    \<and> st_podsByNode t = fold (place_pod s) (filter (\<lambda>r. counted s r \<and> ref_is_pod s r) rs) (st_podsByNode s)"
  using assms
proof (induction rs arbitrary: s)
  case (Cons r rs)
  from Cons.prems obtain u where u: "receive_visitor fuel now kk r s = Some u"
    "foldM (receive_visitor fuel now kk) rs u = Some t" by (auto split: option.splits)
  from receive_visitor_places [OF u(1)] have so: "same_objects s u" by simp
  have reads: "place_pod u = place_pod s" "counted u = counted s" "ref_is_pod u = ref_is_pod s"
    by (simp_all add: fun_eq_iff same_objects_reads [OF so])
  show ?case
    using Cons.IH [OF u(2)] receive_visitor_places [OF u(1)] so
    by (auto simp: reads intro: same_objects_trans)
qed (simp add: same_objects_def)

text \<open>Under distinct keys the loop files every pod under its node, in the order of arrival.\<close>

lemma fold_place:
  assumes "distinct (map (ref_key s) rs)"
  shows "oget (fold (place_pod s) rs []) n =
    (let on = filter (\<lambda>r. ref_node s r = n) rs in if on = [] then None else Some (map (\<lambda>r. (ref_key s r, r)) on))"
  using assms
proof (induction rs rule: rev_induct)
  case (snoc r rs)
  let ?on = "filter (\<lambda>q. ref_node s q = ref_node s r) rs"
  have fresh: "ref_key s r \<notin> fst ` set (map (\<lambda>q. (ref_key s q, q)) ?on)"
    using snoc.prems by (auto simp: image_iff)
  have add: "oset (ref_key s r) r (map (\<lambda>q. (ref_key s q, q)) ?on) = map (\<lambda>q. (ref_key s q, q)) ?on @ [(ref_key s r, r)]"
    by (rule oset_fresh [OF fresh])
  show ?case
  proof (cases "ref_node s r = n")
    case True
    have "(case oget (fold (place_pod s) rs []) (ref_node s r) of Some o1 \<Rightarrow> o1 | None \<Rightarrow> []) = map (\<lambda>q. (ref_key s q, q)) ?on"
      using snoc True by (simp add: Let_def)
    with True add show ?thesis by (simp add: place_pod_def [of s r])
  next
    case False
    with snoc show ?thesis by (simp add: place_pod_def [of s r])
  qed
qed simp

lemma distinct_map_filter_of: "distinct (map f xs) \<Longrightarrow> distinct (map f (filter P xs))"
  by (induction xs) auto

lemma loaded_pods:
  assumes "doReceiveResources fuel now rs kk s = Some t" "distinct (okeys rs)"
    and "\<forall>(k, r) \<in> set rs. \<exists>y. deref s r = Some y \<and> key_name y = k"
  shows "pods_on (st_heap t) (st_podsByNode t) n =
    Some (filter (\<lambda>r. ref_is_pod s r \<and> ref_node s r = n \<and> (\<exists>y. deref t r = Some y \<and> \<not> r_isFiltered y)) (map snd rs))"
  using assms(1)
proof (cases rule: doReceiveResources_cases)
  case (1 s1)
  let ?s0 = "receive_start now rs s"
  have s0: "same_objects s ?s0" "st_podsByNode ?s0 = []" by (simp_all add: same_objects_def receive_start_def)
  have loop: "same_objects ?s0 s1"
    "st_podsByNode s1 = fold (place_pod ?s0) (filter (\<lambda>r. counted ?s0 r \<and> ref_is_pod ?s0 r) (map snd rs)) []"
    using receive_loop_places [OF 1(1) [unfolded visitResources_def]] s0(2) by auto
  have pod: "counted ?s0 r \<and> ref_is_pod ?s0 r \<longleftrightarrow> ref_is_pod s r" for r
    unfolding same_objects_reads [OF s0(1)]
    by (auto simp: ref_is_pod_def counted_def ref_kind_def excludedKinds_def bind_Some_iff split: option.splits)
  let ?pods = "filter (ref_is_pod s) (map snd rs)"
  have placer: "place_pod ?s0 = place_pod s" by (rule ext) (rule same_objects_reads(5) [OF s0(1)])
  have filed: "st_podsByNode t = fold (place_pod s) ?pods []"
    using loop(2) unfolding placer by (simp add: 1(2) pod cong: filter_cong)
  have keys: "map (ref_key s) (map snd rs) = okeys rs"
    using assms(3) by (auto simp: ref_key_def)
  have "distinct (map (ref_key s) ?pods)"
    using assms(2) unfolding keys [symmetric] by (rule distinct_map_filter_of)
  note placed = fold_place [OF this, of n, folded filed]
  have heap: "st_heap t = st_heap s1" by (simp add: 1(2))
  have same: "heap_frame (st_heap s) (st_heap t)"
    using same_objects_trans [OF s0(1) loop(1)] by (simp add: same_objects_def heap)
  have live: "st_heap t r \<noteq> None" if r: "r \<in> set (map snd rs)" for r
  proof -
    from r assms(3) have "st_heap s r \<noteq> None" by (force simp: deref_def)
    with heap_frame_None [OF same, of r] show ?thesis by simp
  qed
  let ?on = "filter (\<lambda>r. ref_node s r = n) ?pods"
  have f: "filterM (\<lambda>r. map_option (\<lambda>x. \<not> r_isFiltered x) (st_heap t r)) ?on
      = Some (filter (\<lambda>r. \<exists>y. deref t r = Some y \<and> \<not> r_isFiltered y) ?on)"
    using live by (auto simp: filterM_eq deref_def)
  have "?on = [] \<Longrightarrow> filter (\<lambda>r. ref_is_pod s r \<and> ref_node s r = n \<and> (\<exists>y. deref t r = Some y \<and> \<not> r_isFiltered y)) (map snd rs) = []"
    by (auto simp: filter_empty_conv)
  with placed f show ?thesis
    by (simp add: pods_on_def unfiltered_def Let_def comp_def conj_ac)
qed

text \<open>C27: After a load the row of a node shows as its pods the number of received pods that run on the node and pass
  the filters, and as its containers the sum of their containers; the table sorts by the same numbers.\<close>

theorem nodes_show_loaded_pods:
  assumes "doReceiveResources fuel now rs kk s = Some t" "distinct (okeys rs)"
    and "\<forall>(k, r) \<in> set rs. \<exists>y. deref s r = Some y \<and> key_name y = k"
    and "row_name x = Some n" "np_heap props = st_heap t" "np_podsByNode props = st_podsByNode t"
    and "on = filter (\<lambda>r. ref_is_pod s r \<and> ref_node s r = n \<and> (\<exists>y. deref t r = Some y \<and> \<not> r_isFiltered y)) (map snd rs)"
    and "\<forall>r \<in> set on. container_count (st_heap t) r = Some (Some (c r))"
  shows "renderCell_node props labels hum now' ''pods'' x = Some (NodeNumber (of_nat (length on)))
    \<and> getCellValue_node props ''pods'' x = Some (NodeNumber (of_nat (length on)))
    \<and> renderCell_node props labels hum now' ''containers'' x = Some (NodeNumber (of_int (\<Sum>r\<leftarrow>on. c r)))
    \<and> getCellValue_node props ''containers'' x = Some (NodeNumber (of_int (\<Sum>r\<leftarrow>on. c r)))"
proof -
  have sum: "foldM (\<lambda>r acc. map_option (\<lambda>n. case (acc, n) of (Some a, Some b) \<Rightarrow> Some (a + b) | _ \<Rightarrow> None) (container_count h r))
      rs (Some a) = Some (Some (a + (\<Sum>r\<leftarrow>rs. c r)))"
    if "\<forall>r \<in> set rs. container_count h r = Some (Some (c r))" for h rs a
    using that by (induction rs arbitrary: a) (simp_all add: add.assoc)
  have "node_containers (st_heap t) on = Some (Some (\<Sum>r\<leftarrow>on. c r))"
    using sum [OF assms(8), of 0] by (simp add: node_containers_def)
  moreover have "pods_on (st_heap t) (st_podsByNode t) n = Some on"
    using loaded_pods [OF assms(1-3)] assms(7) by simp
  ultimately show ?thesis
    using assms(4-6)
    by (simp add: renderCell_node_def getCellValue_node_def column_stat_def pods_cell_def int_cell_def)
qed

definition demo_node :: resource where
  "demo_node = fresh_resource (JObj [(''kind'', JStr ''Node''), (''metadata'', JObj [(''name'', JStr ''n1'')])])"

definition demo_nodes_props :: nodes_props where
  "demo_nodes_props = \<lparr>np_heap = st_heap demo_loaded, np_metrics = None, np_podsByNode = st_podsByNode demo_loaded\<rparr>"

theorem nodes_show_loaded_pods_witness:
  "renderCell_node demo_nodes_props [] (\<lambda>_. []) 0 ''pods'' demo_node = Some (NodeNumber 1)
   \<and> renderCell_node demo_nodes_props [] (\<lambda>_. []) 0 ''containers'' demo_node = Some (NodeNumber 1)"
proof -
  let ?on = "filter (\<lambda>r. ref_is_pod demo_parsed r \<and> ref_node demo_parsed r = ''n1''
     \<and> (\<exists>y. deref demo_loaded r = Some y \<and> \<not> r_isFiltered y)) (map snd demo_batch)"
  have facts: "ref_is_pod demo_parsed 0 = False" "ref_is_pod demo_parsed 1 = True" "ref_node demo_parsed 1 = ''n1''"
    "map_option r_isFiltered (deref demo_loaded 1) = Some False"
    "container_count (st_heap demo_loaded) 1 = Some (Some 1)" by code_simp+
  have on: "?on = [1]" using facts by (auto simp: demo_batch_def)
  have keys: "\<forall>(k, r) \<in> set demo_batch. \<exists>y. deref demo_parsed r = Some y \<and> key_name y = k"
  proof -
    have "map_option key_name (deref demo_parsed 0) = Some ''ReplicaSet/ns/rs''"
      "map_option key_name (deref demo_parsed 1) = Some ''Pod/ns/p''" by code_simp+
    then show ?thesis by (auto simp: demo_batch_def)
  qed
  have "row_name demo_node = Some ''n1''" by code_simp
  from nodes_show_loaded_pods [OF demo_run _ keys this _ _ refl, of demo_nodes_props "\<lambda>_. 1"] show ?thesis
    unfolding on using facts(5) by (simp add: demo_nodes_props_def demo_batch_def)
qed

section \<open>Pods that move are not counted\<close>

text \<open>
  The reducer files a pod only when it arrives as new. A pod is announced before it is scheduled, and
  its modification with a node does not file it: the node's row misses it until the next load.
\<close>

lemma doSelectResource_pods: "doSelectResource fuel ns k n s = Some t \<Longrightarrow> st_podsByNode t = st_podsByNode s"
  unfolding doSelectResource_def bind_Some_iff Let_def
  by (elim exE conjE) (simp split: option.splits, auto simp: bind_Some_iff)

lemma modified_pod_is_not_filed:
  assumes "doUpdateResource fuel now r False kk s = Some t"
  shows "st_podsByNode t = st_podsByNode s"
  using assms
proof (cases rule: doUpdateResource_cases)
  case ignored
  then show ?thesis by (simp add: upd_res_def)
next
  case (accepted x0 kv kind s1 s2)
  have two: "st_podsByNode s2 = st_podsByNode s"
    using frame_fields(16) [OF frame_updateRelatedResources [OF accepted(6)]] by (simp add: accepted(4) upd_res_def)
  show ?thesis
  proof (cases "to_str kind \<in> set excludedKinds")
    case True
    with accepted(7) two show ?thesis by simp
  next
    case False
    with accepted(7) have "index_update fuel now (st_resources s1) (to_str kv) r False kind kk s2 = Some t" by simp
    then obtain g status s3 s4 s5 s6 s8 s9 where st:
      "registerOwned fuel now False r (upd_res r (\<lambda>x. x\<lparr>r_statusSummary := status\<rparr>) s2) = Some s3"
      "updateProblemResources r s3 = Some s4" "updateVersionByKind r s4 = Some s5"
      "count_new False r s5 = Some s6"
      "copy_owned (st_resources s1) (oget (st_resources s1) (to_str kv)) r
         (bump_revision (False \<or> \<not> strict_eq kind (JStr ''Endpoints'')) s6) = Some s8"
      "reselect fuel r s8 = Some s9" "filter_and_complete g r s9 = Some t"
      by (rule index_updateE)
    have "st_podsByNode s9 = st_podsByNode s8"
      using st(6) by (auto simp: reselect_def bind_Some_iff split: if_splits dest: doSelectResource_pods)
    then show ?thesis
      using two frame_fields(16) [OF frame_registerOwned [OF st(1)]] frame_fields(16) [OF frame_updateProblemResources [OF st(2)]]
        same_objects_version [OF st(3)] st(4) frame_fields(16) [OF frame_copy_owned [OF st(5)]]
        frame_fields(16) [OF frame_filter_and_complete [OF st(7)]]
      by (simp add: count_new_def bump_revision_def upd_res_def split: if_splits)
  qed
qed

end
