(* ===== verification/Tabs.thy ===== *)
theory Tabs
  imports Pages
begin

text \<open>
  The tables of the access page and of the cluster page: \<^verbatim>\<open>src/components/access/ResourcesTab.js\<close> and
  \<^verbatim>\<open>src/components/cluster/ClusterResourceTab.js\<close>, with the handlers of
  \<^verbatim>\<open>src/components/cluster/NodesTab.js\<close>, which are the same. \<^term>\<open>None\<close> is an exception.
\<close>

section \<open>The access page\<close>

record access_tab =
  at_actionsOpen :: bool
  at_deleteOpen :: bool
  at_hoveredRow :: int
  at_hovered :: "ref option"
  at_access :: "json obj option"
  at_selected :: "target list"
  at_selectedIds :: "string list"
  at_deleteEnabled :: bool
  at_suspendEnabled :: bool
  at_deleteDisabled :: bool
  at_actionsClicked :: bool

definition new_access_tab :: access_tab where
  "new_access_tab = \<lparr>at_actionsOpen = False, at_deleteOpen = False, at_hoveredRow = - 1, at_hovered = None,
     at_access = None, at_selected = [], at_selectedIds = [], at_deleteEnabled = False, at_suspendEnabled = False,
     at_deleteDisabled = True, at_actionsClicked = False\<rparr>"

definition resourcesToRows_access :: "page_props \<Rightarrow> json obj option \<Rightarrow> (ref list \<times> json obj) option" where
  "resourcesToRows_access props remembered = do {
     kinds \<leftarrow> page_kinds ''access'' (pp_kinds props) remembered;
     rows \<leftarrow> filterM (\<lambda>r. do {
        x \<leftarrow> pp_heap props r;
        if r_isFiltered x then Some False else map_option (\<lambda>k. ohas (to_str k) kinds) (kind_of x)
      }) (map snd (pp_resources props));
     Some (rows, kinds)
   }"

definition handleActionsRequestClose_access :: "access_tab \<Rightarrow> access_tab" where
  "handleActionsRequestClose_access w = w\<lparr>at_actionsOpen := False, at_hoveredRow := - 1, at_hovered := None\<rparr>"

text \<open>\<^verbatim>\<open>'spec' in resource && !!resource.spec.replicas\<close>; it throws for a key that the store lacks.\<close>

definition has_replica_count :: "page_props \<Rightarrow> string \<Rightarrow> bool option" where
  "has_replica_count props i = do {
     r \<leftarrow> oget (pp_resources props) i; x \<leftarrow> pp_heap props r;
     has \<leftarrow> jhas ''spec'' (r_body x);
     if has then do { sp \<leftarrow> rget x ''spec''; n \<leftarrow> jget sp ''replicas''; Some (truthy n) } else Some False
   }"

fun canSuspend_access :: "page_props \<Rightarrow> string list \<Rightarrow> bool option" where
  "canSuspend_access props [] = Some False"
| "canSuspend_access props (i # ids) = do {
     b \<leftarrow> has_replica_count props i;
     if b then Some True else canSuspend_access props ids
   }"

definition canDelete :: "string list \<Rightarrow> bool" where
  "canDelete ids \<longleftrightarrow> length ids > 0"

definition handleRowSelection_access :: "page_props \<Rightarrow> string list \<Rightarrow> access_tab \<Rightarrow> access_tab option" where
  "handleRowSelection_access props ids w =
     (if at_actionsClicked w then Some w
      else map_option (\<lambda>suspend.
             w\<lparr>at_selectedIds := ids, at_deleteEnabled := canDelete ids, at_suspendEnabled := suspend,
               at_deleteDisabled := \<not> canDelete ids\<rparr>)
             (canSuspend_access props ids))"

definition handleCellClick_access :: "ref \<Rightarrow> string \<Rightarrow> access_tab \<Rightarrow> access_tab \<times> command list" where
  "handleCellClick_access r col w =
     (if col = ''actions'' then (w\<lparr>at_actionsClicked := True\<rparr>, [])
      else (w\<lparr>at_actionsClicked := False\<rparr>, [ViewResource (Chosen r) ''config'']))"

definition access_arrives_access :: "nat \<Rightarrow> ref \<Rightarrow> json obj \<Rightarrow> access_tab \<Rightarrow> access_tab" where
  "access_arrives_access row r access w =
     w\<lparr>at_actionsOpen := True, at_hoveredRow := int row, at_hovered := Some r, at_access := Some access\<rparr>"

text \<open>Here any argument is taken for a resource.\<close>

definition handleDelete_access :: "page_props \<Rightarrow> target option \<Rightarrow> access_tab \<Rightarrow> access_tab" where
  "handleDelete_access props arg w =
     w\<lparr>at_selected := (case arg of Some t \<Rightarrow> [t] | None \<Rightarrow> map (lookup_target props) (at_selectedIds w)),
       at_deleteOpen := True, at_actionsOpen := False\<rparr>"

definition handleRequestCloseDelete_access :: "access_tab \<Rightarrow> access_tab" where
  "handleRequestCloseDelete_access w = w\<lparr>at_deleteOpen := False, at_selected := []\<rparr>"

definition handleConfirmDelete_access :: "page_props \<Rightarrow> access_tab \<Rightarrow> (access_tab \<times> command list) option" where
  "handleConfirmDelete_access props w = do {
     w1 \<leftarrow> handleRowSelection_access props [] (w\<lparr>at_selected := [], at_deleteOpen := False\<rparr>);
     Some (w1, [RemoveResources (at_selected w)])
   }"

definition componentDidUpdate_access :: "access_tab \<Rightarrow> access_tab" where
  "componentDidUpdate_access w = (if at_actionsOpen w then w else w\<lparr>at_actionsClicked := False\<rparr>)"

text \<open>
  The entries of the row's menu: only these three have handlers. Any other action that the permissions
  allow is shown without one, and throws when it is chosen, after the menu has closed.
\<close>

definition menu_access :: "page_props \<Rightarrow> string \<Rightarrow> access_tab \<Rightarrow> (access_tab \<times> command list) option" where
  "menu_access props name w =
     (if name = ''edit'' then
        Some (handleActionsRequestClose_access w,
              [ViewResource (case at_hovered w of Some r \<Rightarrow> Chosen r | None \<Rightarrow> Missing) ''edit''])
      else if name = ''delete'' then Some (handleActionsRequestClose_access (handleDelete_access props None w), [])
      else None)"

definition delete_dialog :: "heap \<Rightarrow> access_tab \<Rightarrow> target list option option" where
  "delete_dialog h w =
     (if \<not> at_deleteOpen w then Some None
      else if dialog_ok h (at_selected w) then Some (Some (at_selected w)) else None)"

text \<open>The cells: \<^verbatim>\<open>renderCell\<close> and \<^verbatim>\<open>getCellValue\<close>.\<close>

definition renderCell_access :: "(int option \<Rightarrow> string) \<Rightarrow> int \<Rightarrow> string \<Rightarrow> resource \<Rightarrow> cell option" where
  "renderCell_access humanize now column x =
     (if column = ''name'' then map_option CellValue (metadata_of x ''name'')
      else if column = ''namespace'' then map_option CellValue (metadata_of x ''namespace'')
      else if column = ''kind'' then map_option CellValue (kind_of x)
      else if column = ''actions'' then Some ActionsIcon
      else if column = ''age'' then do {
        created \<leftarrow> metadata_of x ''creationTimestamp'';
        Some (CellValue (JStr (toHumanizedAge humanize now (age_of now created))))
      }
      else if column = ''status'' then Some (StatusIcon (r_statusSummary x))
      else if column = ''pods'' then do {
        kind \<leftarrow> kind_of x;
        if kind \<in> {JStr ''Deployment'', JStr ''ReplicaSet'', JStr ''ReplicationController''} then do {
          st \<leftarrow> rget x ''status''; n \<leftarrow> jget st ''readyReplicas''; sp \<leftarrow> rget x ''spec''; m \<leftarrow> jget sp ''replicas'';
          Some (CellValue (JStr (to_str (js_or n (JNum 0)) @ '' / '' @ to_str m)))
        } else if kind = JStr ''StatefulSet'' then do {
          st \<leftarrow> rget x ''status''; n \<leftarrow> jget st ''replicas''; sp \<leftarrow> rget x ''spec''; m \<leftarrow> jget sp ''replicas'';
          Some (CellValue (JStr (to_str (js_or n (JNum 0)) @ '' / '' @ to_str m)))
        } else Some (CellValue (JStr []))
      }
      else Some (CellValue (JStr [])))"

definition getCellValue_access :: "string \<Rightarrow> resource \<Rightarrow> json option" where
  "getCellValue_access column x =
     (if column = ''id'' then Some (case r_key x of Some k \<Rightarrow> JStr k | None \<Rightarrow> JUndef)
      else if column = ''name'' then metadata_of x ''name''
      else if column = ''namespace'' then metadata_of x ''namespace''
      else if column = ''kind'' then kind_of x
      else if column = ''age'' then metadata_of x ''creationTimestamp''
      else if column = ''status'' then Some (r_statusSummary x)
      else if column = ''pods'' then do {
        kind \<leftarrow> kind_of x;
        if kind \<in> {JStr ''Deployment'', JStr ''ReplicaSet'', JStr ''ReplicationController''} then do {
          st \<leftarrow> rget x ''status''; n \<leftarrow> jget st ''readyReplicas''; Some (js_or n (JNum 0))
        } else if kind = JStr ''StatefulSet'' then do {
          st \<leftarrow> rget x ''status''; n \<leftarrow> jget st ''replicas''; Some (js_or n (JNum 0))
        } else Some (JNum (- 1))
      }
      else Some (JStr []))"

text \<open>The access page repeats the cells of the workloads page; they agree on every column without metrics.\<close>

lemma access_cells_agree:
  assumes "column \<notin> {''cpu_utilized'', ''mem_utilized'', ''disk_utilized''}"
  shows "renderCell_access hum now column x = renderResourceCell fuel h hum now column x podMetrics"
    and "getCellValue_access column x = getResourceCellValue fuel h column x podMetrics"
proof -
  have pods: "ready_pods x = do {
      kind \<leftarrow> kind_of x;
      if kind \<in> {JStr ''Deployment'', JStr ''ReplicaSet'', JStr ''ReplicationController''} then do {
        st \<leftarrow> rget x ''status''; n \<leftarrow> jget st ''readyReplicas''; Some (Some (js_or n (JNum 0)))
      } else if kind = JStr ''StatefulSet'' then do {
        st \<leftarrow> rget x ''status''; n \<leftarrow> jget st ''replicas''; Some (Some (js_or n (JNum 0)))
      } else Some None }"
    by (simp add: ready_pods_def replica_controllers_def cong: if_cong)
  show "renderCell_access hum now column x = renderResourceCell fuel h hum now column x podMetrics"
    using assms unfolding renderCell_access_def renderResourceCell_def pods
    by (auto split: Option.bind_split option.splits)
  show "getCellValue_access column x = getResourceCellValue fuel h column x podMetrics"
    using assms unfolding getCellValue_access_def getResourceCellValue_def pods
    by (auto split: Option.bind_split option.splits)
qed

text \<open>The delete button hands over its event: the dialog that would ask throws, and nothing is deleted.\<close>

lemma access_delete_button_throws:
  "delete_dialog h (handleDelete_access props (Some TapEvent) w) = None"
  by (simp add: delete_dialog_def handleDelete_access_def dialog_ok_def)

lemma access_confirm_removes_shown:
  assumes "delete_dialog h w = Some (Some ts)" "handleConfirmDelete_access props w = Some (w1, cs)"
  shows "cs = [RemoveResources ts]" "delete_dialog h w1 = Some None"
  using assms
  by (auto simp: delete_dialog_def handleConfirmDelete_access_def handleRowSelection_access_def bind_Some_iff split: if_splits)

section \<open>The tabs of the cluster page\<close>

text \<open>
  A cell is a value, or chips with a prefix, a text and the key of the resource they lead to. A
  column has an id, says whether a click on it does nothing, how it renders, and what it is sorted by.
\<close>

datatype tab_cell =
    TabValue json
  | TabChips "(string \<times> string \<times> string) list"
  | TabActions

record tab_column =
  tc_id :: string
  tc_clickDisabled :: bool
  tc_render :: "(resource \<Rightarrow> tab_cell option) option"
  tc_value :: "(resource \<Rightarrow> json option) option"

record cluster_tab =
  ct_actionsOpen :: bool
  ct_hoveredRow :: int
  ct_hovered :: "ref option"
  ct_selectedIds :: "string list"
  ct_actionsClicked :: bool

definition new_cluster_tab :: cluster_tab where
  "new_cluster_tab = \<lparr>ct_actionsOpen = False, ct_hoveredRow = - 1, ct_hovered = None, ct_selectedIds = [], ct_actionsClicked = False\<rparr>"

definition plain_column :: "string \<Rightarrow> tab_column" where
  "plain_column i = \<lparr>tc_id = i, tc_clickDisabled = False, tc_render = None, tc_value = None\<rparr>"

definition defaultColumns :: "tab_column list" where
  "defaultColumns = [plain_column ''name'', plain_column ''modified'']"

text \<open>
  The columns of a new tab. The array is extended in place: it is that of the caller, or the default
  one, which all tabs without columns of their own share. An empty array throws.
\<close>

definition tab_columns :: "bool \<Rightarrow> bool \<Rightarrow> tab_column list \<Rightarrow> tab_column list option" where
  "tab_columns deletable editable cols =
     (if cols = [] then None
      else if tc_id (last cols) \<noteq> ''pad_right'' \<and> tc_id (last cols) \<noteq> ''actions'' then
        Some (cols @ [plain_column (if deletable \<or> editable then ''actions'' else ''pad_right'')])
      else Some cols)"

text \<open>The rows: every resource of the kind, filtered or not.\<close>

definition cluster_rows :: "page_props \<Rightarrow> string \<Rightarrow> ref list option" where
  "cluster_rows props kind =
     filterM (\<lambda>r. do { x \<leftarrow> pp_heap props r; k \<leftarrow> kind_of x; Some (strict_eq k (JStr kind)) }) (map snd (pp_resources props))"

definition column_by_id :: "tab_column list \<Rightarrow> string \<Rightarrow> tab_column option" where
  "column_by_id cols i = map_of (rev (map (\<lambda>c. (tc_id c, c)) cols)) i"

definition handleActionsRequestClose_cluster :: "cluster_tab \<Rightarrow> cluster_tab" where
  "handleActionsRequestClose_cluster w = w\<lparr>ct_actionsOpen := False, ct_hoveredRow := - 1, ct_hovered := None\<rparr>"

text \<open>There is no \<^verbatim>\<open>deleteButton\<close> in these tabs.\<close>

definition handleRowSelection_cluster :: "string list \<Rightarrow> cluster_tab \<Rightarrow> cluster_tab option" where
  "handleRowSelection_cluster ids w = (if ct_actionsClicked w then Some w else None)"

definition handleCellClick_cluster :: "nat \<Rightarrow> ref \<Rightarrow> tab_column \<Rightarrow> cluster_tab \<Rightarrow> cluster_tab \<times> command list" where
  "handleCellClick_cluster row r col w =
     (if tc_id col = ''actions'' then
        (w\<lparr>ct_actionsClicked := True, ct_actionsOpen := True, ct_hoveredRow := int row, ct_hovered := Some r\<rparr>, [])
      else (w\<lparr>ct_actionsClicked := False\<rparr>,
            if tc_clickDisabled col then [] else [ViewResource (Chosen r) ''config'']))"

text \<open>The deletion takes no argument and asks for no confirmation.\<close>

definition handleDelete_cluster :: "page_props \<Rightarrow> cluster_tab \<Rightarrow> (cluster_tab \<times> command list) option" where
  "handleDelete_cluster props w =
     (if ct_selectedIds w = [] then Some (w, [])
      else map_option (\<lambda>w1. (w1, [RemoveResources (map (lookup_target props) (ct_selectedIds w))]))
             (handleRowSelection_cluster [] w))"

definition getCellValue_cluster :: "tab_column list \<Rightarrow> string \<Rightarrow> resource \<Rightarrow> json option" where
  "getCellValue_cluster cols i x =
     (if i = ''id'' then Some (case r_key x of Some k \<Rightarrow> JStr k | None \<Rightarrow> JUndef)
      else do { c \<leftarrow> column_by_id cols i; (case tc_value c of Some f \<Rightarrow> f x | None \<Rightarrow> Some (JStr [])) })"

definition renderCell_cluster :: "tab_column list \<Rightarrow> string \<Rightarrow> resource \<Rightarrow> tab_cell option" where
  "renderCell_cluster cols i x =
     (if i = ''actions'' then Some TabActions
      else do {
        c \<leftarrow> column_by_id cols i;
        (case tc_render c of Some f \<Rightarrow> f x | None \<Rightarrow> map_option TabValue (getCellValue_cluster cols i x))
      })"

text \<open>
  What a user can do: click a cell, choose an entry of the popover, or close it. The table has no
  checkboxes.
\<close>

inductive cluster_step :: "page_props \<Rightarrow> tab_column list \<Rightarrow> cluster_tab \<Rightarrow> command list \<Rightarrow> cluster_tab \<Rightarrow> bool" where
  click: "c \<in> set cols \<Longrightarrow> handleCellClick_cluster row r c w = (w1, cs) \<Longrightarrow> cluster_step props cols w cs w1"
| edit: "ct_hovered w = Some r \<Longrightarrow> ct_actionsOpen w \<Longrightarrow> cluster_step props cols w [ViewResource (Chosen r) ''edit''] w"
| delete: "ct_hovered w = Some r \<Longrightarrow> ct_actionsOpen w \<Longrightarrow> handleDelete_cluster props w = Some (w1, cs) \<Longrightarrow>
    cluster_step props cols w cs w1"
| close: "cluster_step props cols w [] (handleActionsRequestClose_cluster w)"

inductive cluster_run :: "cluster_tab \<Rightarrow> cluster_tab \<Rightarrow> bool" where
  start: "cluster_run w w"
| more: "cluster_run w w1 \<Longrightarrow> cluster_step props cols w1 cs w2 \<Longrightarrow> cluster_run w w2"

text \<open>The delete entry of these tabs never deletes anything: no row is ever selected.\<close>

lemma cluster_step_ids: "cluster_step props cols w cs w1 \<Longrightarrow> ct_selectedIds w = [] \<Longrightarrow> ct_selectedIds w1 = []"
  by (induction rule: cluster_step.induct)
    (auto simp: handleCellClick_cluster_def handleDelete_cluster_def handleActionsRequestClose_cluster_def split: if_splits)

lemma cluster_run_ids: "cluster_run w w1 \<Longrightarrow> ct_selectedIds w = [] \<Longrightarrow> ct_selectedIds w1 = []"
  by (induction rule: cluster_run.induct) (auto dest: cluster_step_ids)

lemma cluster_never_deletes:
  assumes "cluster_run new_cluster_tab w" "cluster_step props cols w cs w1"
  shows "RemoveResources ts \<notin> set cs"
proof -
  have "ct_selectedIds w = []" by (rule cluster_run_ids [OF assms(1)]) (simp add: new_cluster_tab_def)
  with assms(2) show ?thesis
    by (cases rule: cluster_step.cases)
      (auto simp: handleCellClick_cluster_def handleDelete_cluster_def split: if_splits)
qed

text \<open>
  Opening a second tab adds no second column, but a tab without actions shows the column of
  actions when one with actions was opened before it on the shared default columns.
\<close>

lemma tab_columns_idem: "tab_columns d e cols = Some cols1 \<Longrightarrow> tab_columns d' e' cols1 = Some cols1"
  by (auto simp: tab_columns_def plain_column_def split: if_splits)

lemma shared_default_columns:
  "map_option (map tc_id) (Option.bind (tab_columns True True defaultColumns) (tab_columns False False))
     = Some [''name'', ''modified'', ''actions'']"
  by (simp add: tab_columns_def defaultColumns_def plain_column_def)

end
