(* ===== verification/ClusterColumns.thy ===== *)
theory ClusterColumns
  imports Tabs
begin

text \<open>
  The columns of the tabs of the cluster page: \<^verbatim>\<open>NamespacesTab.js\<close>, \<^verbatim>\<open>PersistentVolumesTab.js\<close>,
  \<^verbatim>\<open>ResourceQuotasTab.js\<close>, \<^verbatim>\<open>StorageClassesTab.js\<close> and \<^verbatim>\<open>ThirdPartyResourcesTab.js\<close> under
  \<^verbatim>\<open>src/components/cluster\<close>, with the indexes of quotas by namespace and volumes by class.
\<close>

section \<open>Indexes\<close>

definition add_to_group :: "(resource \<Rightarrow> json option) \<Rightarrow> heap \<Rightarrow> ref \<Rightarrow> ref list obj \<Rightarrow> ref list obj option" where
  "add_to_group field h r groups = do {
     x \<leftarrow> h r; v \<leftarrow> field x;
     Some (oset (to_str v) ((case oget groups (to_str v) of Some rs \<Rightarrow> rs | None \<Rightarrow> []) @ [r]) groups)
   }"

definition group_kind :: "string \<Rightarrow> (resource \<Rightarrow> json option) \<Rightarrow> page_props \<Rightarrow> ref list obj option" where
  "group_kind kind field props = do {
     rs \<leftarrow> cluster_rows props kind;
     foldM (add_to_group field (pp_heap props)) rs []
   }"

definition spec_of :: "resource \<Rightarrow> string \<Rightarrow> json option" where
  "spec_of x k = do { sp \<leftarrow> rget x ''spec''; jget sp k }"

definition getQuotasByNs :: "page_props \<Rightarrow> ref list obj option" where
  "getQuotasByNs = group_kind ''ResourceQuota'' (\<lambda>x. metadata_of x ''namespace'')"

definition getVolumesByClass :: "page_props \<Rightarrow> ref list obj option" where
  "getVolumesByClass = group_kind ''PersistentVolume'' (\<lambda>x. spec_of x ''storageClassName'')"

text \<open>\<^verbatim>\<open>groups[v] || []\<close>\<close>

definition group_at :: "ref list obj \<Rightarrow> json \<Rightarrow> ref list" where
  "group_at groups v = (case oget groups (to_str v) of Some rs \<Rightarrow> rs | None \<Rightarrow> [])"

section \<open>Columns\<close>

definition column_of :: "string \<Rightarrow> (resource \<Rightarrow> json option) \<Rightarrow> tab_column" where
  "column_of i f = \<lparr>tc_id = i, tc_clickDisabled = False, tc_render = None, tc_value = Some f\<rparr>"

definition name_column :: tab_column where
  "name_column = column_of ''name'' (\<lambda>x. metadata_of x ''name'')"

definition age_column :: "(int option \<Rightarrow> string) \<Rightarrow> int \<Rightarrow> tab_column" where
  "age_column humanize now = (column_of ''age'' (\<lambda>x. metadata_of x ''creationTimestamp''))
     \<lparr>tc_render := Some (\<lambda>x. map_option (\<lambda>t. TabValue (JStr (toHumanizedAge humanize now (age_of now t))))
        (metadata_of x ''creationTimestamp''))\<rparr>"

subsection \<open>Namespaces\<close>

definition quota_chip :: "heap \<Rightarrow> ref \<Rightarrow> (string \<times> string \<times> string) option" where
  "quota_chip h r = do {
     q \<leftarrow> h r; ns \<leftarrow> metadata_of q ''namespace''; n \<leftarrow> metadata_of q ''name'';
     Some (''rq'', to_str n, ''ResourceQuota/'' @ to_str ns @ ''/'' @ to_str n)
   }"

text \<open>The quotas are looked up under \<^verbatim>\<open>r.name\<close>, a property of the object itself.\<close>

definition quotas_cell :: "heap \<Rightarrow> ref list obj \<Rightarrow> resource \<Rightarrow> tab_cell option" where
  "quotas_cell h quotasByNs x = do {
     v \<leftarrow> rget x ''name'';
     map_option TabChips (those (map (quota_chip h) (group_at quotasByNs v)))
   }"

definition namespace_columns :: "heap \<Rightarrow> ref list obj \<Rightarrow> tab_column list" where
  "namespace_columns h quotasByNs =
     [name_column,
      \<lparr>tc_id = ''quotas'', tc_clickDisabled = True, tc_render = Some (quotas_cell h quotasByNs), tc_value = None\<rparr>]"

subsection \<open>Persistent volumes\<close>

definition is_lower :: "char \<Rightarrow> bool" where
  "is_lower c = (let n = of_char c :: nat in 97 \<le> n \<and> n \<le> 122)"

text \<open>\<^verbatim>\<open>modes.map(m => m.replace(/[a-z]+/g, '')).join(', ')\<close> of texts.\<close>

definition access_modes :: "json \<Rightarrow> json option" where
  "access_modes modes =
     (case modes of
        JArr ms \<Rightarrow> map_option (\<lambda>ts. JStr (join '', '' ts))
          (those (map (\<lambda>m. case m of JStr s \<Rightarrow> Some (filter (\<lambda>c. \<not> is_lower c) s) | _ \<Rightarrow> None) ms))
      | _ \<Rightarrow> None)"

definition ref_texts :: "json \<Rightarrow> (string \<times> string \<times> string) option" where
  "ref_texts r = do {
     k \<leftarrow> jget r ''kind''; ns \<leftarrow> jget r ''namespace''; n \<leftarrow> jget r ''name'';
     Some (to_str k, to_str ns, to_str n)
   }"

definition claim_value :: "resource \<Rightarrow> json option" where
  "claim_value x = do {
     r \<leftarrow> spec_of x ''claimRef'';
     if truthy r then map_option (\<lambda>(k, ns, n). JStr (k @ ''/'' @ ns @ ''/'' @ n)) (ref_texts r) else Some JUndef
   }"

definition claim_cell :: "resource \<Rightarrow> tab_cell option" where
  "claim_cell x = do {
     r \<leftarrow> spec_of x ''claimRef'';
     if truthy r then map_option (\<lambda>(k, ns, n). TabChips [(''pvc'', ns @ ''/'' @ n, k @ ''/'' @ ns @ ''/'' @ n)]) (ref_texts r)
     else Some (TabValue JUndef)
   }"

definition class_cell :: "resource \<Rightarrow> tab_cell option" where
  "class_cell x = do {
     sc \<leftarrow> spec_of x ''storageClassName'';
     Some (if truthy sc then TabChips [(''sc'', to_str sc, ''StorageClass/~/'' @ to_str sc)] else TabValue JUndef)
   }"

definition volume_columns :: "(int option \<Rightarrow> string) \<Rightarrow> int \<Rightarrow> tab_column list" where
  "volume_columns humanize now =
     [name_column,
      column_of ''capacity'' (\<lambda>x. do { c \<leftarrow> spec_of x ''capacity''; jget c ''storage'' }),
      column_of ''access_modes'' (\<lambda>x. do { ms \<leftarrow> spec_of x ''accessModes''; access_modes ms }),
      column_of ''reclaim_policy'' (\<lambda>x. spec_of x ''persistentVolumeReclaimPolicy''),
      column_of ''status'' (\<lambda>x. do { st \<leftarrow> rget x ''status''; jget st ''phase'' }),
      \<lparr>tc_id = ''claim'', tc_clickDisabled = True, tc_render = Some claim_cell, tc_value = Some claim_value\<rparr>,
      \<lparr>tc_id = ''storage_class'', tc_clickDisabled = True, tc_render = Some class_cell,
        tc_value = Some (\<lambda>x. spec_of x ''storageClassName'')\<rparr>,
      age_column humanize now]"

subsection \<open>Quotas, third-party resources\<close>

definition quota_columns :: "(int option \<Rightarrow> string) \<Rightarrow> int \<Rightarrow> tab_column list" where
  "quota_columns humanize now =
     [name_column, column_of ''namespace'' (\<lambda>x. metadata_of x ''namespace''), age_column humanize now]"

definition versions_value :: "resource \<Rightarrow> json option" where
  "versions_value x = do {
     vs \<leftarrow> rget x ''versions'';
     (case vs of
        JArr xs \<Rightarrow> map_option (\<lambda>ns. JStr (join '', '' (map (\<lambda>v. case v of JUndef \<Rightarrow> [] | JNull \<Rightarrow> [] | _ \<Rightarrow> to_str v) ns)))
          (those (map (\<lambda>v. jget v ''name'') xs))
      | _ \<Rightarrow> None)
   }"

definition third_party_columns :: "(int option \<Rightarrow> string) \<Rightarrow> int \<Rightarrow> tab_column list" where
  "third_party_columns humanize now = [name_column, column_of ''versions'' versions_value, age_column humanize now]"

subsection \<open>Storage classes\<close>

text \<open>
  The capacity of a volume in what the code takes for gibibytes; a text without a number and a
  unit of two letters throws.
\<close>

definition volume_size :: "heap \<Rightarrow> ref \<Rightarrow> rat option" where
  "volume_size h r = do {
     x \<leftarrow> h r; c \<leftarrow> spec_of x ''capacity''; s \<leftarrow> jget c ''storage'';
     (case s of
        JStr t \<Rightarrow> do { (n, u) \<leftarrow> parseUnits t; k \<leftarrow> parse_int n; Some (conv (u, ''gibibytes'') (of_int k)) }
      | _ \<Rightarrow> None)
   }"

definition provisioned_size :: "heap \<Rightarrow> ref list \<Rightarrow> rat option" where
  "provisioned_size h rs = foldM (\<lambda>r size. map_option (\<lambda>total. size + total) (volume_size h r)) rs 0"

text \<open>The sum is an integer, as shown below, and so is its text.\<close>

definition provisioned :: "heap \<Rightarrow> ref list obj \<Rightarrow> resource \<Rightarrow> json option" where
  "provisioned h volumesByClass x = do {
     n \<leftarrow> metadata_of x ''name'';
     size \<leftarrow> provisioned_size h (group_at volumesByClass n);
     Some (JStr (int_str \<lfloor>size\<rfloor> @ '' Gi''))
   }"

definition class_columns :: "(int option \<Rightarrow> string) \<Rightarrow> int \<Rightarrow> heap \<Rightarrow> ref list obj \<Rightarrow> tab_column list" where
  "class_columns humanize now h volumesByClass =
     [name_column,
      column_of ''volumes'' (\<lambda>x. map_option (\<lambda>n. JNum (int (length (group_at volumesByClass n)))) (metadata_of x ''name'')),
      column_of ''provisioned'' (provisioned h volumesByClass),
      column_of ''provisioner'' (\<lambda>x. rget x ''provisioner''),
      age_column humanize now]"

section \<open>What the columns of a storage class show\<close>

text \<open>The groups hold the members of the kind by the text of their field, in the order of the store.\<close>

lemma group_loop:
  assumes "foldM (add_to_group field h) rs groups = Some groups'"
  shows "group_at groups' v = group_at groups v @ filter (\<lambda>r. map_option to_str (Option.bind (h r) field) = Some (to_str v)) rs"
  using assms
proof (induction rs arbitrary: groups)
  case (Cons r rs)
  from Cons.prems obtain u where u: "add_to_group field h r groups = Some u" "foldM (add_to_group field h) rs u = Some groups'"
    by (rule foldM_ConsE)
  from u(1) obtain x w where w: "h r = Some x" "field x = Some w"
    "u = oset (to_str w) ((case oget groups (to_str w) of Some rs \<Rightarrow> rs | None \<Rightarrow> []) @ [r]) groups"
    by (auto simp: add_to_group_def bind_Some_iff)
  show ?case using Cons.IH [OF u(2)] w by (auto simp: group_at_def)
qed simp

lemma group_kind_at:
  assumes "group_kind kind field props = Some groups"
  shows "group_at groups v = filter (\<lambda>r. \<exists>x w. pp_heap props r = Some x \<and> kind_of x = Some (JStr kind)
    \<and> field x = Some w \<and> to_str w = to_str v) (map snd (pp_resources props))"
proof -
  from assms obtain rs where rs: "cluster_rows props kind = Some rs"
    "foldM (add_to_group field (pp_heap props)) rs [] = Some groups"
    by (auto simp: group_kind_def bind_Some_iff)
  have "rs = filter (\<lambda>r. \<exists>x. pp_heap props r = Some x \<and> kind_of x = Some (JStr kind)) (map snd (pp_resources props))"
    using filterM_SomeD [OF rs(1) [unfolded cluster_rows_def]] by (simp add: bind_Some_iff)
  with group_loop [OF rs(2), of v] show ?thesis
    by (auto simp: group_at_def [of "[]"] bind_Some_iff intro!: filter_cong)
qed

text \<open>The capacity of a volume as the API server prints it: a number and a unit.\<close>

definition capacity_text :: "heap \<Rightarrow> ref \<Rightarrow> string option" where
  "capacity_text h r = (case do { x \<leftarrow> h r; c \<leftarrow> spec_of x ''capacity''; jget c ''storage'' } of
     Some (JStr t) \<Rightarrow> Some t | _ \<Rightarrow> None)"

lemma parseUnits_printed:
  assumes "u \<in> {''Ki'', ''Mi'', ''Gi'', ''Ti''}"
  shows "\<exists>v. parseUnits (nat_str k @ u) = Some (nat_str k, v) \<and> conv (v, ''gibibytes'') n = n"
proof -
  have "\<exists>a. u = [a, CHR ''i''] \<and> \<not> is_digit a \<and> is_upper a"
    using assms by (elim insertE) (simp_all add: is_digit_def is_upper_def)
  then obtain a where u: "u = [a, CHR ''i'']" "\<not> is_digit a" "is_upper a" by blast
  have d: "takeWhile is_digit (nat_str k @ u) = nat_str k" "dropWhile is_digit (nat_str k @ u) = u"
    using nat_str_digits [of k] u(2) by (simp_all add: u(1) takeWhile_append2 dropWhile_append2 list_all_iff)
  have "unit_match (nat_str k @ u) = Some (nat_str k, u)"
    unfolding unit_match_def d Let_def using u by simp
  then have "first_match (nat_str k @ u) = Some (nat_str k, u)"
    by (cases "nat_str k @ u") simp_all
  then show ?thesis
    using assms by (auto simp: parseUnits_def conv_def convertUnits_def convert_all_def convert_unit_def)
qed

lemma provisioned_sum:
  assumes "\<forall>r \<in> set rs. \<exists>u \<in> {''Ki'', ''Mi'', ''Gi'', ''Ti''}. capacity_text h r = Some (nat_str (k r) @ u)"
  shows "foldM (\<lambda>r size. map_option (\<lambda>total. size + total) (volume_size h r)) rs a = Some (a + of_nat (\<Sum>r\<leftarrow>rs. k r))"
  using assms
proof (induction rs arbitrary: a)
  case (Cons r rs)
  from Cons.prems obtain u where u: "u \<in> {''Ki'', ''Mi'', ''Gi'', ''Ti''}" "capacity_text h r = Some (nat_str (k r) @ u)"
    by auto
  from parseUnits_printed [OF u(1), of "k r" "of_nat (k r)"] obtain v where
    v: "parseUnits (nat_str (k r) @ u) = Some (nat_str (k r), v)" "conv (v, ''gibibytes'') (of_nat (k r)) = of_nat (k r)"
    by blast
  have "parse_int (nat_str (k r)) = Some (int (k r))"
    using parse_int_int_str [of "int (k r)"] by (simp add: int_str_def)
  then have "volume_size h r = Some (of_nat (k r))"
    using u(2) v by (auto simp: volume_size_def capacity_text_def bind_Some_iff split: option.splits json.splits)
  with Cons show ?case by (simp add: add.assoc)
qed simp

text \<open>The volumes column of a storage class is the number of persistent volumes of that class, and the
  provisioned column the sum of the numbers of their capacities, whatever their units are: it is the
  amount in gibibytes only when all capacities are given in gibibytes.\<close>

theorem storage_class_totals:
  assumes "getVolumesByClass props = Some groups" "metadata_of x ''name'' = Some n"
    and "on = filter (\<lambda>r. \<exists>y w. pp_heap props r = Some y \<and> kind_of y = Some (JStr ''PersistentVolume'')
           \<and> spec_of y ''storageClassName'' = Some w \<and> to_str w = to_str n) (map snd (pp_resources props))"
    and "\<forall>r \<in> set on. \<exists>u \<in> {''Ki'', ''Mi'', ''Gi'', ''Ti''}. capacity_text (pp_heap props) r = Some (nat_str (k r) @ u)"
  shows "getCellValue_cluster (class_columns hum now (pp_heap props) groups) ''volumes'' x = Some (JNum (int (length on)))
    \<and> getCellValue_cluster (class_columns hum now (pp_heap props) groups) ''provisioned'' x
        = Some (JStr (nat_str (\<Sum>r\<leftarrow>on. k r) @ '' Gi''))"
proof -
  have on: "group_at groups n = on"
    using group_kind_at [OF assms(1) [unfolded getVolumesByClass_def], of n] assms(3) by simp
  have "provisioned_size (pp_heap props) on = Some (of_nat (\<Sum>r\<leftarrow>on. k r))"
    using provisioned_sum [OF assms(4), of 0] by (simp add: provisioned_size_def)
  then show ?thesis
    using assms(2) on
    by (simp add: getCellValue_cluster_def class_columns_def column_by_id_def column_of_def name_column_def age_column_def
        provisioned_def int_str_def)
qed

definition demo_volume :: "string \<Rightarrow> resource" where
  "demo_volume amount = fresh_resource (JObj [(''kind'', JStr ''PersistentVolume''),
     (''spec'', JObj [(''storageClassName'', JStr ''fast''), (''capacity'', JObj [(''storage'', JStr amount)])])])"

definition demo_volumes :: page_props where
  "demo_volumes = \<lparr>pp_heap = [0 \<mapsto> demo_volume ''5Gi'', 1 \<mapsto> demo_volume ''512Mi''],
     pp_resources = [(''PersistentVolume/~/a'', 0), (''PersistentVolume/~/b'', 1)], pp_kinds = []\<rparr>"

definition demo_class :: resource where
  "demo_class = fresh_resource (JObj [(''kind'', JStr ''StorageClass''), (''metadata'', JObj [(''name'', JStr ''fast'')])])"

theorem storage_class_totals_witness:
  "getCellValue_cluster (class_columns (\<lambda>_. []) 0 (pp_heap demo_volumes) [(''fast'', [0, 1])]) ''provisioned'' demo_class
     = Some (JStr ''517 Gi'')"
proof -
  have g: "getVolumesByClass demo_volumes = Some [(''fast'', [0, 1])]" by code_simp
  have n: "metadata_of demo_class ''name'' = Some (JStr ''fast'')" by code_simp
  have c: "capacity_text (pp_heap demo_volumes) 0 = Some (nat_str 5 @ ''Gi'')"
    "capacity_text (pp_heap demo_volumes) 1 = Some (nat_str 512 @ ''Mi'')" by code_simp+
  have k: "kind_of (demo_volume s) = Some (JStr ''PersistentVolume'') \<and> spec_of (demo_volume s) ''storageClassName'' = Some (JStr ''fast'')" for s
    by (simp add: demo_volume_def kind_of_def spec_of_def rget_def fresh_resource_def)
  have on: "filter (\<lambda>r. \<exists>y w. pp_heap demo_volumes r = Some y \<and> kind_of y = Some (JStr ''PersistentVolume'')
      \<and> spec_of y ''storageClassName'' = Some w \<and> to_str w = to_str (JStr ''fast'')) (map snd (pp_resources demo_volumes)) = [0, 1]"
    using k by (simp add: demo_volumes_def)
  have "nat_str 517 = ''517''" by code_simp
  with storage_class_totals [OF g n on [symmetric], of "\<lambda>r. if r = 0 then 5 else 512" "\<lambda>_. []" 0] c show ?thesis by simp
qed

section \<open>The quotas of a namespace\<close>

text \<open>
  An object has its name in its metadata and not in itself: the column looks up the quotas of
  \<^verbatim>\<open>undefined\<close> for every namespace, and shows none.
\<close>

lemma quotas_never_shown:
  "rget x ''name'' = Some JUndef \<Longrightarrow> \<not> ohas ''undefined'' quotasByNs \<Longrightarrow> quotas_cell h quotasByNs x = Some (TabChips [])"
  by (simp add: quotas_cell_def group_at_def ohas_def)

end
