(* ===== verification/Permissions.thy ===== *)
theory Permissions
  imports ResourcesClaims
begin

text \<open>
  The permissions of a subject, of a binding or of a role:
  \<^verbatim>\<open>src/components/configuration-pane/PermissionsPane.js\<close>, and the choice of a subject on the access
  page, \<^verbatim>\<open>src/components/access/SubjectsTab.js\<close>. Rules and references are JSON values.
\<close>

section \<open>Subjects\<close>




section \<open>Rules\<close>



section \<open>Permissions\<close>










text \<open>The title of a permission, and how a chip shows a reference.\<close>

definition ref_label :: "json \<Rightarrow> string option" where
  "ref_label r = do {
     ns \<leftarrow> jget r ''namespace''; n \<leftarrow> jget r ''name'';
     Some ((if truthy ns then to_str ns @ ''/'' else []) @ to_str n)
   }"

section \<open>Choosing a subject\<close>

definition filterServiceAccounts :: "bool obj \<Rightarrow> bool obj" where
  "filterServiceAccounts subjects =
     fold (\<lambda>s filtered. if starts_with ''ServiceAccount:'' s then filtered else oset s True filtered) (okeys subjects) []"

definition selection_of :: "string obj \<Rightarrow> string list" where
  "selection_of query = (case oget query ''subject'' of Some s \<Rightarrow> [s] | None \<Rightarrow> [])"

text \<open>The user and the group of a selection; an empty one means none.\<close>

definition user_and_group :: "string list \<Rightarrow> string \<times> string" where
  "user_and_group selection =
     (case selection of
        subj # _ \<Rightarrow> if starts_with ''User:'' subj then (drop 5 subj, [])
                    else if starts_with ''Group:'' subj then ([], drop 6 subj) else ([], [])
      | [] \<Rightarrow> ([], []))"

definition setSubject :: "string \<Rightarrow> int \<Rightarrow> string obj \<Rightarrow> string obj" where
  "setSubject subject index search = (if index > - 1 then odel ''subject'' search else oset ''subject'' subject search)"

text \<open>A chosen user is the one whose permissions are shown; removing the choice shows none.\<close>

lemma chosen_subject:
  "user_and_group (selection_of (setSubject (''User:'' @ name) (- 1) search)) = (name, [])"
  "user_and_group (selection_of (setSubject (''Group:'' @ name) (- 1) search)) = ([], name)"
  "user_and_group (selection_of (setSubject subject 0 search)) = ([], [])"
  by (simp_all add: user_and_group_def selection_of_def setSubject_def starts_with_def)

section \<open>Which rules are shown\<close>










section \<open>A user with a role\<close>











end
