(* ===== verification/Loads.thy ===== *)
theory Loads
  imports Fetches KubeKinds
begin

text \<open>
  The loads of the smaller slices, \<^verbatim>\<open>src/state/actions/apimodels.js\<close>, \<^verbatim>\<open>metrics.js\<close>,
  \<^verbatim>\<open>templates.js\<close>, \<^verbatim>\<open>logs.js\<close>, \<^verbatim>\<open>terminal.js\<close> and the rest of \<^verbatim>\<open>session.js\<close>, cut at their
  awaits like the others. A load that throws rejects its request, but what it has dispatched before
  stays dispatched; so the result says whether it ended, and in which state.
\<close>

datatype 'a outcome = Finished 'a | Threw 'a

fun outcome_state :: "'a outcome \<Rightarrow> 'a" where
  "outcome_state (Finished x) = x"
| "outcome_state (Threw x) = x"

text \<open>The continuation of a step that may throw.\<close>

definition or_threw :: "'a \<Rightarrow> 'a option \<Rightarrow> 'a outcome" where
  "or_threw x m = (case m of Some y \<Rightarrow> Finished y | None \<Rightarrow> Threw x)"

section \<open>The store with metrics and templates\<close>

record loads =
  ld_world :: world
  ld_metrics :: metrics_state
  ld_templates :: templates

definition on_api :: "apimodels_action \<Rightarrow> world \<Rightarrow> world option" where
  "on_api a w = map_option (\<lambda>s. w\<lparr>wo_api := s\<rparr>) (apimodels_reducer a (wo_api w))"

section \<open>Kinds\<close>

definition kinds_url :: string where
  "kinds_url = ''/proxy/_/kinds''"

text \<open>\<^verbatim>\<open>requestKinds\<close> up to its await: whether the kinds are fetched.\<close>

definition requestKinds_begin :: "bool \<Rightarrow> world \<Rightarrow> bool" where
  "requestKinds_begin force w \<longleftrightarrow> force \<or> \<not> truthy (am_kinds (wo_api w))"

text \<open>The two continuations of the fetch; the result is \<^verbatim>\<open>undefined\<close> without \<^verbatim>\<open>items\<close>.\<close>

definition kinds_refused :: "env \<Rightarrow> response \<Rightarrow> world \<Rightarrow> world option" where
  "kinds_refused e r w =
     (if re_ok r then Some w
      else if re_status r = 401 then invalidateSession e w
      else if re_status r \<noteq> 403
      then Some (report (resp_value r) (''Failed to fetch kinds at '' @ kinds_url @ '': '' @ re_statusText r) True w)
      else Some w)"

definition kinds_items :: "json \<Rightarrow> world \<Rightarrow> (json \<times> world) option" where
  "kinds_items v w = do {
     has \<leftarrow> jhas ''items'' v;
     if has then do { items \<leftarrow> jget v ''items''; Some (items, w) }
     else do {
       m \<leftarrow> jget v ''message'';
       Some (JUndef, report v (''Failed to fetch kinds at '' @ kinds_url @ '': '' @ to_str m) True w)
     }
   }"

definition fetchKinds_end :: "env \<Rightarrow> response \<Rightarrow> world \<Rightarrow> world outcome" where
  "fetchKinds_end e r w =
     (case kinds_refused e r w of
        None \<Rightarrow> Threw w
      | Some w1 \<Rightarrow> (case kinds_items (result_of r) w1 of
            None \<Rightarrow> Threw w1
          | Some (kinds, w2) \<Rightarrow> if truthy kinds then or_threw w2 (on_api (ReceiveKinds kinds) w2) else Finished w2))"

text \<open>After the await: whether the API description is requested as well.\<close>

definition requestKinds_end :: "world \<Rightarrow> json \<times> bool" where
  "requestKinds_end w = (am_kinds (wo_api w), \<not> truthy (am_swagger (wo_api w)))"

section \<open>The API description\<close>

definition swagger_url :: string where
  "swagger_url = ''/proxy/swagger.json''"

definition requestSwagger_begin :: "bool \<Rightarrow> world \<Rightarrow> bool" where
  "requestSwagger_begin force w \<longleftrightarrow> force \<or> \<not> truthy (am_swagger (wo_api w))"

definition fetchSwagger_end :: "env \<Rightarrow> response \<Rightarrow> world \<Rightarrow> world outcome" where
  "fetchSwagger_end e r w =
     (case (if re_ok r then Some w
            else if re_status r = 401 then invalidateSession e w
            else Some (report (resp_value r) (''Failed to fetch '' @ swagger_url @ '': '' @ re_statusText r) True w)) of
        None \<Rightarrow> Threw w
      | Some w1 \<Rightarrow> (case jhas ''definitions'' (result_of r) of
            None \<Rightarrow> Threw w1
          | Some has \<Rightarrow> if has then or_threw w1 (on_api (ReceiveSwagger (result_of r)) w1) else Finished w1))"

section \<open>Metrics\<close>

text \<open>A refused request passes \<^verbatim>\<open>undefined\<close> on to the reducer.\<close>

definition fetchMetrics_end :: "env \<Rightarrow> response \<Rightarrow> loads \<Rightarrow> loads outcome" where
  "fetchMetrics_end e r l =
     (case check_401 e r (ld_world l) of
        None \<Rightarrow> Threw l
      | Some w \<Rightarrow>
          (let l1 = l\<lparr>ld_world := w\<rparr>
           in or_threw l1 (map_option (\<lambda>m. l1\<lparr>ld_metrics := m\<rparr>)
                (metrics_reducer (ReceiveMetrics (if re_ok r then re_json r else JUndef)) (ld_metrics l1)))))"

section \<open>Templates\<close>

text \<open>
  The list of names arrives. A refused one is the response object, which has no \<^verbatim>\<open>map\<close>: the load
  throws after the error has been reported.
\<close>

definition template_names :: "env \<Rightarrow> response \<Rightarrow> loads \<Rightarrow> string list option \<times> loads" where
  "template_names e r l =
     (if re_ok r then
        ((case re_json r of JArr ns \<Rightarrow> Some (map to_str ns) | _ \<Rightarrow> None), l)
      else
        (None, (if re_status r = 401
                then (case invalidateSession e (ld_world l) of Some w \<Rightarrow> l\<lparr>ld_world := w\<rparr> | None \<Rightarrow> l)
                else l\<lparr>ld_world := report JNull (''Failed to fetch templates: '' @ re_statusText r) False (ld_world l)\<rparr>)))"

text \<open>One template: its text, or \<^term>\<open>None\<close> if it was refused.\<close>

definition group_of_kind :: "string \<Rightarrow> string option" where
  "group_of_kind kind = map_option fst (List.find (\<lambda>(g, ks). ohas kind ks) kinds_table)"

definition file_template :: "(string \<Rightarrow> json option) \<Rightarrow> string \<times> string option \<Rightarrow> templates \<Rightarrow> templates option" where
  "file_template load nt ts =
     (case snd nt of
        None \<Rightarrow> Some ts
      | Some text1 \<Rightarrow> do {
          template \<leftarrow> load text1; kind \<leftarrow> jget template ''kind'';
          Some (case group_of_kind (to_str kind) of
                  None \<Rightarrow> ts
                | Some g \<Rightarrow> oset g (oset (fst nt) text1 (case oget ts g of Some o1 \<Rightarrow> o1 | None \<Rightarrow> [])) ts)
        })"

definition fetchResourceTemplates_end :: "env \<Rightarrow> string list \<Rightarrow> string option list \<Rightarrow> loads \<Rightarrow> loads outcome" where
  "fetchResourceTemplates_end e names results l =
     or_threw l (map_option (\<lambda>ts. l\<lparr>ld_templates := templates_reducer (ReceiveTemplates ts) (ld_templates l)\<rparr>)
       (foldM (file_template (en_load e)) (zip names results) []))"

section \<open>The session\<close>

text \<open>After the API description and the namespaces.\<close>

definition initializeSession_end :: "json \<Rightarrow> json \<Rightarrow> world \<Rightarrow> world" where
  "initializeSession_end user authMethod w =
     w\<lparr>wo_session := session_reducer (initializeSession_action user authMethod) (wo_session w)\<rparr>"

definition selectLogsFor :: "string list \<Rightarrow> world \<Rightarrow> world" where
  "selectLogsFor podContainers = on_logs (SelectLogsFor podContainers)"

definition selectTerminalFor :: "string \<Rightarrow> world \<Rightarrow> world" where
  "selectTerminalFor podContainer = on_terminal (SelectTerminalFor podContainer)"

section \<open>What the loads do\<close>

text \<open>The loads of these slices leave the resources as they are, unless the session is invalid.\<close>

lemma report_res [simp]: "wo_res (report v m t w) = wo_res w"
  by (simp add: report_def)

lemma on_api_res: "on_api a w = Some w1 \<Longrightarrow> wo_res w1 = wo_res w"
  by (auto simp: on_api_def)

lemma or_threw_res: "(\<And>y. m = Some y \<Longrightarrow> f y = f x) \<Longrightarrow> f (outcome_state (or_threw x m)) = f x"
  by (cases m) (simp_all add: or_threw_def)

lemma kinds_items_res: "kinds_items v w = Some (k, w1) \<Longrightarrow> wo_res w1 = wo_res w"
  by (auto simp: kinds_items_def bind_Some_iff split: if_splits)

lemma loads_keep_resources:
  assumes "re_ok r \<or> re_status r \<noteq> 401"
  shows "wo_res (outcome_state (fetchKinds_end e r w)) = wo_res w"
    and "wo_res (outcome_state (fetchSwagger_end e r w)) = wo_res w"
    and "wo_res (ld_world (outcome_state (fetchMetrics_end e r l))) = wo_res (ld_world l)"
proof -
  have "\<exists>w1. kinds_refused e r w = Some w1 \<and> wo_res w1 = wo_res w"
    using assms by (auto simp: kinds_refused_def)
  then obtain w1 where w1: "kinds_refused e r w = Some w1" "wo_res w1 = wo_res w" by blast
  show "wo_res (outcome_state (fetchKinds_end e r w)) = wo_res w"
  proof (cases "kinds_items (result_of r) w1")
    case None
    with w1 show ?thesis by (simp add: fetchKinds_end_def)
  next
    case (Some kw)
    obtain k w2 where kw: "kw = (k, w2)" by (cases kw)
    with Some have "wo_res w2 = wo_res w" using kinds_items_res w1(2) by metis
    with Some kw w1(1) show ?thesis
      by (simp add: fetchKinds_end_def or_threw_res [where f = wo_res] on_api_res)
  qed
  show "wo_res (outcome_state (fetchSwagger_end e r w)) = wo_res w"
    using assms
    by (cases "re_ok r"; cases "jhas ''definitions'' (result_of r)")
      (simp_all add: fetchSwagger_end_def or_threw_res [where f = wo_res] on_api_res)
  show "wo_res (ld_world (outcome_state (fetchMetrics_end e r l))) = wo_res (ld_world l)"
    using assms
    by (cases "re_ok r")
      (simp_all add: fetchMetrics_end_def check_401_def Let_def or_threw_def split: option.split)
qed

text \<open>A refused list of kinds is reported twice, and once even when the refusal is not an error of the program.\<close>

definition error_count :: "world \<Rightarrow> nat" where
  "error_count w = length (ers_errors (snd (wo_errors w)))"

lemma error_count_report: "error_count (report v m t w) = Suc (error_count w)"
  by (simp add: error_count_def report_def addError_def doAddError_def Let_def)

lemma refused_kinds_reported:
  assumes "\<not> re_ok r" "re_status r \<noteq> 401"
  shows "\<exists>w'. fetchKinds_end e r w = Finished w' \<and> am_kinds (wo_api w') = am_kinds (wo_api w)
    \<and> error_count w' = error_count w + (if re_status r = 403 then 1 else 2)"
  using assms
  by (simp add: fetchKinds_end_def kinds_refused_def kinds_items_def result_of_def resp_value_def ohas_def error_count_report)
    (simp add: report_def)

text \<open>A refused list of templates rejects the request after one report, and its name stays taken.\<close>

lemma refused_templates_throw:
  assumes "\<not> re_ok r" "re_status r \<noteq> 401"
  shows "fst (template_names e r l) = None" "error_count (ld_world (snd (template_names e r l))) = Suc (error_count (ld_world l))"
  using assms by (simp_all add: template_names_def error_count_report)

section \<open>Templates are filed by group\<close>

lemma group_of_kind_has:
  "group_of_kind kind = Some g \<Longrightarrow> \<exists>ks. oget kinds_table g = Some ks \<and> ohas kind ks"
  by (auto simp: group_of_kind_def kinds_table_def split: if_splits)

text \<open>The group of a text, by the kind that the parser finds in it.\<close>

definition template_group :: "(string \<Rightarrow> json option) \<Rightarrow> string \<Rightarrow> string option" where
  "template_group load text1 = do { t \<leftarrow> load text1; k \<leftarrow> jget t ''kind''; group_of_kind (to_str k) }"

definition filed :: "templates \<Rightarrow> string \<Rightarrow> string \<Rightarrow> string option" where
  "filed ts g n = do { o1 \<leftarrow> oget ts g; oget o1 n }"

lemma file_template_files:
  assumes "file_template load nt ts = Some ts'"
  shows "filed ts' g n = (if n = fst nt \<and> (\<exists>text1. snd nt = Some text1 \<and> template_group load text1 = Some g)
    then snd nt else filed ts g n)"
proof (cases "snd nt")
  case None
  with assms show ?thesis by (simp add: file_template_def)
next
  case (Some text1)
  with assms obtain t k where t: "load text1 = Some t" "jget t ''kind'' = Some k"
    "ts' = (case group_of_kind (to_str k) of None \<Rightarrow> ts
       | Some g \<Rightarrow> oset g (oset (fst nt) text1 (case oget ts g of Some o1 \<Rightarrow> o1 | None \<Rightarrow> [])) ts)"
    by (auto simp: file_template_def bind_Some_iff)
  then have "template_group load text1 = group_of_kind (to_str k)" by (simp add: template_group_def)
  with t(3) Some show ?thesis
    by (cases "group_of_kind (to_str k)"; cases "oget ts g") (auto simp: filed_def)
qed

lemma files_loop:
  assumes "foldM (file_template load) nts ts = Some ts'" "distinct (map fst nts)"
  shows "filed ts' g n = (case map_of nts n of
      Some (Some text1) \<Rightarrow> if template_group load text1 = Some g then Some text1 else filed ts g n
    | _ \<Rightarrow> filed ts g n)"
  using assms
proof (induction nts arbitrary: ts)
  case (Cons nt nts)
  from Cons.prems(1) obtain u where u: "file_template load nt ts = Some u" "foldM (file_template load) nts u = Some ts'"
    by (rule foldM_ConsE)
  have none: "map_of nts (fst nt) = None" using Cons.prems(2) by (simp add: map_of_eq_None_iff)
  show ?case
    using Cons.IH [OF u(2)] Cons.prems(2) file_template_files [OF u(1), of g n] none
    by (cases nt; cases "n = fst nt"; cases "snd nt") (auto split: option.splits)
qed simp

text \<open>When the templates have arrived, the store has exactly the texts that were served for a name, each
  under the group whose table of kinds has the kind that the text declares.\<close>

lemma templates_are_grouped:
  assumes "fetchResourceTemplates_end e names results l = Finished l'" "distinct names" "length names = length results"
  shows "filed (ld_templates l') g n = Some t \<longleftrightarrow>
      (n, Some t) \<in> set (zip names results) \<and> template_group (en_load e) t = Some g"
    and "filed (ld_templates l') g n = Some t \<Longrightarrow> \<exists>ks v k. oget kinds_table g = Some ks \<and> en_load e t = Some v
      \<and> jget v ''kind'' = Some k \<and> ohas (to_str k) ks"
proof -
  have d: "distinct (map fst (zip names results))" using assms(2,3) by simp
  obtain ts where ts: "foldM (file_template (en_load e)) (zip names results) [] = Some ts" "ld_templates l' = ts"
    using assms(1) by (auto simp: fetchResourceTemplates_end_def or_threw_def split: option.splits)
  have m: "(n, v) \<in> set (zip names results) \<longleftrightarrow> map_of (zip names results) n = Some v" for v
    using d by simp
  show *: "filed (ld_templates l') g n = Some t \<longleftrightarrow>
      (n, Some t) \<in> set (zip names results) \<and> template_group (en_load e) t = Some g"
    using files_loop [OF ts(1) d, of g n] ts(2) unfolding m
    by (auto simp: filed_def [of "[]"] split: option.splits if_splits)
  show "\<exists>ks v k. oget kinds_table g = Some ks \<and> en_load e t = Some v \<and> jget v ''kind'' = Some k \<and> ohas (to_str k) ks"
    if "filed (ld_templates l') g n = Some t"
    using that group_of_kind_has unfolding * by (fastforce simp: template_group_def bind_Some_iff)
qed

end
