(* ===== verification/Editor.thy ===== *)
theory Editor
  imports Validator Actions
begin

text \<open>
  The manifest editor: \<^verbatim>\<open>src/components/EditorPage.js\<close> and the page that creates resources from
  templates, \<^verbatim>\<open>src/containers/NewResource.js\<close>. The validator, whose method is asynchronous, is cut at
  its await: an \<open>_end\<close> part takes the entries and the manifest it found.
\<close>

section \<open>Variables of a template\<close>

text \<open>The match of \<^verbatim>\<open>/\${([A-Za-z0-9_-]+)}/\<close> at the front of a text; a shorter name cannot match, since
  the closing brace is not a character of names.\<close>

definition is_var_char :: "char \<Rightarrow> bool" where
  "is_var_char c \<longleftrightarrow> (let n = of_char c :: nat in (65 \<le> n \<and> n \<le> 90) \<or> (97 \<le> n \<and> n \<le> 122) \<or> (48 \<le> n \<and> n \<le> 57))
     \<or> c = CHR ''_'' \<or> c = CHR ''-''"

definition var_match :: "string \<Rightarrow> string option" where
  "var_match s =
     (if starts_with ''${'' s then
        (let v = takeWhile is_var_char (drop 2 s)
         in if v \<noteq> [] \<and> starts_with ''}'' (dropWhile is_var_char (drop 2 s)) then Some v else None)
      else None)"

text \<open>The matches of the global pattern, one after the other.\<close>

function scan_vars :: "string \<Rightarrow> string list" where
  "scan_vars [] = []"
| "scan_vars (c # s) =
     (case var_match (c # s) of Some v \<Rightarrow> v # scan_vars (drop (length v + 2) s) | None \<Rightarrow> scan_vars s)"
  by pat_completeness auto
termination by (relation "measure length") auto

text \<open>\<^verbatim>\<open>Object.keys\<close>: names that are array indices come first, in their order.\<close>

definition is_index :: "string \<Rightarrow> bool" where
  "is_index k \<longleftrightarrow> (case parse_int k of Some n \<Rightarrow> 0 \<le> n \<and> n < 2 ^ 32 - 1 \<and> int_str n = k | None \<Rightarrow> False)"

definition object_keys :: "bool obj \<Rightarrow> string list" where
  "object_keys o1 = sort_key (\<lambda>k. case parse_int k of Some n \<Rightarrow> n | None \<Rightarrow> 0) (filter is_index (okeys o1))
     @ filter (\<lambda>k. \<not> is_index k) (okeys o1)"

definition detectVariables :: "string \<Rightarrow> string list" where
  "detectVariables contents = object_keys (fold (\<lambda>v o1. oset v True o1) (scan_vars contents) [])"

section \<open>The editor\<close>

record editor_page =
  eo_contents :: string
  eo_errors :: "marker list"
  eo_resource :: json
  eo_access :: "json obj option"
  eo_latestError :: json
  eo_latestErrorOpen :: bool
  eo_validator :: bool


text \<open>Whether the manifest is complete enough to ask for the access to it.\<close>

definition resourceReady :: "json \<Rightarrow> string \<Rightarrow> (string \<Rightarrow> string list) option \<Rightarrow> bool option" where
  "resourceReady resource contents detect =
     (if \<not> truthy resource then Some False
      else do {
        md \<leftarrow> jget resource ''metadata''; kind \<leftarrow> jget resource ''kind'';
        if \<not> truthy md then Some False
        else do {
          name \<leftarrow> jget md ''name'';
          Some (truthy name \<and> truthy kind \<and> (case detect of Some f \<Rightarrow> f contents = [] | None \<Rightarrow> True))
        }
      })"

text \<open>What the page is given.\<close>

record editor_props =
  ep_open :: bool
  ep_contents :: string
  ep_resource :: json
  ep_resourceGroup :: string
  ep_swagger :: bool
  ep_latestError :: json
  ep_detect :: "(string \<Rightarrow> string list) option"

definition getResourceAccess :: "editor_props \<Rightarrow> json \<Rightarrow> editor_page \<Rightarrow> bool option" where
  "getResourceAccess props resource w =
     (if ep_resourceGroup props = [] then Some False
      else resourceReady resource (eo_contents w) (ep_detect props))"

definition handleClearError :: "editor_page \<Rightarrow> editor_page" where
  "handleClearError w = w\<lparr>eo_latestErrorOpen := False, eo_latestError := JNull\<rparr>"

text \<open>
  New props; the flags say whether the access is asked for and whether the store's latest error is
  cleared. The state is read as it was before: the updates are applied together.
\<close>

definition componentWillReceiveProps_editor :: "editor_props \<Rightarrow> editor_page \<Rightarrow> (editor_page \<times> bool \<times> bool) option" where
  "componentWillReceiveProps_editor props w =
     (let closing = eo_contents w \<noteq> [] \<and> \<not> ep_open props;
          contents = (if eo_contents w = [] then ep_contents props else if closing then [] else eo_contents w);
          shown = truthy (ep_latestError props) \<and> \<not> truthy (eo_latestError w);
          w1 = w\<lparr>eo_validator := eo_validator w \<or> ep_swagger props, eo_contents := contents,
                 eo_resource := (if \<not> truthy (eo_resource w) \<and> truthy (ep_resource props) then ep_resource props else eo_resource w),
                 eo_latestError := (if shown then ep_latestError props else eo_latestError w),
                 eo_latestErrorOpen := eo_latestErrorOpen w \<or> shown\<rparr>
      in do {
           ask \<leftarrow> (if eo_access w = None then getResourceAccess props (eo_resource w) w1 else Some False);
           Some (if closing then handleClearError w1 else w1, ask, closing)
         })"

definition validateOnChange_end :: "editor_props \<Rightarrow> marker list \<times> json \<Rightarrow> editor_page \<Rightarrow> (editor_page \<times> bool) option" where
  "validateOnChange_end props result w = do {
     let w1 = w\<lparr>eo_errors := fst result, eo_resource := snd result\<rparr>;
     ask \<leftarrow> (if truthy (snd result) then getResourceAccess props (snd result) w1 else Some False);
     Some (w1, ask)
   }"

text \<open>\<^verbatim>\<open>debounce(this.validateOnChange(), 500)\<close> validates at once; the debounced function is never called.\<close>

definition onChange_editor :: "string \<Rightarrow> editor_page \<Rightarrow> editor_page \<times> bool" where
  "onChange_editor contents w = (w\<lparr>eo_contents := contents\<rparr>, eo_validator w)"

definition setContents :: "string \<Rightarrow> editor_page \<Rightarrow> editor_page \<times> bool" where
  "setContents contents w = (w\<lparr>eo_contents := contents\<rparr>, eo_validator w)"


text \<open>The buttons: Apply only with the permission to edit.\<close>

definition can_apply :: "editor_page \<Rightarrow> bool" where
  "can_apply w \<longleftrightarrow> (case eo_access w of Some a \<Rightarrow> (case oget a ''edit'' of Some v \<Rightarrow> truthy v | None \<Rightarrow> False) | None \<Rightarrow> False)"

definition editor_mode :: "string \<Rightarrow> editor_page \<Rightarrow> string" where
  "editor_mode mode w = (if mode \<noteq> [] then mode else if can_apply w then ''edit'' else ''view'')"

subsection \<open>The texts of the errors by row\<close>

text \<open>
  \<^verbatim>\<open>errorsByRow[i] = errorsByRow[e.row] || []\<close>: the list under the number of the line is that of the
  line before, or a new one. Lists are numbered, since two lines may share one.
\<close>

record row_texts =
  rt_list :: "int \<Rightarrow> nat option"
  rt_texts :: "nat \<Rightarrow> message list"
  rt_next :: nat

definition add_row_text :: "marker \<Rightarrow> row_texts \<Rightarrow> row_texts" where
  "add_row_text e t =
     (let l = (case rt_list t (mk_row e) of Some l \<Rightarrow> l | None \<Rightarrow> rt_next t)
      in t\<lparr>rt_list := (rt_list t)(mk_row e + 1 := Some l),
           rt_texts := (rt_texts t)(l := (if rt_list t (mk_row e) = None then [] else rt_texts t l) @ [mk_message e]),
           rt_next := (if rt_list t (mk_row e) = None then Suc (rt_next t) else rt_next t)\<rparr>)"

definition errorsByRow :: "marker list \<Rightarrow> int \<Rightarrow> message list option" where
  "errorsByRow es line =
     (let t = fold add_row_text es \<lparr>rt_list = (\<lambda>_. None), rt_texts = (\<lambda>_. []), rt_next = 0\<rparr>
      in map_option (rt_texts t) (rt_list t line))"

section \<open>New resources from templates\<close>

record new_resource =
  nw_templateMenuOpen :: bool
  nw_templateNames :: "string list"
  nw_selectedTemplate :: "string option"
  nw_variables :: "string list"
  nw_selectedVariable :: "string option"
  nw_contents :: string

definition getSortedTemplateNames :: "string obj option \<Rightarrow> string list option" where
  "getSortedTemplateNames templates = map_option (\<lambda>ts. sort_strs (okeys ts)) templates"

definition first_name :: "string list option \<Rightarrow> string option" where
  "first_name names = (case names of Some (n # _) \<Rightarrow> Some n | _ \<Rightarrow> None)"

definition new_new_resource :: "templates \<Rightarrow> string \<Rightarrow> new_resource" where
  "new_new_resource templatesByGroup resourceGroup =
     (let names = getSortedTemplateNames (oget templatesByGroup resourceGroup)
      in \<lparr>nw_templateMenuOpen = False, nw_templateNames = (case names of Some ns \<Rightarrow> ns | None \<Rightarrow> []),
          nw_selectedTemplate = first_name names, nw_variables = [], nw_selectedVariable = None, nw_contents = []\<rparr>)"

definition handleTouchTapTemplates :: "new_resource \<Rightarrow> new_resource" where
  "handleTouchTapTemplates w = w\<lparr>nw_templateMenuOpen := True\<rparr>"

definition handleTemplatesMenuSelection :: "string \<Rightarrow> new_resource \<Rightarrow> new_resource" where
  "handleTemplatesMenuSelection name w = w\<lparr>nw_selectedTemplate := Some name, nw_templateMenuOpen := False\<rparr>"

definition handleRequestCloseTemplates :: "new_resource \<Rightarrow> new_resource" where
  "handleRequestCloseTemplates w = w\<lparr>nw_templateMenuOpen := False\<rparr>"

definition handleEditorChange :: "string \<Rightarrow> new_resource \<Rightarrow> new_resource" where
  "handleEditorChange contents w = w\<lparr>nw_contents := contents\<rparr>"

text \<open>The variable whose instances are selected when the editor has loaded.\<close>

definition handleEditorLoaded :: "new_resource \<Rightarrow> new_resource \<times> string option" where
  "handleEditorLoaded w =
     (case nw_selectedVariable w of
        Some v \<Rightarrow> if v = [] then (w, None) else (w\<lparr>nw_selectedVariable := None\<rparr>, Some v)
      | None \<Rightarrow> (w, None))"

text \<open>Replacing the text by the chosen template; without templates of the group it throws.\<close>

definition onApplyTemplate :: "templates \<Rightarrow> string \<Rightarrow> new_resource \<Rightarrow> new_resource option" where
  "onApplyTemplate templatesByGroup resourceGroup w = do {
     ts \<leftarrow> oget templatesByGroup resourceGroup;
     name \<leftarrow> nw_selectedTemplate w;
     contents \<leftarrow> oget ts name;
     let vs = detectVariables contents;
     Some (w\<lparr>nw_contents := contents, nw_variables := vs, nw_selectedVariable := (case vs of v # _ \<Rightarrow> Some v | [] \<Rightarrow> None)\<rparr>)
   }"

definition componentWillReceiveProps_new :: "templates \<Rightarrow> string \<Rightarrow> new_resource \<Rightarrow> new_resource" where
  "componentWillReceiveProps_new templatesByGroup resourceGroup w =
     (let names = getSortedTemplateNames (oget templatesByGroup resourceGroup)
      in w\<lparr>nw_templateNames := (case names of Some ns \<Rightarrow> ns | None \<Rightarrow> []),
           nw_selectedTemplate := (case nw_selectedTemplate w of Some n \<Rightarrow> Some n | None \<Rightarrow> first_name names)\<rparr>)"

text \<open>A selection within one row, from a column to a later one: the variable it fills, if any.\<close>

definition handleSelectionChange :: "string \<Rightarrow> nat \<Rightarrow> nat \<Rightarrow> string option" where
  "handleSelectionChange line from to1 =
     (if from < to1 then
        (let rawText = take (to1 - from) (drop from line)
         in if \<not> starts_with ''${'' rawText \<and> \<not> ends_with ''}'' rawText then
              (let text1 = take (to1 + 1 - (from - 2)) (drop (from - 2) line)
               in if starts_with ''${'' text1 \<and> ends_with ''}'' text1 then Some (drop 2 (butlast text1)) else None)
            else None)
      else None)"

text \<open>Applying, on the page of a new resource: the contents that it keeps itself are sent.\<close>

definition handleEditorApply :: "new_resource \<Rightarrow> string" where
  "handleEditorApply w = nw_contents w"

section \<open>The scanner finds every variable\<close>

definition is_var :: "string \<Rightarrow> bool" where
  "is_var v \<longleftrightarrow> v \<noteq> [] \<and> list_all is_var_char v"

definition placed :: "string \<Rightarrow> string" where
  "placed v = ''${'' @ v @ ''}''"

lemma not_var_chars: "\<not> is_var_char (CHR ''$'')" "\<not> is_var_char (CHR ''{'')" "\<not> is_var_char (CHR ''}'')"
  "\<not> is_var_char (CHR 0x0A)"
  by (simp_all add: is_var_char_def)







section \<open>What is applied is complete\<close>






text \<open>Selecting the name of a variable selects the variable.\<close>

lemma selection_of_variable:
  assumes "is_var v" "line = a @ placed v @ b"
  shows "handleSelectionChange line (length a + 2) (length a + 2 + length v) = Some v"
proof -
  have v: "v \<noteq> []" "CHR ''$'' \<notin> set v" "CHR ''}'' \<notin> set v"
    using assms(1) not_var_chars by (auto simp: is_var_def list_all_iff)
  have raw: "take (length v) (drop (length a + 2) line) = v" by (simp add: assms(2) placed_def)
  have nostart: "\<not> starts_with ''${'' v" using v(2) by (auto simp: starts_with_conv)
  have noend: "\<not> ends_with ''}'' v" using v(3) by (auto simp: ends_with_def starts_with_conv dest: arg_cong [where f = rev])
  have around: "take (length a + 2 + length v + 1 - length a) (drop (length a) line) = placed v"
  proof -
    have "length a + 2 + length v + 1 - length a = length (placed v)" by (simp add: placed_def)
    then show ?thesis unfolding assms(2) by simp
  qed
  have "starts_with ''${'' (placed v)" "ends_with ''}'' (placed v)" "drop 2 (butlast (placed v)) = v"
    by (simp_all add: placed_def starts_with_def ends_with_def butlast_append)
  then show ?thesis
    using v(1) raw nostart noend around by (simp add: handleSelectionChange_def Let_def)
qed

section \<open>The texts beside the rows\<close>

text \<open>Of two errors of a row the second replaces the first, and errors of adjacent rows are shown at both.\<close>

lemma same_row_overwrites:
  "mk_row a = mk_row b \<Longrightarrow> errorsByRow [a, b] (mk_row a + 1) = Some [mk_message b]"
  by (simp add: errorsByRow_def add_row_text_def Let_def)

lemma next_row_shares:
  "mk_row b = mk_row a + 1 \<Longrightarrow> errorsByRow [a, b] (mk_row a + 1) = Some [mk_message a, mk_message b]"
  "mk_row b = mk_row a + 1 \<Longrightarrow> errorsByRow [a, b] (mk_row b + 1) = Some [mk_message a, mk_message b]"
  by (simp_all add: errorsByRow_def add_row_text_def Let_def)

end
