(* ===== verification/PageColumns.thy ===== *)
theory PageColumns
  imports Tabs Table NodesTab
begin

text \<open>
  The columns of the tables of resources, as the pages declare them: the workloads, the related
  resources of an object, the pods of a node, the access controls and the nodes. A column has what the
  table needs to sort by it (\<open>Table\<close>), and says whether its header sorts. Together with the
  cells of \<open>Columns\<close> this fixes which comparator runs on which values.
\<close>

section \<open>The columns\<close>

record page_column =
  pc_column :: column
  pc_sortable :: bool

definition text_column :: "string \<Rightarrow> page_column" where
  "text_column i = \<lparr>pc_column = \<lparr>co_id = i, co_isNumeric = False, co_comparator = None\<rparr>, pc_sortable = True\<rparr>"

definition number_column :: "string \<Rightarrow> page_column" where
  "number_column i = \<lparr>pc_column = \<lparr>co_id = i, co_isNumeric = True, co_comparator = None\<rparr>, pc_sortable = True\<rparr>"

definition status_column :: page_column where
  "status_column = \<lparr>pc_column = \<lparr>co_id = ''status'', co_isNumeric = False, co_comparator = Some compareStatuses\<rparr>,
     pc_sortable = True\<rparr>"

definition fixed_column :: "string \<Rightarrow> page_column" where
  "fixed_column i = \<lparr>pc_column = \<lparr>co_id = i, co_isNumeric = False, co_comparator = None\<rparr>, pc_sortable = False\<rparr>"

definition workload_columns :: "page_column list" where
  "workload_columns =
     [text_column ''kind'', text_column ''name'', text_column ''namespace'',
      number_column ''cpu_utilized'', number_column ''mem_utilized'', number_column ''disk_utilized'',
      number_column ''pods'', status_column, text_column ''age'', fixed_column ''actions'']"

definition related_columns :: "page_column list" where
  "related_columns =
     [text_column ''kind'', text_column ''name'', text_column ''namespace'',
      number_column ''cpu_utilized'', number_column ''mem_utilized'', number_column ''disk_utilized'',
      status_column, text_column ''age'', fixed_column ''actions'']"

definition node_pod_columns :: "page_column list" where
  "node_pod_columns =
     [text_column ''name'', text_column ''namespace'',
      number_column ''cpu_utilized'', number_column ''mem_utilized'', number_column ''disk_utilized'',
      status_column, text_column ''age'', fixed_column ''actions'']"

definition access_columns :: "page_column list" where
  "access_columns =
     [text_column ''kind'', text_column ''name'', text_column ''namespace'', text_column ''age'', fixed_column ''actions'']"

definition node_columns :: "page_column list" where
  "node_columns =
     [status_column, text_column ''hostname'', fixed_column ''labels'', text_column ''age'',
      number_column ''pods'', number_column ''containers'',
      number_column ''cpu_utilized'', number_column ''cpu_total'', number_column ''mem_utilized'', number_column ''mem_total'',
      number_column ''disk_utilized'', number_column ''disk_total'', fixed_column ''pad_right'']"

lemmas column_defs = text_column_def number_column_def status_column_def fixed_column_def

text \<open>Every id is declared once, so each column is sorted by its own comparator.\<close>

lemma buildComparators_other: "co_id col \<notin> set (map co_id cols) \<Longrightarrow>
    oget (fold (\<lambda>c. oset (co_id c) (column_comparator cell idColumn c)) cols o1) (co_id col) = oget o1 (co_id col)"
  by (induction cols arbitrary: o1) auto

lemma buildComparators_own:
  assumes "distinct (map co_id cols)" "col \<in> set cols"
  shows "oget (buildComparators cols idColumn cell) (co_id col) = Some (column_comparator cell idColumn col)"
proof -
  from assms(2) obtain xs ys where cols: "cols = xs @ col # ys" by (meson split_list)
  with assms(1) have "co_id col \<notin> set (map co_id ys)" by auto
  then show ?thesis by (simp add: buildComparators_def cols buildComparators_other)
qed

lemma columns_distinct:
  "distinct (map (co_id \<circ> pc_column) workload_columns)" "distinct (map (co_id \<circ> pc_column) related_columns)"
  "distinct (map (co_id \<circ> pc_column) node_pod_columns)" "distinct (map (co_id \<circ> pc_column) access_columns)"
  "distinct (map (co_id \<circ> pc_column) node_columns)"
  by code_simp+

section \<open>The types of the cells\<close>

text \<open>What a sortable column needs of the cells: text for the columns that compare as texts.\<close>

definition is_text :: "json \<Rightarrow> bool" where
  "is_text v \<longleftrightarrow> (case v of JStr s \<Rightarrow> True | _ \<Rightarrow> False)"

definition cell_typed :: "page_column \<Rightarrow> json \<Rightarrow> bool" where
  "cell_typed c v \<longleftrightarrow> (co_isNumeric (pc_column c) \<or> co_comparator (pc_column c) \<noteq> None \<or> is_text v)"

lemma comparator_total:
  assumes "cell_typed c (cell (co_id (pc_column c)) a)"
  shows "\<exists>r. column_comparator cell idColumn (pc_column c) d a b = Some r"
  using assms
  by (auto simp: column_comparator_def cell_typed_def is_text_def defaultSortNumeric_def defaultSortString_def
      reverseComparator_def Let_def split: option.splits order.splits json.splits)

lemma sort_by_mset [simp]: "mset (sort_by c xs) = mset xs"
proof (induction xs)
  case (Cons x xs)
  have "mset (insert_by c x ys) = add_mset x (mset ys)" for ys by (induction ys) auto
  with Cons show ?case by simp
qed simp

lemma typed_rows_sort:
  assumes "distinct (map co_id (map pc_column cols))" "c \<in> set cols"
    and "\<forall>r \<in> set data. cell_typed c (cell (co_id (pc_column c)) r)"
  shows "\<exists>rows. defaultSort (buildComparators (map pc_column cols) idColumn cell) (co_id (pc_column c)) d data = Some rows
    \<and> mset rows = mset data"
proof -
  let ?d = "case d of Some x \<Rightarrow> x | None \<Rightarrow> Asc"
  let ?cmp = "column_comparator cell idColumn (pc_column c) ?d"
  have "\<exists>r. ?cmp a b = Some r \<and> as_order r = as_order (the (?cmp a b))" if "a \<in> set data" for a b
    using comparator_total [of c cell a idColumn ?d b] assms(3) that by auto
  then have "sort_m ?cmp data = Some (sort_by (\<lambda>a b. as_order (the (?cmp a b))) data)"
    by (intro sort_m_total) blast
  moreover have "pc_column c \<in> set (map pc_column cols)" using assms(2) by simp
  ultimately show ?thesis by (simp add: defaultSort_def buildComparators_own [OF assms(1)])
qed

section \<open>The tables of namespaced resources can be sorted\<close>

definition typed_resource :: "resource \<Rightarrow> bool" where
  "typed_resource x \<longleftrightarrow>
     list_all (\<lambda>v. case v of Some t \<Rightarrow> is_text t | None \<Rightarrow> False)
       [kind_of x, metadata_of x ''name'', metadata_of x ''namespace'', metadata_of x ''creationTimestamp'']"

lemma typed_cells:
  assumes "typed_resource x" "cols \<in> {workload_columns, related_columns, node_pod_columns}" "c \<in> set cols"
    and "getResourceCellValue fuel h (co_id (pc_column c)) x podMetrics = Some v"
  shows "cell_typed c v"
proof -
  have "c \<in> set workload_columns" using assms(2,3)
    by (auto simp: workload_columns_def related_columns_def node_pod_columns_def)
  then show ?thesis using assms(1,4)
    by (auto simp: workload_columns_def column_defs cell_typed_def is_text_def typed_resource_def getResourceCellValue_def
        split: option.splits)
qed

text \<open>C30: A click on the header of any column of the tables of workloads, of related resources and of a node's
  pods sorts the rows without throwing and loses none: the cells of well-typed objects fit the comparator
  of their column.\<close>

theorem resource_tables_sort:
  assumes "cols \<in> {workload_columns, related_columns, node_pod_columns}" "c \<in> set cols"
    and "\<forall>r \<in> set data. \<exists>x. h r = Some x \<and> typed_resource x
           \<and> getResourceCellValue fuel h (co_id (pc_column c)) x podMetrics = Some (cell (co_id (pc_column c)) r)"
  shows "\<exists>rows. defaultSort (buildComparators (map pc_column cols) ''id'' cell) (co_id (pc_column c)) d data = Some rows
    \<and> mset rows = mset data"
proof (rule typed_rows_sort [OF _ assms(2)])
  show "distinct (map co_id (map pc_column cols))"
    using assms(1) columns_distinct by (auto simp: comp_def)
  show "\<forall>r \<in> set data. cell_typed c (cell (co_id (pc_column c)) r)"
    using assms(3) typed_cells [OF _ assms(1,2)] by blast
qed

definition sorted_resource :: "string \<Rightarrow> string \<Rightarrow> resource" where
  "sorted_resource name created = fresh_resource (JObj [(''kind'', JStr ''Pod''),
     (''metadata'', JObj [(''name'', JStr name), (''namespace'', JStr ''ns''), (''creationTimestamp'', JStr created)])])"

definition sorted_heap :: heap where
  "sorted_heap = [0 \<mapsto> sorted_resource ''b'' ''2017-02-01T00:00:00Z'', 1 \<mapsto> sorted_resource ''a'' ''2017-03-01T00:00:00Z'']"

definition sorted_cell :: "string \<Rightarrow> ref \<Rightarrow> json" where
  "sorted_cell c r = (case sorted_heap r of
     Some x \<Rightarrow> (case getResourceCellValue 0 sorted_heap c x JNull of Some v \<Rightarrow> v | None \<Rightarrow> JUndef) | None \<Rightarrow> JUndef)"

theorem resource_tables_sort_witness:
  "\<exists>rows. defaultSort (buildComparators (map pc_column related_columns) ''id'' sorted_cell) ''name'' (Some Asc) [0, 1] = Some rows
    \<and> mset rows = {#0, 1#}"
proof -
  have "list_all (\<lambda>r. case sorted_heap r of None \<Rightarrow> False | Some x \<Rightarrow> typed_resource x
      \<and> getResourceCellValue 0 sorted_heap ''name'' x JNull = Some (sorted_cell ''name'' r)) [0, 1]" by code_simp
  then have cells: "\<forall>r \<in> set [0, 1]. \<exists>x. sorted_heap r = Some x \<and> typed_resource x
      \<and> getResourceCellValue 0 sorted_heap (co_id (pc_column (text_column ''name''))) x JNull
        = Some (sorted_cell (co_id (pc_column (text_column ''name''))) r)"
    by (auto simp: text_column_def split: option.splits)
  have "related_columns \<in> {workload_columns, related_columns, node_pod_columns}"
    "text_column ''name'' \<in> set related_columns" by (simp_all add: related_columns_def)
  from resource_tables_sort [of related_columns "text_column ''name''" "[0, 1]" sorted_heap 0 JNull sorted_cell "Some Asc",
      OF this cells]
  show ?thesis by (simp add: text_column_def)
qed

text \<open>
  On the access page cluster roles stand beside roles: a cluster role has no namespace, and comparing it
  with a row that has one throws.
\<close>

lemma access_namespace_throws:
  assumes "cell ''namespace'' a = JUndef" "cell ''namespace'' b = JStr ns"
  shows "defaultSort (buildComparators (map pc_column access_columns) ''id'' cell) ''namespace'' d [a, b] = None"
proof -
  have "oget (buildComparators (map pc_column access_columns) ''id'' cell) ''namespace''
      = Some (column_comparator cell ''id'' (pc_column (text_column ''namespace'')))"
    using buildComparators_own [of "map pc_column access_columns" "pc_column (text_column ''namespace'')" "''id''" cell]
      columns_distinct(4)
    by (simp add: comp_def access_columns_def text_column_def)
  then show ?thesis using assms
    by (simp add: defaultSort_def column_comparator_def text_column_def defaultSortString_def)
qed

end
