(* ===== verification/Panes.thy ===== *)
theory Panes
  imports Tabs
begin

text \<open>
  Two panes of the page of one object: \<^verbatim>\<open>src/components/configuration-pane/RelatedResourcesPane.js\<close>,
  which lists what the object owns, directly or not, with everything these are related to, and
  \<^verbatim>\<open>PodsForNodePane.js\<close>, which lists the pods of a node. \<^term>\<open>None\<close> is an exception, or the end of
  the fuel of the loop over owned objects.
\<close>

section \<open>What the panes list\<close>

definition related_keys :: "resource \<Rightarrow> string list" where
  "related_keys x = (case r_related x of Some o1 \<Rightarrow> okeys o1 | None \<Rightarrow> [])"

text \<open>The loop over owned objects; it has no visited set.\<close>

fun owned_loop :: "nat \<Rightarrow> heap \<Rightarrow> ref list \<Rightarrow> ref obj \<Rightarrow> ref obj option" where
  "owned_loop fuel h [] related = Some related"
| "owned_loop 0 h (r # q) related = None"
| "owned_loop (Suc fuel) h (r # q) related = do {
     x \<leftarrow> h r;
     owned_loop fuel h (case r_owned x of Some o1 \<Rightarrow> q @ map snd o1 | None \<Rightarrow> q) (oset (key_name x) r related)
   }"

definition resolveOwned :: "nat \<Rightarrow> heap \<Rightarrow> resource \<Rightarrow> ref obj \<Rightarrow> ref obj option" where
  "resolveOwned fuel h x related =
     (case r_owned x of Some o1 \<Rightarrow> owned_loop fuel h (map snd o1) related | None \<Rightarrow> Some related)"

lemma okeys_oset_set: "set (okeys (oset k v o1)) = insert k (set (okeys o1))"
  by (auto simp: okeys_oset ohas_okeys)

text \<open>The loop over related keys; one that the store lacks throws.\<close>

function related_loop :: "heap \<Rightarrow> ref obj \<Rightarrow> string list \<Rightarrow> ref obj \<Rightarrow> ref obj option" where
  "related_loop h resources [] found = Some found"
| "related_loop h resources (key # relKeys) found =
     (if ohas key found then related_loop h resources relKeys found
      else (case oget resources key of
              None \<Rightarrow> None
            | Some r \<Rightarrow> (case h r of
                None \<Rightarrow> None
              | Some x \<Rightarrow> related_loop h resources
                            (relKeys @ filter (\<lambda>k. \<not> ohas k (oset key r found)) (related_keys x)) (oset key r found))))"
  by pat_completeness auto

termination
proof (relation "measures [\<lambda>(h, resources, relKeys, found). card (set (okeys resources) - set (okeys found)),
    \<lambda>(h, resources, relKeys, found). length relKeys]", goal_cases)
  case (3 h resources key relKeys found r x)
  then have "(key, r) \<in> set resources" by (intro map_of_SomeD) simp
  then have "key \<in> set (okeys resources)" by force
  moreover have "key \<notin> set (okeys found)" using 3 by (simp add: ohas_okeys)
  ultimately have "card (set (okeys resources) - set (okeys (oset key r found))) < card (set (okeys resources) - set (okeys found))"
    unfolding okeys_oset_set by (intro psubset_card_mono) auto
  then show ?case by simp
qed auto

text \<open>\<^verbatim>\<open>resolveRelated\<close>; the outer \<^verbatim>\<open>!!resources\<close> holds for the map of the store.\<close>

definition resolveRelated :: "nat \<Rightarrow> heap \<Rightarrow> ref obj \<Rightarrow> resource \<Rightarrow> ref list option" where
  "resolveRelated fuel h resources x = do {
     related \<leftarrow> resolveOwned fuel h x [];
     relKeys \<leftarrow> foldM (\<lambda>r acc. map_option (\<lambda>y. acc @ related_keys y) (h r)) (map snd related) [];
     found \<leftarrow> related_loop h resources relKeys [];
     filterM (\<lambda>r. map_option (\<lambda>y. \<not> r_isFiltered y) (h r)) (map snd (ospread related found))
   }"

text \<open>The pods of a node, by the spec of the objects under keys of pods.\<close>

definition resolvePods :: "heap \<Rightarrow> ref obj \<Rightarrow> json \<Rightarrow> ref list option" where
  "resolvePods h resources nodeName =
     map_option (map snd) (filterM (\<lambda>(key, r).
       if \<not> starts_with ''Pod/'' key then Some False
       else do {
         pod \<leftarrow> h r;
         if r_isFiltered pod then Some False
         else do { spec \<leftarrow> rget pod ''spec''; n \<leftarrow> jget spec ''nodeName''; Some (strict_eq n nodeName) }
       }) resources)"

section \<open>The related resources\<close>

record related_pane =
  rp_actionsOpen :: bool
  rp_deleteOpen :: bool
  rp_detachOpen :: bool
  rp_openTerminal :: bool
  rp_hoveredRow :: int
  rp_hovered :: "ref option"
  rp_access :: "json obj option"
  rp_selected :: "target list"
  rp_rows :: "ref list"
  rp_selectedIds :: "string list"
  rp_deleteEnabled :: bool
  rp_deleteDisabled :: bool
  rp_actionsClicked :: bool

definition new_related_pane :: related_pane where
  "new_related_pane = \<lparr>rp_actionsOpen = False, rp_deleteOpen = False, rp_detachOpen = False, rp_openTerminal = False,
     rp_hoveredRow = - 1, rp_hovered = None, rp_access = None, rp_selected = [], rp_rows = [], rp_selectedIds = [],
     rp_deleteEnabled = False, rp_deleteDisabled = True, rp_actionsClicked = False\<rparr>"

definition componentDidMount_related :: "nat \<Rightarrow> page_props \<Rightarrow> resource \<Rightarrow> related_pane \<Rightarrow> related_pane option" where
  "componentDidMount_related fuel props x w =
     map_option (\<lambda>rs. w\<lparr>rp_rows := rs\<rparr>) (resolveRelated fuel (pp_heap props) (pp_resources props) x)"

definition componentDidUpdate_related :: "related_pane \<Rightarrow> related_pane" where
  "componentDidUpdate_related w = (if rp_actionsOpen w then w else w\<lparr>rp_actionsClicked := False\<rparr>)"

definition handleActionsRequestClose_related :: "related_pane \<Rightarrow> related_pane" where
  "handleActionsRequestClose_related w = w\<lparr>rp_actionsOpen := False, rp_hoveredRow := - 1, rp_hovered := None\<rparr>"

definition handleCellClick_related :: "ref \<Rightarrow> string \<Rightarrow> related_pane \<Rightarrow> related_pane \<times> command list" where
  "handleCellClick_related r col w =
     (if col = ''actions'' then (w\<lparr>rp_actionsClicked := True\<rparr>, [])
      else (w\<lparr>rp_actionsClicked := False\<rparr>, [ViewResource (Chosen r) ''config'']))"

definition access_arrives_related :: "nat \<Rightarrow> ref \<Rightarrow> json obj \<Rightarrow> related_pane \<Rightarrow> related_pane" where
  "access_arrives_related row r access w =
     w\<lparr>rp_actionsOpen := True, rp_hoveredRow := int row, rp_hovered := Some r, rp_access := Some access\<rparr>"

definition handleRowSelection_related :: "string list \<Rightarrow> related_pane \<Rightarrow> related_pane" where
  "handleRowSelection_related ids w =
     (if rp_actionsClicked w then w
      else w\<lparr>rp_selectedIds := ids, rp_deleteEnabled := ids \<noteq> [], rp_deleteDisabled := ids = []\<rparr>)"

text \<open>Any argument is taken for a resource, the event of the button as well.\<close>

definition handleDelete_related :: "page_props \<Rightarrow> target option \<Rightarrow> related_pane \<Rightarrow> related_pane" where
  "handleDelete_related props arg w =
     w\<lparr>rp_selected := (case arg of Some t \<Rightarrow> [t] | None \<Rightarrow> map (lookup_target props) (rp_selectedIds w)),
       rp_deleteOpen := True, rp_actionsOpen := False\<rparr>"

definition handleRequestCloseDelete_related :: "related_pane \<Rightarrow> related_pane" where
  "handleRequestCloseDelete_related w = w\<lparr>rp_deleteOpen := False, rp_selected := []\<rparr>"

definition handleConfirmDelete_related :: "related_pane \<Rightarrow> related_pane \<times> command list" where
  "handleConfirmDelete_related w =
     (handleRowSelection_related [] (w\<lparr>rp_selected := [], rp_deleteOpen := False\<rparr>), [RemoveResources (rp_selected w)])"

definition handleDetach_related :: "page_props \<Rightarrow> target option \<Rightarrow> related_pane \<Rightarrow> related_pane" where
  "handleDetach_related props arg w =
     w\<lparr>rp_selected := (case arg of Some t \<Rightarrow> [t] | None \<Rightarrow> map (lookup_target props) (rp_selectedIds w)),
       rp_detachOpen := True, rp_actionsOpen := False\<rparr>"

definition handleRequestCloseDetach_related :: "related_pane \<Rightarrow> related_pane" where
  "handleRequestCloseDetach_related w = w\<lparr>rp_detachOpen := False, rp_selected := []\<rparr>"

definition toggleOpenTerminalOnDetach_related :: "related_pane \<Rightarrow> related_pane" where
  "toggleOpenTerminalOnDetach_related w = w\<lparr>rp_openTerminal := \<not> rp_openTerminal w\<rparr>"

definition handleConfirmDetach_related :: "related_pane \<Rightarrow> related_pane \<times> command list" where
  "handleConfirmDetach_related w =
     (handleRowSelection_related [] (w\<lparr>rp_selected := [], rp_detachOpen := False\<rparr>), [DetachFirst (take 1 (rp_selected w))])"

text \<open>
  The entries of the menu: the handler of the terminal is registered as \<^verbatim>\<open>term\<close>, a name that no entry
  has, and there is none for scaling.
\<close>

definition hovered_or_missing :: "ref option \<Rightarrow> target" where
  "hovered_or_missing r = (case r of Some r \<Rightarrow> Chosen r | None \<Rightarrow> Missing)"

definition menu_related :: "page_props \<Rightarrow> string \<Rightarrow> related_pane \<Rightarrow> (related_pane \<times> command list) option" where
  "menu_related props name w =
     (let close = handleActionsRequestClose_related
      in if name \<in> {''logs'', ''edit''} then Some (close w, [ViewResource (hovered_or_missing (rp_hovered w)) name])
         else if name = ''term'' then Some (close w, [ViewResource (hovered_or_missing (rp_hovered w)) ''terminal''])
         else if name = ''detach'' then Some (close (handleDetach_related props (map_option Chosen (rp_hovered w)) w), [])
         else if name = ''delete'' then Some (close (handleDelete_related props (map_option Chosen (rp_hovered w)) w), [])
         else None)"

text \<open>
  New props, and what makes the pane render again; setting the rows or the selected resources anew does,
  even to an equal array.
\<close>

definition componentWillReceiveProps_related ::
  "nat \<Rightarrow> bool \<Rightarrow> bool \<Rightarrow> page_props \<Rightarrow> resource \<Rightarrow> related_pane \<Rightarrow> related_pane option" where
  "componentWillReceiveProps_related fuel newRevision newFilters props x w =
     (if newRevision \<or> newFilters then componentDidMount_related fuel props x w else Some w)"

definition shouldComponentUpdate_related :: "bool \<Rightarrow> bool \<Rightarrow> related_pane \<Rightarrow> related_pane \<Rightarrow> bool" where
  "shouldComponentUpdate_related newProps newArrays w w1 \<longleftrightarrow> newProps \<or> newArrays \<or> rp_actionsOpen w1 \<noteq> rp_actionsOpen w
     \<or> rp_openTerminal w1 \<noteq> rp_openTerminal w \<or> rp_deleteOpen w1 \<noteq> rp_deleteOpen w
     \<or> rp_detachOpen w1 \<noteq> rp_detachOpen w"

text \<open>The dialogs, if rendering does not throw.\<close>

definition related_dialogs :: "heap \<Rightarrow> related_pane \<Rightarrow> (target list option \<times> target list option) option" where
  "related_dialogs h w =
     (if (rp_deleteOpen w \<or> rp_detachOpen w) \<and> \<not> dialog_ok h (rp_selected w) then None
      else Some (if rp_deleteOpen w then Some (rp_selected w) else None,
                 if rp_detachOpen w then Some (rp_selected w) else None))"

section \<open>The pods of a node\<close>

record node_pane =
  np_actionsOpen :: bool
  np_deleteOpen :: bool
  np_hoveredRow :: int
  np_hovered :: "ref option"
  np_access :: "json obj option"
  np_selected :: "target list"
  np_nodeName :: json
  np_pods :: "ref list"
  np_selectedIds :: "string list"
  np_deleteEnabled :: bool
  np_deleteDisabled :: bool
  np_actionsClicked :: bool

definition new_node_pane :: "resource \<Rightarrow> node_pane option" where
  "new_node_pane node = map_option (\<lambda>n.
     \<lparr>np_actionsOpen = False, np_deleteOpen = False, np_hoveredRow = - 1, np_hovered = None, np_access = None,
      np_selected = [], np_nodeName = n, np_pods = [], np_selectedIds = [], np_deleteEnabled = False,
      np_deleteDisabled = True, np_actionsClicked = False\<rparr>) (metadata_of node ''name'')"

definition componentDidMount_pods :: "page_props \<Rightarrow> resource \<Rightarrow> node_pane \<Rightarrow> node_pane option" where
  "componentDidMount_pods props node w = do {
     n \<leftarrow> metadata_of node ''name'';
     map_option (\<lambda>rs. w\<lparr>np_pods := rs\<rparr>) (resolvePods (pp_heap props) (pp_resources props) n)
   }"

definition componentDidUpdate_pods :: "node_pane \<Rightarrow> node_pane" where
  "componentDidUpdate_pods w = (if np_actionsOpen w then w else w\<lparr>np_actionsClicked := False\<rparr>)"

definition handleActionsRequestClose_pods :: "node_pane \<Rightarrow> node_pane" where
  "handleActionsRequestClose_pods w = w\<lparr>np_actionsOpen := False, np_hoveredRow := - 1, np_hovered := None\<rparr>"

definition handleCellClick_pods :: "ref \<Rightarrow> string \<Rightarrow> node_pane \<Rightarrow> node_pane \<times> command list" where
  "handleCellClick_pods r col w =
     (if col = ''actions'' then (w\<lparr>np_actionsClicked := True\<rparr>, [])
      else (w\<lparr>np_actionsClicked := False\<rparr>, [ViewResource (Chosen r) ''config'']))"

definition access_arrives_pods :: "nat \<Rightarrow> ref \<Rightarrow> json obj \<Rightarrow> node_pane \<Rightarrow> node_pane" where
  "access_arrives_pods row r access w =
     w\<lparr>np_actionsOpen := True, np_hoveredRow := int row, np_hovered := Some r, np_access := Some access\<rparr>"

definition handleRowSelection_pods :: "string list \<Rightarrow> node_pane \<Rightarrow> node_pane" where
  "handleRowSelection_pods ids w =
     (if np_actionsClicked w then w
      else w\<lparr>np_selectedIds := ids, np_deleteEnabled := ids \<noteq> [], np_deleteDisabled := ids = []\<rparr>)"

definition handleDelete_pods :: "page_props \<Rightarrow> target option \<Rightarrow> node_pane \<Rightarrow> node_pane" where
  "handleDelete_pods props arg w =
     w\<lparr>np_selected := (case arg of Some t \<Rightarrow> [t] | None \<Rightarrow> map (lookup_target props) (np_selectedIds w)),
       np_deleteOpen := True, np_actionsOpen := False\<rparr>"

definition handleRequestCloseDelete_pods :: "node_pane \<Rightarrow> node_pane" where
  "handleRequestCloseDelete_pods w = w\<lparr>np_deleteOpen := False, np_selected := []\<rparr>"

definition handleConfirmDelete_pods :: "node_pane \<Rightarrow> node_pane \<times> command list" where
  "handleConfirmDelete_pods w =
     (handleRowSelection_pods [] (w\<lparr>np_selected := [], np_deleteOpen := False\<rparr>), [RemoveResources (np_selected w)])"

text \<open>The delete entry passes \<^verbatim>\<open>hoveredResources\<close>, which is always null; detaching asks for no confirmation.\<close>

definition menu_pods :: "page_props \<Rightarrow> string \<Rightarrow> node_pane \<Rightarrow> (node_pane \<times> command list) option" where
  "menu_pods props name w =
     (let close = handleActionsRequestClose_pods
      in if name \<in> {''logs'', ''edit''} then Some (close w, [ViewResource (hovered_or_missing (np_hovered w)) name])
         else if name = ''term'' then Some (close w, [ViewResource (hovered_or_missing (np_hovered w)) ''terminal''])
         else if name = ''detach'' then Some (close w, [DetachFirst [hovered_or_missing (np_hovered w)]])
         else if name = ''delete'' then Some (close (handleDelete_pods props None w), [])
         else None)"

definition componentWillReceiveProps_pods :: "bool \<Rightarrow> bool \<Rightarrow> page_props \<Rightarrow> node_pane \<Rightarrow> node_pane option" where
  "componentWillReceiveProps_pods newVersion newFilters props w =
     (if newVersion \<or> newFilters
      then map_option (\<lambda>rs. w\<lparr>np_pods := rs\<rparr>) (resolvePods (pp_heap props) (pp_resources props) (np_nodeName w))
      else Some w)"

definition shouldComponentUpdate_pods :: "bool \<Rightarrow> bool \<Rightarrow> node_pane \<Rightarrow> node_pane \<Rightarrow> bool" where
  "shouldComponentUpdate_pods newProps newArray w w1 \<longleftrightarrow> newProps \<or> newArray \<or> np_actionsOpen w1 \<noteq> np_actionsOpen w"

definition pods_dialog :: "heap \<Rightarrow> node_pane \<Rightarrow> target list option option" where
  "pods_dialog h w =
     (if \<not> np_deleteOpen w then Some None
      else if dialog_ok h (np_selected w) then Some (Some (np_selected w)) else None)"

text \<open>
  What is on the screen after the state has become \<open>w1\<close>: the dialog is rendered again only when
  \<^verbatim>\<open>shouldComponentUpdate\<close> says so.
\<close>

definition show_pods :: "heap \<Rightarrow> bool \<Rightarrow> node_pane \<times> target list option \<Rightarrow> node_pane \<Rightarrow> (node_pane \<times> target list option) option" where
  "show_pods h newProps s w1 =
     (if shouldComponentUpdate_pods newProps False (fst s) w1
      then map_option (\<lambda>d. (componentDidUpdate_pods w1, d)) (pods_dialog h w1) else Some (w1, snd s))"

text \<open>Cancelling the dialog leaves it on the screen, and so does confirming it.\<close>

lemma pods_dialog_stays:
  assumes "\<not> np_actionsOpen w"
  shows "show_pods h False (w, Some ts) (handleRequestCloseDelete_pods w) = Some (handleRequestCloseDelete_pods w, Some ts)"
    and "show_pods h False (w, Some ts) (fst (handleConfirmDelete_pods w)) = Some (fst (handleConfirmDelete_pods w), Some ts)"
  by (simp_all add: show_pods_def shouldComponentUpdate_pods_def handleRequestCloseDelete_pods_def
      handleConfirmDelete_pods_def handleRowSelection_pods_def)

text \<open>The delete button is not followed by a dialog until something else changes; then rendering throws.\<close>

lemma pods_delete_button:
  assumes "\<not> np_actionsOpen w"
  shows "show_pods h False (w, d) (handleDelete_pods props (Some TapEvent) w) = Some (handleDelete_pods props (Some TapEvent) w, d)"
    and "show_pods h True (w, d) (handleDelete_pods props (Some TapEvent) w) = None"
  using assms
  by (simp_all add: show_pods_def shouldComponentUpdate_pods_def handleDelete_pods_def pods_dialog_def dialog_ok_def)

text \<open>The terminal entry of both menus has no handler.\<close>

lemma terminal_entry_throws: "menu_related props ''terminal'' w = None" "menu_pods props ''terminal'' v = None"
  by (simp_all add: menu_related_def menu_pods_def)

lemma related_delete_button_throws: "related_dialogs h (handleDelete_related props (Some TapEvent) w) = None"
  by (simp add: related_dialogs_def handleDelete_related_def dialog_ok_def)

lemma related_confirm_removes_shown:
  assumes "related_dialogs h w = Some (Some ts, d)" "handleConfirmDelete_related w = (w1, cs)"
  shows "cs = [RemoveResources ts]"
  using assms by (auto simp: related_dialogs_def handleConfirmDelete_related_def split: if_splits)

section \<open>The related pane lists what is reachable\<close>

text \<open>The keys that an object under a key is related to, and the objects below one in ownership.\<close>

definition related_edges :: "heap \<Rightarrow> ref obj \<Rightarrow> (string \<times> string) set" where
  "related_edges h resources =
     {(k, k'). \<exists>r x. oget resources k = Some r \<and> h r = Some x \<and> k' \<in> set (related_keys x)}"

definition below :: "heap \<Rightarrow> resource \<Rightarrow> ref set" where
  "below h x = (edges (owned_refs h))\<^sup>* `` (case r_owned x of Some o1 \<Rightarrow> set (map snd o1) | None \<Rightarrow> {})"

definition related_to :: "heap \<Rightarrow> ref obj \<Rightarrow> resource \<Rightarrow> string set" where
  "related_to h resources x =
     (related_edges h resources)\<^sup>* `` (\<Union>d \<in> below h x. case h d of Some y \<Rightarrow> set (related_keys y) | None \<Rightarrow> {})"

definition stored_at :: "heap \<Rightarrow> ref obj \<Rightarrow> string \<Rightarrow> bool" where
  "stored_at h resources k \<longleftrightarrow> (\<exists>r x. oget resources k = Some r \<and> h r = Some x)"

lemma related_loop_reaches:
  assumes "related_loop h resources q found = Some all"
    and "\<forall>k \<in> set (okeys found). oget found k = oget resources k \<and> related_edges h resources `` {k} \<subseteq> set (okeys found) \<union> set q"
  shows "set (okeys all) = set (okeys found) \<union> (related_edges h resources)\<^sup>* `` set q
    \<and> (\<forall>k \<in> set (okeys all). oget all k = oget resources k)"
  using assms
proof (induction h resources q found rule: related_loop.induct)
  case (1 h resources found)
  then show ?case by simp
next
  case (2 h resources key q found)
  let ?E = "related_edges h resources"
  have closed: "?E\<^sup>* `` S \<subseteq> K \<union> ?E\<^sup>* `` T" if "S \<subseteq> K" "\<forall>k \<in> K. ?E `` {k} \<subseteq> K \<union> T" for S K T
  proof
    fix k
    assume "k \<in> ?E\<^sup>* `` S"
    then obtain s where "s \<in> S" "(s, k) \<in> ?E\<^sup>*" by auto
    from this(2,1) show "k \<in> K \<union> ?E\<^sup>* `` T"
    proof (induction rule: rtrancl_induct)
      case (step y z)
      then show ?case using that by (blast intro: rtrancl_into_rtrancl)
    qed (use that in auto)
  qed
  show ?case
  proof (cases "ohas key found")
    case True
    then have key: "key \<in> set (okeys found)" by (simp add: ohas_okeys)
    then have inv: "\<forall>k \<in> set (okeys found). oget found k = oget resources k \<and> ?E `` {k} \<subseteq> set (okeys found) \<union> set q"
      using "2.prems"(2) by (auto simp del: Image_singleton_iff)
    then have "?E\<^sup>* `` {key} \<subseteq> set (okeys found) \<union> ?E\<^sup>* `` set q"
      using key by (intro closed) auto
    moreover have "?E\<^sup>* `` set (key # q) = ?E\<^sup>* `` {key} \<union> ?E\<^sup>* `` set q" by auto
    ultimately have same: "set (okeys found) \<union> ?E\<^sup>* `` set (key # q) = set (okeys found) \<union> ?E\<^sup>* `` set q" by blast
    have "related_loop h resources q found = Some all" using "2.prems"(1) True by simp
    from "2.IH"(1) [OF True this inv] show ?thesis unfolding same .
  next
    case False
    with "2.prems"(1) obtain r x where r: "oget resources key = Some r" "h r = Some x"
      by (auto split: option.splits)
    let ?found = "oset key r found"
    let ?q = "q @ filter (\<lambda>k. \<not> ohas k ?found) (related_keys x)"
    have edge: "?E `` {key} = set (related_keys x)" using r by (auto simp: related_edges_def)
    have keys: "set (okeys ?found) = insert key (set (okeys found))" by (rule okeys_oset_set)
    have inv: "\<forall>k \<in> set (okeys ?found). oget ?found k = oget resources k \<and> ?E `` {k} \<subseteq> set (okeys ?found) \<union> set ?q"
    proof (intro ballI)
      fix k
      assume k: "k \<in> set (okeys ?found)"
      show "oget ?found k = oget resources k \<and> ?E `` {k} \<subseteq> set (okeys ?found) \<union> set ?q"
      proof (cases "k = key")
        case True
        then show ?thesis using r edge by (auto simp: ohas_okeys)
      next
        case False
        then have "k \<in> set (okeys found)" using k keys by auto
        with "2.prems"(2) False show ?thesis unfolding keys by (fastforce simp del: Image_singleton_iff)
      qed
    qed
    have "related_loop h resources ?q ?found = Some all" using "2.prems"(1) False r by simp
    note all = "2.IH"(2) [OF False r this inv]
    have "?E\<^sup>* `` set ?q \<subseteq> ?E\<^sup>* `` set (key # q)"
      using edge by (auto intro: converse_rtrancl_into_rtrancl)
    moreover have "?E\<^sup>* `` {key} \<subseteq> set (okeys ?found) \<union> ?E\<^sup>* `` set ?q"
    proof (rule closed)
      show "{key} \<subseteq> set (okeys ?found)" unfolding keys by blast
      show "\<forall>k \<in> set (okeys ?found). ?E `` {k} \<subseteq> set (okeys ?found) \<union> set ?q" using inv by blast
    qed
    ultimately have same: "set (okeys ?found) \<union> ?E\<^sup>* `` set ?q = set (okeys found) \<union> ?E\<^sup>* `` set (key # q)"
      unfolding keys by auto
    from all show ?thesis unfolding same .
  qed
qed

text \<open>It throws exactly when a key that it reaches is not stored.\<close>

lemma related_loop_None:
  "related_loop h resources q found = None \<Longrightarrow> \<exists>k \<in> (related_edges h resources)\<^sup>* `` set q. \<not> stored_at h resources k"
proof (induction h resources q found rule: related_loop.induct)
  case (2 h resources key q found)
  let ?E = "related_edges h resources"
  show ?case
  proof (cases "stored_at h resources key")
    case False
    then show ?thesis by auto
  next
    case True
    then obtain r x where r: "oget resources key = Some r" "h r = Some x" by (auto simp: stored_at_def)
    show ?thesis
    proof (cases "ohas key found")
      case True
      with "2.prems" have "related_loop h resources q found = None" by simp
      from "2.IH"(1) [OF True this] show ?thesis by auto
    next
      case False
      from "2.IH"(2) [OF False r] "2.prems" False r obtain k
        where k: "k \<in> ?E\<^sup>* `` set (q @ filter (\<lambda>k. \<not> ohas k (oset key r found)) (related_keys x))" "\<not> stored_at h resources k"
        by auto
      have "?E `` {key} = set (related_keys x)" using r by (auto simp: related_edges_def)
      with k(1) have "k \<in> ?E\<^sup>* `` set (key # q)" by (auto intro: converse_rtrancl_into_rtrancl)
      with k(2) show ?thesis by blast
    qed
  qed
qed simp

lemma related_loop_all_stored:
  assumes "related_loop h resources q [] = Some all"
  shows "\<forall>k \<in> (related_edges h resources)\<^sup>* `` set q. stored_at h resources k"
proof -
  have "\<forall>k \<in> set (okeys all). k \<notin> set (okeys found) \<longrightarrow> stored_at h resources k"
    if "related_loop h resources q found = Some all" for q found
    using that
  proof (induction h resources q found rule: related_loop.induct)
    case (2 h resources key q found)
    show ?case
    proof (cases "ohas key found")
      case True
      with "2.prems" have "related_loop h resources q found = Some all" by simp
      from "2.IH"(1) [OF True this] show ?thesis .
    next
      case False
      with "2.prems" obtain r x where r: "oget resources key = Some r" "h r = Some x" by (auto split: option.splits)
      have "related_loop h resources (q @ filter (\<lambda>k. \<not> ohas k (oset key r found)) (related_keys x)) (oset key r found) = Some all"
        using "2.prems" False r by simp
      from "2.IH"(2) [OF False r this]
      have rest: "\<forall>k \<in> set (okeys all). k \<notin> insert key (set (okeys found)) \<longrightarrow> stored_at h resources k"
        unfolding okeys_oset_set .
      show ?thesis
      proof (intro ballI impI)
        fix k
        assume k: "k \<in> set (okeys all)" "k \<notin> set (okeys found)"
        show "stored_at h resources k"
        proof (cases "k = key")
          case True
          then show ?thesis using r by (simp add: stored_at_def)
        next
          case False
          with k(2) have "k \<notin> insert key (set (okeys found))" by (simp only: insert_iff de_Morgan_disj simp_thms)
          with k(1) show ?thesis by (rule rest [rule_format])
        qed
      qed
    qed
  qed simp
  then have "\<forall>k \<in> set (okeys all). stored_at h resources k" using assms by (metis empty_iff list.map(1) list.set(1))
  moreover have "\<forall>k \<in> set (okeys []). oget [] k = oget resources k \<and> related_edges h resources `` {k} \<subseteq> set (okeys []) \<union> set q"
    by simp
  note reached = conjunct1 [OF related_loop_reaches [OF assms this]]
  ultimately show ?thesis unfolding reached by simp
qed

text \<open>The objects met in the loop over owned ones, by their keys.\<close>

definition key_at :: "heap \<Rightarrow> ref \<Rightarrow> string" where
  "key_at h r = (case h r of Some x \<Rightarrow> key_name x | None \<Rightarrow> [])"

lemma owned_loop_walk:
  "walk n (owned_refs h) q = Some vs \<Longrightarrow> \<forall>r \<in> set vs. h r \<noteq> None \<Longrightarrow>
     owned_loop n h q related = Some (fold (\<lambda>r. oset (key_at h r) r) vs related)"
proof (induction n arbitrary: q vs related)
  case 0
  then show ?case by (cases q) auto
next
  case (Suc n)
  show ?case
  proof (cases q)
    case (Cons r q')
    with Suc.prems obtain ws where ws: "walk n (owned_refs h) (q' @ owned_refs h r) = Some ws" "vs = r # ws" by auto
    with Suc.prems(2) obtain x where x: "h r = Some x" by auto
    have "(case r_owned x of Some o1 \<Rightarrow> q' @ map snd o1 | None \<Rightarrow> q') = q' @ owned_refs h r"
      by (simp add: owned_refs_def owned_of_def x split: option.split)
    with Suc.IH [OF ws(1)] Suc.prems(2) ws(2) Cons x show ?thesis by (simp add: key_at_def)
  qed (use Suc.prems in auto)
qed

text \<open>An object whose entries are those of another one: its values are the entries under its keys.\<close>

lemma okeys_fold_oset: "set (okeys (fold (\<lambda>r. oset (f r) r) vs o1)) = set (okeys o1) \<union> f ` set vs"
  by (induction vs arbitrary: o1) (auto simp: okeys_oset_set simp del: set_map)

lemma fold_oset_agrees:
  assumes "\<forall>r \<in> set vs. oget m (f r) = Some r" "\<forall>k \<in> set (okeys o1). oget o1 k = oget m k"
  shows "\<forall>k \<in> set (okeys (fold (\<lambda>r. oset (f r) r) vs o1)). oget (fold (\<lambda>r. oset (f r) r) vs o1) k = oget m k"
  using assms
proof (induction vs arbitrary: o1)
  case (Cons r vs)
  have "\<forall>k \<in> set (okeys (oset (f r) r o1)). oget (oset (f r) r o1) k = oget m k"
    unfolding okeys_oset_set using Cons.prems by (simp del: set_map)
  from Cons.IH [OF _ this] Cons.prems(1) show ?case by simp
qed simp

lemma wf_obj_fold_oset: "wf_obj o1 \<Longrightarrow> wf_obj (fold (\<lambda>r. oset (f r) r) vs o1)"
  by (induction vs arbitrary: o1) auto

lemma wf_obj_related_loop: "related_loop h resources q found = Some all \<Longrightarrow> wf_obj found \<Longrightarrow> wf_obj all"
proof (induction h resources q found rule: related_loop.induct)
  case (2 h resources key q found)
  show ?case
  proof (cases "ohas key found")
    case True
    with "2.prems"(1) have "related_loop h resources q found = Some all" by simp
    from "2.IH"(1) [OF True this "2.prems"(2)] show ?thesis .
  next
    case False
    with "2.prems"(1) obtain r x where r: "oget resources key = Some r" "h r = Some x" by (auto split: option.splits)
    have "related_loop h resources (q @ filter (\<lambda>k. \<not> ohas k (oset key r found)) (related_keys x)) (oset key r found) = Some all"
      using "2.prems"(1) False r by simp
    from "2.IH"(2) [OF False r this] "2.prems"(2) show ?thesis by simp
  qed
qed simp

lemma values_agree:
  assumes "wf_obj o1" "\<forall>k \<in> set (okeys o1). oget o1 k = oget m k"
  shows "set (map snd o1) = {r. \<exists>k \<in> set (okeys o1). oget m k = Some r}"
proof
  show "set (map snd o1) \<subseteq> {r. \<exists>k \<in> set (okeys o1). oget m k = Some r}"
  proof
    fix r
    assume "r \<in> set (map snd o1)"
    then obtain k where k: "(k, r) \<in> set o1" by auto
    then have "k \<in> set (okeys o1)" by force
    moreover have "oget o1 k = Some r" using k assms(1) by (simp add: wf_obj_in_set)
    ultimately show "r \<in> {r. \<exists>k \<in> set (okeys o1). oget m k = Some r}" using assms(2) by auto
  qed
  show "{r. \<exists>k \<in> set (okeys o1). oget m k = Some r} \<subseteq> set (map snd o1)"
    using assms(2) by (force dest: map_of_SomeD)
qed

lemma spread_agrees:
  assumes "\<forall>k \<in> set (okeys a). oget a k = oget m k" "\<forall>k \<in> set (okeys b). oget b k = oget m k"
  shows "set (okeys (ospread a b)) = set (okeys a) \<union> set (okeys b)"
    and "\<forall>k \<in> set (okeys (ospread a b)). oget (ospread a b) k = oget m k"
proof -
  have "k \<in> set (okeys (ospread a b)) \<longleftrightarrow> k \<in> set (okeys a) \<or> k \<in> set (okeys b)" for k
    using ohas_ospread [of k a b] unfolding ohas_okeys .
  then show keys: "set (okeys (ospread a b)) = set (okeys a) \<union> set (okeys b)" by blast
  show "\<forall>k \<in> set (okeys (ospread a b)). oget (ospread a b) k = oget m k"
  proof
    fix k
    assume "k \<in> set (okeys (ospread a b))"
    then show "oget (ospread a b) k = oget m k"
    proof (cases "oget b k")
      case None
      then have "k \<notin> set (okeys b)" using map_of_eq_None_iff [of b k] by simp
      with \<open>k \<in> set (okeys (ospread a b))\<close> keys have "k \<in> set (okeys a)" by blast
      with assms(1) have "oget a k = oget m k" by (rule bspec)
      with None show ?thesis by simp
    next
      case (Some r)
      then have "k \<in> set (okeys b)" using map_of_eq_None_iff [of b k] by (metis option.distinct(1) set_map)
      with assms(2) have "oget b k = oget m k" by (rule bspec)
      with Some show ?thesis by simp
    qed
  qed
qed

lemma collect_related_keys:
  assumes "\<forall>r \<in> set rs. h r \<noteq> None"
  shows "\<exists>ks. foldM (\<lambda>r acc. map_option (\<lambda>y. acc @ related_keys y) (h r)) rs acc0 = Some ks
    \<and> set ks = set acc0 \<union> (\<Union>r \<in> set rs. case h r of Some y \<Rightarrow> set (related_keys y) | None \<Rightarrow> {})"
  using assms
proof (induction rs arbitrary: acc0)
  case (Cons r rs)
  then obtain y where y: "h r = Some y" by auto
  from Cons.IH [of "acc0 @ related_keys y"] Cons.prems y show ?case by auto
qed simp

text \<open>What the loop over owned objects leaves: a part of the store with exactly the objects below.\<close>

lemma resolveOwned_below:
  assumes "acyclic_owned h" "\<forall>d \<in> below h x. \<exists>y. h d = Some y \<and> oget resources (key_name y) = Some d"
  shows "\<exists>n0. \<forall>n \<ge> n0. \<exists>related. resolveOwned n h x [] = Some related \<and> wf_obj related
    \<and> (\<forall>k \<in> set (okeys related). oget related k = oget resources k) \<and> set (map snd related) = below h x"
proof -
  let ?q = "case r_owned x of Some o1 \<Rightarrow> map snd o1 | None \<Rightarrow> []"
  obtain n0 where n0: "\<And>n. n \<ge> n0 \<Longrightarrow> \<exists>vs. walk n (owned_refs h) ?q = Some vs"
    using owned.walk_terminates [OF assms(1)] by blast
  have below: "below h x = (edges (owned_refs h))\<^sup>* `` set ?q" by (simp add: below_def split: option.split)
  have "\<exists>related. resolveOwned n h x [] = Some related \<and> wf_obj related
      \<and> (\<forall>k \<in> set (okeys related). oget related k = oget resources k) \<and> set (map snd related) = below h x"
    if "n \<ge> n0" for n
  proof -
    from n0 [OF that] obtain vs where vs: "walk n (owned_refs h) ?q = Some vs" by blast
    have b: "set vs = below h x" unfolding below by (rule walk_set [OF vs])
    let ?rel = "fold (\<lambda>r. oset (key_at h r) r) vs []"
    have at: "\<forall>r \<in> set vs. oget resources (key_at h r) = Some r"
      using assms(2) unfolding b [symmetric] key_at_def by fastforce
    have "\<forall>r \<in> set vs. h r \<noteq> None" using assms(2) unfolding b [symmetric] by fastforce
    from owned_loop_walk [OF vs this, of "[]"] vs
    have "resolveOwned n h x [] = Some ?rel" by (auto simp: resolveOwned_def split: option.splits)
    moreover have wf: "wf_obj ?rel" by (rule wf_obj_fold_oset) simp
    moreover have agree: "\<forall>k \<in> set (okeys ?rel). oget ?rel k = oget resources k"
      by (rule fold_oset_agrees [OF at]) simp
    moreover have "set (map snd ?rel) = below h x"
      unfolding values_agree [OF wf agree] okeys_fold_oset b [symmetric] using at by auto
    ultimately show ?thesis by blast
  qed
  then show ?thesis by blast
qed

lemma resolveRelated_loops:
  assumes live_below: "\<forall>d \<in> below h x. \<exists>y. h d = Some y \<and> oget resources (key_name y) = Some d"
    and rel: "resolveOwned n h x [] = Some related" "wf_obj related"
      "\<forall>k \<in> set (okeys related). oget related k = oget resources k" "set (map snd related) = below h x"
  shows "if \<forall>k \<in> related_to h resources x. stored_at h resources k
     then \<exists>rs. resolveRelated n h resources x = Some rs
        \<and> set rs = {r. (\<exists>y. h r = Some y \<and> \<not> r_isFiltered y)
             \<and> (r \<in> below h x \<or> (\<exists>k \<in> related_to h resources x. oget resources k = Some r))}
     else resolveRelated n h resources x = None"
proof -
  have "\<forall>r \<in> set (map snd related). h r \<noteq> None" unfolding rel(4) using live_below by fastforce
  from collect_related_keys [OF this, of "[]"] obtain ks
    where ks: "foldM (\<lambda>r acc. map_option (\<lambda>y. acc @ related_keys y) (h r)) (map snd related) [] = Some ks"
      "set ks = (\<Union>r \<in> below h x. case h r of Some y \<Rightarrow> set (related_keys y) | None \<Rightarrow> {})"
    unfolding rel(4) by auto
  have reach: "related_to h resources x = (related_edges h resources)\<^sup>* `` set ks"
    unfolding related_to_def ks(2) ..
  show ?thesis
  proof (cases "related_loop h resources ks []")
    case None
    with related_loop_None [OF this] show ?thesis
      unfolding reach by (simp add: resolveRelated_def rel(1) ks(1))
  next
    case (Some all)
    let ?all = "ospread related all"
    have stored: "\<forall>k \<in> related_to h resources x. stored_at h resources k"
      unfolding reach by (rule related_loop_all_stored [OF Some])
    have "\<forall>k \<in> set (okeys []). oget [] k = oget resources k \<and> related_edges h resources `` {k} \<subseteq> set (okeys []) \<union> set ks"
      by simp
    note all = related_loop_reaches [OF Some this]
    have keys: "set (okeys all) = related_to h resources x"
      unfolding reach using conjunct1 [OF all] by (simp only: list.map list.set Un_empty_left)
    note spread = spread_agrees [OF rel(3) conjunct2 [OF all]]
    have "wf_obj ?all" using rel(2) wf_obj_related_loop [OF Some] by simp
    from values_agree [OF this spread(2)]
    have vals: "set (map snd ?all) = below h x \<union> {r. \<exists>k \<in> related_to h resources x. oget resources k = Some r}"
      unfolding spread(1) keys rel(4) [symmetric] values_agree [OF rel(2,3)] by blast
    have live: "\<forall>r \<in> set (map snd ?all). h r \<noteq> None"
      unfolding vals using live_below stored unfolding stored_at_def by fastforce
    then have "filterM (\<lambda>r. map_option (\<lambda>y. \<not> r_isFiltered y) (h r)) (map snd ?all)
        = Some (filter (\<lambda>r. map_option (\<lambda>y. \<not> r_isFiltered y) (h r) = Some True) (map snd ?all))"
      unfolding filterM_eq by (simp only: option.map_disc_iff) simp
    then have "resolveRelated n h resources x
        = Some (filter (\<lambda>r. map_option (\<lambda>y. \<not> r_isFiltered y) (h r) = Some True) (map snd ?all))"
      by (simp add: resolveRelated_def rel(1) ks(1) Some)
    moreover have "set (filter (\<lambda>r. map_option (\<lambda>y. \<not> r_isFiltered y) (h r) = Some True) (map snd ?all))
        = {r. (\<exists>y. h r = Some y \<and> \<not> r_isFiltered y)
             \<and> (r \<in> below h x \<or> (\<exists>k \<in> related_to h resources x. oget resources k = Some r))}"
      unfolding set_filter vals by auto
    ultimately show ?thesis unfolding if_P [OF stored] by (intro exI conjI)
  qed
qed

text \<open>C29: On acyclic ownership the loop of the related pane ends. It throws exactly when the pane would have
  to show an object that the store lacks; otherwise it lists the objects that pass the filter and are
  owned by the resource, through any number of owners, or related to one of these, through any number of
  relations.\<close>

theorem related_pane_lists:
  assumes "acyclic_owned h" "\<forall>d \<in> below h x. \<exists>y. h d = Some y \<and> oget resources (key_name y) = Some d"
  shows "\<exists>n0. \<forall>n \<ge> n0.
    (if \<forall>k \<in> related_to h resources x. stored_at h resources k
     then \<exists>rs. resolveRelated n h resources x = Some rs
        \<and> set rs = {r. (\<exists>y. h r = Some y \<and> \<not> r_isFiltered y)
             \<and> (r \<in> below h x \<or> (\<exists>k \<in> related_to h resources x. oget resources k = Some r))}
     else resolveRelated n h resources x = None)"
proof -
  from resolveOwned_below [OF assms] obtain n0
    where n0: "\<forall>n \<ge> n0. \<exists>related. resolveOwned n h x [] = Some related \<and> wf_obj related
    \<and> (\<forall>k \<in> set (okeys related). oget related k = oget resources k) \<and> set (map snd related) = below h x" ..
  show ?thesis
  proof (rule exI [of _ n0], intro allI impI, goal_cases)
    case (1 n)
    from n0 [rule_format, OF this] obtain related where related: "resolveOwned n h x [] = Some related" "wf_obj related"
      "\<forall>k \<in> set (okeys related). oget related k = oget resources k" "set (map snd related) = below h x"
      by (elim exE conjE)
    then show ?case by (rule resolveRelated_loops [OF assms(2)])
  qed
qed

definition demo_related :: heap where
  "demo_related = [0 \<mapsto> (fresh_resource (JObj []))\<lparr>r_key := Some ''Job/ns/j'', r_owned := Some [(''Pod/ns/p'', 1)]\<rparr>,
     1 \<mapsto> (fresh_resource (JObj []))\<lparr>r_key := Some ''Pod/ns/p'', r_related := Some [(''Secret/ns/s'', True)]\<rparr>,
     2 \<mapsto> (fresh_resource (JObj []))\<lparr>r_key := Some ''Secret/ns/s''\<rparr>]"

definition demo_job :: resource where
  "demo_job = (fresh_resource (JObj []))\<lparr>r_key := Some ''Job/ns/j'', r_owned := Some [(''Pod/ns/p'', 1)]\<rparr>"

text \<open>A job, its pod and the secret the pod uses: with the secret in the store the pane shows both; without, it throws.\<close>

theorem related_pane_lists_witness:
  "(\<exists>n0. \<forall>n \<ge> n0. \<exists>rs. resolveRelated n demo_related [(''Pod/ns/p'', 1), (''Secret/ns/s'', 2)] demo_job = Some rs
      \<and> set rs = {1, 2})
   \<and> (\<exists>n0. \<forall>n \<ge> n0. resolveRelated n demo_related [(''Pod/ns/p'', 1)] demo_job = None)"
proof -
  have refs: "owned_refs demo_related r = (if r = 0 then [1] else [])" for r
    by (simp add: owned_refs_def owned_of_def demo_related_def fresh_resource_def)
  have ac: "acyclic_owned demo_related"
  proof -
    have "edges (owned_refs demo_related) \<subseteq> less_than" by (auto simp: refs split: if_splits)
    then have "acyclic (edges (owned_refs demo_related))" by (rule acyclic_subset [OF wf_acyclic [OF wf_less_than]])
    then show ?thesis by (simp add: acyclic_owned_def demo_related_def)
  qed
  have b: "below demo_related demo_job = {1}"
  proof -
    have "(edges (owned_refs demo_related))\<^sup>* `` {1} = {1}"
      by (auto simp: refs elim: converse_rtranclE split: if_splits)
    then show ?thesis by (simp add: below_def demo_job_def fresh_resource_def)
  qed
  have at: "\<forall>d \<in> below demo_related demo_job. \<exists>y. demo_related d = Some y \<and> oget rs (key_name y) = Some d"
    if "oget rs ''Pod/ns/p'' = Some 1" for rs
    unfolding b using that by (simp add: demo_related_def key_name_def)
  have k1: "related_keys (the (demo_related 1)) = [''Secret/ns/s'']" "related_keys (the (demo_related 2)) = []" by code_simp+
  have e: "related_edges demo_related [(''Pod/ns/p'', 1)] = {(''Pod/ns/p'', ''Secret/ns/s'')}"
    "related_edges demo_related [(''Pod/ns/p'', 1), (''Secret/ns/s'', 2)] = {(''Pod/ns/p'', ''Secret/ns/s'')}"
    using k1 by (auto simp: related_edges_def demo_related_def split: if_splits)
  have to: "related_to demo_related rs demo_job = {''Secret/ns/s''}"
    if "related_edges demo_related rs = {(''Pod/ns/p'', ''Secret/ns/s'')}" for rs
  proof -
    have "{(''Pod/ns/p'', ''Secret/ns/s'')}\<^sup>* `` {''Secret/ns/s''} = {''Secret/ns/s''}" by (auto elim: converse_rtranclE)
    moreover have "(case demo_related 1 of Some y \<Rightarrow> set (related_keys y) | None \<Rightarrow> {}) = {''Secret/ns/s''}"
      using k1(1) by (simp add: demo_related_def)
    ultimately show ?thesis unfolding related_to_def b that by simp
  qed
  let ?rs = "[(''Pod/ns/p'', 1), (''Secret/ns/s'', 2)]"
  have live: "\<exists>y. demo_related 1 = Some y \<and> \<not> r_isFiltered y" "\<exists>y. demo_related 2 = Some y \<and> \<not> r_isFiltered y"
    by (simp_all add: demo_related_def fresh_resource_def)
  then have two: "{r. (\<exists>y. demo_related r = Some y \<and> \<not> r_isFiltered y)
      \<and> (r \<in> {1} \<or> (\<exists>k \<in> {''Secret/ns/s''}. oget ?rs k = Some r))} = {1, 2}" by auto
  have stored: "\<forall>k \<in> {''Secret/ns/s''}. stored_at demo_related ?rs k"
    using live(2) by (auto simp: stored_at_def)
  have "oget ?rs ''Pod/ns/p'' = Some 1" by simp
  from related_pane_lists [OF ac at [OF this]]
  have "\<exists>n0. \<forall>n \<ge> n0. \<exists>rs. resolveRelated n demo_related ?rs demo_job = Some rs \<and> set rs = {1, 2}"
    unfolding b to [OF e(2)] if_P [OF stored] two .
  moreover have "\<exists>n0. \<forall>n \<ge> n0. resolveRelated n demo_related [(''Pod/ns/p'', 1)] demo_job = None"
    using related_pane_lists [OF ac at, of "[(''Pod/ns/p'', 1)]"]
    unfolding b to [OF e(1)] by (simp add: stored_at_def)
  ultimately show ?thesis by blast
qed

end
