(* ===== verification/InfoPages.thy ===== *)
theory InfoPages
  imports Store Access Links Pages "HOL-Library.Multiset"
begin

text \<open>
  The page of one object, \<^verbatim>\<open>src/components/ResourceInfoPage.js\<close> with its menu
  \<^verbatim>\<open>ResourceInfoActionsMenu.js\<close>, and the three containers that fetch the object and show the page, the
  editor or the page for missing objects: \<^verbatim>\<open>src/containers/WorkloadInfo.js\<close>, \<^verbatim>\<open>ClusterInfo.js\<close> and
  \<^verbatim>\<open>AccessControlsInfo.js\<close>. The container of workloads also keeps the followers of the logs.
  \<^term>\<open>None\<close> is an exception.
\<close>

section \<open>The page\<close>

datatype info_command =
    EditCmd json json json
  | RequestCmd json json json
  | ApplyCmd json json json string
  | RemoveCmd ref
  | ScaleCmd ref json
  | PushTo string string string
  | PushLink string
  | GoBack
  | SelectView string
  | ViewFilters "string list"
  | ViewKind json json

record info_page =
  ip_actionsOpen :: bool
  ip_deleteOpen :: bool
  ip_scaleOpen :: bool
  ip_suspendOpen :: bool
  ip_access :: "json obj option"
  ip_asked :: "ref list"
  ip_kubeKind :: json

text \<open>\<open>ip_asked\<close> lists the objects whose access is awaited. Only an object of the store can be asked for.\<close>

definition new_info_page :: "json \<Rightarrow> heap \<Rightarrow> ref option \<Rightarrow> info_page option" where
  "new_info_page kinds h resource =
     (let w = \<lparr>ip_actionsOpen = False, ip_deleteOpen = False, ip_scaleOpen = False, ip_suspendOpen = False,
               ip_access = None, ip_asked = [], ip_kubeKind = JUndef\<rparr>
      in case resource of
           None \<Rightarrow> Some w
         | Some r \<Rightarrow> do {
             x \<leftarrow> h r; k \<leftarrow> kind_of x; kk \<leftarrow> jget kinds (to_str k);
             Some (w\<lparr>ip_kubeKind := kk, ip_asked := [r]\<rparr>)
           })"

text \<open>An answer is taken whatever object it is about.\<close>

definition access_answered :: "ref \<Rightarrow> json obj \<Rightarrow> info_page \<Rightarrow> info_page" where
  "access_answered r access w = w\<lparr>ip_asked := remove1 r (ip_asked w), ip_access := Some access\<rparr>"

definition handleActionsTouchTap :: "info_page \<Rightarrow> info_page" where
  "handleActionsTouchTap w = w\<lparr>ip_actionsOpen := True, ip_deleteOpen := False, ip_scaleOpen := False, ip_suspendOpen := False\<rparr>"

definition handleActionsRequestClose_info :: "info_page \<Rightarrow> info_page" where
  "handleActionsRequestClose_info w = w\<lparr>ip_actionsOpen := False\<rparr>"

text \<open>The filters that a click on a label's chip, or on the chip of the namespace, asks for.\<close>

definition label_chip_filters :: "resource \<Rightarrow> string list list option" where
  "label_chip_filters x = do {
     labels \<leftarrow> metadata_of x ''labels'';
     if \<not> truthy labels then Some []
     else do {
       ns \<leftarrow> metadata_of x ''namespace'';
       foldM (\<lambda>key acc. map_option (\<lambda>v. acc @ [[''namespace:'' @ to_str ns, key @ '':'' @ to_str v]]) (jget labels key))
         (keys_in labels) []
     }
   }"

definition namespace_chip_filters :: "resource \<Rightarrow> string list option option" where
  "namespace_chip_filters x = do {
     md \<leftarrow> rget x ''metadata''; has \<leftarrow> jhas ''namespace'' md;
     if has then do { ns \<leftarrow> jget md ''namespace''; Some (Some [''namespace:'' @ to_str ns]) } else Some None
   }"

text \<open>\<open>offered\<close>: the container of cluster objects passes no \<^verbatim>\<open>viewFilters\<close> and no \<^verbatim>\<open>viewKind\<close>.\<close>

definition handleFilterLabelTouchTap :: "bool \<Rightarrow> string list \<Rightarrow> info_command list option" where
  "handleFilterLabelTouchTap offered filters = (if offered then Some [ViewFilters filters] else None)"

definition handleKindTouchTap :: "bool \<Rightarrow> resource \<Rightarrow> info_command list option" where
  "handleKindTouchTap offered x = do {
     k \<leftarrow> kind_of x; ns \<leftarrow> metadata_of x ''namespace'';
     if offered then Some [ViewKind k ns] else None
   }"

definition handleRequestCloseDelete_info :: "info_page \<Rightarrow> info_page" where
  "handleRequestCloseDelete_info w = w\<lparr>ip_deleteOpen := False\<rparr>"

definition handleDelete_info :: "info_page \<Rightarrow> info_page" where
  "handleDelete_info w = w\<lparr>ip_deleteOpen := True, ip_actionsOpen := False\<rparr>"

definition handleConfirmDelete_info :: "ref \<Rightarrow> info_page \<Rightarrow> info_page \<times> info_command list" where
  "handleConfirmDelete_info r w = (w\<lparr>ip_deleteOpen := False\<rparr>, [RemoveCmd r])"

definition handleScale_info :: "info_page \<Rightarrow> info_page" where
  "handleScale_info w = w\<lparr>ip_scaleOpen := True, ip_actionsOpen := False\<rparr>"

definition handleRequestCloseScale_info :: "info_page \<Rightarrow> info_page" where
  "handleRequestCloseScale_info w = w\<lparr>ip_scaleOpen := False\<rparr>"

definition handleConfirmScale_info :: "ref \<Rightarrow> json \<Rightarrow> info_page \<Rightarrow> info_page \<times> info_command list" where
  "handleConfirmScale_info r replicas w =
     (w\<lparr>ip_scaleOpen := False\<rparr>, if replicas \<noteq> JUndef then [ScaleCmd r replicas] else [])"

definition handleSuspend_info :: "info_page \<Rightarrow> info_page" where
  "handleSuspend_info w = w\<lparr>ip_suspendOpen := True, ip_actionsOpen := False\<rparr>"

definition handleRequestCloseSuspend_info :: "info_page \<Rightarrow> info_page" where
  "handleRequestCloseSuspend_info w = w\<lparr>ip_suspendOpen := False\<rparr>"

definition handleConfirmSuspend_info :: "ref \<Rightarrow> info_page \<Rightarrow> info_page \<times> info_command list" where
  "handleConfirmSuspend_info r w = (w\<lparr>ip_suspendOpen := False\<rparr>, [ScaleCmd r (JNum 0)])"

text \<open>New props: another object, or any update while no access is known, asks for the access.\<close>

definition componentWillReceiveProps_info ::
  "json \<Rightarrow> heap \<Rightarrow> ref option \<Rightarrow> ref option \<Rightarrow> info_page \<Rightarrow> info_page option" where
  "componentWillReceiveProps_info kinds h next1 this w = do {
     same \<leftarrow> sameResource (Option.bind next1 h) (Option.bind this h);
     if \<not> same \<or> ip_access w = None then do {
       r \<leftarrow> next1; x \<leftarrow> h r; k \<leftarrow> kind_of x; kk \<leftarrow> jget kinds (to_str k);
       Some (w\<lparr>ip_access := None, ip_kubeKind := kk, ip_asked := ip_asked w @ [r]\<rparr>)
     } else Some w
   }"

definition componentDidUpdate_info :: "json \<Rightarrow> heap \<Rightarrow> ref option \<Rightarrow> info_page \<Rightarrow> info_page option" where
  "componentDidUpdate_info kinds h resource w =
     (case resource of
        None \<Rightarrow> Some (w\<lparr>ip_kubeKind := JBool False\<rparr>)
      | Some r \<Rightarrow> do { x \<leftarrow> h r; k \<leftarrow> kind_of x; kk \<leftarrow> jget kinds (to_str k); Some (w\<lparr>ip_kubeKind := kk\<rparr>) })"

section \<open>The tabs\<close>

definition granted :: "string \<Rightarrow> json obj option \<Rightarrow> bool" where
  "granted action access = (case access of Some a \<Rightarrow> perm action a | None \<Rightarrow> False)"

definition info_tabs :: "resource \<Rightarrow> json obj option \<Rightarrow> string list option" where
  "info_tabs x access = do {
     kind \<leftarrow> kind_of x; spec \<leftarrow> rget x ''spec'';
     template \<leftarrow> (if truthy spec then jget spec ''template'' else Some spec);
     jobTemplate \<leftarrow> (if truthy spec then jget spec ''jobTemplate'' else Some spec);
     Some ([''config'']
       @ (if strict_eq kind (JStr ''ServiceAccount'') then [''permissions''] else [])
       @ (if truthy spec \<and> truthy template then [''pod template'']
          else if truthy spec \<and> truthy jobTemplate then [''job template''] else [])
       @ (if strict_eq kind (JStr ''Node'') then [''pods''] else if r_owned x \<noteq> None then [''related''] else [])
       @ [''events'']
       @ (if granted ''logs'' access then [''logs''] else [])
       @ (if granted ''terminal'' access then [''terminal''] else []))
   }"

text \<open>The tab that is shown, or nothing at all.\<close>

definition active_tab :: "string list \<Rightarrow> json obj option \<Rightarrow> string \<Rightarrow> string option" where
  "active_tab tabs access target =
     (if target \<noteq> ''edit'' then
        (let active = (if target \<in> set tabs then target else hd tabs)
         in if access \<noteq> None \<and> active \<noteq> target then None else Some active)
      else Some (hd tabs))"

text \<open>The menu of actions; its entries close it and run the handler of their name.\<close>

record actions_menu =
  am_open :: bool

definition touch_actions :: "actions_menu \<Rightarrow> actions_menu" where
  "touch_actions m = m\<lparr>am_open := True\<rparr>"

definition close_actions :: "actions_menu \<Rightarrow> actions_menu" where
  "close_actions m = m\<lparr>am_open := False\<rparr>"

text \<open>\<^verbatim>\<open>action[0].toUpperCase() + action.substr(1)\<close> of an action's name\<close>

definition upper_first :: "string \<Rightarrow> string" where
  "upper_first s = (case s of [] \<Rightarrow> [] | c # cs \<Rightarrow>
     (let n = of_char c in if 97 \<le> n \<and> n \<le> (122 :: nat) then char_of (n - 32) else c) # cs)"

definition infoActions :: "string list" where
  "infoActions = [''suspend'', ''scale'', ''edit'', ''get'', ''delete'']"

definition info_menu :: "json obj \<Rightarrow> (string \<times> string) list" where
  "info_menu access =
     concat (map (\<lambda>action.
       if \<not> perm action access then []
       else if action = ''get'' then (if perm ''edit'' access then [] else [(''View YAML'', ''edit'')])
       else [(upper_first action, action)]) infoActions)"

definition info_handler :: "string \<Rightarrow> info_page \<Rightarrow> (info_page \<times> info_command list) option" where
  "info_handler name w =
     (if name = ''scale'' then Some (handleScale_info w, [])
      else if name = ''edit'' then Some (w\<lparr>ip_actionsOpen := False\<rparr>, [SelectView ''edit''])
      else if name = ''suspend'' then Some (handleSuspend_info w, [])
      else if name = ''delete'' then Some (handleDelete_info w, [])
      else None)"

section \<open>The containers: dispatching\<close>

text \<open>The parameters of the route.\<close>

record route_params =
  pa_namespace :: json
  pa_kind :: json
  pa_name :: json

definition params_json :: "route_params \<Rightarrow> json" where
  "params_json p = JObj [(''namespace'', pa_namespace p), (''kind'', pa_kind p), (''name'', pa_name p)]"

definition edit_params :: "route_params \<Rightarrow> info_command" where
  "edit_params p = EditCmd (pa_namespace p) (pa_kind p) (pa_name p)"

definition request_params :: "route_params \<Rightarrow> info_command" where
  "request_params p = RequestCmd (pa_namespace p) (pa_kind p) (pa_name p)"

definition defaultRelatedFilters :: "string list" where
  "defaultRelatedFilters = [''status:!disabled'']"

definition onEditorApply_workload :: "route_params \<Rightarrow> string \<Rightarrow> info_command list" where
  "onEditorApply_workload p contents = [ApplyCmd (pa_namespace p) (pa_kind p) (pa_name p) contents]"

definition onEditorApply_cluster :: "route_params \<Rightarrow> string \<Rightarrow> string \<Rightarrow> string \<Rightarrow> info_command list" where
  "onEditorApply_cluster p path hash contents =
     [ApplyCmd (pa_namespace p) (pa_kind p) (pa_name p) contents, PushTo path ''?view=config'' hash]"

definition onEditorApply_access :: "route_params \<Rightarrow> string \<Rightarrow> string \<Rightarrow> string \<Rightarrow> info_command list" where
  "onEditorApply_access p path hash contents =
     [ApplyCmd (pa_namespace p) (pa_kind p) (pa_name p) contents, PushTo path ''?view=config'' hash]"

text \<open>Editing is dispatched twice, for the arguments and for the route.\<close>

definition editResource_workload :: "route_params \<Rightarrow> json \<Rightarrow> json \<Rightarrow> json \<Rightarrow> info_command list" where
  "editResource_workload p ns kind name = [EditCmd ns kind name, edit_params p]"

definition editResource_access :: "route_params \<Rightarrow> json \<Rightarrow> json \<Rightarrow> json \<Rightarrow> info_command list" where
  "editResource_access p ns kind name = [EditCmd ns kind name, edit_params p]"

text \<open>\<open>filterNames\<close> is never passed: \<^term>\<open>None\<close> is undefined, which the query leaves out.\<close>

definition filters_search :: "env \<Rightarrow> string list option \<Rightarrow> string" where
  "filters_search e filterNames =
     en_stringify e (case filterNames of Some fs \<Rightarrow> [(''filters'', JArr (map JStr fs))] | None \<Rightarrow> [])"

definition removeResource_workload :: "env \<Rightarrow> ref \<Rightarrow> string list option \<Rightarrow> info_command list" where
  "removeResource_workload e r filterNames =
     (let search = filters_search e filterNames
      in [RemoveCmd r, PushTo ''/workloads'' (if search = [] then [] else ''?'' @ search) []])"

definition removeResource_access :: "env \<Rightarrow> ref \<Rightarrow> string list option \<Rightarrow> info_command list" where
  "removeResource_access e r filterNames =
     (let search = filters_search e filterNames
      in [RemoveCmd r, PushTo ''/access'' (if search = [] then [] else ''?'' @ search) []])"

definition removeResource_cluster :: "ref \<Rightarrow> info_command list" where
  "removeResource_cluster r = [RemoveCmd r, GoBack]"

text \<open>The link generator is read from the props of the route, which have none.\<close>

definition viewKind_workload ::
  "(query_value obj \<Rightarrow> string) \<Rightarrow> json option \<Rightarrow> string \<Rightarrow> json \<Rightarrow> info_command list option" where
  "viewKind_workload stringify ownKinds kind namespace = do {
     kinds \<leftarrow> ownKinds;
     link \<leftarrow> linkForKind stringify kinds kind (if truthy namespace then [(to_str namespace, True)] else []);
     Some [PushLink link]
   }"

definition viewKind_access ::
  "(query_value obj \<Rightarrow> string) \<Rightarrow> json option \<Rightarrow> string \<Rightarrow> json \<Rightarrow> info_command list option" where
  "viewKind_access stringify ownKinds kind namespace = do {
     kinds \<leftarrow> ownKinds;
     link \<leftarrow> linkForKind stringify kinds kind (if truthy namespace then [(to_str namespace, True)] else []);
     Some [PushLink link]
   }"

definition viewFilters_workload :: "env \<Rightarrow> string list \<Rightarrow> info_command list" where
  "viewFilters_workload e filters = [PushTo ''/workloads'' (''?'' @ filters_search e (Some filters)) []]"

definition viewFilters_access :: "env \<Rightarrow> string list \<Rightarrow> info_command list" where
  "viewFilters_access e filters = [PushTo ''/access'' (''?'' @ filters_search e (Some filters)) []]"

text \<open>The tab goes into the address; the related tab gets its filters when it is new.\<close>

definition selectView_query :: "json obj \<Rightarrow> string \<Rightarrow> json obj" where
  "selectView_query query tab =
     oset ''view'' (JStr tab)
       (if \<not> strict_eq (lookup_prop query ''view'') (JStr tab) \<and> tab = ''related''
        then oset ''filters'' (JArr (map JStr defaultRelatedFilters)) query else odel ''filters'' query)"

definition selectView_workload :: "env \<Rightarrow> route_params \<Rightarrow> string \<Rightarrow> string \<Rightarrow> string \<Rightarrow> string \<Rightarrow> info_command list" where
  "selectView_workload e p path search hash tab =
     (if tab = ''edit'' then [edit_params p] else [])
     @ [PushTo path (en_stringify e (selectView_query (en_parse e search) tab)) hash]"

definition selectView_cluster :: "route_params \<Rightarrow> string \<Rightarrow> string \<Rightarrow> string \<Rightarrow> info_command list" where
  "selectView_cluster p path hash tab =
     (if tab = ''edit'' then [edit_params p] else []) @ [PushTo path (''?view='' @ tab) hash]"

definition selectView_access :: "route_params \<Rightarrow> string \<Rightarrow> string \<Rightarrow> string \<Rightarrow> info_command list" where
  "selectView_access p path hash tab =
     (if tab = ''edit'' then [edit_params p] else []) @ [PushTo path (''?view='' @ tab) hash]"

section \<open>The containers: state\<close>

text \<open>What a container is given. \<open>io_pods\<close> are the selected containers, as pod and container.\<close>

record info_props =
  io_heap :: heap
  io_resource :: "ref option"
  io_resources :: "ref obj"
  io_user :: bool
  io_contents :: string
  io_pods :: "string list option"
  io_search :: string
  io_params :: route_params
  io_fetching :: nat
  io_revision :: int
  io_location :: nat
  io_events :: nat

abbreviation io_object :: "info_props \<Rightarrow> resource option" where
  "io_object props \<equiv> Option.bind (io_resource props) (io_heap props)"

text \<open>Followers are numbered in the order of their creation; \<open>in_destroyed\<close> lists those destroyed.\<close>

record info_state =
  in_resource :: "ref option"
  in_contents :: string
  in_ready :: "string list"
  in_followers :: "nat obj"
  in_next :: nat
  in_destroyed :: "nat list"

text \<open>The position of a container in the spec of its pod, \<^term>\<open>None\<close> for -1.\<close>

fun container_index :: "string option \<Rightarrow> json list \<Rightarrow> nat option option" where
  "container_index name [] = Some None"
| "container_index name (c # cs) = do {
     n \<leftarrow> jget c ''name'';
     if strict_eq n (case name of Some s \<Rightarrow> JStr s | None \<Rightarrow> JUndef) then Some (Some 0)
     else map_option (map_option Suc) (container_index name cs)
   }"

definition array_items :: "json \<Rightarrow> json list option" where
  "array_items v = (case v of JArr xs \<Rightarrow> Some xs | JUndef \<Rightarrow> None | JNull \<Rightarrow> None | _ \<Rightarrow> Some [])"

text \<open>Whether the container is ready or has ended, by the status at its position; at -1 there is none.\<close>

definition container_ready :: "resource \<Rightarrow> string option \<Rightarrow> bool option" where
  "container_ready pod name = do {
     spec \<leftarrow> rget pod ''spec''; cs \<leftarrow> jget spec ''containers''; containers \<leftarrow> array_items cs;
     index \<leftarrow> container_index name containers;
     status \<leftarrow> rget pod ''status''; statuses \<leftarrow> jget status ''containerStatuses'';
     if truthy statuses then do {
       ss \<leftarrow> array_items statuses;
       (case index of
          None \<Rightarrow> (case statuses of JArr _ \<Rightarrow> None | JStr _ \<Rightarrow> None | _ \<Rightarrow> Some False)
        | Some i \<Rightarrow>
            if i < length ss then do {
              ready \<leftarrow> jget (ss ! i) ''ready'';
              if truthy ready then Some True
              else do { state \<leftarrow> jget (ss ! i) ''state''; t \<leftarrow> jget state ''terminated''; Some (truthy t) }
            } else Some False)
     } else Some False
   }"

definition pod_part :: "string \<Rightarrow> string" where
  "pod_part lpc = hd (split_on (CHR ''/'') lpc)"

definition container_part :: "string \<Rightarrow> string option" where
  "container_part lpc = (case split_on (CHR ''/'') lpc of _ # c # _ \<Rightarrow> Some c | _ \<Rightarrow> None)"

definition filterReadyContainers :: "info_props \<Rightarrow> string list option \<Rightarrow> ref obj \<Rightarrow> string list option" where
  "filterReadyContainers this pods resources =
     (case (pods, io_object this) of
        (Some lpcs, Some x) \<Rightarrow>
          filterM (\<lambda>lpc. do {
            ns \<leftarrow> metadata_of x ''namespace'';
            let pod = Option.bind (oget resources (''Pod/'' @ to_str ns @ ''/'' @ pod_part lpc)) (io_heap this);
            (case pod of
               Some y \<Rightarrow> if validResource pod then container_ready y (container_part lpc) else Some False
             | None \<Rightarrow> Some False)
          }) lpcs
      | _ \<Rightarrow> Some [])"

text \<open>One ready container: its follower is kept, or a new one is made for the object's namespace.\<close>

definition follow_container :: "resource \<Rightarrow> string \<Rightarrow> nat obj \<times> nat obj \<times> nat \<Rightarrow> (nat obj \<times> nat obj \<times> nat) option" where
  "follow_container x key s =
     (case s of (old, new, next1) \<Rightarrow>
        (case oget old key of
           Some lf \<Rightarrow> Some (odel key old, oset key lf new, next1)
         | None \<Rightarrow> map_option (\<lambda>_. (old, oset key next1 new, Suc next1)) (metadata_of x ''namespace'')))"

definition watchLogs :: "info_props \<Rightarrow> info_state \<Rightarrow> info_state option" where
  "watchLogs props w =
     (case Option.bind (in_resource w) (io_heap props) of
        Some x \<Rightarrow>
          if io_pods props = None then Some w
          else do {
            (old, new, next1) \<leftarrow> foldM (follow_container x) (in_ready w) (in_followers w, [], in_next w);
            Some (w\<lparr>in_followers := new, in_next := next1, in_destroyed := in_destroyed w @ map snd old\<rparr>)
          }
      | None \<Rightarrow> Some w)"

definition componentWillUnmount_workload :: "info_state \<Rightarrow> info_state" where
  "componentWillUnmount_workload w = w\<lparr>in_destroyed := in_destroyed w @ map snd (in_followers w)\<rparr>"

definition is_editing :: "info_props \<Rightarrow> bool" where
  "is_editing props \<longleftrightarrow> io_search props = ''?view=edit''"

definition ensureResource_workload :: "info_props \<Rightarrow> info_command list option" where
  "ensureResource_workload props =
     (let p = io_params props
      in if is_editing props \<and> io_contents props = []
         then Some (editResource_workload p (pa_namespace p) (pa_kind p) (pa_name p))
         else if \<not> io_user props then Some []
         else do {
           matches \<leftarrow> resourceMatchesParams (io_object props) (params_json p) False;
           Some (if \<not> matches \<and> (case io_object props of Some x \<Rightarrow> \<not> r_notFound x | None \<Rightarrow> True)
                 then [request_params p] else [])
         })"

definition ensureResource_cluster :: "info_props \<Rightarrow> info_command list option" where
  "ensureResource_cluster props =
     (let p = io_params props
      in if is_editing props \<and> io_contents props = [] then Some [edit_params p]
         else if \<not> io_user props then Some []
         else map_option (\<lambda>m. if m then [] else [request_params p])
                (resourceMatchesParams (io_object props) (params_json p) False))"

definition ensureResource_access :: "info_props \<Rightarrow> info_command list option" where
  "ensureResource_access props =
     (let p = io_params props
      in if is_editing props \<and> io_contents props = []
         then Some (editResource_access p (pa_namespace p) (pa_kind p) (pa_name p))
         else if \<not> io_user props then Some []
         else map_option (\<lambda>m. if m then [] else [request_params p])
                (resourceMatchesParams (io_object props) (params_json p) True))"

definition new_info_state :: "info_props \<Rightarrow> (info_state \<times> info_command list) option" where
  "new_info_state props = do {
     ready \<leftarrow> filterReadyContainers props (io_pods props) (io_resources props);
     cs \<leftarrow> ensureResource_workload props;
     w \<leftarrow> watchLogs props \<lparr>in_resource = io_resource props, in_contents = io_contents props, in_ready = ready,
            in_followers = [], in_next = 0, in_destroyed = []\<rparr>;
     Some (w, cs)
   }"

text \<open>Whether the object in the state is replaced; for workloads and cluster objects by the version.\<close>

definition resource_arrives :: "bool \<Rightarrow> info_props \<Rightarrow> info_props \<Rightarrow> info_state \<Rightarrow> bool option" where
  "resource_arrives same this next1 w =
     (if \<not> same \<or> io_contents next1 \<noteq> io_contents this then Some True
      else (case (io_object next1, Option.bind (in_resource w) (io_heap next1)) of
              (Some x, Some y) \<Rightarrow> map_option truthy (metadata_of x ''resourceVersion'')
            | _ \<Rightarrow> Some False))"

definition componentWillReceiveProps_workload ::
  "info_props \<Rightarrow> info_props \<Rightarrow> info_state \<Rightarrow> (info_state \<times> info_command list) option" where
  "componentWillReceiveProps_workload this next1 w = do {
     same \<leftarrow> sameResourceVersion (Option.bind (in_resource w) (io_heap next1)) (io_object next1);
     arrived \<leftarrow> resource_arrives same this next1 w;
     let w1 = (if arrived then w\<lparr>in_resource := io_resource next1, in_contents := io_contents next1\<rparr> else w);
     let revised = io_revision next1 \<noteq> io_revision this;
     w2 \<leftarrow> (if revised
            then map_option (\<lambda>ready. w1\<lparr>in_ready := ready\<rparr>) (filterReadyContainers this (io_pods next1) (io_resources next1))
            else Some w1);
     cs \<leftarrow> (if arrived \<or> revised then ensureResource_workload next1 else Some []);
     Some (w2, cs)
   }"

definition componentWillReceiveProps_cluster ::
  "info_props \<Rightarrow> info_props \<Rightarrow> info_state \<Rightarrow> (info_state \<times> info_command list) option" where
  "componentWillReceiveProps_cluster this next1 w = do {
     same \<leftarrow> sameResourceVersion (Option.bind (in_resource w) (io_heap next1)) (io_object next1);
     arrived \<leftarrow> resource_arrives same this next1 w;
     cs \<leftarrow> ensureResource_cluster next1;
     Some (if arrived then w\<lparr>in_resource := io_resource next1, in_contents := io_contents next1\<rparr> else w, cs)
   }"

definition componentWillReceiveProps_access ::
  "info_props \<Rightarrow> info_props \<Rightarrow> info_state \<Rightarrow> (info_state \<times> info_command list) option" where
  "componentWillReceiveProps_access this next1 w = do {
     same \<leftarrow> sameResource (Option.bind (in_resource w) (io_heap next1)) (io_object next1);
     let arrived = \<not> same \<or> io_contents next1 \<noteq> io_contents this \<or> (io_resource next1 \<noteq> None \<and> in_resource w \<noteq> None);
     cs \<leftarrow> ensureResource_access next1;
     Some (if arrived then w\<lparr>in_resource := io_resource next1, in_contents := io_contents next1\<rparr> else w, cs)
   }"

definition shouldComponentUpdate_workload :: "info_props \<Rightarrow> info_props \<Rightarrow> info_state \<Rightarrow> bool \<Rightarrow> bool option" where
  "shouldComponentUpdate_workload this next1 w newReady =
     (if io_revision this \<noteq> io_revision next1 then Some True
      else do {
        same \<leftarrow> sameResourceVersion (Option.bind (in_resource w) (io_heap next1)) (io_object next1);
        Some (\<not> same \<or> io_user this \<noteq> io_user next1 \<or> io_fetching this \<noteq> io_fetching next1
              \<or> in_contents w \<noteq> io_contents next1 \<or> io_location this \<noteq> io_location next1
              \<or> io_events this \<noteq> io_events next1 \<or> io_pods this \<noteq> io_pods next1 \<or> newReady)
      })"

definition shouldComponentUpdate_cluster :: "info_props \<Rightarrow> info_props \<Rightarrow> info_state \<Rightarrow> bool option" where
  "shouldComponentUpdate_cluster this next1 w =
     map_option (\<lambda>same. \<not> same \<or> io_user this \<noteq> io_user next1 \<or> in_contents w \<noteq> io_contents next1
       \<or> io_location this \<noteq> io_location next1 \<or> io_events this \<noteq> io_events next1)
     (sameResource (Option.bind (in_resource w) (io_heap next1)) (io_object next1))"

definition shouldComponentUpdate_access :: "info_props \<Rightarrow> info_props \<Rightarrow> info_state \<Rightarrow> bool option" where
  "shouldComponentUpdate_access this next1 w =
     map_option (\<lambda>same. \<not> same \<or> io_fetching this \<noteq> io_fetching next1 \<or> io_user this \<noteq> io_user next1
       \<or> in_contents w \<noteq> io_contents next1 \<or> io_location this \<noteq> io_location next1)
     (sameResource (Option.bind (in_resource w) (io_heap next1)) (io_object next1))"

definition onEditorOpen :: "resource \<Rightarrow> (json \<Rightarrow> json \<Rightarrow> json \<Rightarrow> info_command list) \<Rightarrow> info_command list option" where
  "onEditorOpen x edit = do {
     ns \<leftarrow> metadata_of x ''namespace''; kind \<leftarrow> kind_of x; name \<leftarrow> metadata_of x ''name'';
     Some (edit ns kind name)
   }"

text \<open>What a container shows: the page with the tab asked for, the page for missing objects, the spinner, the editor.\<close>

record info_view =
  iv_page :: "string option"
  iv_notFound :: bool
  iv_loading :: bool
  iv_editor :: bool

definition asked_tab :: "env \<Rightarrow> string \<Rightarrow> string" where
  "asked_tab e search = to_str (js_or (lookup_prop (en_parse e search) ''view'') (JStr ''config''))"

definition editor_open :: "info_props \<Rightarrow> info_state \<Rightarrow> bool" where
  "editor_open props w \<longleftrightarrow> in_resource w \<noteq> None \<and> in_contents w \<noteq> [] \<and> is_editing props"

definition render_workload :: "env \<Rightarrow> info_props \<Rightarrow> info_state \<Rightarrow> info_view" where
  "render_workload e props w =
     (let fetching = io_fetching props > 0
      in case Option.bind (in_resource w) (io_heap props) of
           None \<Rightarrow> \<lparr>iv_page = None, iv_notFound = False, iv_loading = True, iv_editor = editor_open props w\<rparr>
         | Some x \<Rightarrow>
             (let missing = (r_notFound x \<and> \<not> fetching) \<or> r_isDeleted x
              in \<lparr>iv_page = (if \<not> missing \<and> \<not> r_notFound x then Some (asked_tab e (io_search props)) else None),
                  iv_notFound = missing, iv_loading = r_notFound x \<and> fetching, iv_editor = editor_open props w\<rparr>))"

definition render_cluster :: "env \<Rightarrow> info_props \<Rightarrow> info_state \<Rightarrow> info_view" where
  "render_cluster e props w =
     (let fetching = io_fetching props > 0
      in case Option.bind (in_resource w) (io_heap props) of
           None \<Rightarrow> \<lparr>iv_page = None, iv_notFound = False, iv_loading = True, iv_editor = editor_open props w\<rparr>
         | Some x \<Rightarrow>
             (let missing = r_notFound x \<and> \<not> fetching
              in \<lparr>iv_page = (if missing then None else Some (asked_tab e (io_search props))),
                  iv_notFound = missing, iv_loading = r_notFound x \<and> fetching, iv_editor = editor_open props w\<rparr>))"

definition render_access :: "env \<Rightarrow> info_props \<Rightarrow> info_state \<Rightarrow> info_view" where
  "render_access e props w =
     (let fetching = io_fetching props > 0
      in case Option.bind (in_resource w) (io_heap props) of
           None \<Rightarrow> \<lparr>iv_page = None, iv_notFound = False, iv_loading = True, iv_editor = editor_open props w\<rparr>
         | Some x \<Rightarrow>
             (let missing = r_notFound x \<and> \<not> fetching
              in \<lparr>iv_page = (if missing then None else Some (asked_tab e (io_search props))),
                  iv_notFound = missing, iv_loading = r_notFound x \<and> fetching, iv_editor = editor_open props w\<rparr>))"

section \<open>The followers of the logs\<close>

text \<open>Every follower ever made is either kept under a container or destroyed, never both, never twice.\<close>

definition followers_ok :: "info_state \<Rightarrow> bool" where
  "followers_ok w \<longleftrightarrow> wf_obj (in_followers w)
     \<and> mset (map snd (in_followers w)) + mset (in_destroyed w) = mset [0..<in_next w]"

lemma oget_split:
  assumes "wf_obj o1" "oget o1 k = Some v"
  shows "mset (map snd o1) = add_mset v (mset (map snd (odel k o1)))"
  using assms
proof (induction o1)
  case (Cons p o1)
  obtain k' v' where p: "p = (k', v')" by fastforce
  show ?case
  proof (cases "k' = k")
    case True
    have "k \<notin> fst ` set o1" using Cons.prems(1) p True by (simp add: wf_obj_def)
    then have "odel k (p # o1) = o1" using p True by (simp add: odel_def delete_id)
    then show ?thesis using Cons.prems(2) p True by simp
  next
    case False
    then have "odel k (p # o1) = p # odel k o1" by (simp add: odel_def p)
    with Cons False p show ?thesis by (simp add: wf_obj_def)
  qed
qed simp

lemma oset_new: "oget o1 k = None \<Longrightarrow> oset k v o1 = o1 @ [(k, v)]"
  by (induction o1) (auto simp: oset_def split: if_splits)

lemma follow_step:
  "follow_container x key (old, new, next1) =
     (case oget old key of
        Some lf \<Rightarrow> Some (odel key old, oset key lf new, next1)
      | None \<Rightarrow> map_option (\<lambda>_. (old, oset key next1 new, Suc next1)) (metadata_of x ''namespace''))"
  by (simp add: follow_container_def)

lemma follow_loop:
  assumes "foldM (follow_container x) keys (old, new, n) = Some (old', new', n')"
    and "distinct keys" "wf_obj old" "wf_obj new" "set keys \<inter> set (okeys new) = {}" "n \<ge> 0"
  shows "wf_obj old' \<and> wf_obj new' \<and> set (okeys new') = set (okeys new) \<union> set keys \<and> n' \<ge> n
    \<and> mset (map snd old') + mset (map snd new') = mset (map snd old) + mset (map snd new) + mset [n..<n']"
  using assms
proof (induction keys arbitrary: old new n)
  case (Cons key keys)
  have fresh: "oget new key = None" using Cons.prems(5) by (auto simp: map_of_eq_None_iff)
  have disj: "set keys \<inter> set (okeys (oset key v new)) = {}" for v
    using Cons.prems(2,5) by (simp add: oset_new [OF fresh])
  show ?case
  proof (cases "oget old key")
    case (Some lf)
    with Cons.prems(1) have "foldM (follow_container x) keys (odel key old, oset key lf new, n) = Some (old', new', n')"
      by (simp add: follow_step)
    from Cons.IH [OF this _ _ _ disj] Cons.prems(2-4)
    have ih: "wf_obj old' \<and> wf_obj new' \<and> set (okeys new') = set (okeys (oset key lf new)) \<union> set keys \<and> n' \<ge> n
      \<and> mset (map snd old') + mset (map snd new')
        = mset (map snd (odel key old)) + mset (map snd (oset key lf new)) + mset [n..<n']" by simp
    then show ?thesis using oget_split [OF Cons.prems(3) Some] by (simp add: oset_new [OF fresh])
  next
    case None
    with Cons.prems(1) have "foldM (follow_container x) keys (old, oset key n new, Suc n) = Some (old', new', n')"
      by (auto simp: follow_step bind_Some_iff split: option.splits)
    from Cons.IH [OF this _ _ _ disj] Cons.prems(2-4)
    have ih: "wf_obj old' \<and> wf_obj new' \<and> set (okeys new') = set (okeys (oset key n new)) \<union> set keys \<and> n' \<ge> Suc n
      \<and> mset (map snd old') + mset (map snd new')
        = mset (map snd old) + mset (map snd (oset key n new)) + mset [Suc n..<n']" by simp
    then show ?thesis by (auto simp: oset_new [OF fresh] upt_conv_Cons)
  qed
qed simp

lemma watchLogs_ok:
  assumes "watchLogs props w = Some w'" "followers_ok w" "distinct (in_ready w)"
  shows "followers_ok w'"
    and "Option.bind (in_resource w) (io_heap props) \<noteq> None \<Longrightarrow> io_pods props \<noteq> None \<Longrightarrow>
      set (okeys (in_followers w')) = set (in_ready w)"
proof -
  have "followers_ok w' \<and> (Option.bind (in_resource w) (io_heap props) \<noteq> None \<longrightarrow> io_pods props \<noteq> None \<longrightarrow>
      set (okeys (in_followers w')) = set (in_ready w))"
  proof (cases "Option.bind (in_resource w) (io_heap props) = None \<or> io_pods props = None")
    case True
    then have "w' = w" using assms(1) by (auto simp: watchLogs_def split: option.splits if_splits)
    with assms(2) True show ?thesis by auto
  next
    case False
    then obtain x where x: "Option.bind (in_resource w) (io_heap props) = Some x" "io_pods props \<noteq> None" by auto
    from assms(1) x obtain old new n
      where f: "foldM (follow_container x) (in_ready w) (in_followers w, [], in_next w) = Some (old, new, n)"
        "w' = w\<lparr>in_followers := new, in_next := n, in_destroyed := in_destroyed w @ map snd old\<rparr>"
      by (auto simp: watchLogs_def bind_Some_iff)
    have wf: "wf_obj (in_followers w)" using assms(2) by (simp add: followers_ok_def)
    note loop = follow_loop [OF f(1) assms(3) wf wf_obj_Nil]
    from loop have m: "wf_obj new" "set (okeys new) = set (in_ready w)" "in_next w \<le> n"
      "mset (map snd old) + mset (map snd new) = mset (map snd (in_followers w)) + mset [in_next w..<n]" by auto
    have "[0..<n] = [0..<in_next w] @ [in_next w..<n]" using m(3) by (metis le0 upt_add_eq_append le_add_diff_inverse)
    then have "mset [0..<n] = mset (map snd new) + (mset (in_destroyed w) + mset (map snd old))"
      using assms(2) m(4) by (simp add: followers_ok_def ac_simps)
    then show ?thesis using m(1,2) by (simp add: f(2) followers_ok_def)
  qed
  then show "followers_ok w'"
    and "Option.bind (in_resource w) (io_heap props) \<noteq> None \<Longrightarrow> io_pods props \<noteq> None \<Longrightarrow>
      set (okeys (in_followers w')) = set (in_ready w)" by auto
qed

text \<open>The life of the container: its construction, and updates, which render it again or not.\<close>

definition pods_distinct :: "info_props \<Rightarrow> bool" where
  "pods_distinct props \<longleftrightarrow> (case io_pods props of Some lpcs \<Rightarrow> distinct lpcs | None \<Rightarrow> True)"

inductive info_run :: "info_props \<Rightarrow> info_state \<Rightarrow> bool" where
  mounted: "new_info_state props = Some (w, cs) \<Longrightarrow> pods_distinct props \<Longrightarrow> info_run props w"
| updated: "info_run this w \<Longrightarrow> pods_distinct next1 \<Longrightarrow>
    componentWillReceiveProps_workload this next1 w = Some (w1, cs) \<Longrightarrow>
    shouldComponentUpdate_workload this next1 w (io_revision next1 \<noteq> io_revision this) = Some True \<Longrightarrow>
    watchLogs next1 w1 = Some w2 \<Longrightarrow> info_run next1 w2"
| unchanged: "info_run this w \<Longrightarrow> pods_distinct next1 \<Longrightarrow>
    componentWillReceiveProps_workload this next1 w = Some (w1, cs) \<Longrightarrow>
    shouldComponentUpdate_workload this next1 w (io_revision next1 \<noteq> io_revision this) = Some False \<Longrightarrow>
    info_run next1 w1"

lemma ready_distinct:
  assumes "filterReadyContainers this pods resources = Some ready" "case pods of Some lpcs \<Rightarrow> distinct lpcs | None \<Rightarrow> True"
  shows "distinct ready"
  using assms by (auto simp: filterReadyContainers_def split: option.splits dest: filterM_SomeD)

lemma receive_keeps_followers:
  assumes "componentWillReceiveProps_workload this next1 w = Some (w1, cs)"
  shows "in_followers w1 = in_followers w" "in_next w1 = in_next w" "in_destroyed w1 = in_destroyed w"
    and "pods_distinct next1 \<Longrightarrow> distinct (in_ready w) \<Longrightarrow> distinct (in_ready w1)"
  using assms
  by (auto simp: componentWillReceiveProps_workload_def bind_Some_iff Let_def pods_distinct_def
      split: if_splits dest: ready_distinct)

lemma watchLogs_ready: "watchLogs props w = Some w' \<Longrightarrow> in_ready w' = in_ready w"
  by (auto simp: watchLogs_def bind_Some_iff split: option.splits if_splits)

lemma info_run_ok: "info_run props w \<Longrightarrow> followers_ok w \<and> distinct (in_ready w)"
proof (induction rule: info_run.induct)
  case (mounted props w cs)
  then obtain ready where r: "filterReadyContainers props (io_pods props) (io_resources props) = Some ready"
    "watchLogs props \<lparr>in_resource = io_resource props, in_contents = io_contents props, in_ready = ready,
       in_followers = [], in_next = 0, in_destroyed = []\<rparr> = Some w"
    by (auto simp: new_info_state_def bind_Some_iff)
  have "distinct ready" using ready_distinct [OF r(1)] mounted(2) by (simp add: pods_distinct_def)
  with watchLogs_ok(1) [OF r(2)] watchLogs_ready [OF r(2)] show ?case by (simp add: followers_ok_def)
next
  case (updated this w next1 w1 cs w2)
  note k = receive_keeps_followers [OF updated(3)]
  from updated(6) k have "followers_ok w1" "distinct (in_ready w1)"
    using updated(2) by (simp_all add: followers_ok_def)
  with watchLogs_ok(1) [OF updated(5)] watchLogs_ready [OF updated(5)] show ?case by simp
next
  case (unchanged this w next1 w1 cs)
  note k = receive_keeps_followers [OF unchanged(3)]
  from unchanged(5) k unchanged(2) show ?case by (simp add: followers_ok_def)
qed

text \<open>C31: Through the whole life of the page of a workload no follower of logs leaks: when the page goes away,
  each follower that was ever started has been destroyed, exactly once; and while it lives, the kept
  followers are pairwise different and none of them is a destroyed one.\<close>

theorem no_follower_leaks:
  assumes "info_run props w"
  shows "mset (in_destroyed (componentWillUnmount_workload w)) = mset [0..<in_next w]
    \<and> distinct (map snd (in_followers w) @ in_destroyed w)"
proof -
  have m: "mset (map snd (in_followers w)) + mset (in_destroyed w) = mset [0..<in_next w]"
    using info_run_ok [OF assms] by (simp add: followers_ok_def)
  then have "mset (map snd (in_followers w) @ in_destroyed w) = mset [0..<in_next w]" by simp
  then have "distinct (map snd (in_followers w) @ in_destroyed w)"
    by (metis distinct_upt mset_eq_imp_distinct_iff)
  then show ?thesis using m by (simp add: componentWillUnmount_workload_def ac_simps)
qed

definition logged_pod :: resource where
  "logged_pod = (fresh_resource (JObj [(''kind'', JStr ''Pod''),
      (''metadata'', JObj [(''name'', JStr ''p''), (''namespace'', JStr ''ns''), (''resourceVersion'', JStr ''1'')]),
      (''spec'', JObj [(''containers'', JArr [JObj [(''name'', JStr ''a'')], JObj [(''name'', JStr ''b'')]])]),
      (''status'', JObj [(''containerStatuses'', JArr [JObj [(''ready'', JBool True)],
         JObj [(''ready'', JBool False), (''state'', JObj [(''terminated'', JObj [])])]])])]))\<lparr>r_key := Some ''Pod/ns/p''\<rparr>"

definition logging_props :: "string list \<Rightarrow> int \<Rightarrow> info_props" where
  "logging_props pods revision = \<lparr>io_heap = [0 \<mapsto> logged_pod], io_resource = Some 0, io_resources = [(''Pod/ns/p'', 0)],
     io_user = True, io_contents = [], io_pods = Some pods, io_search = ''?view=logs'',
     io_params = \<lparr>pa_namespace = JStr ''ns'', pa_kind = JStr ''Pod'', pa_name = JStr ''p''\<rparr>, io_fetching = 0,
     io_revision = revision, io_location = 0, io_events = 0\<rparr>"

text \<open>Two containers are followed; then only the second: its follower is kept, that of the first destroyed.\<close>

lemma logging_run:
  "\<exists>w. info_run (logging_props [''p/b''] 2) w \<and> in_followers w = [(''p/b'', 1)] \<and> in_destroyed w = [0] \<and> in_next w = 2"
proof -
  let ?p = "logging_props [''p/a'', ''p/b''] 1" and ?q = "logging_props [''p/b''] 2"
  have "case new_info_state ?p of Some (w, _) \<Rightarrow> pods_distinct ?p \<and>
      (case componentWillReceiveProps_workload ?p ?q w of Some (w1, _) \<Rightarrow> pods_distinct ?q
         \<and> shouldComponentUpdate_workload ?p ?q w (io_revision ?q \<noteq> io_revision ?p) = Some True
         \<and> (case watchLogs ?q w1 of Some w2 \<Rightarrow>
              in_followers w2 = [(''p/b'', 1)] \<and> in_destroyed w2 = [0] \<and> in_next w2 = 2 | None \<Rightarrow> False)
       | None \<Rightarrow> False) | None \<Rightarrow> False" by code_simp
  then show ?thesis
    by (auto split: option.splits prod.splits) (blast intro: info_run.updated [OF info_run.mounted])
qed

theorem no_follower_leaks_witness:
  "\<exists>w. info_run (logging_props [''p/b''] 2) w \<and> in_next w = 2
     \<and> mset (in_destroyed (componentWillUnmount_workload w)) = mset [0, 1]"
proof -
  obtain w where w: "info_run (logging_props [''p/b''] 2) w" "in_next w = 2" using logging_run by blast
  have "[0..<2] = [0, 1 :: nat]" by (simp add: upt_conv_Cons)
  with no_follower_leaks [OF w(1)] w show ?thesis by auto
qed

section \<open>What goes wrong\<close>

text \<open>A container that is selected without a change of the resources is not followed yet.\<close>

lemma selection_waits_for_revision:
  assumes "componentWillReceiveProps_workload this next1 w = Some (w1, cs)" "io_revision next1 = io_revision this"
  shows "in_ready w1 = in_ready w"
  using assms by (auto simp: componentWillReceiveProps_workload_def bind_Some_iff Let_def split: if_splits)

text \<open>A selected container that its pod does not have makes the page throw.\<close>

lemma unknown_container_throws:
  assumes "rget pod ''spec'' = Some sp" "jget sp ''containers'' = Some (JArr cs)" "container_index name cs = Some None"
    and "rget pod ''status'' = Some st" "jget st ''containerStatuses'' = Some (JArr ss)"
  shows "container_ready pod name = None"
  using assms by (simp add: container_ready_def array_items_def)

text \<open>The access of an object that was shown before may arrive after that of the object shown now, and stays.\<close>

lemma stale_access:
  assumes "componentWillReceiveProps_info kinds h (Some b) (Some a) w = Some w1"
    and "sameResource (h b) (h a) = Some False"
  shows "ip_access (access_answered a old (access_answered b new w1)) = Some old \<and> ip_asked w1 = ip_asked w @ [b]"
  using assms by (auto simp: componentWillReceiveProps_info_def access_answered_def bind_Some_iff)

text \<open>The chips of kinds never lead anywhere, and on the page of a cluster object neither do those of labels.\<close>

lemma kind_chip_throws: "viewKind_workload stringify None kind ns = None" "viewKind_access stringify None kind ns = None"
  by (simp_all add: viewKind_workload_def viewKind_access_def)

lemma cluster_chip_throws: "handleFilterLabelTouchTap False filters = None"
  by (simp add: handleFilterLabelTouchTap_def)

text \<open>With the access known, a tab that the object does not have leaves the page blank; others are shown.\<close>

lemma active_tab_shown: "target \<in> set tabs \<Longrightarrow> target \<noteq> ''edit'' \<Longrightarrow> active_tab tabs access target = Some target"
  by (simp add: active_tab_def)

lemma unknown_tab_blank: "target \<notin> set tabs \<Longrightarrow> target \<noteq> ''edit'' \<Longrightarrow> tabs \<noteq> [] \<Longrightarrow> active_tab tabs (Some a) target = None"
  by (cases tabs) (auto simp: active_tab_def Let_def)

text \<open>The tab that is selected is the one asked for, whatever the address was before.\<close>

lemma selected_tab_is_asked:
  assumes "en_parse e (en_stringify e (selectView_query (en_parse e search) tab)) = selectView_query (en_parse e search) tab"
    and "tab \<noteq> []" "selectView_workload e p path search hash tab = cs @ [PushTo path' search' hash']"
  shows "asked_tab e search' = tab"
  using assms by (auto simp: selectView_workload_def asked_tab_def selectView_query_def js_or_def)

text \<open>A missing object is shown as missing, as loading, or not at all: never as a page.\<close>

lemma workload_page_exists:
  "iv_page (render_workload e props w) = Some t \<Longrightarrow>
     \<exists>x. Option.bind (in_resource w) (io_heap props) = Some x \<and> \<not> r_notFound x \<and> \<not> r_isDeleted x"
  by (auto simp: render_workload_def Let_def split: option.splits if_splits)

text \<open>The other containers show a deleted object as if it were there.\<close>

lemma deleted_is_shown:
  assumes "Option.bind (in_resource w) (io_heap props) = Some x" "r_isDeleted x" "\<not> r_notFound x"
  shows "iv_page (render_cluster e props w) = Some (asked_tab e (io_search props))"
    and "iv_page (render_access e props w) = Some (asked_tab e (io_search props))"
    and "iv_notFound (render_workload e props w)"
  using assms by (simp_all add: render_cluster_def render_access_def render_workload_def Let_def)

end
