(* ===== verification/HexChart.thy ===== *)
theory HexChart
  imports Prelude
begin

text \<open>
  The chart of hexagons, \<^verbatim>\<open>src/components/dashboard/HexagonChart.js\<close>: where the hexagon of an item
  lies, which hexagons are its neighbours, and the border drawn around a group. Coordinates are integers;
  the code keeps segments and points under their JSON text, which determines them, so they are their own
  keys here.
\<close>

section \<open>Layout\<close>

type_synonym pt = "int \<times> int"
type_synonym seg = "pt \<times> pt"

definition radius_for :: "nat \<Rightarrow> nat" where
  "radius_for itemCount =
     (if itemCount \<le> 11 then 26 else if itemCount \<le> 24 then 19 else if itemCount \<le> 40 then 15
      else if itemCount \<le> 96 then 10 else if itemCount \<le> 207 then 7 else 15)"

text \<open>\<^verbatim>\<open>Math.floor(height / (1.5 * radius))\<close> for a height of 100\<close>

definition chart_rows :: "nat \<Rightarrow> nat" where
  "chart_rows itemCount = 200 div (3 * radius_for itemCount)"

definition chart_width :: "nat \<Rightarrow> nat" where
  "chart_width itemCount =
     (let rows = chart_rows itemCount; radius = radius_for itemCount; cols = (itemCount - itemCount mod rows) div rows
      in cols * radius * 2 + 2 * radius)"

definition neighbors :: "nat \<Rightarrow> nat \<Rightarrow> int list" where
  "neighbors d rows =
     (let i = int d; m = int rows; shift = m * (i mod m mod 2);
          n = [i - 1 + shift, i + m, i + 1 + shift, i + 1 - m + shift, i - m, i - 1 - m + shift]
      in if i mod m = m - 1 then n[2 := - 1, 3 := - 1]
         else if i mod m = 0 then n[0 := - 1, 5 := - 1] else n)"

record hex =
  hx_points :: "pt list"
  hx_index :: nat
  hx_group :: string
  hx_neighbors :: "int list"
  hx_label :: string
  hx_classes :: string

text \<open>\<^verbatim>\<open>2 * (d.x + d.y / 2.0)\<close> is an integer.\<close>

definition hex_points :: "int \<Rightarrow> int \<Rightarrow> pt list" where
  "hex_points dx dy =
     (let x = 2 * dx + dy; y = 2 * dy
      in [(x, y + 2), (x + 1, y + 1), (x + 1, y), (x, y - 1), (x - 1, y), (x - 1, y + 1), (x, y + 2)])"

definition newHex :: "int \<Rightarrow> int \<Rightarrow> nat \<Rightarrow> string \<Rightarrow> string \<Rightarrow> string \<Rightarrow> int list \<Rightarrow> hex" where
  "newHex x y i group1 label classes n =
     \<lparr>hx_points = hex_points x y, hx_index = i, hx_group = group1, hx_neighbors = n, hx_label = label, hx_classes = classes\<rparr>"

record chart_item =
  ci_group :: string
  ci_label :: string
  ci_classes :: "string list"

text \<open>The column of an item: \<^verbatim>\<open>Math.ceil(index / rows) + increment\<close>\<close>

definition hex_x :: "nat \<Rightarrow> nat \<Rightarrow> int" where
  "hex_x rows index = (int index + int rows - 1) div int rows + max ((int index mod int rows - 1) div 2) 0"

definition item_hex :: "nat \<Rightarrow> nat \<Rightarrow> chart_item \<Rightarrow> hex" where
  "item_hex rows index item =
     newHex (hex_x rows index) (- (int index mod int rows)) index
       (if ci_group item = [] then ''__default__'' else ci_group item) (ci_label item) (join '' '' (ci_classes item))
       (neighbors index rows)"

section \<open>Borders\<close>

definition all_features :: "hex list \<Rightarrow> int \<Rightarrow> hex option" where
  "all_features hs k = (if 0 \<le> k \<and> k < int (length hs) then Some (hs ! nat k) else None)"

text \<open>The sides of a hexagon whose neighbour is missing or of another group.\<close>

definition outer_sides :: "hex list \<Rightarrow> hex \<Rightarrow> seg list" where
  "outer_sides allFeatures f =
     map (\<lambda>j. (hx_points f ! j, hx_points f ! (j + 1)))
       (filter (\<lambda>j. case all_features allFeatures (hx_neighbors f ! j) of
                      None \<Rightarrow> True | Some h \<Rightarrow> hx_group f \<noteq> hx_group h) [0..<6])"

definition group_sides :: "hex list \<Rightarrow> hex list \<Rightarrow> seg list" where
  "group_sides allFeatures features = concat (map (outer_sides allFeatures) features)"

text \<open>Segments by their end points, in the order in which they were met.\<close>

definition add_by_point :: "seg \<Rightarrow> (pt \<Rightarrow> seg list) \<Rightarrow> pt \<Rightarrow> seg list" where
  "add_by_point s bp = (let bp1 = bp(fst s := bp (fst s) @ [s]) in bp1(snd s := bp1 (snd s) @ [s]))"

definition by_point :: "seg list \<Rightarrow> pt \<Rightarrow> seg list" where
  "by_point segs = fold add_by_point segs (\<lambda>_. [])"

definition drop_by_point :: "seg \<Rightarrow> (pt \<Rightarrow> seg list) \<Rightarrow> pt \<Rightarrow> seg list" where
  "drop_by_point s bp = (let bp1 = bp(fst s := removeAll s (bp (fst s))) in bp1(snd s := removeAll s (bp1 (snd s))))"

lemma card_less_one: "x \<in> set xs \<Longrightarrow> card (set xs) - Suc 0 < card (set xs)"
  using card_gt_0_iff [of "set xs"] by auto

text \<open>
  The walk along the border. \<open>prev\<close> is the point that was reached last; when no segment is left there,
  the walk starts once more from the first segment, now prepending its points.
\<close>

function border_loop ::
  "seg \<Rightarrow> seg list \<Rightarrow> (pt \<Rightarrow> seg list) \<Rightarrow> bool \<Rightarrow> pt option \<Rightarrow> seg \<Rightarrow> pt list \<Rightarrow> pt list" where
  "border_loop first segs bp reversed prev cur points =
     (let segs1 = removeAll cur segs; bp1 = drop_by_point cur bp;
          p = (if prev = Some (snd cur) then fst cur else snd cur);
          points1 = (if reversed then p # points else points @ [p])
      in case bp1 p of
           s # _ \<Rightarrow> if s \<in> set segs1 then border_loop first segs1 bp1 reversed (Some p) s points1
                    else if \<not> reversed then border_loop first segs1 bp1 True (Some (fst first)) first points1
                    else points1
         | [] \<Rightarrow> if \<not> reversed then border_loop first segs1 bp1 True (Some (fst first)) first points1 else points1)"
  by pat_completeness auto
termination
  by (relation "measure (\<lambda>(first, segs, bp, reversed, prev, cur, points).
      2 * card (set segs) + (if reversed then 0 else 2) + (if cur \<in> set segs then 0 else 1))")
    (auto simp: card_Diff_singleton_if card_less_one split: if_splits)

declare border_loop.simps [simp del]

text \<open>Without segments the first one is null, and reading it throws.\<close>

definition computeBorder :: "hex list \<Rightarrow> hex list \<Rightarrow> pt list option" where
  "computeBorder features allFeatures =
     (let segs = group_sides allFeatures features
      in case segs of [] \<Rightarrow> None | first # _ \<Rightarrow> Some (border_loop first segs (by_point segs) False None first [fst first]))"

section \<open>The chart\<close>

record chart =
  ch_width :: nat
  ch_features :: "(string \<times> hex list) list"
  ch_borders :: "(string \<times> pt list) list"
  ch_labels :: bool

definition chart_hexes :: "chart_item list \<Rightarrow> hex list" where
  "chart_hexes items = map (\<lambda>(i, item). item_hex (chart_rows (length items)) i item) (enumerate 0 items)"

definition features_by_group :: "hex list \<Rightarrow> hex list obj" where
  "features_by_group hs =
     fold (\<lambda>h o1. oset (hx_group h) ((case oget o1 (hx_group h) of Some fs \<Rightarrow> fs | None \<Rightarrow> []) @ [h]) o1) hs []"

text \<open>Borders are drawn only when there are several groups; they are computed in any case.\<close>

definition renderHexChart :: "chart_item list \<Rightarrow> chart option" where
  "renderHexChart items = do {
     let hs = chart_hexes items;
     let groups = features_by_group hs;
     borders \<leftarrow> foldM (\<lambda>(g, fs) acc. map_option (\<lambda>ps. acc @ [(g, ps)]) (computeBorder fs hs)) groups [];
     Some \<lparr>ch_width = chart_width (length items), ch_features = groups,
           ch_borders = (if length borders > 1 then borders else []),
           ch_labels = (\<exists>item \<in> set items. ci_label item \<noteq> [])\<rparr>
   }"

text \<open>
  The selection: the indexes of hexagons, in ascending order, in which JavaScript visits them. With the
  shift key a hexagon is added or taken away; without, it is selected alone, or none is.
\<close>

definition handleSelectHex :: "bool \<Rightarrow> nat \<Rightarrow> nat list \<Rightarrow> nat list" where
  "handleSelectHex shiftKey i selected =
     (if shiftKey then (if i \<in> set selected then removeAll i selected else insort i selected)
      else if length selected > 1 \<or> i \<notin> set selected then [i] else [])"

section \<open>Neighbours share their sides\<close>

text \<open>The corners around a centre; the hexagons form a grid of rows, every second one shifted by half a column.\<close>

definition around :: "pt \<Rightarrow> pt list" where
  "around c = (case c of (x, y) \<Rightarrow>
     [(x, y + 2), (x + 1, y + 1), (x + 1, y), (x, y - 1), (x - 1, y), (x - 1, y + 1), (x, y + 2)])"

definition grid_center :: "nat \<Rightarrow> nat \<Rightarrow> pt" where
  "grid_center rows i = (2 * int (i div rows) + int (i mod rows mod 2), - 2 * int (i mod rows))"

lemma hex_x_grid:
  assumes "rows > 0"
  shows "2 * hex_x rows i - int (i mod rows) = 2 * int (i div rows) + int (i mod rows mod 2)"
proof -
  let ?a = "int i div int rows" and ?r = "int i mod int rows"
  have ri: "int i = ?r + ?a * int rows" using div_mult_mod_eq [of "int i" "int rows"] by simp
  have shift: "(x + q * int rows) div int rows = x div int rows + q" for x q
    using assms by simp
  have ceil: "(int i + int rows - 1) div int rows = ?a + (if ?r = 0 then 0 else 1)"
  proof (cases "?r = 0")
    case True
    then have "int i + int rows - 1 = (int rows - 1) + ?a * int rows" using ri by linarith
    then show ?thesis using True assms by (simp only: shift) simp
  next
    case False
    have "0 \<le> ?r" using assms by simp
    have "int i + int rows - 1 = (?r - 1) + (?a + 1) * int rows" using ri by (simp add: algebra_simps)
    moreover have "?r < int rows" using assms by simp
    then have "(?r - 1) div int rows = 0"
      using False \<open>0 \<le> ?r\<close> by (intro div_pos_pos_trivial; linarith)
    ultimately show ?thesis using False by (simp only: shift) simp
  qed
  have r: "0 \<le> ?r" using assms by simp
  have "2 * (?a + (if ?r = 0 then 0 else 1) + max ((?r - 1) div 2) 0) - ?r = 2 * ?a + ?r mod 2"
  proof (cases "?r = 0")
    case False
    have "2 * ((t - 1) div 2) = t - 2 + t mod 2" for t :: int by presburger
    then have "2 * ((?r - 1) div 2) = ?r - 2 + ?r mod 2" .
    moreover have "max ((?r - 1) div 2) 0 = (?r - 1) div 2" using False r by simp
    ultimately show ?thesis using False by simp
  qed simp
  then show ?thesis unfolding hex_x_def ceil by (simp add: zdiv_int zmod_int)
qed

lemma item_hex_points: "rows > 0 \<Longrightarrow> hx_points (item_hex rows i item) = around (grid_center rows i)"
  using hex_x_grid [of rows i]
  by (simp add: item_hex_def newHex_def hex_points_def around_def grid_center_def Let_def zmod_int)

definition side :: "pt \<Rightarrow> nat \<Rightarrow> seg" where
  "side c j = (around c ! j, around c ! (j + 1))"

text \<open>Two hexagons have a side in common, in either direction.\<close>

definition has_side :: "pt \<Rightarrow> seg \<Rightarrow> bool" where
  "has_side c s \<longleftrightarrow> (\<exists>m < 6. side c m = s \<or> side c m = (snd s, fst s))"

definition step_to :: "nat \<Rightarrow> pt" where
  "step_to j = [(1, 2), (2, 0), (1, - 2), (- 1, - 2), (- 2, 0), (- 1, 2)] ! j"

lemma six: "(j :: nat) < 6 \<longleftrightarrow> j = 0 \<or> j = 1 \<or> j = 2 \<or> j = 3 \<or> j = 4 \<or> j = 5"
  by auto

lemma ex_six: "(\<exists>m < 6 :: nat. P m) \<longleftrightarrow> P 0 \<or> P 1 \<or> P 2 \<or> P 3 \<or> P 4 \<or> P 5"
  unfolding six by blast

lemma side_values:
  "side (x, y) 0 = ((x, y + 2), (x + 1, y + 1))" "side (x, y) 1 = ((x + 1, y + 1), (x + 1, y))"
  "side (x, y) 2 = ((x + 1, y), (x, y - 1))" "side (x, y) 3 = ((x, y - 1), (x - 1, y))"
  "side (x, y) 4 = ((x - 1, y), (x - 1, y + 1))" "side (x, y) 5 = ((x - 1, y + 1), (x, y + 2))"
  by (simp_all add: side_def around_def)

lemma step_values:
  "step_to 0 = (1, 2)" "step_to 1 = (2, 0)" "step_to 2 = (1, - 2)" "step_to 3 = (- 1, - 2)"
  "step_to 4 = (- 2, 0)" "step_to 5 = (- 1, 2)"
  by (simp_all add: step_to_def)

lemma has_side_iff:
  assumes "j < 6"
  shows "has_side c (side d j) \<longleftrightarrow> c = d \<or> c = (fst d + fst (step_to j), snd d + snd (step_to j))"
proof -
  obtain x y u v where cd: "c = (x, y)" "d = (u, v)" by fastforce
  show ?thesis unfolding cd has_side_def ex_six using assms unfolding six
    by (elim disjE; simp only: side_values step_values fst_conv snd_conv prod.inject; presburger)
qed

lemma div_mod_unique: "0 \<le> s \<Longrightarrow> s < m \<Longrightarrow> 0 \<le> t \<Longrightarrow> t < m \<Longrightarrow> b * m + s = c * m + t \<longleftrightarrow> b = c \<and> s = (t :: int)"
proof
  assume a: "0 \<le> s" "s < m" "0 \<le> t" "t < m" "b * m + s = c * m + t"
  from a(1-4) have "(b * m + s) div m = b" "(b * m + s) mod m = s" "(c * m + t) div m = c" "(c * m + t) mod m = t" by simp_all
  with a(5) show "b = c \<and> s = t" by metis
qed simp

text \<open>The table of neighbours, by the column \<open>a\<close> and the row \<open>r\<close> of the item.\<close>

lemma neighbors_values:
  fixes i rows
  assumes "rows \<ge> 2"
  defines "m \<equiv> int rows" and "a \<equiv> int (i div rows)" and "r \<equiv> int (i mod rows)"
  shows "neighbors i rows ! 0 = (if r = 0 then - 1 else (a + r mod 2) * m + (r - 1))"
    and "neighbors i rows ! 1 = (a + 1) * m + r"
    and "neighbors i rows ! 2 = (if r = m - 1 then - 1 else (a + r mod 2) * m + (r + 1))"
    and "neighbors i rows ! 3 = (if r = m - 1 then - 1 else (a - 1 + r mod 2) * m + (r + 1))"
    and "neighbors i rows ! 4 = (a - 1) * m + r"
    and "neighbors i rows ! 5 = (if r = 0 then - 1 else (a - 1 + r mod 2) * m + (r - 1))"
proof -
  have i: "int i = a * m + r" unfolding a_def m_def r_def by (metis div_mult_mod_eq of_nat_add of_nat_mult)
  have rm: "int i mod m = r" unfolding m_def r_def by (simp add: zmod_int)
  have m2: "m \<ge> 2" using assms(1) by (simp add: m_def)
  have e: "neighbors i rows =
      (let n = [a * m + r - 1 + m * (r mod 2), a * m + r + m, a * m + r + 1 + m * (r mod 2),
                a * m + r + 1 - m + m * (r mod 2), a * m + r - m, a * m + r - 1 - m + m * (r mod 2)]
       in if r = m - 1 then n[2 := - 1, 3 := - 1] else if r = 0 then n[0 := - 1, 5 := - 1] else n)"
    unfolding neighbors_def m_def [symmetric] Let_def rm by (simp only: i)
  show "neighbors i rows ! 0 = (if r = 0 then - 1 else (a + r mod 2) * m + (r - 1))"
    "neighbors i rows ! 1 = (a + 1) * m + r"
    "neighbors i rows ! 2 = (if r = m - 1 then - 1 else (a + r mod 2) * m + (r + 1))"
    "neighbors i rows ! 3 = (if r = m - 1 then - 1 else (a - 1 + r mod 2) * m + (r + 1))"
    "neighbors i rows ! 4 = (a - 1) * m + r"
    "neighbors i rows ! 5 = (if r = 0 then - 1 else (a - 1 + r mod 2) * m + (r - 1))"
    unfolding e Let_def using m2 by (simp_all add: algebra_simps)
qed

lemma mod_two_step: "(r - 1) mod 2 = 1 - r mod 2" "(r + 1) mod 2 = 1 - r mod (2::int)" by presburger+

lemma grid_step: "(b = q \<and> s = t) = (2 * b + s mod 2 = 2 * a + r mod 2 + dx \<and> - 2 * s = - 2 * r + dy)"
  if "2 * t = 2 * r - dy" "2 * q + t mod 2 = 2 * a + r mod 2 + dx" for b q s t a r dx dy :: int
proof
  assume "b = q \<and> s = t"
  with that show "2 * b + s mod 2 = 2 * a + r mod 2 + dx \<and> - 2 * s = - 2 * r + dy" by auto
next
  assume h: "2 * b + s mod 2 = 2 * a + r mod 2 + dx \<and> - 2 * s = - 2 * r + dy"
  then have "2 * s = 2 * t" using that by linarith
  then have "s = t" by simp
  with h that show "b = q \<and> s = t" by auto
qed

lemma neighbors_center:
  assumes "rows \<ge> 2" "j < 6"
  shows "neighbors i rows ! j = int k \<longleftrightarrow>
    grid_center rows k = (fst (grid_center rows i) + fst (step_to j), snd (grid_center rows i) + snd (step_to j))"
proof -
  define m a r b s where v: "m = int rows" "a = int (i div rows)" "r = int (i mod rows)" "b = int (k div rows)" "s = int (k mod rows)"
  have rng: "0 \<le> r" "r < m" "0 \<le> s" "s < m" "0 \<le> b" "0 \<le> a" using assms(1) by (simp_all add: v)
  have k: "int k = b * m + s" unfolding v by (metis div_mult_mod_eq of_nat_add of_nat_mult)
  have "b * m \<ge> 0" using rng by simp
  then have k0: "b * m + s \<noteq> - 1" using rng by linarith
  have c: "grid_center rows i = (2 * a + r mod 2, - 2 * r)" "grid_center rows k = (2 * b + s mod 2, - 2 * s)"
    by (simp_all add: grid_center_def v zmod_int)
  note n = neighbors_values [OF assms(1), of i, folded v(1-3)]
  note u = div_mod_unique [OF rng(3,4), of _ b]
  have u0: "(q * m + t = b * m + s) \<longleftrightarrow> b = q \<and> s = t" if "0 \<le> t" "t < m" for q t
    using div_mod_unique [OF rng(3,4) that, of b q] by auto
  have case_j: "n1 = b * m + s \<longleftrightarrow> (2 * b + s mod 2, - 2 * s) = (2 * a + r mod 2 + dx, - 2 * r + dy)"
    if "n1 = (if out then - 1 else q * m + t)" "\<not> out \<Longrightarrow> 0 \<le> t \<and> t < m"
      "2 * t = 2 * r - dy" "2 * q + t mod 2 = 2 * a + r mod 2 + dx" "out \<Longrightarrow> t \<noteq> s" for n1 out q t dx dy
    using that(1,2,5) k0 u0 [of t q] grid_step [OF that(3,4), of b s] that(3) by (cases out) auto
  have sides: "neighbors i rows ! 0 = b * m + s \<longleftrightarrow> (2 * b + s mod 2, - 2 * s) = (2 * a + r mod 2 + 1, - 2 * r + 2)"
    "neighbors i rows ! 1 = b * m + s \<longleftrightarrow> (2 * b + s mod 2, - 2 * s) = (2 * a + r mod 2 + 2, - 2 * r + 0)"
    "neighbors i rows ! 2 = b * m + s \<longleftrightarrow> (2 * b + s mod 2, - 2 * s) = (2 * a + r mod 2 + 1, - 2 * r + - 2)"
    "neighbors i rows ! 3 = b * m + s \<longleftrightarrow> (2 * b + s mod 2, - 2 * s) = (2 * a + r mod 2 + - 1, - 2 * r + - 2)"
    "neighbors i rows ! 4 = b * m + s \<longleftrightarrow> (2 * b + s mod 2, - 2 * s) = (2 * a + r mod 2 + - 2, - 2 * r + 0)"
    "neighbors i rows ! 5 = b * m + s \<longleftrightarrow> (2 * b + s mod 2, - 2 * s) = (2 * a + r mod 2 + - 1, - 2 * r + 2)"
    subgoal by (rule case_j [OF n(1)]) (use rng in \<open>auto simp: mod_two_step\<close>)
    subgoal by (rule case_j [of _ False, unfolded if_False, OF n(2)]) (use rng in auto)
    subgoal by (rule case_j [OF n(3)]) (use rng in \<open>auto simp: mod_two_step\<close>)
    subgoal by (rule case_j [OF n(4)]) (use rng in \<open>auto simp: mod_two_step\<close>)
    subgoal by (rule case_j [of _ False, unfolded if_False, OF n(5)]) (use rng in auto)
    subgoal by (rule case_j [OF n(6)]) (use rng in \<open>auto simp: mod_two_step\<close>)
    done
  show ?thesis
    using assms(2) unfolding six
    by (elim disjE) (simp_all only: k c sides step_values fst_conv snd_conv)
qed

section \<open>Borders follow the outline of their group\<close>

text \<open>A hexagon has a segment as a side, in either direction.\<close>

definition touches :: "hex \<Rightarrow> seg \<Rightarrow> bool" where
  "touches h s \<longleftrightarrow> (\<exists>m < 6. (hx_points h ! m, hx_points h ! (m + 1)) = s \<or> (hx_points h ! m, hx_points h ! (m + 1)) = (snd s, fst s))"

text \<open>A side of a hexagon of the group that no other hexagon of the group has.\<close>

definition outline :: "hex list \<Rightarrow> string \<Rightarrow> seg \<Rightarrow> bool" where
  "outline hs g s \<longleftrightarrow> (\<exists>f \<in> set hs. hx_group f = g \<and> touches f s \<and> (\<forall>h \<in> set hs. hx_group h = g \<and> touches h s \<longrightarrow> h = f))"

lemma chart_rows_ge: "chart_rows n \<ge> 2"
  by (simp add: chart_rows_def radius_for_def)

lemma chart_hexes_nth:
  assumes "i < length items"
  shows "chart_hexes items ! i = item_hex (chart_rows (length items)) i (items ! i)"
proof -
  have "enumerate 0 items ! i = (i, items ! i)" using assms by (simp add: nth_enumerate_eq)
  then show ?thesis using assms by (simp add: chart_hexes_def)
qed

lemma length_chart_hexes [simp]: "length (chart_hexes items) = length items"
  by (simp add: chart_hexes_def)

lemma grid_center_inj:
  assumes "rows > 0" "grid_center rows i = grid_center rows k"
  shows "i = k"
proof -
  have r: "i mod rows = k mod rows" using assms(2) by (simp add: grid_center_def)
  with assms(2) have "i div rows = k div rows" by (simp add: grid_center_def)
  with r show ?thesis by (metis div_mult_mod_eq)
qed

lemma touches_iff:
  assumes "i < length items" "k < length items" "j < 6" "hs = chart_hexes items"
  shows "touches (hs ! k) (hx_points (hs ! i) ! j, hx_points (hs ! i) ! (j + 1)) \<longleftrightarrow> k = i \<or> hx_neighbors (hs ! i) ! j = int k"
proof -
  let ?rows = "chart_rows (length items)"
  have rows: "?rows \<ge> 2" by (rule chart_rows_ge)
  have pts: "hx_points (hs ! n) = around (grid_center ?rows n)" if "n < length items" for n
    using item_hex_points [of ?rows n] rows that by (simp add: assms(4) chart_hexes_nth)
  have "touches (hs ! k) (hx_points (hs ! i) ! j, hx_points (hs ! i) ! (j + 1)) \<longleftrightarrow>
      has_side (grid_center ?rows k) (side (grid_center ?rows i) j)"
    unfolding touches_def has_side_def side_def pts [OF assms(1)] pts [OF assms(2)] by simp
  also have "\<dots> \<longleftrightarrow> grid_center ?rows k = grid_center ?rows i \<or> neighbors i ?rows ! j = int k"
    unfolding has_side_iff [OF assms(3)] neighbors_center [OF rows assms(3)] ..
  also have "\<dots> \<longleftrightarrow> k = i \<or> hx_neighbors (hs ! i) ! j = int k"
    using grid_center_inj [of ?rows k i] rows assms(1) by (auto simp: assms(4) chart_hexes_nth item_hex_def newHex_def)
  finally show ?thesis .
qed

lemma outer_sides_outline:
  assumes "f \<in> set hs" "s \<in> set (outer_sides hs f)" "hs = chart_hexes items"
  shows "outline hs (hx_group f) s"
proof -
  obtain i where i: "i < length items" "f = hs ! i" using assms(1,3) by (metis in_set_conv_nth length_chart_hexes)
  from assms(2) obtain j where j: "j < 6" "s = (hx_points f ! j, hx_points f ! (j + 1))"
    and out: "\<forall>h. all_features hs (hx_neighbors f ! j) = Some h \<longrightarrow> hx_group f \<noteq> hx_group h"
    by (auto simp: outer_sides_def split: option.splits)
  have "h = f" if h: "h \<in> set hs" "hx_group h = hx_group f" "touches h s" for h
  proof -
    obtain k where k: "k < length items" "h = hs ! k" using h(1) assms(3) by (metis in_set_conv_nth length_chart_hexes)
    from touches_iff [OF i(1) k(1) j(1) assms(3)] h(3) have "k = i \<or> hx_neighbors f ! j = int k"
      unfolding i(2) [symmetric] k(2) [symmetric] j(2) by simp
    then show ?thesis
    proof
      assume "hx_neighbors f ! j = int k"
      then have "all_features hs (hx_neighbors f ! j) = Some h" using k by (simp add: all_features_def assms(3))
      with out h(2) show ?thesis by metis
    qed (simp add: i k)
  qed
  moreover have "touches f s" unfolding touches_def j(2) using j(1) by auto
  ultimately show ?thesis unfolding outline_def using assms(1) by blast
qed

text \<open>The walk stays on the segments: consecutive points are the ends of one.\<close>

definition linked :: "seg set \<Rightarrow> pt list \<Rightarrow> bool" where
  "linked S ps \<longleftrightarrow> successively (\<lambda>p q. (p, q) \<in> S \<or> (q, p) \<in> S) ps"

definition filed_ends :: "seg set \<Rightarrow> (pt \<Rightarrow> seg list) \<Rightarrow> bool" where
  "filed_ends S bp \<longleftrightarrow> (\<forall>p. \<forall>s \<in> set (bp p). s \<in> S \<and> (fst s = p \<or> snd s = p))"

lemma drop_subset: "set (drop_by_point s bp p) \<subseteq> set (bp p)"
  by (auto simp: drop_by_point_def Let_def)

lemma filed_drop: "filed_ends S bp \<Longrightarrow> filed_ends S (drop_by_point s bp)"
  unfolding filed_ends_def using drop_subset by blast

lemma added: "x \<in> set (add_by_point s bp p) \<Longrightarrow> x \<in> set (bp p) \<or> x = s \<and> (fst s = p \<or> snd s = p)"
  unfolding add_by_point_def Let_def fun_upd_apply by (cases "p = snd s"; cases "p = fst s") auto

lemma filed_add: "filed_ends S bp \<Longrightarrow> s \<in> S \<Longrightarrow> filed_ends S (add_by_point s bp)"
  unfolding filed_ends_def using added by blast

lemma filed_by_point: "filed_ends (set segs) (by_point segs)"
proof -
  have "filed_ends S (fold add_by_point segs bp)" if "set segs \<subseteq> S" "filed_ends S bp" for segs S bp
    using that by (induction segs arbitrary: bp) (simp_all add: filed_add)
  from this [of segs "set segs" "\<lambda>_. []"] show ?thesis
    by (simp add: by_point_def filed_ends_def del: split_paired_All)
qed

lemma linked_snoc: "linked S ps \<Longrightarrow> ps \<noteq> [] \<Longrightarrow> (last ps, p) \<in> S \<or> (p, last ps) \<in> S \<Longrightarrow> linked S (ps @ [p])"
  by (simp add: linked_def successively_append_iff)

lemma linked_cons: "linked S ps \<Longrightarrow> ps \<noteq> [] \<Longrightarrow> (hd ps, p) \<in> S \<or> (p, hd ps) \<in> S \<Longrightarrow> linked S (p # ps)"
  by (cases ps) (simp_all add: linked_def disj_commute)

text \<open>Where the walk enters the current segment.\<close>

definition entry_point :: "pt option \<Rightarrow> seg \<Rightarrow> pt" where
  "entry_point prev cur = (if prev = Some (snd cur) then snd cur else fst cur)"

lemma border_loop_linked:
  assumes "filed_ends S bp" "first \<in> S" "cur \<in> S" "points \<noteq> []" "linked S points"
    and "hd points = (if reversed then entry_point prev cur else fst first)"
    and "\<not> reversed \<Longrightarrow> last points = entry_point prev cur"
  shows "linked S (border_loop first segs bp reversed prev cur points) \<and>
    length points < length (border_loop first segs bp reversed prev cur points)"
  using assms
proof (induction first segs bp reversed prev cur points rule: border_loop.induct)
  case (1 first segs bp reversed prev cur points)
  define segs1 bp1 where d: "segs1 = removeAll cur segs" "bp1 = drop_by_point cur bp"
  define p where p: "p = (if prev = Some (snd cur) then fst cur else snd cur)"
  define points1 where q: "points1 = (if reversed then p # points else points @ [p])"
  have filed: "filed_ends S bp1" unfolding d by (rule filed_drop [OF "1.prems"(1)])
  have step: "(entry_point prev cur, p) \<in> S \<or> (p, entry_point prev cur) \<in> S"
    using "1.prems"(3) by (cases cur) (auto simp: entry_point_def p)
  have ne: "points1 \<noteq> []" "length points < length points1" by (simp_all add: q)
  have linked1: "linked S points1"
  proof (cases reversed)
    case True
    with "1.prems"(4,5,6) step show ?thesis by (simp add: q linked_cons)
  next
    case False
    with "1.prems"(4,5,7) step show ?thesis by (simp add: q linked_snoc)
  qed
  have ends: "hd points1 = (if reversed then p else fst first)" "\<not> reversed \<Longrightarrow> last points1 = p"
    using "1.prems"(4,6) by (auto simp: q)
  have next_entry: "entry_point (Some p) s = p" if "s \<in> set (bp1 p)" for s
  proof -
    have "fst s = p \<or> snd s = p" using filed that unfolding filed_ends_def by blast
    then show ?thesis by (auto simp: entry_point_def)
  qed
  have again: "entry_point (Some (fst first)) first = fst first" by (simp add: entry_point_def)
  note IH = "1.IH" [OF d(1) d(2) p q]
  show ?case
  proof (cases "bp1 p")
    case Nil
    then have e: "border_loop first segs bp reversed prev cur points
        = (if \<not> reversed then border_loop first segs1 bp1 True (Some (fst first)) first points1 else points1)"
      by (subst border_loop.simps) (simp add: d p q Let_def)
    show ?thesis
    proof (cases reversed)
      case False
      show ?thesis unfolding e using IH(1) [OF Nil] False filed "1.prems"(2) ne linked1 ends again by simp
    next
      case True
      show ?thesis unfolding e using True linked1 ne by simp
    qed
  next
    case (Cons s ss)
    then have "s \<in> set (bp1 p)" by simp
    then have sS: "s \<in> S" using filed unfolding filed_ends_def by blast
    have e: "border_loop first segs bp reversed prev cur points
        = (if s \<in> set segs1 then border_loop first segs1 bp1 reversed (Some p) s points1
           else if \<not> reversed then border_loop first segs1 bp1 True (Some (fst first)) first points1 else points1)"
      using Cons by (subst border_loop.simps) (simp add: d p q Let_def)
    show ?thesis
    proof (cases "s \<in> set segs1")
      case True
      have n: "entry_point (Some p) s = p" using Cons by (intro next_entry) simp
      have "linked S (border_loop first segs1 bp1 reversed (Some p) s points1) \<and>
          length points1 < length (border_loop first segs1 bp1 reversed (Some p) s points1)"
        by (rule IH(2) [OF Cons True filed "1.prems"(2) sS ne(1) linked1]) (simp_all add: ends n)
      then show ?thesis unfolding e using True ne(2) by simp
    next
      case out: False
      show ?thesis
      proof (cases reversed)
        case False
        show ?thesis unfolding e using IH(3) [OF Cons out] out False filed "1.prems"(2) ne linked1 ends again by simp
      next
        case True
        show ?thesis unfolding e using True out linked1 ne by simp
      qed
    qed
  qed
qed

text \<open>The features of a group are the hexagons of the group, in their order.\<close>

lemma oget_features:
  "oget (fold (\<lambda>h o1. oset (hx_group h) ((case oget o1 (hx_group h) of Some fs \<Rightarrow> fs | None \<Rightarrow> []) @ [h]) o1) hs o1) g
    = (let fs = filter (\<lambda>h. hx_group h = g) hs
       in if fs = [] then oget o1 g else Some ((case oget o1 g of Some fs0 \<Rightarrow> fs0 | None \<Rightarrow> []) @ fs))"
  by (induction hs arbitrary: o1) (simp_all add: Let_def)

lemma wf_features: "wf_obj o1 \<Longrightarrow>
  wf_obj (fold (\<lambda>h o1. oset (hx_group h) ((case oget o1 (hx_group h) of Some fs \<Rightarrow> fs | None \<Rightarrow> []) @ [h]) o1) hs o1)"
  by (induction hs arbitrary: o1) simp_all

lemma features_of_group:
  "(g, fs) \<in> set (features_by_group hs) \<longleftrightarrow> fs = filter (\<lambda>h. hx_group h = g) hs \<and> fs \<noteq> []"
proof -
  have "wf_obj (features_by_group hs)" unfolding features_by_group_def by (rule wf_features) simp
  then have "(g, fs) \<in> set (features_by_group hs) \<longleftrightarrow> oget (features_by_group hs) g = Some fs" by (rule wf_obj_in_set)
  also have "\<dots> \<longleftrightarrow> fs = filter (\<lambda>h. hx_group h = g) hs \<and> fs \<noteq> []"
    unfolding features_by_group_def oget_features Let_def
    by (cases "filter (\<lambda>h. hx_group h = g) hs = []") (auto simp del: filter_empty_conv)
  finally show ?thesis .
qed

text \<open>The last hexagon of a group has no neighbour of its group in the next column: a border has a segment.\<close>

lemma group_has_side:
  assumes "hs = chart_hexes items" "fs = filter (\<lambda>h. hx_group h = g) hs" "fs \<noteq> []"
  shows "group_sides hs fs \<noteq> []"
proof -
  let ?rows = "chart_rows (length items)"
  have idx: "hx_index (hs ! i) = i \<and> hx_neighbors (hs ! i) = neighbors i ?rows" if "i < length items" for i
    using that by (simp add: assms(1) chart_hexes_nth item_hex_def newHex_def)
  have "finite (hx_index ` set fs)" "hx_index ` set fs \<noteq> {}" using assms(3) by simp_all
  then have "Max (hx_index ` set fs) \<in> hx_index ` set fs" by (rule Max_in)
  then obtain f where f: "f \<in> set fs" "hx_index f = Max (hx_index ` set fs)" by auto
  have top: "hx_index h \<le> hx_index f" if "h \<in> set fs" for h using that by (simp add: f(2))
  obtain i where i: "i < length items" "f = hs ! i" using assms(1,2) f(1)
    by (metis filter_is_subset in_set_conv_nth length_chart_hexes subsetD)
  have "hx_group f \<noteq> hx_group h" if "all_features hs (hx_neighbors f ! 1) = Some h" for h
  proof
    assume g: "hx_group f = hx_group h"
    have "int i = int (i div ?rows) * int ?rows + int (i mod ?rows)"
      by (metis div_mult_mod_eq of_nat_add of_nat_mult)
    then have "(int (i div ?rows) + 1) * int ?rows + int (i mod ?rows) = int (i + ?rows)"
      by (simp add: algebra_simps)
    then have n: "hx_neighbors f ! 1 = int (i + ?rows)"
      using neighbors_values(2) [OF chart_rows_ge, of i "length items"] idx [OF i(1)] i(2) by simp
    from that have k: "i + ?rows < length items" "h = hs ! (i + ?rows)"
      unfolding n all_features_def by (auto simp: assms(1) simp del: of_nat_add split: if_splits)
    have "h \<in> set fs" using g f(1) k assms(1,2) by simp
    then have "hx_index h \<le> i" using top idx [OF i(1)] i(2) by auto
    then show False using idx [OF k(1)] k(2) chart_rows_ge [of "length items"] by simp
  qed
  then have "outer_sides hs f \<noteq> []"
    unfolding outer_sides_def map_is_Nil_conv filter_empty_conv by (auto intro!: bexI [of _ 1] split: option.splits)
  with f(1) show ?thesis by (auto simp: group_sides_def)
qed

lemma border_of_group:
  assumes "hs = chart_hexes items" "(g, fs) \<in> set (features_by_group hs)"
  shows "\<exists>ps. computeBorder fs hs = Some ps \<and> length ps > 1 \<and> linked {s. outline hs g s} ps"
proof -
  from assms(2) have fs: "fs = filter (\<lambda>h. hx_group h = g) hs" "fs \<noteq> []" unfolding features_of_group by blast+
  define segs where "segs = group_sides hs fs"
  then have "segs \<noteq> []" using group_has_side [OF assms(1) fs] by simp
  then obtain first rest where segs: "segs = first # rest" by (cases segs) auto
  have ok: "linked (set segs) (border_loop first segs (by_point segs) False None first [fst first]) \<and>
      length [fst first] < length (border_loop first segs (by_point segs) False None first [fst first])"
    by (rule border_loop_linked [OF filed_by_point])
      (simp_all add: segs linked_def entry_point_def)
  have "set segs \<subseteq> {s. outline hs g s}"
    using outer_sides_outline [OF _ _ assms(1)] unfolding segs_def group_sides_def fs(1) by fastforce
  then have "linked {s. outline hs g s} ps" if "linked (set segs) ps" for ps
    using successively_mono [OF that [unfolded linked_def], of "\<lambda>p q. (p, q) \<in> {s. outline hs g s} \<or> (q, p) \<in> {s. outline hs g s}"]
    unfolding linked_def by blast
  with ok have "linked {s. outline hs g s} (border_loop first segs (by_point segs) False None first [fst first])" by blast
  moreover have "computeBorder fs hs = Some (border_loop first segs (by_point segs) False None first [fst first])"
    unfolding computeBorder_def Let_def segs_def [symmetric] by (simp add: segs)
  ultimately show ?thesis using ok by simp
qed

lemma borders_collected:
  assumes "\<forall>(g, fs) \<in> set groups. \<exists>ps. computeBorder fs hs = Some ps \<and> P g ps" "\<forall>(g, ps) \<in> set acc. P g ps"
  shows "\<exists>bs. foldM (\<lambda>(g, fs) acc. map_option (\<lambda>ps. acc @ [(g, ps)]) (computeBorder fs hs)) groups acc = Some bs \<and>
    map fst bs = map fst acc @ map fst groups \<and> (\<forall>(g, ps) \<in> set bs. P g ps)"
  using assms
proof (induction groups arbitrary: acc)
  case (Cons x groups)
  obtain g fs where x: "x = (g, fs)" by fastforce
  with Cons.prems(1) obtain ps where ps: "computeBorder fs hs = Some ps" "P g ps" by auto
  have "\<exists>bs. foldM (\<lambda>(g, fs) acc. map_option (\<lambda>ps. acc @ [(g, ps)]) (computeBorder fs hs)) groups (acc @ [(g, ps)]) = Some bs \<and>
      map fst bs = map fst (acc @ [(g, ps)]) @ map fst groups \<and> (\<forall>(g, ps) \<in> set bs. P g ps)"
    by (rule Cons.IH) (use Cons.prems ps in auto)
  then show ?case by (simp add: x ps)
qed simp

section \<open>The chart is drawn\<close>

text \<open>C32: the chart is drawn for every list of items, with one border per group as soon as there are several.
  A border has at least two points, and two consecutive points of it are always the ends of a side which one
  hexagon of the group has and no other hexagon of the group shares: no border runs through its group.\<close>

theorem chart_borders_outline:
  "\<exists>c. renderHexChart items = Some c \<and>
    (1 < length (ch_features c) \<longrightarrow> map fst (ch_borders c) = map fst (features_by_group (chart_hexes items))) \<and>
    (\<forall>(g, ps) \<in> set (ch_borders c). length ps > 1 \<and> linked {s. outline (chart_hexes items) g s} ps)"
proof -
  define hs where "hs = chart_hexes items"
  have "\<forall>(g, fs) \<in> set (features_by_group hs). \<exists>ps. computeBorder fs hs = Some ps \<and>
      (length ps > 1 \<and> linked {s. outline hs g s} ps)"
    using border_of_group [OF hs_def] by blast
  from borders_collected [OF this, of "[]"] obtain bs where
    bs: "foldM (\<lambda>(g, fs) acc. map_option (\<lambda>ps. acc @ [(g, ps)]) (computeBorder fs hs)) (features_by_group hs) [] = Some bs"
      "map fst bs = map fst (features_by_group hs)"
      "\<forall>(g, ps) \<in> set bs. length ps > 1 \<and> linked {s. outline hs g s} ps"
    by auto
  then have "length bs = length (features_by_group hs)" by (metis length_map)
  with bs show ?thesis by (simp add: renderHexChart_def hs_def [symmetric] Let_def)
qed

definition two_zones :: "chart_item list" where
  "two_zones = [\<lparr>ci_group = ''a'', ci_label = [], ci_classes = []\<rparr>, \<lparr>ci_group = ''b'', ci_label = ''x'', ci_classes = [''ok'']\<rparr>]"

lemma chart_borders_outline_witness:
  "\<exists>c. renderHexChart two_zones = Some c \<and> map fst (ch_borders c) = [''a'', ''b''] \<and>
    (\<forall>(g, ps) \<in> set (ch_borders c). length ps > 1 \<and> linked {s. outline (chart_hexes two_zones) g s} ps)"
proof -
  have two: "map fst (features_by_group (chart_hexes two_zones)) = [''a'', ''b'']" by code_simp
  obtain c where c: "renderHexChart two_zones = Some c"
    "1 < length (ch_features c) \<longrightarrow> map fst (ch_borders c) = map fst (features_by_group (chart_hexes two_zones))"
    "\<forall>(g, ps) \<in> set (ch_borders c). length ps > 1 \<and> linked {s. outline (chart_hexes two_zones) g s} ps"
    using chart_borders_outline [of two_zones] by blast
  from c(1) have "ch_features c = features_by_group (chart_hexes two_zones)"
    by (auto simp: renderHexChart_def Let_def bind_eq_Some_conv)
  moreover have "length (features_by_group (chart_hexes two_zones)) = 2" using arg_cong [OF two, of length] by simp
  ultimately have "map fst (ch_borders c) = [''a'', ''b'']" using c(2) two by simp
  with c(1,3) show ?thesis by (intro exI conjI)
qed

end
