(* ===== verification/Terminal.thy ===== *)
theory Terminal
  imports Complex_Main Base64 Links Slices
begin

text \<open>
  The terminal of a container: \<^verbatim>\<open>src/components/TerminalViewer.js\<close> and the wrapper of the
  terminal emulator, \<^verbatim>\<open>src/components/xterm/XTerm.js\<close>. The emulator is the sequence of calls it
  receives. Texts are held as their UTF-8 bytes, which is what travels through the socket.
\<close>

section \<open>Texts as bytes: what the code uses of the standard library\<close>

definition bytes :: "string \<Rightarrow> nat list" where
  "bytes s = map of_char s"

definition chars :: "nat list \<Rightarrow> string" where
  "chars bs = map char_of bs"

text \<open>The continuation bytes after a first byte, and the range of the first of them.\<close>

definition utf8_lead :: "nat \<Rightarrow> (nat \<times> nat \<times> nat) option" where
  "utf8_lead b =
     (if b < 128 then Some (0, 0, 0)
      else if 194 \<le> b \<and> b \<le> 223 then Some (1, 128, 191)
      else if b = 224 then Some (2, 160, 191)
      else if b = 237 then Some (2, 128, 159)
      else if 225 \<le> b \<and> b \<le> 239 then Some (2, 128, 191)
      else if b = 240 then Some (3, 144, 191)
      else if 241 \<le> b \<and> b \<le> 243 then Some (3, 128, 191)
      else if b = 244 then Some (3, 128, 143)
      else None)"

function utf8_ok :: "nat list \<Rightarrow> bool" where
  "utf8_ok [] = True"
| "utf8_ok (b # bs) =
     (case utf8_lead b of
        None \<Rightarrow> False
      | Some (n, lo, hi) \<Rightarrow>
          (n = 0 \<or> n \<le> length bs \<and> lo \<le> hd bs \<and> hd bs \<le> hi \<and> list_all (\<lambda>c. 128 \<le> c \<and> c \<le> 191) (take n bs))
          \<and> utf8_ok (drop n bs))"
  by pat_completeness auto
termination by (relation "measure length") auto

text \<open>\<^verbatim>\<open>atob\<close>: padding is optional, other characters throw.\<close>

definition atob :: "string \<Rightarrow> nat list option" where
  "atob s =
     (let t = (if length s mod 4 = 0 then (if ends_with ''=='' s then take (length s - 2) s
                 else if ends_with ''='' s then take (length s - 1) s else s) else s)
      in if length t mod 4 = 1 \<or> list_ex (\<lambda>c. c = CHR ''='' \<or> \<not> in_alphabet c) t then None
         else if t = [] then Some []
         else Some (decode_loop (t @ replicate ((4 - length t mod 4) mod 4) CHR ''='')))"

definition btoa :: "nat list \<Rightarrow> string" where
  "btoa bs = encodeBase64 bs"

text \<open>The object \<^verbatim>\<open>base64\<close> of the module; decoding what is not UTF-8 throws.\<close>

definition base64_toString :: "string \<Rightarrow> string option" where
  "base64_toString encoded = do { bs \<leftarrow> atob encoded; if utf8_ok bs then Some (chars bs) else None }"

definition base64_fromString :: "string \<Rightarrow> string" where
  "base64_fromString str = btoa (bytes str)"

text \<open>Percent encoding of the bytes that are not unreserved\<close>

definition unreserved :: "char \<Rightarrow> bool" where
  "unreserved c \<longleftrightarrow> (let n = of_char c :: nat in
     65 \<le> n \<and> n \<le> 90 \<or> 97 \<le> n \<and> n \<le> 122 \<or> 48 \<le> n \<and> n \<le> 57) \<or> c \<in> set ''-_.!~*()'' \<or> c = CHR 0x27"

definition hex_char :: "nat \<Rightarrow> char" where
  "hex_char n = ''0123456789ABCDEF'' ! n"

definition encodeURIComponent :: "string \<Rightarrow> string" where
  "encodeURIComponent s =
     concat (map (\<lambda>c. if unreserved c then [c] else [CHR ''%'', hex_char (of_char c div 16), hex_char (of_char c mod 16)]) s)"

function percent_bytes :: "string \<Rightarrow> nat list option" where
  "percent_bytes [] = Some []"
| "percent_bytes (c # s) =
     (if c = CHR ''%''
      then (if length s < 2 then None
            else do { b \<leftarrow> hex_number (bytes (take 2 s)); bs \<leftarrow> percent_bytes (drop 2 s); Some (b # bs) })
      else do { bs \<leftarrow> percent_bytes s; Some (of_char c # bs) })"
  by pat_completeness auto
termination by (relation "measure length") auto

definition decodeURIComponent :: "string \<Rightarrow> string option" where
  "decodeURIComponent s = do { bs \<leftarrow> percent_bytes s; if utf8_ok bs then Some (chars bs) else None }"

section \<open>The wrapper of the emulator\<close>

datatype xcall = Write string | Writeln string | Focus | Resize nat nat

text \<open>\<open>xt_calls\<close> is \<^term>\<open>None\<close> while there is no emulator; texts then wait in the buffer.\<close>

record xterm =
  xt_calls :: "xcall list option"
  xt_tempBuffer :: "string option"
  xt_isFocused :: bool

definition new_xterm :: xterm where
  "new_xterm = \<lparr>xt_calls = None, xt_tempBuffer = None, xt_isFocused = False\<rparr>"

definition or_empty :: "string option \<Rightarrow> string" where
  "or_empty t = (case t of Some s \<Rightarrow> s | None \<Rightarrow> [])"

definition xterm_write :: "string \<Rightarrow> xterm \<Rightarrow> xterm" where
  "xterm_write data x =
     (case xt_calls x of
        Some cs \<Rightarrow> x\<lparr>xt_calls := Some (cs @ [Write data])\<rparr>
      | None \<Rightarrow> x\<lparr>xt_tempBuffer := Some (or_empty (xt_tempBuffer x) @ data)\<rparr>)"

definition xterm_writeln :: "string \<Rightarrow> xterm \<Rightarrow> xterm" where
  "xterm_writeln data x =
     (case xt_calls x of
        Some cs \<Rightarrow> x\<lparr>xt_calls := Some (cs @ [Writeln data])\<rparr>
      | None \<Rightarrow> x\<lparr>xt_tempBuffer := Some (or_empty (xt_tempBuffer x) @ data @ [CHR 0x0A])\<rparr>)"

definition xterm_focus :: "xterm \<Rightarrow> xterm" where
  "xterm_focus x = (case xt_calls x of Some cs \<Rightarrow> x\<lparr>xt_calls := Some (cs @ [Focus])\<rparr> | None \<Rightarrow> x)"

text \<open>
  The size that fits: the available pixels and the size of a character. A width or height that is not a
  number, or a character without extent, gives no finite size.
\<close>

definition cells :: "int option \<Rightarrow> int option \<Rightarrow> rat \<Rightarrow> int option" where
  "cells avail padding unit1 =
     (case (avail, padding) of (Some t, Some p) \<Rightarrow> if unit1 = 0 then None else Some \<lceil>of_int (t - p) / unit1\<rceil> | _ \<Rightarrow> None)"

definition proposeGeometry ::
  "int option \<Rightarrow> int option \<Rightarrow> int option \<Rightarrow> int option \<Rightarrow> rat \<Rightarrow> rat \<Rightarrow> int option \<times> int option" where
  "proposeGeometry height width paddingVer paddingHor characterWidth characterHeight =
     (cells (map_option (\<lambda>w. max 0 (w - 17)) width) paddingHor characterWidth, cells height paddingVer characterHeight)"

text \<open>Without an emulator \<^verbatim>\<open>fit\<close> throws.\<close>

definition xterm_fit :: "nat \<Rightarrow> int option \<times> int option \<Rightarrow> xterm \<Rightarrow> xterm option" where
  "xterm_fit props_cols geometry x = do {
     cs \<leftarrow> xt_calls x;
     Some (case geometry of
         (Some cols, Some rows) \<Rightarrow>
           x\<lparr>xt_calls := Some (cs @ [Resize (if props_cols \<noteq> 0 then props_cols else nat cols) (nat rows)])\<rparr>
       | _ \<Rightarrow> x)
   }"

definition focusChanged :: "bool \<Rightarrow> xterm \<Rightarrow> xterm" where
  "focusChanged focused x = x\<lparr>xt_isFocused := focused\<rparr>"

definition componentDidMount_xterm :: "string \<Rightarrow> xterm \<Rightarrow> xterm" where
  "componentDidMount_xterm value1 x =
     (let x1 = x\<lparr>xt_calls := Some []\<rparr>;
          x2 = (if value1 \<noteq> [] then xterm_write value1 x1 else x1)
      in case xt_tempBuffer x2 of
           Some (c # s) \<Rightarrow> (xterm_write (c # s) x2)\<lparr>xt_tempBuffer := None\<rparr>
         | _ \<Rightarrow> x2)"

definition componentWillUnmount_xterm :: "xterm \<Rightarrow> xterm" where
  "componentWillUnmount_xterm x = x\<lparr>xt_calls := None\<rparr>"

text \<open>The handler of keys is a plain function: \<open>this1\<close> is what the emulator calls it on.\<close>

definition custom_keys :: "json \<Rightarrow> bool \<Rightarrow> int \<Rightarrow> bool option" where
  "custom_keys this1 ctrlKey keyCode =
     (if ctrlKey \<and> keyCode = 67
      then do { p \<leftarrow> jget this1 ''props''; v \<leftarrow> jget p ''copyOnCtrlC''; Some (\<not> truthy v) }
      else if ctrlKey \<and> keyCode = 86
      then do { p \<leftarrow> jget this1 ''props''; v \<leftarrow> jget p ''pasteOnCtrlV''; Some (\<not> truthy v) }
      else Some True)"

section \<open>The viewer\<close>

datatype ready_state = Connecting | Open | Closing | Closed

text \<open>
  A socket the viewer has opened. \<open>so_attached\<close>: \<^verbatim>\<open>onerror\<close> and \<^verbatim>\<open>onmessage\<close> are still set;
  \<^verbatim>\<open>onopen\<close> and \<^verbatim>\<open>onclose\<close> always are.
\<close>

record tsocket =
  so_url :: string
  so_container :: string
  so_ready :: ready_state
  so_attached :: bool
  so_sent :: "string list"

text \<open>
  The viewer with the emulator below it. \<open>tv_sockets\<close> are all sockets ever opened, \<open>tv_socket\<close> is
  \<^verbatim>\<open>this.socket\<close>; \<open>tv_selected\<close> is the container in the state, undefined or null as \<^term>\<open>None\<close>;
  \<open>tv_term\<close>: the reference to the emulator has been taken. \<open>tv_chosen\<close> is the slice that supplies the
  selected container, \<open>tv_reported\<close> the containers of the errors reported.
\<close>

record terminal_viewer =
  tv_containerOpen :: bool
  tv_maxLines :: int
  tv_terminalOpen :: bool
  tv_selected :: "string option"
  tv_sockets :: "tsocket list"
  tv_socket :: "nat option"
  tv_term :: bool
  tv_tempBuffer :: "string option"
  tv_xterm :: xterm
  tv_chosen :: terminal_state
  tv_reported :: "string list"

definition new_terminal :: "int \<Rightarrow> terminal_state \<Rightarrow> terminal_viewer" where
  "new_terminal maxLines chosen =
     \<lparr>tv_containerOpen = False, tv_maxLines = (if maxLines = 0 then 1500 else maxLines), tv_terminalOpen = False,
      tv_selected = None, tv_sockets = [], tv_socket = None, tv_term = False, tv_tempBuffer = None,
      tv_xterm = new_xterm, tv_chosen = chosen, tv_reported = []\<rparr>"

text \<open>The property \<^verbatim>\<open>selectedContainer\<close>, with its default\<close>

definition chosen_container :: "terminal_viewer \<Rightarrow> string" where
  "chosen_container tv = or_empty (te_podContainer (tv_chosen tv))"

definition upd_socket :: "nat \<Rightarrow> (tsocket \<Rightarrow> tsocket) \<Rightarrow> terminal_viewer \<Rightarrow> terminal_viewer" where
  "upd_socket i f tv = (if i < length (tv_sockets tv) then tv\<lparr>tv_sockets := (tv_sockets tv)[i := f (tv_sockets tv ! i)]\<rparr> else tv)"

definition socket_ready :: "terminal_viewer \<Rightarrow> bool" where
  "socket_ready tv = (case tv_socket tv of Some i \<Rightarrow> so_ready (tv_sockets tv ! i) = Open | None \<Rightarrow> False)"

definition close_socket :: "tsocket \<Rightarrow> tsocket" where
  "close_socket so = so\<lparr>so_ready := (if so_ready so \<in> {Connecting, Open} then Closing else so_ready so), so_attached := False\<rparr>"

definition destroy_terminal :: "terminal_viewer \<Rightarrow> terminal_viewer" where
  "destroy_terminal tv = (case tv_socket tv of Some i \<Rightarrow> upd_socket i close_socket tv | None \<Rightarrow> tv)"

definition closeTerminal :: "terminal_viewer \<Rightarrow> terminal_viewer" where
  "closeTerminal tv = (destroy_terminal tv)\<lparr>tv_terminalOpen := False\<rparr>"

text \<open>The arguments of the command: the property \<^verbatim>\<open>command\<close>, or a shell that runs what was typed.\<close>

definition command_args :: "json \<Rightarrow> string \<Rightarrow> string list option" where
  "command_args command typed =
     (let commandString = (if typed = [] then ''/bin/sh'' else typed)
      in if \<not> truthy command then Some [''/bin/sh'', ''-i'', ''-c'', ''TERM=xterm-256color '' @ commandString]
         else case command of JStr s \<Rightarrow> Some [s] | _ \<Rightarrow> map_option (map to_str) (iter_of command))"

definition exec_url :: "string \<Rightarrow> string \<Rightarrow> string \<Rightarrow> string \<Rightarrow> string list \<Rightarrow> string" where
  "exec_url protocol host namespace podContainer args =
     (let parts = split_on (CHR ''/'') podContainer;
          pod = parts ! 0;
          container = (if length parts > 1 then parts ! 1 else ''undefined'')
      in (if protocol = ''https:'' then ''wss'' else ''ws'') @ ''://'' @ host
         @ ''/proxy/api/v1/namespaces/'' @ namespace @ ''/pods/'' @ pod
         @ ''/exec?container='' @ container
         @ ''&tty=1&stdout=1&stderr=1&stdin=1''
         @ concat (map (\<lambda>arg. ''&command='' @ encodeURIComponent arg) args))"

text \<open>
  \<open>env\<close> are the protocol and host of the page and the property \<^verbatim>\<open>command\<close>. Where reading the resource or
  the command throws, the old socket has been closed already.
\<close>

definition openTerminal :: "string \<times> string \<times> json \<Rightarrow> string \<Rightarrow> json \<Rightarrow> terminal_viewer \<Rightarrow> terminal_viewer" where
  "openTerminal env typed resource tv =
     (case env of (protocol, host, command) \<Rightarrow>
      if tv_selected tv = Some (chosen_container tv) then tv
      else (let tv1 = destroy_terminal tv
            in case do { m \<leftarrow> jget resource ''metadata''; ns \<leftarrow> jget m ''namespace'';
                         args \<leftarrow> command_args command typed; Some (ns, args) } of
                 None \<Rightarrow> tv1
               | Some (ns, args) \<Rightarrow>
                   tv1\<lparr>tv_sockets := tv_sockets tv1 @
                         [\<lparr>so_url = exec_url protocol host (to_str ns) (chosen_container tv) args,
                           so_container = chosen_container tv, so_ready = Connecting, so_attached = True, so_sent = []\<rparr>],
                       tv_socket := Some (length (tv_sockets tv1))\<rparr>))"

text \<open>What the sockets report\<close>

definition onopen_terminal :: "nat \<Rightarrow> terminal_viewer \<Rightarrow> terminal_viewer" where
  "onopen_terminal i tv =
     (if i < length (tv_sockets tv) \<and> so_ready (tv_sockets tv ! i) = Connecting
      then (upd_socket i (\<lambda>so. so\<lparr>so_ready := Open\<rparr>) tv)
             \<lparr>tv_selected := Some (so_container (tv_sockets tv ! i)), tv_terminalOpen := True\<rparr>
      else tv)"

definition onclose_terminal :: "nat \<Rightarrow> terminal_viewer \<Rightarrow> terminal_viewer" where
  "onclose_terminal i tv =
     (if i < length (tv_sockets tv) \<and> so_ready (tv_sockets tv ! i) \<noteq> Closed
      then (upd_socket i (\<lambda>so. so\<lparr>so_ready := Closed\<rparr>) tv)\<lparr>tv_selected := None, tv_terminalOpen := False\<rparr>
      else tv)"

definition onerror_terminal :: "nat \<Rightarrow> terminal_viewer \<Rightarrow> terminal_viewer" where
  "onerror_terminal i tv =
     (if i < length (tv_sockets tv) \<and> so_attached (tv_sockets tv ! i)
      then tv\<lparr>tv_reported := tv_reported tv @ [so_container (tv_sockets tv ! i)]\<rparr> else tv)"

text \<open>The text of a message: the first character is the channel. \<^term>\<open>None\<close> when decoding throws or nothing is to be shown.\<close>

definition message_text :: "string \<Rightarrow> string option" where
  "message_text data =
     (case data of [] \<Rightarrow> None
      | channel # rest \<Rightarrow> if channel \<in> set ''123'' then base64_toString rest else None)"

definition onEvent_terminal :: "string \<Rightarrow> terminal_viewer \<Rightarrow> terminal_viewer" where
  "onEvent_terminal data tv =
     (case message_text data of
        None \<Rightarrow> tv
      | Some line \<Rightarrow>
          if tv_term tv
          then (let tv1 = (if or_empty (tv_tempBuffer tv) \<noteq> []
                           then tv\<lparr>tv_xterm := xterm_write (or_empty (tv_tempBuffer tv)) (tv_xterm tv), tv_tempBuffer := None\<rparr>
                           else tv)
                in tv1\<lparr>tv_xterm := xterm_write line (tv_xterm tv1)\<rparr>)
          else tv\<lparr>tv_tempBuffer := Some (or_empty (tv_tempBuffer tv) @ line)\<rparr>)"

definition onmessage_terminal :: "nat \<Rightarrow> string \<Rightarrow> terminal_viewer \<Rightarrow> terminal_viewer" where
  "onmessage_terminal i data tv =
     (if i < length (tv_sockets tv) \<and> so_ready (tv_sockets tv ! i) = Open \<and> so_attached (tv_sockets tv ! i)
      then onEvent_terminal data tv else tv)"

definition onInput :: "string \<Rightarrow> terminal_viewer \<Rightarrow> terminal_viewer" where
  "onInput data tv =
     (case tv_socket tv of
        Some i \<Rightarrow> if socket_ready tv
                  then upd_socket i (\<lambda>so. so\<lparr>so_sent := so_sent so @ [CHR ''0'' # base64_fromString data]\<rparr>) tv else tv
      | None \<Rightarrow> tv)"

text \<open>The reference to the emulator is taken once; \<open>geometry\<close> is what it proposes then.\<close>

definition take_ref :: "int option \<times> int option \<Rightarrow> terminal_viewer \<Rightarrow> terminal_viewer option" where
  "take_ref geometry tv =
     (if tv_term tv then Some tv
      else do {
        let x = (if or_empty (tv_tempBuffer tv) \<noteq> [] then xterm_write (or_empty (tv_tempBuffer tv)) (tv_xterm tv) else tv_xterm tv);
        let t = (if or_empty (tv_tempBuffer tv) \<noteq> [] then None else tv_tempBuffer tv);
        x1 \<leftarrow> xterm_fit 0 geometry x;
        Some (tv\<lparr>tv_term := True, tv_tempBuffer := t,
                 tv_xterm := (if tv_terminalOpen tv \<and> socket_ready tv then xterm_focus x1 else x1)\<rparr>)
      })"

definition componentDidUpdate_terminal :: "int option \<times> int option \<Rightarrow> terminal_viewer \<Rightarrow> terminal_viewer option" where
  "componentDidUpdate_terminal geometry tv =
     (if tv_term tv
      then map_option (\<lambda>x. tv\<lparr>tv_xterm := x\<rparr>)
             (xterm_fit 0 geometry (if tv_terminalOpen tv \<and> socket_ready tv then xterm_focus (tv_xterm tv) else tv_xterm tv))
      else Some tv)"

definition handleExec :: "string \<times> string \<times> json \<Rightarrow> string \<Rightarrow> json \<Rightarrow> bool \<Rightarrow> terminal_viewer \<Rightarrow> terminal_viewer" where
  "handleExec env typed resource open1 tv =
     (if open1 then (if \<not> tv_terminalOpen tv then openTerminal env typed resource tv else tv) else closeTerminal tv)"

definition handleMenuSelection_terminal :: "string \<Rightarrow> terminal_viewer \<Rightarrow> terminal_viewer" where
  "handleMenuSelection_terminal value1 tv = tv\<lparr>tv_chosen := terminal_reducer (SelectTerminalFor value1) (tv_chosen tv)\<rparr>"

definition handleTouchTap_terminal :: "terminal_viewer \<Rightarrow> terminal_viewer" where
  "handleTouchTap_terminal tv = tv\<lparr>tv_containerOpen := True\<rparr>"

definition handleRequestClose_terminal :: "terminal_viewer \<Rightarrow> terminal_viewer" where
  "handleRequestClose_terminal tv = tv\<lparr>tv_containerOpen := False\<rparr>"

text \<open>What is on the screen besides the emulator\<close>

record container_item =
  it_value :: string
  it_text :: string
  it_checked :: bool

definition container_items :: "(string \<Rightarrow> bool) \<Rightarrow> string \<Rightarrow> string \<Rightarrow> json \<Rightarrow> container_item list option" where
  "container_items checked podName suffix containers = do {
     cs \<leftarrow> iter_of containers;
     foldM (\<lambda>c items. map_option (\<lambda>n.
         let name = podName @ ''/'' @ to_str n
         in items @ [\<lparr>it_value = name, it_text = name @ suffix, it_checked = checked name\<rparr>]) (jget c ''name'')) cs []
   }"

definition pod_items :: "(string \<Rightarrow> bool) \<Rightarrow> string \<times> json \<Rightarrow> container_item list option" where
  "pod_items checked entry =
     (case entry of (podName, pod) \<Rightarrow>
      if \<not> truthy pod then Some []
      else do {
        spec \<leftarrow> jget pod ''spec'';
        ics \<leftarrow> jget spec ''initContainers'';
        inits \<leftarrow> (if truthy ics then container_items checked podName '' (init)'' ics else Some []);
        cs \<leftarrow> jget spec ''containers'';
        rest \<leftarrow> container_items checked podName [] cs;
        Some (inits @ rest)
      })"

definition renderContainerMenuItems :: "json obj \<Rightarrow> terminal_viewer \<Rightarrow> container_item list option" where
  "renderContainerMenuItems pods tv =
     foldM (\<lambda>entry items. map_option ((@) items) (pod_items (\<lambda>name. name = chosen_container tv) entry)) pods []"

record terminal_screen =
  ts_label :: string
  ts_menu :: "container_item list"
  ts_start :: bool
  ts_enabled :: bool

definition render_terminal :: "json obj \<Rightarrow> terminal_viewer \<Rightarrow> terminal_screen option" where
  "render_terminal pods tv = do {
     items \<leftarrow> renderContainerMenuItems pods tv;
     Some \<lparr>ts_label = chosen_container tv, ts_menu = (if tv_containerOpen tv then items else []),
           ts_start = (\<not> tv_terminalOpen tv), ts_enabled = tv_terminalOpen tv\<rparr>
   }"

section \<open>Runs\<close>

text \<open>
  Everything that happens to a viewer until it goes away. A handler that throws leaves the state as it is;
  the start button and the retry of an error both open the terminal.
\<close>

datatype tevent =
    Start string json
  | Retry string json
  | Choose string
  | SocketOpens nat
  | SocketCloses nat
  | SocketFails nat
  | SocketMessage nat string
  | Input string
  | Mounted "int option \<times> int option"
  | Updated "int option \<times> int option"
  | MenuOpens
  | MenuCloses

definition settle_terminal :: "terminal_viewer \<Rightarrow> terminal_viewer option \<Rightarrow> terminal_viewer" where
  "settle_terminal tv r = (case r of Some tv1 \<Rightarrow> tv1 | None \<Rightarrow> tv)"

fun terminal_step :: "string \<times> string \<times> json \<Rightarrow> tevent \<Rightarrow> terminal_viewer \<Rightarrow> terminal_viewer" where
  "terminal_step env (Start typed resource) tv = handleExec env typed resource (\<not> tv_terminalOpen tv) tv"
| "terminal_step env (Retry typed resource) tv = openTerminal env typed resource tv"
| "terminal_step env (Choose v) tv = handleMenuSelection_terminal v tv"
| "terminal_step env (SocketOpens i) tv = onopen_terminal i tv"
| "terminal_step env (SocketCloses i) tv = onclose_terminal i tv"
| "terminal_step env (SocketFails i) tv = onerror_terminal i tv"
| "terminal_step env (SocketMessage i data) tv = onmessage_terminal i data tv"
| "terminal_step env (Input data) tv = onInput data tv"
| "terminal_step env (Mounted g) tv =
     (if xt_calls (tv_xterm tv) = None
      then settle_terminal tv (take_ref g (tv\<lparr>tv_xterm := componentDidMount_xterm [] (tv_xterm tv)\<rparr>)) else tv)"
| "terminal_step env (Updated g) tv = settle_terminal tv (componentDidUpdate_terminal g tv)"
| "terminal_step env MenuOpens tv = handleTouchTap_terminal tv"
| "terminal_step env MenuCloses tv = handleRequestClose_terminal tv"

section \<open>Only the current socket is heard\<close>

definition alive_or_detached :: "tsocket \<Rightarrow> bool" where
  "alive_or_detached so \<longleftrightarrow> so_attached so \<or> so_ready so = Closing \<or> so_ready so = Closed"

definition sockets_ok :: "terminal_viewer \<Rightarrow> bool" where
  "sockets_ok tv \<longleftrightarrow> (\<forall>i. tv_socket tv = Some i \<longrightarrow> i < length (tv_sockets tv)) \<and>
     (\<forall>k < length (tv_sockets tv). alive_or_detached (tv_sockets tv ! k) \<and>
        (so_attached (tv_sockets tv ! k) \<longrightarrow> tv_socket tv = Some k))"

lemma upd_socket_simps [simp]:
  "tv_socket (upd_socket i f tv) = tv_socket tv" "length (tv_sockets (upd_socket i f tv)) = length (tv_sockets tv)"
  "tv_selected (upd_socket i f tv) = tv_selected tv" "tv_term (upd_socket i f tv) = tv_term tv"
  "tv_tempBuffer (upd_socket i f tv) = tv_tempBuffer tv" "tv_xterm (upd_socket i f tv) = tv_xterm tv"
  "tv_chosen (upd_socket i f tv) = tv_chosen tv"
  by (simp_all add: upd_socket_def)

lemma sockets_ok_cong:
  "tv_socket tv1 = tv_socket tv \<Longrightarrow> tv_sockets tv1 = tv_sockets tv \<Longrightarrow> sockets_ok tv1 = sockets_ok tv"
  by (simp add: sockets_ok_def)

lemma sockets_ok_upd:
  assumes "sockets_ok tv"
    and "\<And>so. alive_or_detached so \<Longrightarrow> alive_or_detached (f so)"
    and "\<And>so. so_attached (f so) \<Longrightarrow> so_attached so"
  shows "sockets_ok (upd_socket i f tv)"
proof (cases "i < length (tv_sockets tv)")
  case True
  then have n: "tv_sockets (upd_socket i f tv) ! k = (if k = i then f (tv_sockets tv ! k) else tv_sockets tv ! k)" for k
    by (simp add: upd_socket_def nth_list_update)
  show ?thesis unfolding sockets_ok_def n upd_socket_simps
  proof (intro conjI allI impI)
    fix k assume k: "k < length (tv_sockets tv)"
    then have a: "alive_or_detached (tv_sockets tv ! k)" "so_attached (tv_sockets tv ! k) \<Longrightarrow> tv_socket tv = Some k"
      using assms(1) unfolding sockets_ok_def by blast+
    show "alive_or_detached (if k = i then f (tv_sockets tv ! k) else tv_sockets tv ! k)"
      using a(1) assms(2) by (cases "k = i") simp_all
    show "tv_socket tv = Some k" if "so_attached (if k = i then f (tv_sockets tv ! k) else tv_sockets tv ! k)"
      using a(2) that assms(3) [of "tv_sockets tv ! k"] by (simp split: if_splits)
  next
    show "j < length (tv_sockets tv)" if "tv_socket tv = Some j" for j
      using assms(1) that unfolding sockets_ok_def by blast
  qed
next
  case False
  with assms(1) show ?thesis by (simp add: upd_socket_def)
qed

lemma closed_alive: "alive_or_detached (close_socket so)" "\<not> so_attached (close_socket so)"
  by (cases "so_ready so"; simp add: alive_or_detached_def close_socket_def)+

lemma destroy_detaches:
  assumes "sockets_ok tv"
  shows "sockets_ok (destroy_terminal tv)" "\<forall>so \<in> set (tv_sockets (destroy_terminal tv)). \<not> so_attached so"
proof -
  show "sockets_ok (destroy_terminal tv)"
    using assms sockets_ok_upd [OF assms, of close_socket] unfolding destroy_terminal_def
    by (cases "tv_socket tv") (simp_all add: closed_alive)
  have "\<not> so_attached (tv_sockets (destroy_terminal tv) ! k)" if "k < length (tv_sockets tv)" for k
    using assms that unfolding destroy_terminal_def sockets_ok_def
    by (cases "tv_socket tv") (auto simp: upd_socket_def close_socket_def nth_list_update)
  moreover have "length (tv_sockets (destroy_terminal tv)) = length (tv_sockets tv)"
    by (simp add: destroy_terminal_def split: option.splits)
  ultimately show "\<forall>so \<in> set (tv_sockets (destroy_terminal tv)). \<not> so_attached so" by (metis in_set_conv_nth)
qed

lemma sockets_ok_new: "sockets_ok (new_terminal m chosen)"
  by (simp add: sockets_ok_def new_terminal_def)

lemma sockets_ok_open:
  assumes "sockets_ok tv"
  shows "sockets_ok (openTerminal env typed resource tv)"
proof -
  note d = destroy_detaches [OF assms]
  have new: "sockets_ok (destroy_terminal tv\<lparr>tv_sockets := tv_sockets (destroy_terminal tv) @ [so],
      tv_socket := Some (length (tv_sockets (destroy_terminal tv)))\<rparr>)" if "so_attached so" for so
    using d that unfolding sockets_ok_def by (auto simp: nth_append less_Suc_eq alive_or_detached_def)
  show ?thesis
    using assms d(1) new unfolding openTerminal_def Let_def by (auto split: prod.splits option.splits)
qed

lemma sockets_ok_onmessage: "sockets_ok tv \<Longrightarrow> sockets_ok (onmessage_terminal i data tv)"
  by (rule sockets_ok_cong [THEN iffD2])
    (auto simp: onmessage_terminal_def onEvent_terminal_def Let_def split: option.splits)

lemma sockets_ok_settle:
  "(\<And>tv1. r = Some tv1 \<Longrightarrow> tv_socket tv1 = tv_socket tv \<and> tv_sockets tv1 = tv_sockets tv) \<Longrightarrow>
   sockets_ok (settle_terminal tv r) = sockets_ok tv"
  unfolding settle_terminal_def by (cases r; simp only: option.case; intro refl sockets_ok_cong; blast)

lemma take_ref_sockets: "take_ref g tv = Some tv1 \<Longrightarrow> tv_socket tv1 = tv_socket tv \<and> tv_sockets tv1 = tv_sockets tv"
  by (auto simp: take_ref_def Let_def bind_eq_Some_conv split: if_splits)

lemma didUpdate_sockets:
  "componentDidUpdate_terminal g tv = Some tv1 \<Longrightarrow> tv_socket tv1 = tv_socket tv \<and> tv_sockets tv1 = tv_sockets tv"
  by (auto simp: componentDidUpdate_terminal_def split: if_splits)

lemma sockets_ok_step:
  assumes ok: "sockets_ok tv"
  shows "sockets_ok (terminal_step env e tv)"
proof (cases e)
  case (Start x11 x12)
  have "sockets_ok (closeTerminal tv)"
    using destroy_detaches(1) [OF ok] by (rule sockets_ok_cong [THEN iffD2, rotated 2]) (simp_all add: closeTerminal_def)
  then show ?thesis using ok sockets_ok_open [OF ok] by (simp add: Start handleExec_def)
next
  case (SocketOpens i)
  have "sockets_ok (onopen_terminal i tv)"
  proof (cases "i < length (tv_sockets tv) \<and> so_ready (tv_sockets tv ! i) = Connecting")
    case True
    then have a: "so_attached (tv_sockets tv ! i)"
      using ok unfolding sockets_ok_def alive_or_detached_def by (metis ready_state.distinct(3,5))
    have "sockets_ok (upd_socket i (\<lambda>so. if so_attached so then so\<lparr>so_ready := Open\<rparr> else so) tv)"
      by (rule sockets_ok_upd [OF ok]) (auto simp: alive_or_detached_def split: if_splits)
    moreover have "upd_socket i (\<lambda>so. if so_attached so then so\<lparr>so_ready := Open\<rparr> else so) tv = upd_socket i (\<lambda>so. so\<lparr>so_ready := Open\<rparr>) tv"
      using a by (simp add: upd_socket_def)
    ultimately have "sockets_ok (upd_socket i (\<lambda>so. so\<lparr>so_ready := Open\<rparr>) tv)" by simp
    then show ?thesis
      by (rule sockets_ok_cong [THEN iffD2, rotated 2]) (simp_all add: onopen_terminal_def True)
  next
    case False
    then show ?thesis using ok unfolding onopen_terminal_def by (simp only: if_False)
  qed
  then show ?thesis by (simp add: SocketOpens)
next
  case (SocketCloses i)
  have "sockets_ok (upd_socket i (\<lambda>so. so\<lparr>so_ready := Closed\<rparr>) tv)"
    by (rule sockets_ok_upd [OF ok]) (simp_all add: alive_or_detached_def)
  then have "sockets_ok ((upd_socket i (\<lambda>so. so\<lparr>so_ready := Closed\<rparr>) tv)\<lparr>tv_selected := None, tv_terminalOpen := False\<rparr>)"
    by (rule sockets_ok_cong [THEN iffD2, rotated 2]) simp_all
  then show ?thesis using ok by (simp add: SocketCloses onclose_terminal_def)
next
  case (Input data)
  have "sockets_ok (upd_socket i (\<lambda>so. so\<lparr>so_sent := so_sent so @ [CHR ''0'' # base64_fromString data]\<rparr>) tv)" for i
    by (rule sockets_ok_upd [OF ok]) (simp_all add: alive_or_detached_def)
  then show ?thesis using ok by (simp add: Input onInput_def split: option.split)
next
  case (Mounted g)
  then show ?thesis
    using ok sockets_ok_settle [of "take_ref g (tv\<lparr>tv_xterm := componentDidMount_xterm [] (tv_xterm tv)\<rparr>)" tv]
      take_ref_sockets [of g "tv\<lparr>tv_xterm := componentDidMount_xterm [] (tv_xterm tv)\<rparr>"] by simp
next
  case (Updated g)
  then show ?thesis using ok sockets_ok_settle [of "componentDidUpdate_terminal g tv" tv] didUpdate_sockets [of g tv] by simp
next
  case (SocketFails i)
  have "sockets_ok (onerror_terminal i tv)"
    using ok by (rule sockets_ok_cong [THEN iffD2, rotated 2]) (simp_all add: onerror_terminal_def)
  then show ?thesis by (simp add: SocketFails)
next
  case (Choose v)
  have "sockets_ok (handleMenuSelection_terminal v tv)"
    using ok by (rule sockets_ok_cong [THEN iffD2, rotated 2]) (simp_all add: handleMenuSelection_terminal_def)
  then show ?thesis by (simp add: Choose)
next
  case MenuOpens
  have "sockets_ok (handleTouchTap_terminal tv)"
    using ok by (rule sockets_ok_cong [THEN iffD2, rotated 2]) (simp_all add: handleTouchTap_terminal_def)
  then show ?thesis by (simp add: MenuOpens)
next
  case MenuCloses
  have "sockets_ok (handleRequestClose_terminal tv)"
    using ok by (rule sockets_ok_cong [THEN iffD2, rotated 2]) (simp_all add: handleRequestClose_terminal_def)
  then show ?thesis by (simp add: MenuCloses)
qed (simp_all add: ok sockets_ok_open sockets_ok_onmessage)

section \<open>The terminal shows what the current socket sends\<close>

fun call_text :: "xcall \<Rightarrow> string" where
  "call_text (Write s) = s"
| "call_text (Writeln s) = s @ [CHR 0x0D, CHR 0x0A]"
| "call_text _ = []"

definition written :: "xterm \<Rightarrow> string" where
  "written x = (case xt_calls x of Some cs \<Rightarrow> concat (map call_text cs) | None \<Rightarrow> [])"

text \<open>What an event lets through: the text of a message of the current socket, while that is open.\<close>

fun heard_of :: "tevent \<Rightarrow> terminal_viewer \<Rightarrow> string" where
  "heard_of (SocketMessage i data) tv = (if tv_socket tv = Some i \<and> socket_ready tv then or_empty (message_text data) else [])"
| "heard_of _ tv = []"

fun heard :: "string \<times> string \<times> json \<Rightarrow> tevent list \<Rightarrow> terminal_viewer \<Rightarrow> string" where
  "heard env [] tv = []"
| "heard env (e # es) tv = heard_of e tv @ heard env es (terminal_step env e tv)"

definition terminal_run :: "string \<times> string \<times> json \<Rightarrow> tevent list \<Rightarrow> terminal_viewer \<Rightarrow> terminal_viewer" where
  "terminal_run env es tv = fold (terminal_step env) es tv"

text \<open>Texts wait in the viewer until the emulator is there, and then no more.\<close>

definition pending_ok :: "terminal_viewer \<Rightarrow> bool" where
  "pending_ok tv \<longleftrightarrow> or_empty (xt_tempBuffer (tv_xterm tv)) = [] \<and>
     (if tv_term tv then xt_calls (tv_xterm tv) \<noteq> None \<and> or_empty (tv_tempBuffer tv) = []
      else xt_calls (tv_xterm tv) = None)"

definition shown_text :: "terminal_viewer \<Rightarrow> string" where
  "shown_text tv = written (tv_xterm tv) @ or_empty (tv_tempBuffer tv)"

definition same_output :: "terminal_viewer \<Rightarrow> terminal_viewer \<Rightarrow> bool" where
  "same_output tv tv1 \<longleftrightarrow> tv_xterm tv1 = tv_xterm tv \<and> tv_term tv1 = tv_term tv \<and> tv_tempBuffer tv1 = tv_tempBuffer tv"

lemma same_output_keeps: "same_output tv tv1 \<Longrightarrow> pending_ok tv \<Longrightarrow> pending_ok tv1 \<and> shown_text tv1 = shown_text tv"
  by (simp add: same_output_def pending_ok_def shown_text_def)

lemma same_output_destroy: "same_output tv (destroy_terminal tv)"
  by (simp add: same_output_def destroy_terminal_def split: option.split)

lemma same_output_open: "same_output tv (openTerminal env typed resource tv)"
  using same_output_destroy [of tv] unfolding openTerminal_def Let_def
  by (auto simp: same_output_def split: prod.splits option.splits)

lemma same_output_others:
  "same_output tv (closeTerminal tv)" "same_output tv (handleExec env typed resource open1 tv)"
  "same_output tv (handleMenuSelection_terminal v tv)" "same_output tv (onopen_terminal i tv)"
  "same_output tv (onclose_terminal i tv)" "same_output tv (onerror_terminal i tv)" "same_output tv (onInput data tv)"
  "same_output tv (handleTouchTap_terminal tv)" "same_output tv (handleRequestClose_terminal tv)"
  using same_output_destroy [of tv] same_output_open [of tv env typed resource]
  by (simp_all add: same_output_def closeTerminal_def handleExec_def handleMenuSelection_terminal_def onopen_terminal_def
      onclose_terminal_def onerror_terminal_def onInput_def handleTouchTap_terminal_def handleRequestClose_terminal_def
      split: option.split)

lemma event_shown:
  assumes "pending_ok tv"
  shows "pending_ok (onEvent_terminal data tv) \<and> shown_text (onEvent_terminal data tv) = shown_text tv @ or_empty (message_text data)"
  using assms
  by (cases "message_text data"; cases "tv_term tv")
    (auto simp: onEvent_terminal_def pending_ok_def shown_text_def written_def xterm_write_def or_empty_def Let_def
      split: option.splits)

lemma message_shown:
  assumes "pending_ok tv" "sockets_ok tv"
  shows "pending_ok (onmessage_terminal i data tv) \<and>
    shown_text (onmessage_terminal i data tv) = shown_text tv @ heard_of (SocketMessage i data) tv"
proof (cases "i < length (tv_sockets tv) \<and> so_ready (tv_sockets tv ! i) = Open \<and> so_attached (tv_sockets tv ! i)")
  case True
  then have "tv_socket tv = Some i" using assms(2) unfolding sockets_ok_def by blast
  with True have "heard_of (SocketMessage i data) tv = or_empty (message_text data)" by (simp add: socket_ready_def)
  with True event_shown [OF assms(1), of data] show ?thesis by (simp add: onmessage_terminal_def)
next
  case False
  have "\<not> socket_ready tv" if "tv_socket tv = Some i"
  proof
    assume "socket_ready tv"
    then have "so_ready (tv_sockets tv ! i) = Open" using that by (simp add: socket_ready_def)
    moreover from that have "i < length (tv_sockets tv)" "alive_or_detached (tv_sockets tv ! i)"
      using assms(2) unfolding sockets_ok_def by blast+
    ultimately show False using False by (simp add: alive_or_detached_def)
  qed
  then have "heard_of (SocketMessage i data) tv = []" by auto
  moreover have "onmessage_terminal i data tv = tv" using False unfolding onmessage_terminal_def by (simp only: if_False)
  ultimately show ?thesis using assms(1) by simp
qed

lemma xterm_fit_written:
  "xterm_fit c g x = Some y \<Longrightarrow> written y = written x \<and> xt_tempBuffer y = xt_tempBuffer x \<and> xt_calls y \<noteq> None"
  by (cases g; cases "fst g"; cases "snd g"; cases "xt_calls x") (auto simp: xterm_fit_def written_def)

lemma xterm_focus_written [simp]:
  "written (xterm_focus x) = written x" "xt_tempBuffer (xterm_focus x) = xt_tempBuffer x"
  "xt_calls (xterm_focus x) = None \<longleftrightarrow> xt_calls x = None"
  by (auto simp: xterm_focus_def written_def split: option.splits)

lemma updated_shown:
  assumes "pending_ok tv"
  shows "pending_ok (settle_terminal tv (componentDidUpdate_terminal g tv)) \<and>
    shown_text (settle_terminal tv (componentDidUpdate_terminal g tv)) = shown_text tv"
  using assms
  by (cases "componentDidUpdate_terminal g tv")
    (auto simp: settle_terminal_def componentDidUpdate_terminal_def pending_ok_def shown_text_def
      dest: xterm_fit_written split: if_splits)

lemma or_empty_None: "or_empty None = []"
  by (simp add: or_empty_def)

lemma socket_ready_xterm [simp]: "socket_ready (tv\<lparr>tv_xterm := x\<rparr>) = socket_ready tv"
  by (simp add: socket_ready_def split: option.split)

lemma mounted_shown:
  assumes "pending_ok tv"
  shows "pending_ok (terminal_step env (Mounted g) tv) \<and> shown_text (terminal_step env (Mounted g) tv) = shown_text tv"
proof (cases "xt_calls (tv_xterm tv)")
  case None
  with assms have t: "\<not> tv_term tv" "or_empty (xt_tempBuffer (tv_xterm tv)) = []" by (auto simp: pending_ok_def)
  define x where "x = componentDidMount_xterm [] (tv_xterm tv)"
  have x: "xt_calls x = Some []" "or_empty (xt_tempBuffer x) = []"
    using t(2) by (auto simp: x_def componentDidMount_xterm_def or_empty_def Let_def split: option.splits list.splits)
  define x1 where "x1 = (if or_empty (tv_tempBuffer tv) \<noteq> [] then xterm_write (or_empty (tv_tempBuffer tv)) x else x)"
  have x1: "xt_calls x1 \<noteq> None" "or_empty (xt_tempBuffer x1) = []" "written x1 = or_empty (tv_tempBuffer tv)"
    using x by (simp_all add: x1_def xterm_write_def written_def)
  then obtain x2 where x2: "xterm_fit 0 g x1 = Some x2"
    by (auto simp: xterm_fit_def split: option.splits prod.splits)
  note w = xterm_fit_written [OF x2]
  have "take_ref g (tv\<lparr>tv_xterm := x\<rparr>) =
      Some (tv\<lparr>tv_xterm := (if tv_terminalOpen tv \<and> socket_ready tv then xterm_focus x2 else x2), tv_term := True,
              tv_tempBuffer := (if or_empty (tv_tempBuffer tv) \<noteq> [] then None else tv_tempBuffer tv)\<rparr>)"
    using t(1) x2 unfolding take_ref_def Let_def
    by (simp add: x1_def [symmetric] cong: if_cong)
  moreover have "written (tv_xterm tv) = []" using None by (simp add: written_def)
  moreover have "written (if f then xterm_focus x2 else x2) = or_empty (tv_tempBuffer tv)"
      "xt_calls (if f then xterm_focus x2 else x2) \<noteq> None" "or_empty (xt_tempBuffer (if f then xterm_focus x2 else x2)) = []" for f
    using w x1 by (simp_all del: not_None_eq)
  ultimately show ?thesis
    using None unfolding pending_ok_def shown_text_def
    by (simp add: x_def [symmetric] settle_terminal_def or_empty_None del: not_None_eq if_image_distrib)
qed (simp add: assms)

lemma step_shown:
  assumes "pending_ok tv" "sockets_ok tv"
  shows "pending_ok (terminal_step env e tv) \<and> shown_text (terminal_step env e tv) = shown_text tv @ heard_of e tv"
proof (cases e)
  case (SocketMessage i data)
  with message_shown [OF assms] show ?thesis by simp
next
  case (Mounted g)
  with mounted_shown [OF assms(1)] show ?thesis by simp
next
  case (Updated g)
  with updated_shown [OF assms(1)] show ?thesis by simp
qed (simp_all add: same_output_keeps [OF same_output_open] same_output_keeps [OF same_output_others(2)]
    same_output_keeps [OF same_output_others(3)] same_output_keeps [OF same_output_others(4)]
    same_output_keeps [OF same_output_others(5)] same_output_keeps [OF same_output_others(6)]
    same_output_keeps [OF same_output_others(7)] same_output_keeps [OF same_output_others(8)]
    same_output_keeps [OF same_output_others(9)] assms(1))

lemma run_shown:
  "pending_ok tv \<Longrightarrow> sockets_ok tv \<Longrightarrow>
    pending_ok (terminal_run env es tv) \<and> sockets_ok (terminal_run env es tv) \<and>
    shown_text (terminal_run env es tv) = shown_text tv @ heard env es tv"
proof (induction es arbitrary: tv)
  case (Cons e es)
  from Cons.IH [of "terminal_step env e tv"] step_shown [OF Cons.prems] sockets_ok_step [OF Cons.prems(2)]
  show ?case by (simp add: terminal_run_def)
qed (simp add: terminal_run_def)

section \<open>What is encoded is decoded\<close>

lemma bytes_less: "list_all (\<lambda>b. b < 256) (bytes s)"
  by (simp add: bytes_def list_all_iff)

lemma chars_bytes [simp]: "chars (bytes s) = s"
  by (simp add: chars_def bytes_def)

lemma b64_not_pad: "n < 64 \<Longrightarrow> b64 n \<noteq> CHR ''=''"
proof
  assume n: "n < 64" "b64 n = CHR ''=''"
  then have "index_of (b64 n) keyStr = n" by (intro index_b64) simp
  with n show False by simp
qed

text \<open>RFC 4648 fills the last four characters with at most two equals signs.\<close>

lemma encode_shape:
  "list_all (\<lambda>b. b < 256) bs \<Longrightarrow> \<exists>t k. encodeBase64 bs = t @ replicate k CHR ''='' \<and> k \<le> 2 \<and>
    (length t + k) mod 4 = 0 \<and> list_all (\<lambda>c. c \<noteq> CHR ''='' \<and> in_alphabet c) t"
proof (induction bs rule: encodeBase64.induct)
  case (2 a)
  then have "a div 4 < 64" "a mod 4 * 16 < 64" using sextets(1) [of a] by auto
  then show ?case
    by (intro exI [of _ "[b64 (a div 4), b64 (a mod 4 * 16)]"] exI [of _ 2]) (simp add: b64_not_pad numeral_2_eq_2)
next
  case (3 a b)
  then have "a div 4 < 64" "a mod 4 * 16 + b div 16 < 64" "b mod 16 * 4 < 64" using sextets(1) [of a] sextets(3,4) [of a b] by auto
  then show ?case
    by (intro exI [of _ "[b64 (a div 4), b64 (a mod 4 * 16 + b div 16), b64 (b mod 16 * 4)]"] exI [of _ 1]) (simp add: b64_not_pad)
next
  case (4 a b c bs)
  then obtain t k where t: "encodeBase64 bs = t @ replicate k CHR ''=''" "k \<le> 2" "(length t + k) mod 4 = 0"
    "list_all (\<lambda>c. c \<noteq> CHR ''='' \<and> in_alphabet c) t" by auto
  have "a div 4 < 64" "a mod 4 * 16 + b div 16 < 64" "b mod 16 * 4 + c div 64 < 64" "c mod 64 < 64"
    using 4 by auto
  moreover have "(4 + (length t + k)) mod 4 = 0" using t(3) by presburger
  ultimately show ?case using t(1,2,4)
    by (intro exI [of _ "[b64 (a div 4), b64 (a mod 4 * 16 + b div 16), b64 (b mod 16 * 4 + c div 64), b64 (c mod 64)] @ t"] exI [of _ k])
      (simp add: b64_not_pad)
qed (auto intro: exI [of _ "[]"] exI [of _ 0])

lemma atob_encode:
  assumes "list_all (\<lambda>b. b < 256) bs"
  shows "atob (encodeBase64 bs) = Some bs"
proof -
  obtain t k where t: "encodeBase64 bs = t @ replicate k CHR ''=''" "k \<le> 2" "(length t + k) mod 4 = 0"
    "list_all (\<lambda>c. c \<noteq> CHR ''='' \<and> in_alphabet c) t"
    using encode_shape [OF assms] by auto
  have last: "rev t = [] \<or> (\<exists>c u. rev t = c # u \<and> c \<noteq> CHR ''='')"
  proof (cases "rev t")
    case (Cons c u)
    then have "c \<in> set t" by (metis list.set_intros(1) set_rev)
    with t(4) Cons show ?thesis by (auto simp: list_all_iff)
  qed simp
  have k: "k = 0 \<or> k = 1 \<or> k = 2" using t(2) by auto
  have strip: "(if ends_with ''=='' (encodeBase64 bs) then take (length (encodeBase64 bs) - 2) (encodeBase64 bs)
      else if ends_with ''='' (encodeBase64 bs) then take (length (encodeBase64 bs) - 1) (encodeBase64 bs)
      else encodeBase64 bs) = t"
    using k last unfolding t(1) by (auto simp: ends_with_def starts_with_def numeral_2_eq_2)
  have len: "length (encodeBase64 bs) mod 4 = 0" using t(1,3) by simp
  have "k = 0 \<and> length t mod 4 = 0 \<or> k = 1 \<and> length t mod 4 = 3 \<or> k = 2 \<and> length t mod 4 = 2"
    using t(3) k by presburger
  then have pads: "(4 - length t mod 4) mod 4 = k \<and> length t mod 4 \<noteq> 1" by (elim disjE conjE) simp_all
  have chars: "\<not> list_ex (\<lambda>c. c = CHR ''='' \<or> \<not> in_alphabet c) t"
    using t(4) by (auto simp: list_all_iff list_ex_iff)
  show ?thesis
  proof (cases "bs = []")
    case True
    then show ?thesis by (simp add: atob_def ends_with_def)
  next
    case False
    then have "t \<noteq> []" using t(1) encode_not_Nil [OF False] t(2) by auto
    moreover have "decode_loop (t @ replicate k CHR ''='') = bs" using decode_encode [OF False assms] unfolding t(1) .
    ultimately show ?thesis
      unfolding atob_def Let_def if_P [OF len] strip using pads chars by (simp only: if_False simp_thms)
  qed
qed

lemma typed_decodes: "utf8_ok (bytes s) \<Longrightarrow> base64_toString (base64_fromString s) = Some s"
  using bytes_less [of s] by (simp add: base64_toString_def base64_fromString_def btoa_def atob_encode)

lemma hex_chars: "list_all (\<lambda>n. hex_val (of_char (hex_char n)) = Some n \<and> unreserved (hex_char n)) [0..<16]"
  by code_simp

lemma hex_digit [simp]: "n < 16 \<Longrightarrow> hex_val (of_char (hex_char n)) = Some n" "n < 16 \<Longrightarrow> unreserved (hex_char n)"
  using hex_chars by (auto simp: list_all_iff)

lemma of_char_nibbles: "of_char (c :: char) div 16 < (16 :: nat)" "of_char c mod 16 < (16 :: nat)"
proof -
  have "of_char c < (256 :: nat)" by simp
  then show "of_char c div 16 < (16 :: nat)" by (intro less_mult_imp_div_less) simp
  show "of_char c mod 16 < (16 :: nat)" by simp
qed

lemma hex_byte: "hex_number (bytes [hex_char (of_char c div 16), hex_char (of_char c mod 16)]) = Some (of_char c)"
  using of_char_nibbles [of c] by (simp add: bytes_def)

lemma percent_step: "percent_bytes ((if unreserved c then [c] else [CHR ''%'', hex_char (of_char c div 16), hex_char (of_char c mod 16)]) @ t)
    = map_option (\<lambda>bs. of_char c # bs) (percent_bytes t)"
proof (cases "unreserved c")
  case True
  have "\<not> unreserved (CHR ''%'')" by code_simp
  with True have "c \<noteq> CHR ''%''" by auto
  with True show ?thesis by (simp add: map_option_case bind_map_option Option.bind_def split: option.split)
next
  case False
  from hex_byte [of c] False show ?thesis
    by (cases "percent_bytes t") (simp_all add: numeral_2_eq_2 del: hex_number.simps)
qed

lemma percent_encode: "percent_bytes (encodeURIComponent s @ t) = map_option ((@) (bytes s)) (percent_bytes t)"
proof (induction s)
  case (Cons c s)
  have "encodeURIComponent (c # s) @ t =
      (if unreserved c then [c] else [CHR ''%'', hex_char (of_char c div 16), hex_char (of_char c mod 16)]) @ (encodeURIComponent s @ t)"
    by (simp add: encodeURIComponent_def)
  then have "percent_bytes (encodeURIComponent (c # s) @ t) = map_option ((#) (of_char c)) (map_option ((@) (bytes s)) (percent_bytes t))"
    by (simp only: percent_step Cons.IH)
  then show ?case by (cases "percent_bytes t") (simp_all add: bytes_def)
qed (simp add: encodeURIComponent_def bytes_def option.map_ident)

lemma decode_encode_uri: "utf8_ok (bytes s) \<Longrightarrow> decodeURIComponent (encodeURIComponent s) = Some s"
  using percent_encode [of s "[]"] by (simp add: decodeURIComponent_def)

lemma encoded_plain: "c \<in> set (encodeURIComponent s) \<Longrightarrow> unreserved c \<or> c = CHR ''%''"
  using of_char_nibbles by (auto simp: encodeURIComponent_def split: if_splits)

text \<open>The parameters of a query, each as its name and its decoded value\<close>

definition query_params :: "string \<Rightarrow> (string \<times> string option) list" where
  "query_params url =
     map (\<lambda>p. (takeWhile (\<lambda>c. c \<noteq> CHR ''='') p, decodeURIComponent (drop 1 (dropWhile (\<lambda>c. c \<noteq> CHR ''='') p))))
       (split_on (CHR ''&'') (drop 1 (dropWhile (\<lambda>c. c \<noteq> CHR ''?'') url)))"

lemma split_parts:
  "list_all (\<lambda>p. c \<notin> set p) ps \<Longrightarrow> c \<notin> set p0 \<Longrightarrow> split_on c (p0 @ concat (map ((#) c) ps)) = p0 # ps"
proof (induction ps arbitrary: p0)
  case (Cons p ps)
  then have "split_on c (p @ concat (map ((#) c) ps)) = p # ps" by simp
  then show ?case using split_on_append [of c p0 "p @ concat (map ((#) c) ps)"] Cons.prems(2) by simp
qed (simp add: split_on_no_sep)

lemma in_piece: "c \<noteq> s \<Longrightarrow> c \<in> set t \<longleftrightarrow> (\<exists>p \<in> set (split_on s t). c \<in> set p)"
  by (induction s t rule: split_on.induct) (auto split: list.splits)

lemma pieces_clean:
  assumes "c \<notin> set podContainer" "c \<noteq> CHR ''/''"
  shows "c \<notin> set (split_on (CHR ''/'') podContainer ! 0)"
    "length (split_on (CHR ''/'') podContainer) > 1 \<Longrightarrow> c \<notin> set (split_on (CHR ''/'') podContainer ! 1)"
proof -
  have "\<forall>p \<in> set (split_on (CHR ''/'') podContainer). c \<notin> set p" using in_piece [OF assms(2)] assms(1) by blast
  then show "c \<notin> set (split_on (CHR ''/'') podContainer ! 0)"
    "length (split_on (CHR ''/'') podContainer) > 1 \<Longrightarrow> c \<notin> set (split_on (CHR ''/'') podContainer ! 1)"
    using split_on_not_Nil [of "CHR ''/''" podContainer] by (auto simp: nth_mem)
qed

lemma exec_url_query:
  assumes "CHR ''?'' \<notin> set (host @ namespace @ podContainer)"
  shows "\<exists>container. drop 1 (dropWhile (\<lambda>c. c \<noteq> CHR ''?'') (exec_url protocol host namespace podContainer args)) =
      (''container='' @ container) @ concat (map ((#) (CHR ''&''))
        ([''tty=1'', ''stdout=1'', ''stderr=1'', ''stdin=1''] @ map (\<lambda>arg. ''command='' @ encodeURIComponent arg) args))
    \<and> (CHR ''&'' \<notin> set podContainer \<longrightarrow> CHR ''&'' \<notin> set container)"
proof -
  define parts where "parts = split_on (CHR ''/'') podContainer"
  define container where "container = (if length parts > 1 then parts ! 1 else ''undefined'')"
  define before where "before = (if protocol = ''https:'' then ''wss'' else ''ws'') @ ''://'' @ host
         @ ''/proxy/api/v1/namespaces/'' @ namespace @ ''/pods/'' @ parts ! 0 @ ''/exec''"
  have "CHR ''?'' \<notin> set before"
    using assms pieces_clean(1) [of "CHR ''?''" podContainer] by (simp add: before_def parts_def)
  then have d: "dropWhile (\<lambda>c. c \<noteq> CHR ''?'') (before @ CHR ''?'' # q) = CHR ''?'' # q" for q
    by (subst dropWhile_append2) auto
  have "exec_url protocol host namespace podContainer args = before @ CHR ''?'' # (''container='' @ container) @
      concat (map ((#) (CHR ''&'')) ([''tty=1'', ''stdout=1'', ''stderr=1'', ''stdin=1''] @ map (\<lambda>arg. ''command='' @ encodeURIComponent arg) args))"
    by (simp add: exec_url_def Let_def before_def container_def parts_def [symmetric] o_def)
  moreover have "CHR ''&'' \<notin> set container" if "CHR ''&'' \<notin> set podContainer"
    using pieces_clean(2) [OF that] by (auto simp: container_def parts_def)
  ultimately show ?thesis by (intro exI [of _ container]) (simp add: d)
qed

lemma encoded_clean: "CHR ''&'' \<notin> set (encodeURIComponent s)"
proof -
  have "\<not> unreserved (CHR ''&'')" by code_simp
  then show ?thesis using encoded_plain [of "CHR ''&''" s] by auto
qed

lemma exec_url_commands:
  assumes "CHR ''?'' \<notin> set (host @ namespace @ podContainer)" "CHR ''&'' \<notin> set podContainer"
    and "\<forall>arg \<in> set args. utf8_ok (bytes arg)"
  shows "map snd (filter (\<lambda>p. fst p = ''command'') (query_params (exec_url protocol host namespace podContainer args))) = map Some args"
proof -
  define ps where "ps = [''tty=1'', ''stdout=1'', ''stderr=1'', ''stdin=1''] @ map (\<lambda>arg. ''command='' @ encodeURIComponent arg) args"
  obtain container where q: "drop 1 (dropWhile (\<lambda>c. c \<noteq> CHR ''?'') (exec_url protocol host namespace podContainer args)) =
      (''container='' @ container) @ concat (map ((#) (CHR ''&'')) ps)" "CHR ''&'' \<notin> set container"
    using exec_url_query [OF assms(1), of protocol args] assms(2) unfolding ps_def by blast
  have "list_all (\<lambda>p. CHR ''&'' \<notin> set p) ps" using encoded_clean by (simp add: ps_def list_all_iff)
  with q(2) have "split_on (CHR ''&'') ((''container='' @ container) @ concat (map ((#) (CHR ''&'')) ps)) = (''container='' @ container) # ps"
    by (intro split_parts) simp_all
  then have "query_params (exec_url protocol host namespace podContainer args) =
      map (\<lambda>p. (takeWhile (\<lambda>c. c \<noteq> CHR ''='') p, decodeURIComponent (drop 1 (dropWhile (\<lambda>c. c \<noteq> CHR ''='') p)))) ((''container='' @ container) # ps)"
    unfolding query_params_def q(1) by (rule arg_cong)
  moreover have "map snd (filter (\<lambda>p. fst p = ''command'') (map (\<lambda>arg. (''command'', decodeURIComponent (encodeURIComponent arg))) args)) = map Some args"
    using assms(3) by (induction args) (simp_all add: decode_encode_uri)
  ultimately show ?thesis by (simp add: ps_def o_def)
qed

lemma utf8_ascii: "list_all (\<lambda>b. b < 128) a \<Longrightarrow> utf8_ok (a @ b) = utf8_ok b"
  by (induction a) (simp_all add: utf8_lead_def)

section \<open>The properties\<close>

text \<open>C18: once the emulator is there, the terminal has been written exactly the texts that the channels of the
  current socket carried, in order and each once, those that arrived before the emulator included; every
  socket opened before is closing or closed.\<close>

theorem terminal_shows_current:
  assumes "terminal_run env es (new_terminal maxLines chosen) = tv" "tv_term tv"
  shows "written (tv_xterm tv) = heard env es (new_terminal maxLines chosen) \<and>
    (\<forall>k < length (tv_sockets tv). tv_socket tv \<noteq> Some k \<longrightarrow> so_ready (tv_sockets tv ! k) \<in> {Closing, Closed})"
proof -
  let ?tv0 = "new_terminal maxLines chosen"
  have "pending_ok ?tv0" "shown_text ?tv0 = []"
    by (simp_all add: pending_ok_def shown_text_def new_terminal_def new_xterm_def or_empty_def written_def)
  with run_shown [OF _ sockets_ok_new, of maxLines chosen env es] assms(1)
  have r: "pending_ok tv" "sockets_ok tv" "shown_text tv = heard env es ?tv0" by simp_all
  then have "written (tv_xterm tv) = heard env es ?tv0" using assms(2) by (simp add: pending_ok_def shown_text_def)
  then show ?thesis using r(2) unfolding sockets_ok_def alive_or_detached_def by blast
qed

definition demo_resource :: json where
  "demo_resource = JObj [(''metadata'', JObj [(''namespace'', JStr ''default'')])]"

definition demo_events :: "tevent list" where
  "demo_events = [Choose ''web/nginx'', Start [] demo_resource, SocketOpens 0, SocketMessage 0 ''1JCA='',
     Mounted (Some 80, Some 24), Input ''ls'', SocketMessage 0 ''1YSBi'', SocketCloses 0,
     Start [] demo_resource, SocketMessage 0 ''1bGF0ZQ=='', SocketOpens 1]"

theorem terminal_shows_current_witness:
  "let tv = terminal_run (''https:'', ''h'', JUndef) demo_events (new_terminal 0 terminal_initialState)
   in written (tv_xterm tv) = ''$ a b'' \<and> so_ready (tv_sockets tv ! 0) \<in> {Closing, Closed}"
proof -
  let ?env = "(''https:'', ''h'', JUndef)" and ?tv0 = "new_terminal 0 terminal_initialState"
  have t: "tv_term (terminal_run ?env demo_events ?tv0)" by code_simp
  have h: "heard ?env demo_events ?tv0 = ''$ a b''" by code_simp
  have s: "length (tv_sockets (terminal_run ?env demo_events ?tv0)) = 2 \<and> tv_socket (terminal_run ?env demo_events ?tv0) = Some 1" by code_simp
  show ?thesis unfolding Let_def using terminal_shows_current [OF refl t] unfolding h using s by simp
qed

text \<open>C19: the command typed for a new terminal reaches the server as it was typed: the parameters
  named command in the socket's address decode to a shell that runs it, whatever characters it holds; the names
  of the pod and container only must be free of question marks and ampersands, as those of Kubernetes are.\<close>

theorem typed_command_is_run:
  assumes "tv_selected tv \<noteq> Some (chosen_container tv)"
    and "jget resource ''metadata'' = Some m" "jget m ''namespace'' = Some ns"
    and "CHR ''?'' \<notin> set (host @ to_str ns @ chosen_container tv)" "CHR ''&'' \<notin> set (chosen_container tv)"
    and "typed \<noteq> []" "utf8_ok (bytes typed)"
  shows "map snd (filter (\<lambda>p. fst p = ''command'')
      (query_params (so_url (last (tv_sockets (openTerminal (protocol, host, JUndef) typed resource tv))))))
    = [Some ''/bin/sh'', Some ''-i'', Some ''-c'', Some (''TERM=xterm-256color '' @ typed)]"
proof -
  define args where "args = [''/bin/sh'', ''-i'', ''-c'', ''TERM=xterm-256color '' @ typed]"
  have "command_args JUndef typed = Some args" using assms(6) by (simp add: command_args_def args_def)
  then have "so_url (last (tv_sockets (openTerminal (protocol, host, JUndef) typed resource tv))) =
      exec_url protocol host (to_str ns) (chosen_container tv) args"
    using assms(1-3) by (simp add: openTerminal_def Let_def)
  moreover have "utf8_ok (bytes (''TERM=xterm-256color '' @ typed))"
    using assms(7) utf8_ascii [of "bytes ''TERM=xterm-256color ''" "bytes typed"] by (simp add: bytes_def)
  then have "\<forall>arg \<in> set args. utf8_ok (bytes arg)" by (simp add: args_def bytes_def utf8_lead_def)
  ultimately show ?thesis using exec_url_commands [OF assms(4,5)] by (simp add: args_def)
qed

theorem typed_command_is_run_witness:
  "map snd (filter (\<lambda>p. fst p = ''command'') (query_params (so_url (last (tv_sockets
      (openTerminal (''https:'', ''h'', JUndef) ''a&b=%?'' demo_resource
        (handleMenuSelection_terminal ''web/nginx'' (new_terminal 0 terminal_initialState))))))))
    = [Some ''/bin/sh'', Some ''-i'', Some ''-c'', Some ''TERM=xterm-256color a&b=%?'']"
proof -
  let ?tv = "handleMenuSelection_terminal ''web/nginx'' (new_terminal 0 terminal_initialState)"
  have c: "chosen_container ?tv = ''web/nginx''" "tv_selected ?tv = None" by code_simp+
  have m: "jget demo_resource ''metadata'' = Some (JObj [(''namespace'', JStr ''default'')])"
    "jget (JObj [(''namespace'', JStr ''default'')]) ''namespace'' = Some (JStr ''default'')" by (simp_all add: demo_resource_def)
  have u: "utf8_ok (bytes ''a&b=%?'')" by code_simp
  show ?thesis using typed_command_is_run [OF _ m, of ?tv "''h''" "''a&b=%?''" "''https:''"] c u by simp
qed

section \<open>Flaws\<close>

text \<open>What is typed into an open terminal reaches its container as it was typed.\<close>

lemma typed_input_arrives:
  assumes "utf8_ok (bytes data)" "tv_socket tv = Some i" "i < length (tv_sockets tv)" "so_ready (tv_sockets tv ! i) = Open"
  shows "so_sent (tv_sockets (onInput data tv) ! i) = so_sent (tv_sockets tv ! i) @ [CHR ''0'' # base64_fromString data]"
    and "base64_toString (base64_fromString data) = Some data"
  using assms by (simp_all add: onInput_def socket_ready_def upd_socket_def typed_decodes)

text \<open>
  That need not be the container on the label: choosing another one leaves the open terminal as it is, and
  what is typed goes to the one chosen before.
\<close>

definition label_and_sent :: "terminal_viewer \<Rightarrow> string \<times> bool \<times> (string \<times> string list) list" where
  "label_and_sent tv = (chosen_container tv, tv_terminalOpen tv, map (\<lambda>so. (so_container so, so_sent so)) (tv_sockets tv))"

lemma input_goes_to_other_container:
  "label_and_sent (terminal_run (''https:'', ''h'', JStr ''sh'')
      [Choose ''a/x'', Start [] demo_resource, SocketOpens 0, Choose ''b/y'', Input ''rm''] (new_terminal 0 terminal_initialState))
    = (''b/y'', True, [(''a/x'', [''0cm0='' ])])"
  by code_simp

text \<open>
  The close event of an earlier socket is taken for one of the current socket. Pressing start twice before
  the first socket is open leaves an open terminal that is shown as closed.
\<close>

definition shown_closed :: "terminal_viewer \<Rightarrow> bool" where
  "shown_closed tv \<longleftrightarrow> socket_ready tv \<and> \<not> tv_terminalOpen tv"

lemma late_close_hides_terminal:
  "shown_closed (terminal_run (''https:'', ''h'', JStr ''sh'')
      [Choose ''a/x'', Start [] demo_resource, Start [] demo_resource, SocketOpens 1, SocketCloses 0] (new_terminal 0 terminal_initialState))"
  by code_simp

text \<open>A character of two bytes that is cut between two messages is lost, as decoding either part throws.\<close>

lemma split_character_lost:
  "utf8_ok [195, 169]" "message_text ''1ww=='' = None" "message_text ''1qQ=='' = None"
  by code_simp+

text \<open>The keys for copying and pasting throw, since the handler is not called on the wrapper.\<close>

lemma copy_key_throws: "jget this1 ''props'' = Some JUndef \<Longrightarrow> custom_keys this1 True 67 = None"
  by (simp add: custom_keys_def)

end
