(* ===== verification/LogView.thy ===== *)
theory LogView
  imports Terminal LogFollower
begin

text \<open>
  The viewer of logs, \<^verbatim>\<open>src/components/LogViewer.js\<close>, on the buffer that the followers of
  \<^verbatim>\<open>LogFollower.js\<close> fill. A page shows one viewer at a time, but the buffer outlives it.
\<close>

section \<open>The viewer\<close>

text \<open>\<open>lv_input\<close> is the text in the field of the filter; \<open>lv_term\<close>: the reference to the emulator has been taken.\<close>

record log_viewer =
  lv_containersOpen :: bool
  lv_filterErrorText :: "string option"
  lv_filterCheckDisabled :: bool
  lv_filterChecked :: bool
  lv_input :: string
  lv_term :: bool
  lv_xterm :: xterm

definition new_log_viewer :: log_viewer where
  "new_log_viewer =
     \<lparr>lv_containersOpen = False, lv_filterErrorText = None, lv_filterCheckDisabled = True, lv_filterChecked = False,
      lv_input = [], lv_term = False, lv_xterm = new_xterm\<rparr>"

definition handleTouchTap_logs :: "log_viewer \<Rightarrow> log_viewer" where
  "handleTouchTap_logs v = v\<lparr>lv_containersOpen := True\<rparr>"

definition handleRequestClose_logs :: "log_viewer \<Rightarrow> log_viewer" where
  "handleRequestClose_logs v = v\<lparr>lv_containersOpen := False\<rparr>"

text \<open>The last container cannot be taken away.\<close>

definition handleMenuSelection_logs :: "string list \<Rightarrow> logs_state \<Rightarrow> logs_state" where
  "handleMenuSelection_logs value1 s = (if value1 \<noteq> [] then logs_reducer (SelectLogsFor value1) s else s)"

text \<open>\<open>found\<close> is the answer of the emulator's search for the text of the field.\<close>

definition handleFilterKeydown :: "int \<Rightarrow> bool \<Rightarrow> log_viewer \<Rightarrow> log_viewer" where
  "handleFilterKeydown keyCode found v =
     (if keyCode = 13 then (if \<not> found then v\<lparr>lv_filterErrorText := Some ''not found''\<rparr> else v)
      else if lv_filterErrorText v \<noteq> None
      then v\<lparr>lv_filterErrorText := None, lv_filterCheckDisabled := (lv_input v = [])\<rparr> else v)"

definition handleFilterKeyUp :: "log_viewer \<Rightarrow> log_viewer" where
  "handleFilterKeyUp v =
     (if (lv_input v \<noteq> []) = lv_filterCheckDisabled v
      then v\<lparr>lv_filterCheckDisabled := (lv_input v = []), lv_filterChecked := (lv_filterChecked v \<and> lv_input v \<noteq> [])\<rparr> else v)"

definition toggleFilter :: "log_viewer \<Rightarrow> log_viewer" where
  "toggleFilter v = v\<lparr>lv_filterChecked := (\<not> lv_filterChecked v)\<rparr>"

definition lets_through :: "log_viewer \<Rightarrow> string \<Rightarrow> bool" where
  "lets_through v e \<longleftrightarrow> \<not> lv_filterChecked v \<or> lv_input v \<noteq> [] \<and> str_includes (map ascii_lower e) (lv_input v)"

text \<open>Without a reference to the emulator, writing throws.\<close>

definition pushLogs :: "string \<Rightarrow> log_viewer \<Rightarrow> (log_viewer \<times> bool) option" where
  "pushLogs e v =
     (if \<not> lets_through v e then Some (v, True)
      else if lv_term v then Some (v\<lparr>lv_xterm := xterm_writeln e (lv_xterm v)\<rparr>, True) else None)"

text \<open>The callback that the viewer hands to the emulator's wrapper for its end\<close>

definition onDestroy :: "log_viewer \<Rightarrow> log_buffer \<Rightarrow> log_viewer \<times> log_buffer" where
  "onDestroy v logs = (v\<lparr>lv_term := False\<rparr>, logs\<lparr>lb_onPush := None\<rparr>)"

text \<open>
  Taking the reference empties the buffer into the emulator. The function the viewer attaches answers true;
  what it does to the viewer is the part of \<open>push_line\<close> below.
\<close>

definition take_log_ref :: "int option \<times> int option \<Rightarrow> log_viewer \<Rightarrow> log_buffer \<Rightarrow> (log_viewer \<times> log_buffer) option" where
  "take_log_ref geometry v logs =
     (if lv_term v then Some (v, logs)
      else do {
        x \<leftarrow> xterm_fit 0 geometry (fold xterm_writeln (lb_lines logs) (lv_xterm v));
        Some (v\<lparr>lv_term := True, lv_xterm := x\<rparr>, logs\<lparr>lb_lines := [], lb_onPush := Some (\<lambda>_. True)\<rparr>)
      })"

definition componentDidUpdate_logs :: "int option \<times> int option \<Rightarrow> log_viewer \<Rightarrow> log_viewer option" where
  "componentDidUpdate_logs geometry v =
     (if lv_term v then map_option (\<lambda>x. v\<lparr>lv_xterm := x\<rparr>) (xterm_fit 0 geometry (lv_xterm v)) else Some v)"

section \<open>The menu of containers\<close>

text \<open>\<open>lcs\<close> is the longest common subsequence of two names, from a package.\<close>

definition common_names :: "(string \<Rightarrow> string \<Rightarrow> string) \<Rightarrow> string list \<Rightarrow> string \<times> unit obj" where
  "common_names lcs selectedContainers =
     fold (\<lambda>c (pod, names).
         let parts = split_on (CHR ''/'') c
         in (if pod \<noteq> [] then lcs pod (parts ! 0) @ ''*'' else parts ! 0,
             oset (if length parts > 1 then parts ! 1 else ''undefined'') () names))
       selectedContainers ([], [])"

definition commonName :: "(string \<Rightarrow> string \<Rightarrow> string) \<Rightarrow> string list \<Rightarrow> string" where
  "commonName lcs selectedContainers =
     (case common_names lcs selectedContainers of (pod, names) \<Rightarrow>
        pod @ ''/'' @
        (if length names > 1 then ''{'' @ join '','' (okeys names) @ ''}''
         else case okeys names of n # _ \<Rightarrow> n | [] \<Rightarrow> ''undefined''))"

record log_menu =
  lm_label :: string
  lm_items :: "container_item list"

definition renderContainerMenu :: "(string \<Rightarrow> string \<Rightarrow> string) \<Rightarrow> json obj \<Rightarrow> string list \<Rightarrow> log_viewer \<Rightarrow> log_menu option" where
  "renderContainerMenu lcs pods selectedContainers v = do {
     items \<leftarrow> foldM (\<lambda>entry items. map_option ((@) items) (pod_items (\<lambda>name. name \<in> set selectedContainers) entry)) pods [];
     Some \<lparr>lm_label = commonName lcs selectedContainers, lm_items = (if lv_containersOpen v then items else [])\<rparr>
   }"

section \<open>The page: viewers come and go, the buffer stays\<close>

text \<open>
  \<open>lp_viewer\<close> is the viewer whose \<^verbatim>\<open>pushLogs\<close> was attached last, mounted or not. \<open>HideLogs\<close> takes
  the viewer off the page: its emulator goes, and nothing else happens.
\<close>

record log_page =
  lp_viewer :: log_viewer
  lp_buffer :: log_buffer

datatype log_event =
    Line string
  | ShowLogs "int option \<times> int option"
  | HideLogs
  | Typed string
  | KeyDown int bool
  | Toggle

definition push_line :: "string \<Rightarrow> log_page \<Rightarrow> log_page option" where
  "push_line e p =
     (if lb_onPush (lp_buffer p) = None then Some (p\<lparr>lp_buffer := log_push e (lp_buffer p)\<rparr>)
      else do {
        (v, keep) \<leftarrow> pushLogs e (lp_viewer p);
        Some (p\<lparr>lp_viewer := v, lp_buffer := (if keep then log_push e (lp_buffer p) else lp_buffer p)\<rparr>)
      })"

fun log_page_step :: "log_event \<Rightarrow> log_page \<Rightarrow> log_page option" where
  "log_page_step (Line e) p = push_line e p"
| "log_page_step (ShowLogs g) p = do {
     (v, logs) \<leftarrow> take_log_ref g (new_log_viewer\<lparr>lv_xterm := componentDidMount_xterm [] new_xterm\<rparr>) (lp_buffer p);
     Some (p\<lparr>lp_viewer := v, lp_buffer := logs\<rparr>)
   }"
| "log_page_step HideLogs p =
     Some (p\<lparr>lp_viewer := (lp_viewer p)\<lparr>lv_xterm := componentWillUnmount_xterm (lv_xterm (lp_viewer p))\<rparr>\<rparr>)"
| "log_page_step (Typed s) p = Some (p\<lparr>lp_viewer := handleFilterKeyUp ((lp_viewer p)\<lparr>lv_input := s\<rparr>)\<rparr>)"
| "log_page_step (KeyDown k found) p = Some (p\<lparr>lp_viewer := handleFilterKeydown k found (lp_viewer p)\<rparr>)"
| "log_page_step Toggle p = Some (p\<lparr>lp_viewer := toggleFilter (lp_viewer p)\<rparr>)"

definition new_log_page :: "nat \<Rightarrow> log_page" where
  "new_log_page maxSize = \<lparr>lp_viewer = new_log_viewer, lp_buffer = new_buffer maxSize\<rparr>"

section \<open>What a viewer shows\<close>

definition shown_lines :: "log_viewer \<Rightarrow> string list" where
  "shown_lines v = (case xt_calls (lv_xterm v) of
     Some cs \<Rightarrow> concat (map (\<lambda>c. case c of Writeln l \<Rightarrow> [l] | _ \<Rightarrow> []) cs) | None \<Rightarrow> [])"

text \<open>The lines since a viewer was shown last\<close>

fun lines_since :: "log_event list \<Rightarrow> string list \<Rightarrow> string list" where
  "lines_since [] ls = ls"
| "lines_since (Line e # es) ls = lines_since es (ls @ [e])"
| "lines_since (ShowLogs _ # es) ls = lines_since es []"
| "lines_since (_ # es) ls = lines_since es ls"

definition log_page_ok :: "nat \<Rightarrow> string list \<Rightarrow> log_page \<Rightarrow> bool" where
  "log_page_ok n ls p \<longleftrightarrow> lb_maxSize (lp_buffer p) = n \<and> lb_lines (lp_buffer p) = last_n n ls \<and>
     (lb_onPush (lp_buffer p) = None \<or> lb_onPush (lp_buffer p) = Some (\<lambda>_. True) \<and> lv_term (lp_viewer p))"

lemma filter_keeps_term [simp]:
  "lv_term (handleFilterKeyUp v) = lv_term v" "lv_term (handleFilterKeydown k f v) = lv_term v" "lv_term (toggleFilter v) = lv_term v"
  by (simp_all add: handleFilterKeyUp_def handleFilterKeydown_def toggleFilter_def)

lemma push_ok:
  assumes "log_page_ok n ls p"
  shows "\<exists>p1. push_line e p = Some p1 \<and> log_page_ok n (ls @ [e]) p1"
proof -
  have "lb_lines (log_push e (lp_buffer p)) = last_n n (ls @ [e])"
    using assms by (auto simp: log_page_ok_def log_push_lines accepts_line_def last_n_snoc)
  with assms show ?thesis by (auto simp: log_page_ok_def push_line_def pushLogs_def)
qed

lemma fit_total: "xt_calls x \<noteq> None \<Longrightarrow> \<exists>y. xterm_fit c g x = Some y"
  by (auto simp: xterm_fit_def)

lemma writelns: "xt_calls x = Some cs \<Longrightarrow> xt_calls (fold xterm_writeln ls x) = Some (cs @ map Writeln ls)"
  by (induction ls arbitrary: x cs) (simp_all add: xterm_writeln_def)

lemma fit_lines:
  assumes "xterm_fit c g (lv_xterm v) = Some y"
  shows "shown_lines (v\<lparr>lv_xterm := y\<rparr>) = shown_lines v \<and> xt_calls y \<noteq> None"
  using assms by (cases g; cases "fst g"; cases "snd g"; cases "xt_calls (lv_xterm v)") (auto simp: xterm_fit_def shown_lines_def)

lemma show_ok:
  assumes "log_page_ok n ls p"
  shows "\<exists>p1. log_page_step (ShowLogs g) p = Some p1 \<and> log_page_ok n [] p1 \<and>
    shown_lines (lp_viewer p1) = lb_lines (lp_buffer p) \<and> xt_calls (lv_xterm (lp_viewer p1)) \<noteq> None \<and>
    \<not> lv_filterChecked (lp_viewer p1) \<and> lb_onPush (lp_buffer p1) \<noteq> None"
proof -
  define v where "v = new_log_viewer\<lparr>lv_xterm := fold xterm_writeln (lb_lines (lp_buffer p)) (componentDidMount_xterm [] new_xterm)\<rparr>"
  have calls: "xt_calls (lv_xterm v) = Some (map Writeln (lb_lines (lp_buffer p)))"
    unfolding v_def by (simp add: writelns componentDidMount_xterm_def new_xterm_def Let_def)
  then obtain y where y: "xterm_fit 0 g (lv_xterm v) = Some y" using fit_total [of "lv_xterm v" 0 g] by auto
  have "shown_lines v = lb_lines (lp_buffer p)"
    using calls by (simp add: shown_lines_def o_def)
  with fit_lines [OF y] have "shown_lines (v\<lparr>lv_xterm := y\<rparr>) = lb_lines (lp_buffer p)" "xt_calls y \<noteq> None" by simp_all
  then show ?thesis
    using assms y by (simp add: take_log_ref_def v_def log_page_ok_def new_log_viewer_def shown_lines_def last_n_def)
qed

lemma log_step_ok:
  assumes "log_page_ok n ls p"
  shows "\<exists>p1. log_page_step e p = Some p1 \<and> log_page_ok n (lines_since [e] ls) p1"
proof (cases e)
  case (Line l)
  with push_ok [OF assms, of l] show ?thesis by simp
next
  case (ShowLogs g)
  with show_ok [OF assms, of g] show ?thesis by (simp del: log_page_step.simps) blast
qed (use assms in \<open>simp_all add: log_page_ok_def\<close>)

lemma lines_since_Cons: "lines_since (e # es) ls = lines_since es (lines_since [e] ls)"
  by (cases e) simp_all

lemma log_run_ok:
  "log_page_ok n ls p \<Longrightarrow> \<exists>p1. foldM log_page_step es p = Some p1 \<and> log_page_ok n (lines_since es ls) p1"
proof (induction es arbitrary: p ls)
  case (Cons e es)
  from log_step_ok [OF Cons.prems] obtain p1 where p1: "log_page_step e p = Some p1" "log_page_ok n (lines_since [e] ls) p1" by blast
  from Cons.IH [OF p1(2)] p1(1) show ?case by (subst lines_since_Cons) simp
qed simp

lemma lines_appear:
  assumes "lb_onPush (lp_buffer p) \<noteq> None" "log_page_ok n ls p" "xt_calls (lv_xterm (lp_viewer p)) \<noteq> None" "\<not> lv_filterChecked (lp_viewer p)"
  shows "\<exists>p1. foldM log_page_step (map Line es) p = Some p1 \<and> shown_lines (lp_viewer p1) = shown_lines (lp_viewer p) @ es"
  using assms
proof (induction es arbitrary: p ls)
  case (Cons e es)
  let ?v = "(lp_viewer p)\<lparr>lv_xterm := xterm_writeln e (lv_xterm (lp_viewer p))\<rparr>"
  let ?p = "p\<lparr>lp_viewer := ?v, lp_buffer := log_push e (lp_buffer p)\<rparr>"
  from Cons.prems have s: "push_line e p = Some ?p"
    by (auto simp: push_line_def pushLogs_def lets_through_def log_page_ok_def)
  from push_ok [OF Cons.prems(2), of e] s have ok: "log_page_ok n (ls @ [e]) ?p" by simp
  obtain cs where cs: "xt_calls (lv_xterm (lp_viewer p)) = Some cs" using Cons.prems(3) by blast
  have "shown_lines ?v = shown_lines (lp_viewer p) @ [e]" by (simp add: shown_lines_def xterm_writeln_def cs)
  with Cons.IH [OF _ ok] s Cons.prems(1,4) cs show ?case by (simp add: xterm_writeln_def)
qed simp

text \<open>What the next viewer starts with, and what it shows then\<close>

lemma log_view_shows:
  "\<exists>p. foldM log_page_step (before @ ShowLogs g # map Line after) (new_log_page maxSize) = Some p \<and>
     shown_lines (lp_viewer p) = last_n maxSize (lines_since before []) @ after"
proof -
  have "log_page_ok maxSize [] (new_log_page maxSize)"
    by (simp add: log_page_ok_def new_log_page_def new_buffer_def last_n_def)
  from log_run_ok [OF this, of before] obtain p1 where p1: "foldM log_page_step before (new_log_page maxSize) = Some p1"
    "log_page_ok maxSize (lines_since before []) p1" by blast
  from show_ok [OF p1(2), of g] obtain p2 where p2: "log_page_step (ShowLogs g) p1 = Some p2" "log_page_ok maxSize [] p2"
    "shown_lines (lp_viewer p2) = lb_lines (lp_buffer p1)" "xt_calls (lv_xterm (lp_viewer p2)) \<noteq> None"
    "\<not> lv_filterChecked (lp_viewer p2)" "lb_onPush (lp_buffer p2) \<noteq> None" by blast
  from lines_appear [OF p2(6,2,4,5), of after] obtain p3 where p3: "foldM log_page_step (map Line after) p2 = Some p3"
    "shown_lines (lp_viewer p3) = shown_lines (lp_viewer p2) @ after" by blast
  have "shown_lines (lp_viewer p3) = last_n maxSize (lines_since before []) @ after"
    using p3(2) p2(3) p1(2) by (simp add: log_page_ok_def)
  moreover have "foldM log_page_step (before @ ShowLogs g # map Line after) (new_log_page maxSize) = Some p3"
    using p1(1) p2(1) p3(1) by (simp add: foldM_append del: log_page_step.simps)
  ultimately show ?thesis by blast
qed

section \<open>The properties\<close>

text \<open>C20: however viewers came and went and whatever was filtered, a viewer that is shown starts with the
  lines that the buffer kept of those that came since the last one was shown, and then shows every line
  that follows, in order and each once, until its filter is used.\<close>

theorem log_view_catches_up:
  "\<exists>p. foldM log_page_step (before @ ShowLogs g # map Line after) (new_log_page maxSize) = Some p \<and>
     shown_lines (lp_viewer p) = last_n maxSize (lines_since before []) @ after"
  by (rule log_view_shows)

section \<open>Flaws\<close>

text \<open>
  The wrapper never calls \<^verbatim>\<open>onDestroy\<close>: a viewer that is gone stays attached and collects every line in
  the buffer of its lost emulator, and the next viewer does not show what the last one started with.
\<close>

lemma hidden_viewer_collects:
  "map_option (\<lambda>p. xt_tempBuffer (lv_xterm (lp_viewer p)))
     (foldM log_page_step [ShowLogs (None, None), HideLogs, Line ''a'', Line ''b''] (new_log_page 9)) = Some (Some (''a'' @ [CHR 0x0A] @ ''b'' @ [CHR 0x0A]))"
  by (simp add: new_log_page_def new_buffer_def take_log_ref_def new_log_viewer_def new_xterm_def componentDidMount_xterm_def
      xterm_fit_def componentWillUnmount_xterm_def push_line_def pushLogs_def lets_through_def xterm_writeln_def or_empty_def)

lemma first_lines_are_not_shown_again:
  "\<exists>p. foldM log_page_step [Line ''a'', ShowLogs g, HideLogs, ShowLogs g] (new_log_page 9) = Some p \<and> shown_lines (lp_viewer p) = []"
  using log_view_shows [where before = "[Line ''a'', ShowLogs g, HideLogs]" and after = "[]" and maxSize = 9 and g = g]
  by (simp add: last_n_def del: log_page_step.simps foldM.simps)

text \<open>Lines are compared in lower case, the text of the filter is not: a capital letter in it hides every line.\<close>

lemma ascii_lower_idem: "ascii_lower (ascii_lower d) = ascii_lower d"
  by (auto simp: ascii_lower_def Let_def of_char_of take_bit_eq_mod)

lemma capital_filter_hides:
  assumes "lv_filterChecked v" "c \<in> set (lv_input v)" "ascii_lower c \<noteq> c"
  shows "\<not> lets_through v e"
proof
  assume "lets_through v e"
  then obtain a b where "map ascii_lower e = a @ lv_input v @ b" using assms(1) by (auto simp: lets_through_def includes_conv)
  then have "c \<in> set (map ascii_lower e)" using assms(2) by auto
  then obtain d where "c = ascii_lower d" by auto
  moreover have "ascii_lower (ascii_lower d) = ascii_lower d" by (rule ascii_lower_idem)
  ultimately show False using assms(3) by simp
qed

text \<open>Before a container is selected the label of the menu is that of an undefined one.\<close>

lemma no_container_label: "commonName lcs [] = ''/undefined''"
  by (simp add: commonName_def common_names_def)

end
