(* ===== verification/Shell.thy ===== *)
theory Shell
  imports Terminal Actions
begin

text \<open>
  What surrounds the pages: the guard of the session (\<^verbatim>\<open>src/containers/Authenticated.js\<close> with
  \<^verbatim>\<open>components/LoginDialog.js\<close>), the header and its dialogs (\<^verbatim>\<open>components/Header.js\<close>,
  \<^verbatim>\<open>ErrorsDialog.js\<close>, \<^verbatim>\<open>FiltersDialog.js\<close>, \<^verbatim>\<open>Breadcrumbs.js\<close>) and the box of filters
  (\<^verbatim>\<open>components/FilterBox.js\<close>).
\<close>

section \<open>The guard of the session\<close>

text \<open>
  \<open>gd_pending\<close> are the requests for the user that have not been answered: a refresh, or the first one.
  \<open>gd_commands\<close> are the actions dispatched.
\<close>

datatype session_command = InitializeSession json | InvalidateSession

record guard =
  gd_credsLink :: json
  gd_loginLinks :: "json list"
  gd_loginError :: "string option"
  gd_fetching :: bool
  gd_pending :: "bool list"
  gd_commands :: "session_command list"

definition new_guard :: guard where
  "new_guard = \<lparr>gd_credsLink = JNull, gd_loginLinks = [], gd_loginError = None, gd_fetching = False,
     gd_pending = [], gd_commands = []\<rparr>"

text \<open>The links of the methods that need no form, completed to return to the page at \<open>location\<close>\<close>

definition login_link :: "string \<Rightarrow> string \<Rightarrow> json \<Rightarrow> json option" where
  "login_link origin location method1 = do {
     url \<leftarrow> jget method1 ''url'';
     let u = to_str url @ ''?target='' @ encodeURIComponent location;
     jset ''url'' (JStr (if starts_with ''/'' u then origin @ u else u)) method1
   }"

definition add_method :: "string \<Rightarrow> string \<Rightarrow> json \<Rightarrow> json \<times> json list \<Rightarrow> (json \<times> json list) option" where
  "add_method origin location method1 s = do {
     creds \<leftarrow> jget method1 ''post_creds'';
     if truthy creds then Some (method1, snd s)
     else map_option (\<lambda>l. (fst s, snd s @ [l])) (login_link origin location method1)
   }"

definition method_id :: "json \<Rightarrow> string option" where
  "method_id m = (case jget m ''id'' of Some (JStr s) \<Rightarrow> Some s | _ \<Rightarrow> None)"

definition login_methods_end :: "string \<Rightarrow> string \<Rightarrow> json \<Rightarrow> guard \<Rightarrow> guard option" where
  "login_methods_end origin location answer g = do {
     methods \<leftarrow> jget answer ''login_methods'';
     ms \<leftarrow> iter_of methods;
     (creds, links) \<leftarrow> foldM (add_method origin location) ms (JNull, []);
     if length links > 1 \<and> (\<exists>l \<in> set links. method_id l = None) then None
     else Some (g\<lparr>gd_credsLink := creds,
                  gd_loginLinks := sort_by (\<lambda>a b. lex_cmp (the (method_id a)) (the (method_id b))) links\<rparr>)
   }"

text \<open>\<open>user\<close> is the property, from the session slice. A refresh is only made for a user.\<close>

definition updateUserInfo :: "guard \<Rightarrow> guard" where
  "updateUserInfo g = (if gd_fetching g then g else g\<lparr>gd_fetching := True, gd_pending := gd_pending g @ [False]\<rparr>)"

definition updateSession :: "json \<Rightarrow> guard \<Rightarrow> guard" where
  "updateSession user g =
     (if \<not> gd_fetching g \<and> truthy user then g\<lparr>gd_fetching := True, gd_pending := gd_pending g @ [True]\<rparr> else g)"

text \<open>
  The answer to a request for the user: a refusal stands for an empty object. A request that fails, or whose
  answer is not JSON, rejects the promise, which nothing handles; so does a payload without properties.
\<close>

datatype user_answer = NetworkError | Refused | Payload json

definition payload_user :: "user_answer \<Rightarrow> json option" where
  "payload_user a = (case a of NetworkError \<Rightarrow> None | Refused \<Rightarrow> Some JUndef | Payload p \<Rightarrow> jget p ''user'')"

definition updateUserInfo_end :: "json \<Rightarrow> user_answer \<Rightarrow> guard \<Rightarrow> guard" where
  "updateUserInfo_end user a g =
     (let g1 = (if a = NetworkError then g else g\<lparr>gd_fetching := False\<rparr>)
      in case payload_user a of
           None \<Rightarrow> g1
         | Some u \<Rightarrow>
             if \<not> strict_eq (JBool (truthy u)) user then g1\<lparr>gd_commands := gd_commands g1 @ [InitializeSession u]\<rparr>
             else if \<not> truthy u then g1\<lparr>gd_commands := gd_commands g1 @ [InvalidateSession]\<rparr> else g1)"

definition updateSession_end :: "user_answer \<Rightarrow> guard \<Rightarrow> guard" where
  "updateSession_end a g =
     (let g1 = (if a = NetworkError then g else g\<lparr>gd_fetching := False\<rparr>)
      in case payload_user a of
           None \<Rightarrow> g1
         | Some u \<Rightarrow> if \<not> truthy u then g1\<lparr>gd_commands := gd_commands g1 @ [InvalidateSession]\<rparr> else g1)"

definition componentDidMount_guard :: "guard \<Rightarrow> guard" where
  "componentDidMount_guard g = updateUserInfo g"

text \<open>What \<^verbatim>\<open>handleLogin\<close> posts, and what it does with the answer's status and body\<close>

definition login_body :: "string \<Rightarrow> string \<Rightarrow> string" where
  "login_body username password = ''username='' @ encodeURIComponent username @ ''&password='' @ encodeURIComponent password"

definition handleLogin_end :: "bool \<Rightarrow> int \<Rightarrow> json \<Rightarrow> guard \<Rightarrow> guard option" where
  "handleLogin_end is_ok status json g =
     (if is_ok then map_option (\<lambda>u. g\<lparr>gd_commands := gd_commands g @ [InitializeSession u]\<rparr>) (jget json ''user'')
      else Some (g\<lparr>gd_loginError := Some (if status = 401 then ''username and/or password mismatch''
                                            else ''authentication error occurred'')\<rparr>))"

text \<open>The dialog is open for an initialised session without a user.\<close>

definition login_open :: "session_state \<Rightarrow> bool" where
  "login_open s \<longleftrightarrow> ss_initialized s \<and> \<not> truthy (ss_user s)"

datatype login_icon = Picture json | OidcIcon | PwfileIcon | SamlIcon | AnonymousIcon | NoIcon

definition getIcon :: "json \<Rightarrow> login_icon option" where
  "getIcon loginMethod = do {
     icon \<leftarrow> jget loginMethod ''icon'';
     if truthy icon then Some (Picture icon)
     else do {
       type \<leftarrow> jget loginMethod ''type'';
       Some (if type = JStr ''oidc'' then OidcIcon else if type = JStr ''pwfile'' then PwfileIcon
             else if type = JStr ''saml'' then SamlIcon else if type = JStr ''anonymous'' then AnonymousIcon else NoIcon)
     }
   }"

text \<open>The labels of the buttons, and of the form\<close>

definition method_label :: "json \<Rightarrow> string option" where
  "method_label m = do { d \<leftarrow> jget m ''desc''; n \<leftarrow> jget m ''name''; Some (''login with '' @ to_str (js_or d n)) }"

section \<open>The header\<close>

record header =
  hd_open :: bool
  hd_profileOpen :: bool
  hd_filtersOpen :: bool
  hd_latestErrorOpen :: bool
  hd_latestError :: "error_entry option"
  hd_location :: string
  hd_previousLocation :: "string option"
  hd_version :: "string option"

text \<open>What the store supplies; locations are compared by identity, here by their text.\<close>

record header_props =
  hp_user :: json
  hp_errors :: "error_entry list"
  hp_latestError :: "error_entry option"
  hp_location :: string
  hp_editing :: bool

definition new_header :: "header_props \<Rightarrow> header" where
  "new_header props =
     \<lparr>hd_open = False, hd_profileOpen = False, hd_filtersOpen = False, hd_latestErrorOpen = (hp_latestError props \<noteq> None),
      hd_latestError = hp_latestError props, hd_location = hp_location props, hd_previousLocation = None, hd_version = None\<rparr>"

definition handleLatestErrorRequestClose :: "header \<times> int \<times> errors_state \<Rightarrow> header \<times> int \<times> errors_state" where
  "handleLatestErrorRequestClose s = ((fst s)\<lparr>hd_latestErrorOpen := False\<rparr>, clearLatestError (snd s))"

definition handleOpen :: "header \<Rightarrow> header" where
  "handleOpen h = h\<lparr>hd_open := True, hd_profileOpen := False\<rparr>"

definition handleClose_header :: "header \<Rightarrow> header" where
  "handleClose_header h = h\<lparr>hd_open := False\<rparr>"

definition handleOpenFilters :: "header \<Rightarrow> header" where
  "handleOpenFilters h = h\<lparr>hd_open := False, hd_filtersOpen := True, hd_profileOpen := False\<rparr>"

definition handleCloseFilters :: "header \<Rightarrow> header" where
  "handleCloseFilters h = h\<lparr>hd_filtersOpen := False\<rparr>"

definition handleProfileTouchTap :: "header \<Rightarrow> header" where
  "handleProfileTouchTap h = h\<lparr>hd_profileOpen := True\<rparr>"

definition handleProfileRequestClose :: "header \<Rightarrow> header" where
  "handleProfileRequestClose h = h\<lparr>hd_profileOpen := False\<rparr>"

definition handleLogout :: "header \<times> session_command list \<Rightarrow> header \<times> session_command list" where
  "handleLogout s = ((fst s)\<lparr>hd_profileOpen := False, hd_filtersOpen := False, hd_open := False\<rparr>, snd s @ [InvalidateSession])"

text \<open>\<^verbatim>\<open>version.split(/-|\+/)\<close>\<close>

fun split_version :: "string \<Rightarrow> string list" where
  "split_version [] = [[]]"
| "split_version (c # s) =
     (if c = CHR ''-'' \<or> c = CHR ''+'' then [] # split_version s
      else (case split_version s of [] \<Rightarrow> [[c]] | w # ws \<Rightarrow> (c # w) # ws))"

definition requestVersion_end :: "string option \<Rightarrow> header \<Rightarrow> header" where
  "requestVersion_end answer h =
     h\<lparr>hd_version := (case answer of
         Some (c # v) \<Rightarrow> (let parts = split_version (c # v)
                       in Some (join ''-'' (take 2 parts) @ (if length parts > 2 then ''+'' else [])))
       | a \<Rightarrow> a)\<rparr>"

definition componentWillReceiveProps_header :: "header_props \<Rightarrow> header \<Rightarrow> header" where
  "componentWillReceiveProps_header props h =
     (let h1 = (if hd_open h \<and> hp_errors props = [] then h\<lparr>hd_open := False\<rparr> else h);
          h2 = (if hp_latestError props \<noteq> hd_latestError h
                then (let h' = h1\<lparr>hd_latestError := hp_latestError props\<rparr>
                      in if \<not> hp_editing props then h'\<lparr>hd_latestErrorOpen := (hp_latestError props \<noteq> None)\<rparr> else h')
                else h1)
      in if hp_location props \<noteq> hd_location h
         then h2\<lparr>hd_previousLocation := Some (hd_location h), hd_location := hp_location props\<rparr> else h2)"

definition shouldComponentUpdate_header :: "header_props \<Rightarrow> header_props \<Rightarrow> header \<Rightarrow> header \<Rightarrow> bool" where
  "shouldComponentUpdate_header props nextProps st next1 \<longleftrightarrow>
     hp_latestError nextProps \<noteq> hp_latestError props \<or> length (hp_errors nextProps) \<noteq> length (hp_errors props)
     \<or> hp_user nextProps \<noteq> hp_user props \<or> hp_location nextProps \<noteq> hp_location props
     \<or> hd_open next1 \<noteq> hd_open st \<or> hd_latestErrorOpen next1 \<noteq> hd_latestErrorOpen st
     \<or> hd_previousLocation next1 \<noteq> hd_previousLocation st \<or> hd_profileOpen next1 \<noteq> hd_profileOpen st
     \<or> hd_filtersOpen next1 \<noteq> hd_filtersOpen st"

text \<open>The bar of the latest error: its message, and the text and action of its button\<close>

definition error_bar :: "header_props \<Rightarrow> header \<Rightarrow> (json \<times> json \<times> bool) option" where
  "error_bar props h =
     (if hd_latestErrorOpen h
      then Some (case hp_latestError props of
          Some e \<Rightarrow> (er_message e, er_retryText e, er_retries e) | None \<Rightarrow> (JStr [], JStr [], False))
      else None)"

definition filters_dialog_open :: "header_props \<Rightarrow> header \<Rightarrow> bool" where
  "filters_dialog_open props h \<longleftrightarrow> hd_filtersOpen h \<and> truthy (hp_user props)"

text \<open>The rows of the dialog of errors: message, and whether a retry is offered (the object \<^verbatim>\<open>retry\<close> always exists).\<close>

definition error_rows :: "error_entry list \<Rightarrow> (int \<times> json \<times> bool) list" where
  "error_rows errors = map (\<lambda>e. (er_id e, er_message e, True)) errors"

definition shouldComponentUpdate_errors :: "error_entry list \<times> bool \<Rightarrow> error_entry list \<times> bool \<Rightarrow> bool" where
  "shouldComponentUpdate_errors props nextProps \<longleftrightarrow>
     length (fst nextProps) \<noteq> length (fst props) \<or> snd nextProps \<noteq> snd props"

section \<open>Breadcrumbs\<close>

text \<open>A crumb is its text and link; the text of the last one is markup, which reads as below in its link.\<close>

definition parseFromPath :: "(string \<times> string) option \<Rightarrow> string \<Rightarrow> (string \<times> string) list" where
  "parseFromPath previousLocation path =
     (let rel = drop 1 path
      in if rel = [] then []
         else (let parts = split_on (CHR ''/'') rel; base = CHR ''/'' # hd parts;
                   link = (case previousLocation of Some (p, search) \<Rightarrow> if p = base then base @ search else base | None \<Rightarrow> base)
               in (hd parts, link) #
                  (if tl parts = [] then []
                   else [(join '' / '' (butlast (tl parts)) @ '' / '' @ last parts, base @ ''/[object Object]'')])))"

section \<open>Requests for the user\<close>

text \<open>The events of a guard: the first request, the timer of refreshes, and the answers.\<close>

datatype guard_event = GuardMounted | Tick json | Answered json user_answer

fun guard_step :: "guard_event \<Rightarrow> guard \<Rightarrow> guard" where
  "guard_step GuardMounted g = componentDidMount_guard g"
| "guard_step (Tick user) g = updateSession user g"
| "guard_step (Answered user a) g =
     (case gd_pending g of
        [] \<Rightarrow> g
      | refresh # rest \<Rightarrow> (if refresh then updateSession_end a else updateUserInfo_end user a) (g\<lparr>gd_pending := rest\<rparr>))"

definition guard_ok :: "guard \<Rightarrow> bool" where
  "guard_ok g \<longleftrightarrow> length (gd_pending g) \<le> 1 \<and> (gd_pending g \<noteq> [] \<longrightarrow> gd_fetching g)"

lemma answers_pending [simp]:
  "gd_pending (updateSession_end a g) = gd_pending g" "gd_pending (updateUserInfo_end u a g) = gd_pending g"
  by (simp_all add: updateSession_end_def updateUserInfo_end_def Let_def split: option.split)

lemma answers_fetching:
  "gd_fetching (updateSession_end a g) \<longleftrightarrow> gd_fetching g \<and> a = NetworkError"
  "gd_fetching (updateUserInfo_end u a g) \<longleftrightarrow> gd_fetching g \<and> a = NetworkError"
  by (auto simp: updateSession_end_def updateUserInfo_end_def Let_def split: option.split)

lemma guard_ok_step: "guard_ok g \<Longrightarrow> guard_ok (guard_step e g)"
  by (cases e)
    (auto simp: guard_ok_def componentDidMount_guard_def updateUserInfo_def updateSession_def answers_fetching split: list.splits)

text \<open>One request for the user is under way at a time.\<close>

lemma one_user_request: "guard_ok (fold guard_step es new_guard)"
proof -
  have "guard_ok (fold guard_step es g)" if "guard_ok g" for g
    using that by (induction es arbitrary: g) (simp_all add: guard_ok_step)
  then show ?thesis by (simp add: guard_ok_def new_guard_def)
qed

text \<open>
  A request that fails leaves \<^verbatim>\<open>fetching\<close> set for ever: the session is never refreshed again, and its end is
  not noticed.
\<close>

lemma failure_ends_refreshing:
  assumes "guard_ok g" "gd_pending g = [r]"
  shows "fold guard_step es (guard_step (Answered user NetworkError) g) = guard_step (Answered user NetworkError) g"
proof -
  define h where "h = guard_step (Answered user NetworkError) g"
  have h: "gd_pending h = []" "gd_fetching h"
    using assms by (auto simp: h_def guard_ok_def answers_fetching)
  have "guard_step e h = h" for e
    using h by (cases e) (simp_all add: componentDidMount_guard_def updateUserInfo_def updateSession_def)
  then have "fold guard_step es h = h" by (induction es) simp_all
  then show ?thesis by (simp only: h_def)
qed

text \<open>
  A truth value is compared with the user itself, so the answer always initialises the session, also for an
  answer without a user; the branch that invalidates it is never taken.
\<close>

lemma user_info_always_initializes:
  assumes "payload_user a = Some u" "\<forall>b. user \<noteq> JBool b"
  shows "gd_commands (updateUserInfo_end user a g) = gd_commands g @ [InitializeSession u]"
  using assms by (cases user) (auto simp: updateUserInfo_end_def Let_def strict_eq.simps)

section \<open>Flaws of the header\<close>

text \<open>An error that arrives while an editor is open is never announced: afterwards it is no longer new.\<close>

lemma error_during_editing_not_announced:
  assumes "hp_editing props" "hp_latestError props = Some e" "\<not> hd_latestErrorOpen h" "\<not> hp_editing props1" "hp_latestError props1 = Some e"
  shows "\<not> hd_latestErrorOpen (componentWillReceiveProps_header props1 (componentWillReceiveProps_header props h))"
  using assms by (simp add: componentWillReceiveProps_header_def Let_def)

text \<open>The dialog of errors compares their number: an error that replaces another one is not shown.\<close>

lemma replaced_error_not_shown: "\<not> shouldComponentUpdate_errors ([a], True) ([b], True)"
  by (simp add: shouldComponentUpdate_errors_def)

text \<open>A retry is offered for an error that has none.\<close>

lemma retry_always_offered: "er_retries e = False \<Longrightarrow> error_rows [e] = [(er_id e, er_message e, True)]"
  by (simp add: error_rows_def)

lemma version_examples:
  "map_option (\<lambda>v. hd_version (requestVersion_end (Some v) (new_header \<lparr>hp_user = JNull, hp_errors = [], hp_latestError = None, hp_location = [], hp_editing = False\<rparr>)))
     (Some ''v1.2-3+dirty'') = Some (Some ''v1.2-3+'')"
  by (simp add: requestVersion_end_def Let_def numeral_2_eq_2)

end
