(* ===== verification/FilterBoxes.thy ===== *)
theory FilterBoxes
  imports Slices Actions
begin

text \<open>
  The widgets that choose what is shown: the box of filters above the tables,
  \<^verbatim>\<open>src/components/FilterBox.js\<close>, and the dialog of namespaces and kinds,
  \<^verbatim>\<open>src/components/FiltersDialog.js\<close>.
\<close>

section \<open>The box of filters\<close>

text \<open>
  The texts shown; deleting an element of the array leaves a hole, \<^term>\<open>None\<close>. \<open>fb_maxFilters\<close> is
  \<^term>\<open>None\<close> for the default, the greatest integer.
\<close>

record filter_box =
  fb_filterNames :: "string option list"
  fb_maxFilters :: "nat option"
  fb_removeFirstOnMax :: bool

definition new_filter_box :: "nat option \<Rightarrow> bool \<Rightarrow> string list \<Rightarrow> filter_box" where
  "new_filter_box maxFilters removeFirstOnMax filterNames =
     \<lparr>fb_filterNames = map Some filterNames, fb_maxFilters = maxFilters, fb_removeFirstOnMax = removeFirstOnMax\<rparr>"

definition componentWillReceiveProps_box :: "string list \<Rightarrow> filter_box \<Rightarrow> filter_box" where
  "componentWillReceiveProps_box filterNames b =
     (if length filterNames \<noteq> length (fb_filterNames b) then b\<lparr>fb_filterNames := map Some filterNames\<rparr> else b)"

text \<open>
  The loop that makes room: what is left, and what \<^verbatim>\<open>removeFilter\<close> is called with. With a maximum of 0
  it never ends.
\<close>

fun make_room :: "nat \<Rightarrow> 'a list \<Rightarrow> ('a list \<times> 'a list) option" where
  "make_room n [] = (if n = 0 then None else Some ([], []))"
| "make_room n (x # xs) =
     (if length (x # xs) \<ge> n then map_option (\<lambda>(kept, removed). (kept, x # removed)) (make_room n xs) else Some (x # xs, []))"

text \<open>The new box, the texts removed at once, and whether \<^verbatim>\<open>addFilter\<close> is called later.\<close>

definition handleAddFilter :: "string \<Rightarrow> filter_box \<Rightarrow> (filter_box \<times> string option list \<times> bool) option" where
  "handleAddFilter filter1 b = do {
     (names, removed) \<leftarrow> (case (fb_removeFirstOnMax b, fb_maxFilters b) of
         (True, Some n) \<Rightarrow> make_room n (fb_filterNames b) | _ \<Rightarrow> Some (fb_filterNames b, []));
     if (case fb_maxFilters b of Some n \<Rightarrow> length names < n | None \<Rightarrow> True)
     then Some (b\<lparr>fb_filterNames := names @ [Some (normalizeFilter (splitFilter filter1))]\<rparr>, removed, True)
     else Some (b, removed, False)
   }"

definition handleRemoveFilter :: "nat \<Rightarrow> filter_box \<Rightarrow> filter_box" where
  "handleRemoveFilter index b =
     b\<lparr>fb_filterNames := (if index < length (fb_filterNames b) then (fb_filterNames b)[index := None] else fb_filterNames b)\<rparr>"

text \<open>The label of a chip: field and value\<close>

definition chip_label :: "string \<Rightarrow> string \<times> string" where
  "chip_label value1 =
     (case split_on (CHR '':'') value1 of
        p # q # ps \<Rightarrow> (p @ '':'', join '':'' (q # ps))
      | [p] \<Rightarrow> (''*:'', p)
      | [] \<Rightarrow> ([], []))"

section \<open>The box and the store\<close>

text \<open>
  A box with the defaults and the filters of the store. A chip that is added or removed changes the box at
  once and the store later; when the texts of the store have changed, the box receives them. Adding a filter
  that is there leaves the store as it is.
\<close>

type_synonym box_world = "filter_box \<times> filter_state"

definition box_add :: "string \<Rightarrow> box_world \<Rightarrow> box_world option" where
  "box_add f w = do {
     (b, _, later) \<leftarrow> handleAddFilter f (fst w);
     let (fs, modified) = addFilter (fst (snd w)) (snd (snd w)) [f];
     Some (if later \<and> modified then (componentWillReceiveProps_box (snd fs) b, fs) else (b, snd w))
   }"

text \<open>The chip at \<open>index\<close> is removed with its text.\<close>

definition box_remove :: "nat \<Rightarrow> box_world \<Rightarrow> box_world option" where
  "box_remove index w =
     (if index < length (fb_filterNames (fst w))
      then do {
        f \<leftarrow> fb_filterNames (fst w) ! index;
        let fs = removeFilter (fst (snd w)) (snd (snd w)) f (Some (int index));
        Some (componentWillReceiveProps_box (snd fs) (handleRemoveFilter index (fst w)), fs)
      }
      else None)"






section \<open>The dialog of namespaces and kinds\<close>

text \<open>What the table reports: every row, none of them, or their indexes; the first two are the texts \<^verbatim>\<open>all\<close> and \<^verbatim>\<open>none\<close>.\<close>

datatype row_selection = AllRows | NoRows | Rows "nat list"

record filters_dialog =
  fd_save :: bool
  fd_namespaces :: "bool obj"
  fd_kinds :: "bool obj"
  fd_allNamespaces :: "string list"
  fd_allKinds :: "string list"

text \<open>The properties are missing (\<^term>\<open>None\<close>) until loaded; sorting works on the array of the store itself.\<close>

definition parseNamespacesAndKinds :: "string list option \<Rightarrow> json obj option \<Rightarrow> filters_dialog \<Rightarrow> filters_dialog" where
  "parseNamespacesAndKinds namespaces kinds d =
     d\<lparr>fd_allNamespaces := (case namespaces of Some ns \<Rightarrow> sort_strs ns | None \<Rightarrow> fd_allNamespaces d),
       fd_allKinds := (case kinds of Some ks \<Rightarrow> sort_strs (filter (\<lambda>k. k \<notin> set excludedKinds) (okeys ks)) | None \<Rightarrow> fd_allKinds d)\<rparr>"

definition new_filters_dialog :: "string list option \<Rightarrow> json obj option \<Rightarrow> settings \<Rightarrow> filters_dialog" where
  "new_filters_dialog namespaces kinds s =
     parseNamespacesAndKinds namespaces kinds
       \<lparr>fd_save = True, fd_namespaces = us_selectedNamespaces s, fd_kinds = us_selectedKinds s,
        fd_allNamespaces = [], fd_allKinds = []\<rparr>"

definition componentWillReceiveProps_filters :: "string list option \<Rightarrow> json obj option \<Rightarrow> settings \<Rightarrow> filters_dialog \<Rightarrow> filters_dialog" where
  "componentWillReceiveProps_filters namespaces kinds s d =
     (parseNamespacesAndKinds namespaces kinds d)\<lparr>fd_namespaces := us_selectedNamespaces s, fd_kinds := us_selectedKinds s\<rparr>"

text \<open>The text \<^verbatim>\<open>none\<close> has four characters, each of which is no index of the array: undefined is selected.\<close>

definition selected_rows :: "string list \<Rightarrow> row_selection \<Rightarrow> bool obj" where
  "selected_rows all1 selection =
     (case selection of
        AllRows \<Rightarrow> []
      | NoRows \<Rightarrow> if 4 < length all1 then oset ''undefined'' True [] else []
      | Rows is \<Rightarrow> if length is < length all1
                   then fold (\<lambda>i. oset (if i < length all1 then all1 ! i else ''undefined'') True) is [] else [])"

definition handleNamespaceSelection :: "row_selection \<Rightarrow> filters_dialog \<Rightarrow> filters_dialog" where
  "handleNamespaceSelection selection d = d\<lparr>fd_namespaces := selected_rows (fd_allNamespaces d) selection\<rparr>"

definition handleKindSelection :: "row_selection \<Rightarrow> filters_dialog \<Rightarrow> filters_dialog" where
  "handleKindSelection selection d = d\<lparr>fd_kinds := selected_rows (fd_allKinds d) selection\<rparr>"

definition updateCheckSave :: "bool \<Rightarrow> filters_dialog \<Rightarrow> filters_dialog" where
  "updateCheckSave checked d = d\<lparr>fd_save := checked\<rparr>"

definition applyChanges_filters :: "filters_dialog \<Rightarrow> settings \<times> settings option \<Rightarrow> settings \<times> settings option" where
  "applyChanges_filters d s = settings_reducer (PutSettings (Some (fd_namespaces d)) (Some (fd_kinds d)) (fd_save d)) s"

text \<open>The rows that are marked; without a selection all are.\<close>

definition marked_rows :: "string list \<Rightarrow> bool obj \<Rightarrow> bool list" where
  "marked_rows all1 selected = map (\<lambda>n. ohas n selected \<or> selected = []) all1"

lemma okeys_selected:
  "list_all (\<lambda>i. i < length all1) is \<Longrightarrow> ohas n (fold (\<lambda>i. oset (if i < length all1 then all1 ! i else ''undefined'') True) is o1) \<longleftrightarrow>
     ohas n o1 \<or> (\<exists>i \<in> set is. n = all1 ! i)"
  by (induction "is" arbitrary: o1) auto

lemma fold_oset_Nil: "fold (\<lambda>i. oset (f i) True) is o1 = [] \<longleftrightarrow> is = [] \<and> o1 = []"
  by (induction "is" arbitrary: o1) auto

section \<open>The properties\<close>







text \<open>What is chosen in the dialog and applied is what it marks when it is opened again: the rows of some
  but not all namespaces, chosen by their indexes, and no others.\<close>

lemma chosen_namespaces_are_marked:
  assumes "distinct (fd_allNamespaces d)" "is \<noteq> []" "length is < length (fd_allNamespaces d)"
    and "list_all (\<lambda>i. i < length (fd_allNamespaces d)) is"
    and "applyChanges_filters (handleNamespaceSelection (Rows is) d) s = (s1, saved)"
  shows "marked_rows (fd_allNamespaces d) (us_selectedNamespaces s1) = map (\<lambda>i. i \<in> set is) [0..<length (fd_allNamespaces d)]"
proof (rule nth_equalityI)
  let ?sel = "selected_rows (fd_allNamespaces d) (Rows is)"
  have s1: "us_selectedNamespaces s1 = ?sel"
    using assms(5) by (auto simp: applyChanges_filters_def handleNamespaceSelection_def doSelect_def Let_def split: if_splits)
  have ne: "?sel \<noteq> []" using assms(2,3) by (simp add: selected_rows_def fold_oset_Nil)
  fix i assume "i < length (marked_rows (fd_allNamespaces d) (us_selectedNamespaces s1))"
  then have i: "i < length (fd_allNamespaces d)" by (simp add: marked_rows_def)
  have "ohas (fd_allNamespaces d ! i) ?sel \<longleftrightarrow> (\<exists>j \<in> set is. fd_allNamespaces d ! i = fd_allNamespaces d ! j)"
    using assms(3) okeys_selected [OF assms(4)] by (simp add: selected_rows_def)
  also have "\<dots> \<longleftrightarrow> i \<in> set is"
    using assms(1,4) i by (auto simp: nth_eq_iff_index_eq list_all_iff)
  finally show "marked_rows (fd_allNamespaces d) (us_selectedNamespaces s1) ! i = map (\<lambda>i. i \<in> set is) [0..<length (fd_allNamespaces d)] ! i"
    using i ne s1 by (simp add: marked_rows_def)
qed (simp add: marked_rows_def)

section \<open>Flaws\<close>

text \<open>Texts that change without changing in number, as when going back in history, do not reach the box.\<close>

lemma same_number_not_received:
  "length names = length (fb_filterNames b) \<Longrightarrow> componentWillReceiveProps_box names b = b"
  by (simp add: componentWillReceiveProps_box_def)

text \<open>
  A filter that is there already is shown a second time. Removing that chip removes the filter but not its
  text: the store shows a filter that it no longer applies.
\<close>

lemma duplicate_chip_breaks_store:
  "\<exists>w b. foldM box_add [''a:b'', ''a:b''] (new_filter_box None False [], ([], [])) = Some w
     \<and> fb_filterNames (fst w) = [Some ''a:b'', Some ''a:b''] \<and> box_remove 1 w = Some (b, ([], [''a:b'']))"
  by (simp add: box_add_def handleAddFilter_def new_filter_box_def addFilter_def addFilter1_def splitFilter_def
      normalizeFilter_def bang_def starts_with_def has_filter_def values_of_def oset_def componentWillReceiveProps_box_def
      box_remove_def removeFilter_def odel_def splice1_def handleRemoveFilter_def Let_def)

text \<open>Taking every namespace off, when there are more than four, selects the undefined one: nothing is shown.\<close>

lemma no_namespaces_selects_undefined:
  "4 < length (fd_allNamespaces d) \<Longrightarrow> fd_namespaces (handleNamespaceSelection NoRows d) = [(''undefined'', True)]"
  by (simp add: handleNamespaceSelection_def selected_rows_def oset_def)

text \<open>What has been chosen but not applied is lost when the store changes.\<close>

lemma choice_is_overwritten: "fd_namespaces (componentWillReceiveProps_filters ns ks s d) = us_selectedNamespaces s"
  by (simp add: componentWillReceiveProps_filters_def)

end
