(* ===== verification/Dashboard.thy ===== *)
theory Dashboard
  imports Demo Events Access Actions Links Summary NodesTab HexChart ResourcesLaws
begin

text \<open>
  The panels of the overview, \<^verbatim>\<open>src/components/dashboard\<close>: the problems with their tabs, the counts, the
  recent updates, the boxes of figures, the charts of namespaces and of nodes, and when
  \<^verbatim>\<open>src/containers/Overview.js\<close> requests and draws. Numbers of metrics are rationals.
\<close>

section \<open>Problems\<close>

definition in_namespaces :: "bool obj \<Rightarrow> resource \<Rightarrow> bool option" where
  "in_namespaces selectedNamespaces x =
     (if selectedNamespaces = [] then Some True
      else map_option (\<lambda>ns. ohas (to_str ns) selectedNamespaces) (metadata_of x ''namespace''))"

record problem =
  pb_resource :: ref
  pb_events :: "event list"

record problems =
  pr_workload :: "problem list"
  pr_cluster :: "problem list"

definition warning_event :: "event \<Rightarrow> bool option" where
  "warning_event e = do {
     ty \<leftarrow> jget (ev_object e) ''type'';
     reason \<leftarrow> jget (ev_object e) ''reason'';
     Some (strict_eq ty (JStr ''Warning'') \<or> strict_eq ty (JStr ''Error'') \<or> strict_eq reason (JStr ''NodeNotReady''))
   }"

text \<open>The event made up for a condition.\<close>

definition simulated_event :: "json \<Rightarrow> json \<Rightarrow> event option" where
  "simulated_event uid cond = do {
     reason \<leftarrow> jget cond ''reason''; message \<leftarrow> jget cond ''message''; since \<leftarrow> jget cond ''lastTransitionTime'';
     Some \<lparr>ev_object = JObj [(''type'', reason), (''metadata'', JObj [(''uid'', uid)]), (''message'', message),
                             (''lastTimestamp'', since)],
           ev_type = JUndef, ev_key = JUndef\<rparr>
   }"

definition unready :: "json \<Rightarrow> bool option" where
  "unready cond = do {
     ty \<leftarrow> jget cond ''type''; st \<leftarrow> jget cond ''status'';
     Some (strict_eq ty (JStr ''Ready'') \<and> \<not> strict_eq st (JStr ''True''))
   }"

definition condition_problem :: "ref \<Rightarrow> resource \<Rightarrow> json \<Rightarrow> problem list \<Rightarrow> problem list option" where
  "condition_problem r x cond ps = do {
     bad \<leftarrow> unready cond;
     if bad then do {
       uid \<leftarrow> metadata_of x ''uid'';
       e \<leftarrow> simulated_event uid cond;
       Some (ps @ [\<lparr>pb_resource = r, pb_events = [e]\<rparr>])
     } else Some ps
   }"

text \<open>\<^verbatim>\<open>conditions.constructor === Array\<close>, which throws where there are no conditions\<close>

definition cluster_problems :: "ref \<Rightarrow> resource \<Rightarrow> problem list \<Rightarrow> problem list option" where
  "cluster_problems r x ps = do {
     st \<leftarrow> rget x ''status'';
     if \<not> truthy st then Some ps
     else do {
       conditions \<leftarrow> jget st ''conditions'';
       (case conditions of
          JUndef \<Rightarrow> None | JNull \<Rightarrow> None
        | JArr conds \<Rightarrow> foldM (condition_problem r x) conds ps
        | _ \<Rightarrow> Some ps)
     }
   }"

definition collect_problem :: "nat \<Rightarrow> heap \<Rightarrow> event obj obj \<Rightarrow> bool obj \<Rightarrow> ref \<Rightarrow> problems \<Rightarrow> problems option" where
  "collect_problem fuel h events selectedNamespaces r ps = do {
     x \<leftarrow> h r;
     inView \<leftarrow> in_namespaces selectedNamespaces x;
     if \<not> inView then Some ps
     else do {
       es \<leftarrow> eventsForResource fuel h events r;
       selectedEvents \<leftarrow> filterM warning_event es;
       if selectedEvents \<noteq> []
       then Some (ps\<lparr>pr_workload := pr_workload ps @ [\<lparr>pb_resource = r, pb_events = selectedEvents\<rparr>]\<rparr>)
       else map_option (\<lambda>c. ps\<lparr>pr_cluster := c\<rparr>) (cluster_problems r x (pr_cluster ps))
     }
   }"

definition collectProblems :: "nat \<Rightarrow> heap \<Rightarrow> ref obj \<Rightarrow> event obj obj \<Rightarrow> bool obj \<Rightarrow> problems option" where
  "collectProblems fuel h problemResources events selectedNamespaces =
     foldM (collect_problem fuel h events selectedNamespaces) (map snd problemResources)
       \<lparr>pr_workload = [], pr_cluster = []\<rparr>"

text \<open>The tabs. A key of \<^verbatim>\<open>problems\<close> exists where its list is not empty.\<close>

datatype problem_tab = Workload | Cluster

fun tab_problems :: "problems \<Rightarrow> problem_tab \<Rightarrow> problem list" where
  "tab_problems ps Workload = pr_workload ps"
| "tab_problems ps Cluster = pr_cluster ps"

record problems_panel =
  pp_problems :: problems
  pp_selectedTab :: problem_tab

definition default_tab :: "problems \<Rightarrow> problem_tab" where
  "default_tab ps = (if pr_workload ps \<noteq> [] then Workload else Cluster)"

definition new_problems_panel :: "problems \<Rightarrow> problems_panel" where
  "new_problems_panel problems = \<lparr>pp_problems = problems, pp_selectedTab = default_tab problems\<rparr>"

definition componentWillReceiveProps_problems :: "problems \<Rightarrow> problems_panel \<Rightarrow> problems_panel" where
  "componentWillReceiveProps_problems problems p =
     \<lparr>pp_problems = problems,
      pp_selectedTab = (if tab_problems problems (pp_selectedTab p) = [] then default_tab problems else pp_selectedTab p)\<rparr>"

definition handleChangeTab :: "problem_tab \<Rightarrow> problems_panel \<Rightarrow> problems_panel" where
  "handleChangeTab tab p = (if tab_problems (pp_problems p) tab \<noteq> [] then p\<lparr>pp_selectedTab := tab\<rparr> else p)"

section \<open>Counts and updates\<close>

text \<open>\<^verbatim>\<open>countsByKind\<close> is that of \<^verbatim>\<open>calculateTotals\<close>.\<close>

definition count_name :: "string \<Rightarrow> string" where
  "count_name kind =
     (if \<not> ends_with ''s'' kind then kind @ ''s'' else if ends_with ''ss'' kind then kind @ ''es'' else kind)"

definition counted_kinds :: "int obj \<Rightarrow> bool obj \<Rightarrow> string list" where
  "counted_kinds countsByKind selectedKinds =
     filter (\<lambda>kind. kind \<notin> set excludedKinds \<and> (selectedKinds = [] \<or> ohas kind selectedKinds))
       (sort_strs (okeys countsByKind))"

text \<open>A row of the counts: the text, its link and the count.\<close>

definition resource_counts ::
  "(query_value obj \<Rightarrow> string) \<Rightarrow> json \<Rightarrow> json obj \<Rightarrow> bool obj \<Rightarrow> bool obj \<Rightarrow> (string \<times> string \<times> int) list option" where
  "resource_counts stringify kubeKinds resources selectedNamespaces selectedKinds = do {
     countsByKind \<leftarrow> calculateTotals resources selectedNamespaces;
     foldM (\<lambda>kind items. do {
         link \<leftarrow> linkForKind stringify kubeKinds kind selectedNamespaces;
         Some (items @ [(count_name kind, link, total_of countsByKind kind)])
       }) (counted_kinds countsByKind selectedKinds) []
   }"

definition recent_updates :: "event list \<Rightarrow> bool obj \<Rightarrow> event list option" where
  "recent_updates recentEvents selectedNamespaces =
     (if selectedNamespaces = [] then Some recentEvents
      else filterM (\<lambda>e. map_option (\<lambda>ns. ohas (to_str ns) selectedNamespaces) (ev_meta ''namespace'' e)) recentEvents)"

section \<open>The overview\<close>

text \<open>The metrics and the resources are requested at the start, when there is a user, and when one comes.\<close>

definition overview_refetches :: "bool \<Rightarrow> bool \<Rightarrow> bool" where
  "overview_refetches user nextUser \<longleftrightarrow> nextUser \<and> \<not> user"

text \<open>The revisions and counts it is drawn from.\<close>

record overview_props =
  op_workloadsRevision :: "int option"
  op_resourceRevision :: int
  op_metricsRevision :: int
  op_eventsRevision :: int
  op_selectedNamespaces :: nat
  op_countsByNamespace :: nat

definition shouldComponentUpdate_overview :: "overview_props \<Rightarrow> overview_props \<Rightarrow> bool" where
  "shouldComponentUpdate_overview p q \<longleftrightarrow>
     op_workloadsRevision p \<noteq> op_workloadsRevision q \<or> op_resourceRevision p \<noteq> op_resourceRevision q
     \<or> op_metricsRevision p \<noteq> op_metricsRevision q \<or> op_eventsRevision p \<noteq> op_eventsRevision q
     \<or> op_selectedNamespaces p \<noteq> op_selectedNamespaces q \<or> op_countsByNamespace p \<noteq> op_countsByNamespace q"

section \<open>Figures\<close>

text \<open>The properties that are passed to a box, and the figures it computes, in the order it sets them.\<close>

definition rounded :: "rat \<Rightarrow> rat" where
  "rounded x = of_int \<lfloor>x + 1 / 2\<rfloor>"

text \<open>One pair of usage and total: its three figures and, where no utilization is known yet, the main ones.\<close>

definition add_pair :: "string \<Rightarrow> rat obj \<Rightarrow> rat obj \<Rightarrow> rat obj" where
  "add_pair p props data =
     (case (oget props (p @ ''Usage''), oget props (p @ ''Total'')) of
        (Some u, Some t) \<Rightarrow>
          if t > 0 then
            (let pct = rounded (100 * u / t);
                 data1 = oset (p @ ''Utilization'') pct (oset (p @ ''Total'') t (oset (p @ ''Usage'') u data))
             in if ohas ''utilization'' data1 then data1
                else oset ''utilization'' pct (oset ''total'' t (oset ''usage'' u data1)))
          else data
      | _ \<Rightarrow> data)"

definition box_data :: "rat obj \<Rightarrow> rat obj" where
  "box_data props =
     (let data1 = (case oget props ''total'' of Some t \<Rightarrow> if t \<noteq> 0 then [(''total'', t)] else [] | None \<Rightarrow> []);
          data2 = (case (oget props ''usage'', oget props ''total'') of
                     (Some u, Some t) \<Rightarrow> if t > 0 then oset ''utilization'' (rounded (100 * u / t)) (oset ''usage'' u data1) else data1
                   | _ \<Rightarrow> data1)
      in add_pair ''requests'' props (add_pair ''limits'' props data2))"

record info_box =
  ib_total :: "shown option"
  ib_usage :: "shown option"
  ib_data :: "rat obj"
  ib_units :: string

text \<open>A total that is not set stays undefined, and its units are kept.\<close>

definition infoBox :: "rat obj \<Rightarrow> string \<Rightarrow> info_box" where
  "infoBox props units =
     (let data = box_data props;
          newUnits = (case oget data ''total'' of Some t \<Rightarrow> snd (fixUnits t units) | None \<Rightarrow> units);
          data1 = (if newUnits \<noteq> units then map (\<lambda>(k, v). (k, conv (units, newUnits) v)) data else data)
      in \<lparr>ib_total = map_option (\<lambda>v. fixPrecision v 2) (oget data1 ''total''),
          ib_usage = map_option (\<lambda>v. fixPrecision v 2) (oget data1 ''usage''),
          ib_data = data1, ib_units = newUnits\<rparr>)"

text \<open>The number inside a pie, and its two slices.\<close>

definition pie_value :: "bool \<Rightarrow> rat \<Rightarrow> rat \<Rightarrow> shown" where
  "pie_value asPercent used total1 =
     (if total1 > 0 then
        (if asPercent then
           (let pct = 100 * used / total1
            in if pct < 1 / 10 then Text (drop 1 (to_fixed 2 pct))
               else if pct < 1 then Text (to_fixed 1 pct) else Number (rounded pct))
         else Number used)
      else Number 0)"

definition pie_data :: "rat \<Rightarrow> rat \<Rightarrow> (string \<times> rat) list" where
  "pie_data used total1 =
     (if total1 > 0 then [(''used'', used), (''free'', total1 - used)] else [(''used'', 0), (''free'', 100)])"

section \<open>Namespaces as bars\<close>

record bar_item =
  bi_name :: string
  bi_value :: rat

definition bar_metrics :: "string list" where
  "bar_metrics = [''cpu'', ''memory'', ''volumes'']"

text \<open>The items of each metric, and their maxima.\<close>

type_synonym bars = "bar_item list obj \<times> rat obj"

definition push_item :: "string \<Rightarrow> bar_item \<Rightarrow> bar_item list obj \<Rightarrow> bar_item list obj" where
  "push_item m i items = oset m ((case oget items m of Some is \<Rightarrow> is | None \<Rightarrow> []) @ [i]) items"

definition add_bar :: "rat obj obj \<Rightarrow> string \<Rightarrow> bars \<Rightarrow> bars option" where
  "add_bar namespaceRatios ns s =
     (if ns = [] then Some s
      else case oget namespaceRatios ns of
        Some ratios \<Rightarrow>
          foldM (\<lambda>m s. do {
              ratio \<leftarrow> oget ratios m;
              let u = 100 * ratio;
              Some (push_item m \<lparr>bi_name = ns, bi_value = u\<rparr> (fst s),
                    oset m (max u (case oget (snd s) m of Some x \<Rightarrow> x | None \<Rightarrow> u)) (snd s))
            }) bar_metrics s
      | None \<Rightarrow> Some (fold (\<lambda>m. push_item m \<lparr>bi_name = ns, bi_value = 0\<rparr>) bar_metrics (fst s), snd s))"

definition namespace_bars :: "string list \<Rightarrow> rat obj obj \<Rightarrow> bars option" where
  "namespace_bars namespaces namespaceRatios =
     foldM (add_bar namespaceRatios) namespaces ([], map (\<lambda>m. (m, - 100)) bar_metrics)"

text \<open>The selected namespaces come first.\<close>

definition by_selection :: "bool obj \<Rightarrow> bar_item \<Rightarrow> bar_item \<Rightarrow> int" where
  "by_selection selectedNamespaces a b =
     (let aSelected = ohas (bi_name a) selectedNamespaces; bSelected = ohas (bi_name b) selectedNamespaces
      in if aSelected \<and> \<not> bSelected then - 1 else if \<not> aSelected \<and> bSelected then 1
         else lex_cmp (bi_name a) (bi_name b))"

definition sorted_bars :: "bool obj \<Rightarrow> bar_item list \<Rightarrow> bar_item list" where
  "sorted_bars selectedNamespaces = sort_by (by_selection selectedNamespaces)"

text \<open>
  The ends of the bins: the loop over \<open>i\<close>, which does not end where the increment is not positive.
\<close>

function bin_ends :: "rat \<Rightarrow> rat \<Rightarrow> rat \<Rightarrow> rat list option" where
  "bin_ends increment limit i =
     (if i \<le> limit then
        (if increment > 0 then map_option ((#) i) (bin_ends increment limit (i + increment)) else None)
      else Some [])"
  by pat_completeness auto
termination
proof (relation "measure (\<lambda>(increment, limit, i). nat (\<lfloor>(limit - i) / increment\<rfloor> + 1))")
  fix increment limit i :: rat
  assume a: "i \<le> limit" "increment > 0"
  have "(limit - (i + increment)) / increment = (limit - i) / increment - 1"
    using a(2) by (simp add: field_simps)
  moreover have "(limit - i) / increment \<ge> 0" using a by simp
  ultimately show "((increment, limit, i + increment), increment, limit, i)
      \<in> measure (\<lambda>(increment, limit, i). nat (\<lfloor>(limit - i) / increment\<rfloor> + 1))"
    by simp
qed simp

declare bin_ends.simps [simp del]

text \<open>The segments of one bar, from the bottom: whether the value reaches into the bin.\<close>

definition bar_segments :: "rat \<Rightarrow> rat list \<Rightarrow> rat \<Rightarrow> bool list" where
  "bar_segments increment ends value = map (\<lambda>i. value \<ge> i - increment) ends"

text \<open>For \<open>min = 0\<close> and ten buckets, with which the chart is used; nothing is drawn without a positive maximum.\<close>

definition bar_increment :: "rat \<Rightarrow> rat" where
  "bar_increment max1 = (max1 - 0) / 10"

definition renderChart :: "bar_item list \<Rightarrow> rat \<Rightarrow> (string \<times> bool list) list option" where
  "renderChart items max1 =
     (if \<not> max1 > 0 then Some []
      else map_option (\<lambda>ends. map (\<lambda>d. (bi_name d, bar_segments (bar_increment max1) ends (bi_value d))) items)
             (bin_ends (bar_increment max1) (max1 + 1 / 10) (0 + bar_increment max1)))"

definition handleSelectNamespace :: "bool \<Rightarrow> string \<Rightarrow> bool obj \<Rightarrow> bool obj" where
  "handleSelectNamespace shiftKey selection selected =
     (if shiftKey then (if ohas selection selected then odel selection selected else oset selection True selected)
      else if length selected > 1 \<or> \<not> ohas selection selected then [(selection, True)] else [])"

section \<open>Nodes as hexagons\<close>

definition usageQuantiles :: "int list" where
  "usageQuantiles = [20, 40, 60, 80, 100]"

text \<open>
  \<^verbatim>\<open>Math.round(100 * usage / total)\<close>; \<^term>\<open>None\<close> is \<^verbatim>\<open>NaN\<close> or \<^verbatim>\<open>Infinity\<close>, which no quantile
  bounds. No usage is negative.
\<close>

definition usage_percent :: "rat \<Rightarrow> rat \<Rightarrow> int option" where
  "usage_percent usage1 total1 = (if total1 = 0 then None else Some \<lfloor>100 * usage1 / total1 + 1 / 2\<rfloor>)"

definition quantile_class :: "string \<Rightarrow> int option \<Rightarrow> string list" where
  "quantile_class m u =
     (case u of
        None \<Rightarrow> []
      | Some n \<Rightarrow> (case filter (\<lambda>q. n \<le> q) usageQuantiles of [] \<Rightarrow> [] | q # _ \<Rightarrow> [m @ ''-le-'' @ int_str q]))"

text \<open>The usage and the total of each metric.\<close>

type_synonym heat = "(rat \<times> rat) obj"

definition no_heat :: heat where
  "no_heat = map (\<lambda>m. (m, (0, 0))) [''cpu'', ''memory'', ''disk'']"

definition heat_metric :: "usage obj \<Rightarrow> string \<Rightarrow> string list \<times> heat \<Rightarrow> string list \<times> heat" where
  "heat_metric metricsForNode m s =
     (case oget metricsForNode m of
        None \<Rightarrow> s
      | Some st \<Rightarrow> (case (u_usage st, u_total st) of
            (Some u, Some t) \<Rightarrow>
              (fst s @ quantile_class m (usage_percent u t),
               oset m (case oget (snd s) m of Some (u0, t0) \<Rightarrow> (u0 + u, t0 + t) | None \<Rightarrow> (u, t)) (snd s))
          | _ \<Rightarrow> s))"

definition heat_classes :: "usage obj obj \<Rightarrow> resource \<Rightarrow> heat \<Rightarrow> (string list \<times> heat) option" where
  "heat_classes nodeMetrics x heat1 =
     (if r_isFiltered x then Some ([''filtered''], heat1)
      else do {
        name \<leftarrow> row_name x;
        Some (case oget nodeMetrics name of
                None \<Rightarrow> ([''error''], heat1)
              | Some m \<Rightarrow> fold (heat_metric m) (okeys heat1)
                            ((if strict_eq (r_statusSummary x) (JStr ''ok'') then [] else [''error'']), heat1))
      })"

text \<open>A zone that is no text has no \<^verbatim>\<open>substr\<close>.\<close>

definition node_zone :: "resource \<Rightarrow> string option" where
  "node_zone x = do {
     labels \<leftarrow> metadata_of x ''labels'';
     inZone \<leftarrow> (if truthy labels then jhas zoneLabel labels else Some False);
     if inZone then do { z \<leftarrow> jget labels zoneLabel; (case z of JStr s \<Rightarrow> Some s | _ \<Rightarrow> None) }
     else Some []
   }"

definition heat_item :: "heap \<Rightarrow> usage obj obj \<Rightarrow> ref \<Rightarrow> chart_item list \<times> heat \<Rightarrow> (chart_item list \<times> heat) option" where
  "heat_item h nodeMetrics r s = do {
     x \<leftarrow> h r;
     zone \<leftarrow> node_zone x;
     name \<leftarrow> hostname_of x;
     (classes, heat1) \<leftarrow> heat_classes nodeMetrics x (snd s);
     Some (fst s @ [\<lparr>ci_group = zone, ci_label = drop (length zone - 2) zone, ci_classes = classes\<rparr>], heat1)
   }"

definition node_items :: "heap \<Rightarrow> usage obj obj option \<Rightarrow> ref list \<Rightarrow> (chart_item list \<times> heat) option" where
  "node_items h nodeMetrics nodes =
     (case nodeMetrics of None \<Rightarrow> Some ([], no_heat) | Some nm \<Rightarrow> foldM (heat_item h nm) nodes ([], no_heat))"

definition handleSelectNodes :: "heap \<Rightarrow> ref list \<Rightarrow> nat list \<Rightarrow> string list option" where
  "handleSelectNodes h nodes selection =
     foldM (\<lambda>i filterNames. do {
         r \<leftarrow> (if i < length nodes then Some (nodes ! i) else None);
         x \<leftarrow> h r;
         host \<leftarrow> hostname_of x;
         Some (filterNames @ [''hostname:'' @ to_str host])
       }) selection []"

section \<open>Which problems are listed\<close>




















text \<open>A status without conditions makes the panel throw, unless there is a warning.\<close>

definition statusless_pod :: resource where
  "statusless_pod = fresh_resource (JObj [(''kind'', JStr ''Pod''), (''metadata'', JObj [(''namespace'', JStr ''ns'')]),
     (''status'', JObj [(''phase'', JStr ''Failed'')])])"

lemma no_conditions_throws:
  "collectProblems 1 [0 \<mapsto> statusless_pod] [(''Pod/ns/p'', 0)] [] [] = None"
  by code_simp

text \<open>The tabs: whatever arrives and is chosen, the open tab has problems as soon as there are any.\<close>

inductive panel_run :: "problems_panel \<Rightarrow> bool" where
  new: "panel_run (new_problems_panel problems)"
| props: "panel_run p \<Longrightarrow> panel_run (componentWillReceiveProps_problems problems p)"
| choose: "panel_run p \<Longrightarrow> panel_run (handleChangeTab tab p)"

lemma open_tab_has_problems:
  assumes "panel_run p" "tab_problems (pp_problems p) tab \<noteq> []"
  shows "tab_problems (pp_problems p) (pp_selectedTab p) \<noteq> []"
  using assms(1,2)
proof (induction arbitrary: tab rule: panel_run.induct)
  case (new problems)
  then show ?case by (cases tab) (simp_all add: new_problems_panel_def default_tab_def)
next
  case (props p problems)
  from props.prems show ?case
    by (cases tab) (auto simp: componentWillReceiveProps_problems_def default_tab_def)
next
  case (choose p tab1)
  then show ?case by (auto simp: handleChangeTab_def split: if_splits)
qed

section \<open>What the bars show\<close>

lemma bin_ends_eq:
  "increment > 0 \<Longrightarrow> bin_ends increment limit i
    = Some (map (\<lambda>k. i + of_nat k * increment) [0..<nat (\<lfloor>(limit - i) / increment\<rfloor> + 1)])"
proof (induction increment limit i rule: bin_ends.induct)
  case (1 increment limit i)
  show ?case
  proof (cases "i \<le> limit")
    case True
    let ?n = "nat (\<lfloor>(limit - (i + increment)) / increment\<rfloor> + 1)"
    have "(limit - (i + increment)) / increment = (limit - i) / increment - 1"
      using "1.prems" by (simp add: field_simps)
    then have "\<lfloor>(limit - (i + increment)) / increment\<rfloor> = \<lfloor>(limit - i) / increment\<rfloor> - 1" by simp
    moreover have "\<lfloor>(limit - i) / increment\<rfloor> \<ge> 0" using True "1.prems" by simp
    ultimately have n: "nat (\<lfloor>(limit - i) / increment\<rfloor> + 1) = Suc ?n" by linarith
    have "map (\<lambda>k. i + of_nat k * increment) [0..<Suc ?n]
        = i # map (\<lambda>k. i + increment + of_nat k * increment) [0..<?n]"
      by (subst map_upt_Suc) (simp add: algebra_simps)
    with "1.IH" [OF True] "1.prems" True show ?thesis
      by (subst bin_ends.simps) (simp add: n del: upt_Suc)
  next
    case False
    then have "(limit - i) / increment < 0" using "1.prems" by (simp add: divide_neg_pos)
    then have "\<lfloor>(limit - i) / increment\<rfloor> < 0" by (simp only: floor_less_zero)
    then have "nat (\<lfloor>(limit - i) / increment\<rfloor> + 1) = 0" by linarith
    with False show ?thesis by (subst bin_ends.simps) simp
  qed
qed

text \<open>Ten bins, and one more for every time the maximum goes into one.\<close>

definition bin_count :: "rat \<Rightarrow> nat" where
  "bin_count max1 = nat (10 + \<lfloor>1 / max1\<rfloor>)"

lemma bins_of_chart:
  assumes "max1 > 0"
  shows "bin_ends (bar_increment max1) (max1 + 1 / 10) (0 + bar_increment max1)
    = Some (map (\<lambda>k. (of_nat k + 1) * bar_increment max1) [0..<bin_count max1])"
proof -
  have inc: "bar_increment max1 > 0" using assms by (simp add: bar_increment_def)
  have "(max1 + 1 / 10 - (0 + bar_increment max1)) / bar_increment max1 = 9 + 1 / max1"
    using assms by (simp add: bar_increment_def field_simps)
  then have "nat (\<lfloor>(max1 + 1 / 10 - (0 + bar_increment max1)) / bar_increment max1\<rfloor> + 1) = bin_count max1"
    by (simp add: bin_count_def)
  moreover have "0 + bar_increment max1 + of_nat k * bar_increment max1 = (of_nat k + 1) * bar_increment max1" for k :: nat
    by (simp add: algebra_simps)
  ultimately show ?thesis unfolding bin_ends_eq [OF inc] by simp
qed

lemma prefix_of_true:
  "map (\<lambda>k. k < m) [0..<n] = replicate (min n m) True @ replicate (n - m) False"
  by (rule nth_equalityI) (auto simp: nth_append)

text \<open>A bar is lit from the bottom, up to the tenth of the maximum that its value has reached.\<close>

lemma bars_are_lit:
  assumes "max1 > 0" "\<forall>d \<in> set items. bi_value d \<ge> 0"
  shows "renderChart items max1 = Some (map (\<lambda>d. (bi_name d,
      let lit = nat (\<lfloor>10 * bi_value d / max1\<rfloor> + 1)
      in replicate (min (bin_count max1) lit) True @ replicate (bin_count max1 - lit) False)) items)"
proof -
  have "bar_segments (bar_increment max1) (map (\<lambda>k. (of_nat k + 1) * bar_increment max1) [0..<bin_count max1]) v
      = map (\<lambda>k. k < nat (\<lfloor>10 * v / max1\<rfloor> + 1)) [0..<bin_count max1]" if "v \<ge> 0" for v
  proof -
    have "v \<ge> (of_nat k + 1) * bar_increment max1 - bar_increment max1 \<longleftrightarrow> k < nat (\<lfloor>10 * v / max1\<rfloor> + 1)" for k :: nat
    proof -
      have e: "(of_nat k + 1) * bar_increment max1 - bar_increment max1 = of_nat k * max1 / 10"
        by (simp add: bar_increment_def field_simps)
      have "of_nat k * max1 / 10 \<le> v \<longleftrightarrow> of_int (int k) \<le> 10 * v / max1"
        using assms(1) by (simp add: field_simps)
      also have "\<dots> \<longleftrightarrow> int k \<le> \<lfloor>10 * v / max1\<rfloor>" by (simp add: le_floor_iff)
      also have "\<dots> \<longleftrightarrow> k < nat (\<lfloor>10 * v / max1\<rfloor> + 1)" by linarith
      finally show ?thesis unfolding e .
    qed
    then show ?thesis by (simp add: bar_segments_def comp_def)
  qed
  with assms show ?thesis
    unfolding renderChart_def bins_of_chart [OF assms(1)] by (simp add: prefix_of_true Let_def)
qed

lemma small_maximum_many_bins: "bin_count (1 / 100) = 110"
  by (simp add: bin_count_def)

text \<open>The selected namespaces come before the others.\<close>

lemma by_selection_le:
  "by_selection sel a b \<le> 0 \<longleftrightarrow> (ohas (bi_name a) sel \<and> \<not> ohas (bi_name b) sel)
     \<or> (ohas (bi_name a) sel \<longleftrightarrow> ohas (bi_name b) sel) \<and> lex_cmp (bi_name a) (bi_name b) \<le> 0"
  by (simp add: by_selection_def Let_def)

interpretation selected_first: comparator "by_selection sel"
proof
  show "by_selection sel x y \<le> 0 \<or> by_selection sel y x \<le> 0" for x y
    using lex_cmp_swap [of "bi_name x" "bi_name y"] unfolding by_selection_le by linarith
  show "by_selection sel x z \<le> 0" if "by_selection sel x y \<le> 0" "by_selection sel y z \<le> 0" for x y z
    using that lex_cmp_trans [of "bi_name x" "bi_name y" "bi_name z"] unfolding by_selection_le by blast
qed

lemma selected_bars_first:
  "sorted_wrt (\<lambda>a b. ohas (bi_name b) sel \<longrightarrow> ohas (bi_name a) sel) (sorted_bars sel items)"
  unfolding sorted_bars_def
  by (rule sorted_wrt_mono_rel [OF _ selected_first.sorted_sort_by]) (auto simp: by_selection_le)

section \<open>What the figures show\<close>

text \<open>A change of units multiplies the percentage too.\<close>

lemma small_total_scales_percentage:
  "oget (ib_data (infoBox [(''usage'', 1 / 4), (''total'', 1 / 2)] ''cores'')) ''utilization'' = Some 50000"
  by code_simp

lemma unused_pie_shows: "pie_value True 0 10 = Text ''.00''"
  by code_simp

text \<open>A node that uses more than it has gets no colour.\<close>

lemma overused_has_no_class: "n > 100 \<Longrightarrow> quantile_class m (Some n) = []"
  by (simp add: quantile_class_def usageQuantiles_def)

lemma used_has_class:
  "n \<le> 100 \<Longrightarrow> \<exists>q \<in> set usageQuantiles. n \<le> q \<and> quantile_class m (Some n) = [m @ ''-le-'' @ int_str q]"
  by (auto simp: quantile_class_def usageQuantiles_def)

section \<open>A node is clicked\<close>

text \<open>The resources whose hostname label prints as the given name.\<close>

definition on_host :: "string \<Rightarrow> resource \<Rightarrow> bool" where
  "on_host host x \<longleftrightarrow> (\<exists>labels v. metadata_of x ''labels'' = Some labels \<and> truthy labels
     \<and> jget labels hostnameLabel = Some v \<and> to_str v = host)"

lemma hostname_filter_text:
  assumes "\<not> bang host"
  shows "addFilter [] [] [''hostname:'' @ host] = (([(''hostname'', [(host, True)])], [''hostname:'' @ host]), True)"
proof -
  have "splitFilter (''hostname'' @ CHR '':'' # host) = (''hostname'', host)"
    using assms by (subst splitFilter_colon) auto
  then show ?thesis by (simp add: addFilter_def addFilter1_def values_of_def normalizeFilter_def oset_def bang_Cons)
qed

lemma hostname_shown: "shown_by [(''hostname'', [(host, True)])] x \<longleftrightarrow> on_host host x"
proof -
  have "field_match ''hostname'' [(host, True)] x = label_in hostnameLabel [(host, True)] x"
    by (simp add: field_match_def)
  then show ?thesis
    by (auto simp: shown_by_def field_ok_def bang_Cons on_host_def label_in_def in_values_def ohas_def bind_eq_Some_conv
        split: if_splits)
qed

text \<open>C34: clicking the hexagon of a node, with no other selected, sets the filter to its hostname: of the
  resources that the global filters let through, and that have not been deleted, exactly those with that
  hostname label stay visible.\<close>

theorem clicked_node_is_shown:
  assumes "handleSelectNodes (st_heap s) nodes (handleSelectHex False i []) = Some names"
    and "i < length nodes" "st_heap s (nodes ! i) = Some n" "hostname_of n = Some v" "\<not> bang (to_str v)"
    and "doSetFilterNames names s = Some t" "no_self_filter (st_globalFilters s)"
    and "r \<in> orefs (st_resources s)" "st_heap s r = Some x"
  shows "\<exists>y. st_heap t r = Some y \<and> r_body y = r_body x
    \<and> (\<not> r_isFiltered y \<longleftrightarrow> \<not> r_isDeleted x \<and> shown_by (st_globalFilters s) x \<and> on_host (to_str v) x)"
proof -
  have names: "names = [''hostname:'' @ to_str v]"
    using assms(1-4) by (simp add: handleSelectNodes_def handleSelectHex_def)
  let ?s = "s\<lparr>st_filterNames := names, st_filters := [(''hostname'', [(to_str v, True)])]\<rparr>"
  have t: "doFilterAll ?s = Some t"
    using assms(6) hostname_filter_text [OF assms(5)] by (simp add: doSetFilterNames_def names)
  have "plain_filters ?s" using assms(7) by (simp add: plain_filters_def no_self_filter_def)
  from doFilterAll_result [OF t this] assms(8,9) have "st_heap t r = Some (refiltered ?s x)" by simp
  then show ?thesis by (auto simp: refiltered_def hostname_shown)
qed

definition host_node :: "string \<Rightarrow> json" where
  "host_node host = JObj [(''kind'', JStr ''Node''),
     (''metadata'', JObj [(''name'', JStr host), (''labels'', JObj [(hostnameLabel, JStr host)])])]"

definition two_nodes :: rstate where
  "two_nodes = demo_loaded\<lparr>st_heap := [0 \<mapsto> fresh_resource (host_node ''h0''), 1 \<mapsto> fresh_resource (host_node ''h1'')],
     st_resources := [(''Node/~/h0'', 0), (''Node/~/h1'', 1)], st_globalFilters := []\<rparr>"

theorem clicked_node_is_shown_witness:
  "\<exists>t y0 y1. doSetFilterNames [''hostname:h1''] two_nodes = Some t \<and> st_heap t 0 = Some y0 \<and> st_heap t 1 = Some y1
    \<and> r_isFiltered y0 \<and> \<not> r_isFiltered y1"
proof -
  have "\<not> Option.is_none (doSetFilterNames [''hostname:h1''] two_nodes)" by code_simp
  then obtain t where t: "doSetFilterNames [''hostname:h1''] two_nodes = Some t"
    by (cases "doSetFilterNames [''hostname:h1''] two_nodes") auto
  have heap: "st_heap two_nodes 0 = Some (fresh_resource (host_node ''h0''))"
    "st_heap two_nodes 1 = Some (fresh_resource (host_node ''h1''))" by (simp_all add: two_nodes_def)
  have names: "handleSelectNodes (st_heap two_nodes) [0, 1] (handleSelectHex False 1 []) = Some [''hostname:h1'']"
    by code_simp
  have host: "hostname_of (fresh_resource (host_node ''h1'')) = Some (JStr ''h1'')" by code_simp
  have rest: "no_self_filter (st_globalFilters two_nodes)" "0 \<in> orefs (st_resources two_nodes)" "1 \<in> orefs (st_resources two_nodes)"
    "\<not> bang (to_str (JStr ''h1''))"
    by (simp_all add: two_nodes_def no_self_filter_def bang_Cons)
  have "on_host ''h1'' (fresh_resource (host_node ''h1''))" "\<not> on_host ''h1'' (fresh_resource (host_node ''h0''))"
    by (simp_all add: on_host_def metadata_of_def rget_def fresh_resource_def host_node_def)
  note hosts = this
  have node: "(1 :: nat) < length [0 :: ref, 1]" "st_heap two_nodes ([0 :: ref, 1] ! 1) = Some (fresh_resource (host_node ''h1''))"
    using heap(2) by simp_all
  note shown = clicked_node_is_shown [OF names node host rest(4) _ rest(1)]
  have t': "doSetFilterNames [''hostname:h1''] two_nodes = Some t" using t by simp
  have live: "\<not> r_isDeleted (fresh_resource b)" for b by (simp add: fresh_resource_def)
  have all: "shown_by (st_globalFilters two_nodes) x" for x by (simp add: two_nodes_def shown_by_def)
  obtain y0 where y0: "st_heap t 0 = Some y0" "r_isFiltered y0"
    using shown [OF t' rest(2) heap(1)] hosts(2) by (elim exE conjE) (simp add: live all)
  obtain y1 where y1: "st_heap t 1 = Some y1" "\<not> r_isFiltered y1"
    using shown [OF t' rest(3) heap(2)] hosts(1) by (elim exE conjE) (simp add: live all)
  show ?thesis using t y0 y1 by (intro exI conjI)
qed

end
