(* ===== verification/Spec2Isabelle.thy ===== *)
theory Spec2Isabelle
  imports Prelude Collation Worklist JsValue Comparators Resource DateTime StatusSummary Filters
    ResourcesState KubeKinds RequestUtils ResourcesReducer ResourcesFrame ResourcesInvariant ResourcesReach
    Counter ResourcesLaws Demo ResourcesClaims Owners Events EventsClaims Requests SessionSlice Slices
    RateLimit Watchers LogFollower Links Access Base64 Units Summary Store Actions Fetches Runs ActionsClaims
    Columns Table YamlLines YamlIndex Completer Validator Pages
    NodesTab Tabs ClusterColumns Permissions Loads Editor PageColumns Panes InfoPages HexChart Terminal LogView Shell FilterBoxes Dashboard
begin

text \<open>
  A model of the browser client of kuill (\<^verbatim>\<open>src/pkg/ui/src\<close>), a dashboard for Kubernetes, and
  the theorems that make its parts correct.

  THE PROGRAM. The client keeps the objects of the cluster in a Redux store. Action creators fetch
  them from the server and keep them current with a web socket; reducers compute the next state of
  each slice of the store; the pages show what the slices hold. The core is the resources slice: a
  map of resource objects by key, linked to one another by ownership, with the indexes, counts and
  filters computed from them.

  THE PARTS, by theory; file names are relative to \<^verbatim>\<open>src/pkg/ui/src\<close>.

  Foundations. \<open>Prelude\<close> holds objects with ordered keys (\<open>obj\<close>: a list of pairs with the
  update order of JavaScript), loops that may throw (\<open>foldM\<close>) and strings. \<open>JsValue\<close>
  models values: \<open>json\<close> with \<open>undefined\<close>, property access that throws on
  \<open>undefined\<close> and null, truth, equality, conversion to numbers (\<^term>\<open>None\<close> is NaN) and
  strings. \<open>Collation\<close> models sorting, \<open>Worklist\<close> the traversals of ownership, with
  a locale that relates a worklist loop to reachability. A function returns \<^term>\<open>None\<close> exactly
  when the code throws, or when the given fuel does not suffice for a loop over owners.

  Modules. \<open>Comparators\<close> is comparators.js. \<open>Resource\<close>, \<open>StatusSummary\<close>,
  \<open>Owners\<close> are utils/resource-utils.js: keys and identity, transitive ownership, the summary
  of a status for each kind, the owners found by naming. \<open>DateTime\<close> is the parsing of
  timestamps they use. \<open>Filters\<close> is utils/filter-utils.js. \<open>RequestUtils\<close> is
  utils/request-utils.js with the text of JSON. \<open>KubeKinds\<close> is kube-kinds.js.
  \<open>Links\<close> is utils/LinkGenerator.js. \<open>Access\<close> is utils/AccessEvaluator.js.
  \<open>Units\<close> and \<open>Base64\<close> are converters.js. \<open>Summary\<close> is
  utils/summary-utils.js. \<open>Watchers\<close> are utils/MultiResourceWatcher.js and
  utils/ResourceKindWatcher.js, \<open>LogFollower\<close> is utils/LogFollower.js. \<open>Columns\<close> is
  utils/resource-column-utils.js and \<open>Table\<close> the sortable table that shows its cells,
  components/filter-table. \<open>YamlLines\<close> and \<open>YamlIndex\<close> are utils/yaml-utils.js,
  \<open>Completer\<close> is utils/ManifestAutocompleter.js and \<open>Validator\<close> utils/ManifestValidator.js: the
  support of the manifest editor.

  Pages. \<open>Pages\<close> is components/WorkloadsPage.js with its menu and dialogs: the state of the
  component, its handlers, what is on the screen, and the steps a user can take from there.
  \<open>Tabs\<close> are the tables of the access page and of the cluster page, with the columns of
  \<open>ClusterColumns\<close>; \<open>NodesTab\<close> is the table of nodes, whose pods are counted on what
  the resources slice has filed. \<open>Permissions\<close> is the list of rules behind a subject, a
  binding or a role. \<open>Editor\<close> is components/EditorPage.js and containers/NewResource.js: what the
  manifest editor keeps, when it applies, and the variables of a template. \<open>PageColumns\<close> holds the
  columns of the tables and proves that their cells fit the comparators; \<open>Panes\<close> are the related
  resources of an object and the pods of a node, components/configuration-pane. \<open>InfoPages\<close> is the page
  of one object and the containers that feed it: its tabs, and the followers of logs it keeps. \<open>HexChart\<close> is
  components/dashboard/HexagonChart.js: where hexagons lie, and the borders around their groups.
  \<open>Terminal\<close> and \<open>LogView\<close> are components/TerminalViewer.js and components/LogViewer.js with the wrapper of
  the emulator, components/xterm/XTerm.js: sockets, texts that wait for the emulator, and input.
  \<open>Shell\<close> holds the guard of the session (containers/Authenticated.js) and the header with its dialogs;
  \<open>Dashboard\<close> the panels of the overview and the charts of namespaces and nodes (components/dashboard);
  \<open>FilterBoxes\<close> the box of filters and the dialog of namespaces and kinds.

  Slices. \<open>ResourcesState\<close> and \<open>ResourcesReducer\<close> are state/reducers/resources.js:
  the state is a record with an explicit heap, since the reducer mutates resource objects that
  several maps share, and the objects of its initial state as well (the \<open>orig\<close> fields).
  \<open>Events\<close> is state/reducers/events.js. \<open>Requests\<close> are state/reducers/requests.js
  and state/actions/requests.js. \<open>Slices\<close> holds the others.

  Actions. \<open>Store\<close> combines the slices with the address bar and the effects that leave the
  program. \<open>Actions\<close> and \<open>Fetches\<close> are state/actions/resources.js, usersettings.js
  and location.js. An asynchronous action is cut at its awaits: the part before takes the store to a
  request, the part after takes the response and the store at that time. \<open>Loads\<close> are those of
  the smaller slices. \<open>Runs\<close> has one
  transition for each action and each part, so every interleaving of them is a run.

  THE INTERFACES, as locales: \<open>worklist\<close> traversals (\<open>Worklist\<close>), counters of
  occurrences (\<open>Counter\<close>: the counts by kind, by namespace and the dashboard's totals),
  slices that forget a session (\<open>SessionSlice\<close>), rate limits and bounded retries
  (\<open>RateLimit\<close>: the throttles and the reconnections). Each is interpreted on the model's
  definitions in the theory of the component, and the properties use the interpreted facts.

  THE THEOREMS. \<open>ResourcesInvariant\<close> and \<open>ResourcesReach\<close> prove, operation by
  operation, that no reference dangles, that objects are stored under their keys and that the parsed
  filters agree with their texts; \<open>ResourcesFrame\<close> says what the helpers leave unchanged;
  \<open>ResourcesLaws\<close> what filtering, counting, registering, selecting and removing compute.
  \<open>ResourcesClaims\<close> states the results for the slice. \<open>ActionsClaims\<close> lifts the
  invariants to every run of the program and states what the actions do with changes, refusals and
  deletions. \<open>EventsClaims\<close> bounds and sorts the recent events and characterises the
  selected ones. The other properties stand at the end of the theory of their component: one request
  of a name in flight, isolation of sessions, rate limits, bounded reconnections, the log buffer as
  the last lines pushed, links of objects and of keys, permissions, base64, units, totals, the cells
  of a table and its sorting.

  FUEL. Traversals of ownership take fuel; \<open>registerOwned\<close>, \<open>isResourceOwnedBy\<close>
  and the selection of pods and events loop for ever, or overflow the stack, on cyclic ownership, as
  the code does. The theorems about them say that on acyclic ownership some fuel suffices and every
  greater one gives the same result, and that on a cycle none does.

  BOUNDS. JavaScript numbers are \<^typ>\<open>int\<close> where the code counts, and \<^typ>\<open>rat\<close>
  where it divides; versions, replicas and times stay far below \<open>2 ^ 53\<close>. The
  conversions by powers of two are exact there too, those by a thousand round.

  PARAMETERS, standing for code of other packages: js-yaml (\<open>dump\<close>, \<open>load\<close>),
  query-string (\<open>parse\<close>, \<open>stringify\<close>), humanize-duration, the clock, the
  server's responses, and \<^verbatim>\<open>localeCompare\<close>, whose order on ASCII texts is
  taken to be that by code units.

  NOT MODELLED. Markup and styles, and the remaining React components (the detail panels of
  components/configuration-pane, the event viewer, the application frame): they render the
  slices and pass on user actions. The server in Go, the deployment files, tests and vendored packages are
  outside this development.
\<close>

end
